(* ===== verification/Prelude.thy ===== *)
theory Prelude
  imports Main "HOL-Library.AList"
begin

text \<open>
  Shared vocabulary of the development: the exceptions the program raises, the way a
  method that mutates an object and may raise is modelled, Python's dictionaries, and
  the string helpers of the standard library the code relies on.

  A method is a function from the state to a result and a new state. The result is
  \<open>Inr v\<close> when the method returns \<open>v\<close> and \<open>Inl e\<close> when it raises \<open>e\<close>.
  The new state is there in both cases: a mutation made before a raise stays.
  A dictionary is an association list; its order is the order in which Python happens to
  iterate, which the code never relies on. Strings are lists of characters.
\<close>

named_theorems py_simps \<open>unfolding rules of the method combinators\<close>

section \<open>Exceptions\<close>

datatype exn =
    KeyError string
  | AssertionError
  | AttributeError
  | TypeError
  | IndexError
  | ValueError string
  | RuntimeError string
  | NotImplementedError string
  | PublishError string
  | NotFound string string
  | BucketNotEmptyError string
  | ClusterUnavailable string
  | GrainsNotFound string
  | RadosLibError string
  | RadosError string
  | AdminSocketError string
  | Http404 string
  | ParseError string
  | PermissionDenied string
  | ServiceUnavailable string
  | APIException string
  | Exception string
  | SchemaError
  | ConfigError string
  | UnboundLocalError

text \<open>What \<open>"%s" % e\<close> prints for an exception value.\<close>

fun exn_str :: "exn \<Rightarrow> string" where
  "exn_str (KeyError k) = k"
| "exn_str AssertionError = ''''"
| "exn_str AttributeError = ''attribute error''"
| "exn_str TypeError = ''type error''"
| "exn_str IndexError = ''list index out of range''"
| "exn_str (ValueError m) = m"
| "exn_str (RuntimeError m) = m"
| "exn_str (NotImplementedError m) = m"
| "exn_str (PublishError m) = m"
| "exn_str (NotFound t i) = ''Object of type '' @ t @ '' with id '' @ i @ '' not found''"
| "exn_str (BucketNotEmptyError m) = m"
| "exn_str (ClusterUnavailable m) = m"
| "exn_str (GrainsNotFound m) = m"
| "exn_str (RadosLibError m) = m"
| "exn_str (RadosError m) = m"
| "exn_str (AdminSocketError m) = m"
| "exn_str (Http404 m) = m"
| "exn_str (ParseError m) = m"
| "exn_str (PermissionDenied m) = m"
| "exn_str (ServiceUnavailable m) = m"
| "exn_str (APIException m) = m"
| "exn_str (Exception m) = m"
| "exn_str SchemaError = ''validation failed''"
| "exn_str (ConfigError m) = m"
| "exn_str UnboundLocalError = ''local variable referenced before assignment''"

section \<open>Methods\<close>

type_synonym ('s, 'a) py = "'s \<Rightarrow> (exn + 'a) \<times> 's"

definition ret :: "'a \<Rightarrow> ('s, 'a) py" where
  [py_simps]: "ret a = (\<lambda>s. (Inr a, s))"

definition raise :: "exn \<Rightarrow> ('s, 'a) py" where
  [py_simps]: "raise e = (\<lambda>s. (Inl e, s))"

definition bnd :: "('s, 'a) py \<Rightarrow> ('a \<Rightarrow> ('s, 'b) py) \<Rightarrow> ('s, 'b) py" where
  [py_simps]: "bnd m f = (\<lambda>s. case m s of (Inl e, t) \<Rightarrow> (Inl e, t) | (Inr a, t) \<Rightarrow> f a t)"

definition get_state :: "('s, 's) py" where
  [py_simps]: "get_state = (\<lambda>s. (Inr s, s))"

definition gets :: "('s \<Rightarrow> 'a) \<Rightarrow> ('s, 'a) py" where
  [py_simps]: "gets f = (\<lambda>s. (Inr (f s), s))"

definition modify :: "('s \<Rightarrow> 's) \<Rightarrow> ('s, unit) py" where
  [py_simps]: "modify f = (\<lambda>s. (Inr (), f s))"

definition lift_exn :: "exn + 'a \<Rightarrow> ('s, 'a) py" where
  [py_simps]: "lift_exn r = (\<lambda>s. (r, s))"

definition assert_that :: "bool \<Rightarrow> ('s, unit) py" where
  [py_simps]: "assert_that b = (if b then ret () else raise AssertionError)"

definition guarded :: "bool \<Rightarrow> ('s, unit) py \<Rightarrow> ('s, unit) py" where
  [py_simps]: "guarded b m = (if b then m else ret ())"

definition try_except :: "('s, 'a) py \<Rightarrow> (exn \<Rightarrow> ('s, 'a) py) \<Rightarrow> ('s, 'a) py" where
  [py_simps]: "try_except m h = (\<lambda>s. case m s of (Inl e, t) \<Rightarrow> h e t | (Inr a, t) \<Rightarrow> (Inr a, t))"

fun for_each :: "('a \<Rightarrow> ('s, unit) py) \<Rightarrow> 'a list \<Rightarrow> ('s, unit) py" where
  "for_each f [] = ret ()"
| "for_each f (x # xs) = bnd (f x) (\<lambda>_. for_each f xs)"

text \<open>A method of a part of the state, as a method of the whole.\<close>

definition zoom :: "('s \<Rightarrow> 't) \<Rightarrow> ('t \<Rightarrow> 's \<Rightarrow> 's) \<Rightarrow> ('t, 'a) py \<Rightarrow> ('s, 'a) py" where
  "zoom part put m = (\<lambda>s. case m (part s) of (r, x) \<Rightarrow> (r, put x s))"

text \<open>\<open>raises m s\<close>: running \<open>m\<close> from \<open>s\<close> ends with an exception.\<close>

definition raises :: "('s, 'a) py \<Rightarrow> 's \<Rightarrow> bool" where
  "raises m s = (case fst (m s) of Inl _ \<Rightarrow> True | Inr _ \<Rightarrow> False)"

lemma bnd_ret [simp]: "bnd (ret a) f = f a"
  by (simp add: bnd_def ret_def)

lemma bnd_raise [simp]: "bnd (raise e) f = raise e"
  by (simp add: bnd_def raise_def)

lemma snd_zoom: "snd (zoom part put m s) = put (snd (m (part s))) s"
  by (simp add: zoom_def split: prod.splits)

lemma fst_zoom: "fst (zoom part put m s) = fst (m (part s))"
  by (simp add: zoom_def split: prod.splits)

lemma bnd_assoc: "bnd (bnd m f) g = bnd m (\<lambda>x. bnd (f x) g)"
  by (auto simp: bnd_def fun_eq_iff split: prod.splits sum.splits)

lemma for_each_append:
  "for_each f (xs @ ys) = bnd (for_each f xs) (\<lambda>_. for_each f ys)"
  by (induction xs) (simp_all add: bnd_assoc)

text \<open>A loop whose body cannot fail is a fold of the body's effect.\<close>

lemma for_each_fold:
  assumes "\<And>x w. x \<in> set xs \<Longrightarrow> I w \<Longrightarrow> f x w = (Inr (), g x w) \<and> I (g x w)" and "I w"
  shows "for_each f xs w = (Inr (), fold g xs w) \<and> I (fold g xs w)"
  using assms
proof (induction xs arbitrary: w)
  case Nil
  then show ?case by (simp add: ret_def)
next
  case (Cons x xs)
  then have "f x w = (Inr (), g x w)" "I (g x w)" by auto
  with Cons show ?case by (simp add: bnd_def)
qed

lemma for_each_cong:
  "(\<And>x. x \<in> set xs \<Longrightarrow> f x = g x) \<Longrightarrow> for_each f xs = for_each g xs"
  by (induction xs) (simp_all)

section \<open>A contract every operation of a component shares\<close>

text \<open>
  \<open>obeys R m\<close>: whatever \<open>m\<close> does, and whether it returns or raises, the state
  before and the state after are related by \<open>R\<close>. For a reflexive and transitive \<open>R\<close>
  this is closed under every combinator, so a component proves it per primitive step.
  An invariant \<open>I\<close> is the instance \<open>\<lambda>s t. I s \<longrightarrow> I t\<close>.
\<close>

definition obeys :: "('s \<Rightarrow> 's \<Rightarrow> bool) \<Rightarrow> ('s, 'a) py \<Rightarrow> bool" where
  "obeys R m \<longleftrightarrow> (\<forall>s. R s (snd (m s)))"

locale step_contract =
  fixes R :: "'s \<Rightarrow> 's \<Rightarrow> bool"
  assumes step_refl: "R s s"
    and step_trans: "R s t \<Longrightarrow> R t u \<Longrightarrow> R s u"
begin

lemma obeys_ret [intro]: "obeys R (ret a)"
  by (simp add: obeys_def ret_def step_refl)

lemma obeys_raise [intro]: "obeys R (raise e)"
  by (simp add: obeys_def raise_def step_refl)

lemma obeys_get [intro]: "obeys R get_state"
  by (simp add: obeys_def get_state_def step_refl)

lemma obeys_gets [intro]: "obeys R (gets f)"
  by (simp add: obeys_def gets_def step_refl)

lemma obeys_lift [intro]: "obeys R (lift_exn r)"
  by (simp add: obeys_def lift_exn_def step_refl)

lemma obeys_assert [intro]: "obeys R (assert_that b)"
  by (simp add: assert_that_def obeys_ret obeys_raise)

lemma obeys_modify: "(\<And>s. R s (f s)) \<Longrightarrow> obeys R (modify f)"
  by (simp add: obeys_def modify_def)

lemma obeys_bnd [intro]:
  assumes "obeys R m" and "\<And>a. obeys R (f a)"
  shows "obeys R (bnd m f)"
  unfolding obeys_def bnd_def
proof (intro allI)
  fix s
  obtain r t where ms: "m s = (r, t)" by fastforce
  with assms(1) have st: "R s t" by (metis obeys_def snd_conv)
  show "R s (snd (case m s of (Inl e, t) \<Rightarrow> (Inl e, t) | (Inr a, t) \<Rightarrow> f a t))"
  proof (cases r)
    case (Inl e)
    with ms st show ?thesis by simp
  next
    case (Inr a)
    from assms(2) have "R t (snd (f a t))" by (simp add: obeys_def)
    with st have "R s (snd (f a t))" by (rule step_trans)
    with Inr ms show ?thesis by simp
  qed
qed

lemma obeys_bnd_state:
  assumes "\<And>s. R s (snd (bnd (f s) g s))"
  shows "obeys R (bnd (bnd get_state f) g)"
  using assms by (simp add: obeys_def bnd_def get_state_def)

lemma obeys_get_bnd:
  assumes "\<And>s. R s (snd (f s s))"
  shows "obeys R (bnd get_state f)"
  using assms by (simp add: obeys_def bnd_def get_state_def)

lemma obeys_try [intro]:
  assumes "obeys R m" and "\<And>e. obeys R (h e)"
  shows "obeys R (try_except m h)"
  unfolding obeys_def try_except_def
proof (intro allI)
  fix s
  obtain r t where ms: "m s = (r, t)" by fastforce
  with assms(1) have st: "R s t" by (metis obeys_def snd_conv)
  show "R s (snd (case m s of (Inl e, t) \<Rightarrow> h e t | (Inr a, t) \<Rightarrow> (Inr a, t)))"
  proof (cases r)
    case (Inl e)
    from assms(2) have "R t (snd (h e t))" by (simp add: obeys_def)
    with st have "R s (snd (h e t))" by (rule step_trans)
    with Inl ms show ?thesis by simp
  next
    case (Inr a)
    with ms st show ?thesis by simp
  qed
qed

lemma obeys_guarded [intro]: "obeys R m \<Longrightarrow> obeys R (guarded b m)"
  by (simp add: guarded_def obeys_ret)

lemma obeys_if [intro]:
  "obeys R m \<Longrightarrow> obeys R n \<Longrightarrow> obeys R (if b then m else n)"
  by simp

lemma obeys_for_each [intro]:
  assumes "\<And>x. x \<in> set xs \<Longrightarrow> obeys R (f x)"
  shows "obeys R (for_each f xs)"
  using assms by (induction xs) auto

end

lemma obeys_zoom:
  assumes "obeys Q m" and "\<And>s x. Q (part s) x \<Longrightarrow> R s (put x s)"
  shows "obeys R (zoom part put m)"
  using assms by (simp add: obeys_def snd_zoom)

lemma obeysD: "obeys R m \<Longrightarrow> m s = (r, t) \<Longrightarrow> R s t"
  unfolding obeys_def by (metis snd_conv)

section \<open>Dictionaries\<close>

type_synonym ('k, 'v) dict = "('k \<times> 'v) list"

abbreviation keys :: "('k, 'v) dict \<Rightarrow> 'k list" where
  "keys d \<equiv> map fst d"

abbreviation vals :: "('k, 'v) dict \<Rightarrow> 'v list" where
  "vals d \<equiv> map snd d"

definition dict_of :: "('k \<times> 'v) list \<Rightarrow> ('k, 'v) dict" where
  \<comment> \<open>\<open>dict(pairs)\<close>: a later pair overwrites an earlier one with the same key\<close>
  "dict_of ps = fold (\<lambda>(k, v) d. AList.update k v d) ps []"

definition has_key :: "('k, 'v) dict \<Rightarrow> 'k \<Rightarrow> bool" where
  "has_key d k = (map_of d k \<noteq> None)"

definition get_default :: "('k, 'v) dict \<Rightarrow> 'k \<Rightarrow> 'v \<Rightarrow> 'v" where
  "get_default d k v = (case map_of d k of None \<Rightarrow> v | Some w \<Rightarrow> w)"

text \<open>\<open>d[k]\<close>; \<open>r\<close> is how the key prints.\<close>

definition item :: "('k, 'v) dict \<Rightarrow> 'k \<Rightarrow> string \<Rightarrow> exn + 'v" where
  "item d k r = (case map_of d k of None \<Rightarrow> Inl (KeyError r) | Some v \<Rightarrow> Inr v)"

lemma map_of_update [simp]: "map_of (AList.update k v d) = (map_of d)(k \<mapsto> v)"
  by (simp add: AList.update_conv')

lemma map_of_delete [simp]: "map_of (AList.delete k d) = (map_of d)(k := None)"
  by (simp add: AList.delete_conv')

lemma has_key_iff: "has_key d k \<longleftrightarrow> k \<in> fst ` set d"
  by (simp add: has_key_def map_of_eq_None_iff)

lemma has_key_update [simp]: "has_key (AList.update k v d) j \<longleftrightarrow> j = k \<or> has_key d j"
  by (auto simp: has_key_def)

lemma has_key_delete [simp]: "has_key (AList.delete k d) j \<longleftrightarrow> j \<noteq> k \<and> has_key d j"
  by (auto simp: has_key_def)

lemma distinct_keys_update [simp]:
  "distinct (keys d) \<Longrightarrow> distinct (keys (AList.update k v d))"
  by (rule distinct_update)

lemma distinct_keys_delete [simp]:
  "distinct (keys d) \<Longrightarrow> distinct (keys (AList.delete k d))"
  by (simp add: distinct_delete)

lemma keys_map_snd [simp]: "keys (map (\<lambda>(k, v). (k, f k v)) d) = keys d"
  by (induction d) auto

lemma map_of_fold_update:
  "map_of (fold (\<lambda>(k, v) d. AList.update k v d) ps d) = map_of d ++ map_of (rev ps)"
  by (induction ps arbitrary: d) (auto simp: map_add_def fun_eq_iff split: option.splits)

lemma map_of_dict_of [simp]: "map_of (dict_of ps) = map_of (rev ps)"
  by (simp add: dict_of_def map_of_fold_update)

lemma distinct_fold_update:
  "distinct (keys d) \<Longrightarrow> distinct (keys (fold (\<lambda>(k, v) d. AList.update k v d) ps d))"
  by (induction ps arbitrary: d) auto

lemma distinct_dict_of [simp]: "distinct (keys (dict_of ps))"
  by (simp add: dict_of_def distinct_fold_update)

lemma keys_dict_of [simp]: "fst ` set (dict_of ps) = fst ` set ps"
proof -
  have "has_key (dict_of ps) k \<longleftrightarrow> k \<in> fst ` set ps" for k
    by (simp add: has_key_def map_of_eq_None_iff)
  then show ?thesis
    by (auto simp: has_key_iff)
qed

lemma item_Inr [simp]: "item d k r = Inr v \<longleftrightarrow> map_of d k = Some v"
  by (auto simp: item_def split: option.splits)

lemma item_eval [simp]:
  "map_of d k = Some v \<Longrightarrow> item d k r = Inr v"
  "map_of d k = None \<Longrightarrow> item d k r = Inl (KeyError r)"
  by (simp_all add: item_def)

lemma item_Inl: "item d k r = Inl e \<longleftrightarrow> map_of d k = None \<and> e = KeyError r"
  by (auto simp: item_def split: option.splits)

lemma sum_list_vals_update:
  fixes d :: "('k, int) dict"
  assumes "distinct (keys d)"
  shows "sum_list (vals (AList.update k v d)) = sum_list (vals d) + v - get_default d k 0"
  using assms
  by (induction d) (auto simp: get_default_def map_of_eq_None_iff rev_image_eqI
      split: option.splits)

section \<open>Strings\<close>

definition join :: "string \<Rightarrow> string list \<Rightarrow> string" where
  "join sep xs = (case xs of [] \<Rightarrow> [] | y # ys \<Rightarrow> y @ concat (map (\<lambda>z. sep @ z) ys))"

text \<open>\<open>s.split(c)\<close> for a one-character separator.\<close>

fun split_on :: "char \<Rightarrow> string \<Rightarrow> string list" where
  "split_on c [] = [[]]"
| "split_on c (x # xs) =
     (if x = c then [] # split_on c xs
      else (case split_on c xs of [] \<Rightarrow> [[x]] | w # ws \<Rightarrow> (x # w) # ws))"

definition startswith :: "string \<Rightarrow> string \<Rightarrow> bool" where
  "startswith s p = (take (length p) s = p)"

text \<open>\<open>s.replace(old, new)\<close>, for a non-empty \<open>old\<close>: left to right, no overlap.\<close>

fun replace_skip :: "nat \<Rightarrow> string \<Rightarrow> string \<Rightarrow> string \<Rightarrow> string" where
  "replace_skip n old new [] = []"
| "replace_skip (Suc n) old new (x # xs) = replace_skip n old new xs"
| "replace_skip 0 old new (x # xs) =
     (if startswith (x # xs) old then new @ replace_skip (length old - 1) old new xs
      else x # replace_skip 0 old new xs)"

definition replace :: "string \<Rightarrow> string \<Rightarrow> string \<Rightarrow> string" where
  "replace s old new = replace_skip 0 old new s"

lemma split_on_nonempty [simp]: "split_on c s \<noteq> []"
  by (induction s) (auto split: list.splits)

lemma join_split_on: "join [c] (split_on c s) = s"
proof (induction s)
  case Nil
  then show ?case by (simp add: join_def)
next
  case (Cons x xs)
  obtain w ws where ws: "split_on c xs = w # ws"
    by (cases "split_on c xs") auto
  with Cons show ?case by (auto simp: join_def)
qed

lemma split_on_no_sep: "c \<notin> set s \<Longrightarrow> split_on c s = [s]"
  by (induction s) auto

lemma split_on_append: "c \<notin> set s \<Longrightarrow> split_on c (s @ c # t) = s # split_on c t"
  by (induction s) auto

lemma split_on_no_sep_parts: "w \<in> set (split_on c s) \<Longrightarrow> c \<notin> set w"
  by (induction s arbitrary: w) (auto split: if_splits list.splits)

section \<open>Printing and reading integers\<close>

definition digit :: "nat \<Rightarrow> char" where
  "digit d = ''0123456789'' ! d"

fun str_nat :: "nat \<Rightarrow> string" where
  "str_nat n = (if n < 10 then [digit n] else str_nat (n div 10) @ [digit (n mod 10)])"

declare str_nat.simps [simp del]

definition str_int :: "int \<Rightarrow> string" where
  "str_int i = (if i < 0 then ''-'' @ str_nat (nat (- i)) else str_nat (nat i))"

definition digit_val :: "char \<Rightarrow> nat option" where
  "digit_val c = map_of (zip ''0123456789'' [0..<10]) c"

fun read_digits :: "nat \<Rightarrow> string \<Rightarrow> nat option" where
  "read_digits acc [] = Some acc"
| "read_digits acc (c # cs) =
     (case digit_val c of None \<Rightarrow> None | Some d \<Rightarrow> read_digits (10 * acc + d) cs)"

text \<open>\<open>int(s)\<close> on a decimal literal; \<open>None\<close> is the ValueError.\<close>

definition read_int :: "string \<Rightarrow> int option" where
  "read_int s = (case s of
       [] \<Rightarrow> None
     | c # cs \<Rightarrow>
         (if c = CHR ''-'' then (if cs = [] then None else map_option (\<lambda>n. - int n) (read_digits 0 cs))
          else map_option int (read_digits 0 s)))"

lemma less_10_cases: "d < (10::nat) \<Longrightarrow> d \<in> {0, 1, 2, 3, 4, 5, 6, 7, 8, 9}"
  by auto

lemma digit_val_digit [simp]: "d < 10 \<Longrightarrow> digit_val (digit d) = Some d"
  by (drule less_10_cases) (auto simp: digit_val_def digit_def upt_rec numeral_eq_Suc)

lemma digit_not_minus [simp]: "d < 10 \<Longrightarrow> digit d \<noteq> CHR ''-''"
  by (drule less_10_cases) (auto simp: digit_def numeral_eq_Suc)

lemma digit_not_dot: "d < 10 \<Longrightarrow> digit d \<noteq> CHR ''.''"
  by (drule less_10_cases) (auto simp: digit_def numeral_eq_Suc)

lemma read_digits_append:
  "read_digits acc (xs @ ys) =
     (case read_digits acc xs of None \<Rightarrow> None | Some a \<Rightarrow> read_digits a ys)"
  by (induction xs arbitrary: acc) (auto split: option.splits)

lemma read_str_nat: "read_digits 0 (str_nat n) = Some n"
proof (induction n rule: str_nat.induct)
  case (1 n)
  then show ?case
    by (subst str_nat.simps) (auto simp: read_digits_append)
qed

lemma str_nat_nonempty [simp]: "str_nat n \<noteq> []"
  by (subst str_nat.simps) simp

lemma set_str_nat: "set (str_nat n) \<subseteq> digit ` {d. d < 10}"
proof (induction n rule: str_nat.induct)
  case (1 n)
  then show ?case by (subst str_nat.simps) auto
qed

lemma hd_str_nat: "hd (str_nat n) \<noteq> CHR ''-''"
proof -
  have "hd (str_nat n) \<in> digit ` {d. d < 10}"
    using set_str_nat hd_in_set str_nat_nonempty by blast
  then obtain d where "d < 10" and "hd (str_nat n) = digit d" by auto
  then show ?thesis by simp
qed

theorem read_str_int [simp]: "read_int (str_int i) = Some i"
proof (cases "i < 0")
  case True
  then show ?thesis by (simp add: str_int_def read_int_def read_str_nat)
next
  case False
  then show ?thesis
    using hd_str_nat [of "nat i"] read_str_nat [of "nat i"]
    by (cases "str_nat (nat i)") (auto simp: str_int_def read_int_def)
qed

lemma str_int_inject [simp]: "str_int i = str_int j \<longleftrightarrow> i = j"
  by (metis option.inject read_str_int)

lemma dot_notin_str_int [simp]: "CHR ''.'' \<notin> set (str_int i)"
proof -
  have "CHR ''.'' \<notin> set (str_nat n)" for n
    using set_str_nat [of n] digit_not_dot by (metis (no_types, lifting) imageE mem_Collect_eq subsetD)
  then show ?thesis by (simp add: str_int_def)
qed

section \<open>Time\<close>

text \<open>
  Clock values and durations are integers in microseconds, the resolution of
  \<open>datetime\<close>. A handler that stamps several fields reads the clock once.
\<close>

type_synonym time = int

definition seconds :: "int \<Rightarrow> time" where
  "seconds n = n * 1000000"

text \<open>The calendar date of a day counted from 1 January 1970: year, month and day.\<close>

definition civil_date :: "int \<Rightarrow> int \<times> int \<times> int" where
  "civil_date days =
     (let z = days + 719468; era = z div 146097; doe = z mod 146097;
          yoe = (doe - doe div 1460 + doe div 36524 - doe div 146096) div 365;
          doy = doe - (365 * yoe + yoe div 4 - yoe div 100);
          mp = (5 * doy + 2) div 153;
          m = (if mp < 10 then mp + 3 else mp - 9)
      in (yoe + era * 400 + (if m \<le> 2 then 1 else 0), m, doy - (153 * mp + 2) div 5 + 1))"

definition pad :: "nat \<Rightarrow> int \<Rightarrow> string" where
  "pad n i = (let s = str_int i in replicate (n - length s) (CHR ''0'') @ s)"

text \<open>\<open>str(t)\<close> and \<open>t.isoformat()\<close> of a UTC datetime differ in the separator.\<close>

definition datetime_str :: "string \<Rightarrow> time \<Rightarrow> string" where
  "datetime_str sep t =
     (let us = t mod 1000000; secs = t div 1000000; (y, m, d) = civil_date (secs div 86400);
          sod = secs mod 86400
      in pad 4 y @ ''-'' @ pad 2 m @ ''-'' @ pad 2 d @ sep
         @ pad 2 (sod div 3600) @ '':'' @ pad 2 (sod div 60 mod 60) @ '':'' @ pad 2 (sod mod 60)
         @ (if us = 0 then [] else ''.'' @ pad 6 us) @ ''+00:00'')"

definition str_time :: "time \<Rightarrow> string" where
  "str_time = datetime_str '' ''"

definition isoformat :: "time \<Rightarrow> string" where
  "isoformat = datetime_str ''T''"

end
