(* ===== verification/Types.thy ===== *)
theory Types
  imports Prelude Complex_Main "HOL-Library.Char_ord" "HOL-Library.List_Lexorder"
begin

text \<open>
  The objects Calamari copies from a Ceph cluster (calamari_common/types.py): their
  versions and how two versions compare, the OSD map with its CRUSH tree, and what the
  OsdMap class derives from it. JSON objects are records of the fields the program
  reads; a key that may be absent is an optional field.
\<close>

section \<open>Sync object types and versions\<close>

datatype sync_type = MdsMap | OsdMap | MonMap | MonStatus | PgSummary | Health | Config

definition SYNC_OBJECT_TYPES :: "sync_type list" where
  "SYNC_OBJECT_TYPES = [MdsMap, OsdMap, MonMap, MonStatus, PgSummary, Health, Config]"

fun sync_str :: "sync_type \<Rightarrow> string" where
  "sync_str MdsMap = ''mds_map''"
| "sync_str OsdMap = ''osd_map''"
| "sync_str MonMap = ''mon_map''"
| "sync_str MonStatus = ''mon_status''"
| "sync_str PgSummary = ''pg_summary''"
| "sync_str Health = ''health''"
| "sync_str Config = ''config''"

definition SYNC_OBJECT_STR_TYPE :: "(string, sync_type) dict" where
  "SYNC_OBJECT_STR_TYPE = dict_of (map (\<lambda>t. (sync_str t, t)) SYNC_OBJECT_TYPES)"

fun versioned :: "sync_type \<Rightarrow> bool" where
  "versioned PgSummary = False"
| "versioned Health = False"
| "versioned Config = False"
| "versioned _ = True"

text \<open>
  A version is missing, an epoch or a digest. Python 2 orders any two of them: \<open>None\<close>
  is below every number and a number is below every string.
\<close>

datatype version = VNone | VInt int | VStr string

instantiation version :: linorder
begin

fun less_eq_version :: "version \<Rightarrow> version \<Rightarrow> bool" where
  "less_eq_version VNone _ = True"
| "less_eq_version (VInt _) VNone = False"
| "less_eq_version (VInt i) (VInt j) = (i \<le> j)"
| "less_eq_version (VInt _) (VStr _) = True"
| "less_eq_version (VStr s) (VStr t) = (s \<le> t)"
| "less_eq_version (VStr _) _ = False"

definition less_version :: "version \<Rightarrow> version \<Rightarrow> bool" where
  "less_version a b = (a \<le> b \<and> \<not> b \<le> (a :: version))"

instance
proof
  fix a b c :: version
  show "(a < b) = (a \<le> b \<and> \<not> b \<le> a)" by (simp add: less_version_def)
  show "a \<le> a" by (cases a) auto
  show "a \<le> b \<Longrightarrow> b \<le> c \<Longrightarrow> a \<le> c" by (cases a; cases b; cases c) auto
  show "a \<le> b \<Longrightarrow> b \<le> a \<Longrightarrow> a = b" by (cases a; cases b) auto
  show "a \<le> b \<or> b \<le> a" by (cases a; cases b) auto
qed

end

lemma VNone_least [simp]: "VNone \<le> v" "\<not> v < VNone"
  by (cases v; simp add: less_version_def)+

lemma VInt_less [simp]: "VInt i < VInt j \<longleftrightarrow> i < j" "VNone < VInt i"
  by (auto simp: less_version_def)

text \<open>
  \<open>SyncObject.cmp\<close> and its override in VersionedSyncObject. A digest only tells
  equal from different.
\<close>

definition sync_cmp :: "sync_type \<Rightarrow> version \<Rightarrow> version \<Rightarrow> int" where
  "sync_cmp t a b =
     (if versioned t then (if a < b then - 1 else if a = b then 0 else 1)
      else (if a \<noteq> b then 1 else 0))"

lemma sync_cmp_versioned_pos:
  "versioned t \<Longrightarrow> 0 < sync_cmp t a b \<longleftrightarrow> b < a"
  by (auto simp: sync_cmp_def)

lemma sync_cmp_digest_pos:
  "\<not> versioned t \<Longrightarrow> 0 < sync_cmp t a b \<longleftrightarrow> a \<noteq> b"
  by (auto simp: sync_cmp_def)

lemma sync_cmp_self [simp]: "sync_cmp t a a = 0"
  by (simp add: sync_cmp_def)

lemma sync_cmp_not_pos_trans:
  "versioned t \<Longrightarrow> sync_cmp t a b \<le> 0 \<Longrightarrow> sync_cmp t b c \<le> 0 \<Longrightarrow> sync_cmp t a c \<le> 0"
  by (auto simp: sync_cmp_def split: if_splits)

section \<open>Cluster maps\<close>

record osd_entry =
  osd :: int
  osd_up :: int
  osd_in :: int
  public_addr :: string
  cluster_addr :: string

record pool =
  pool_id :: int
  pool_name :: string
  pg_num :: int
  pg_placement_num :: int
  pool_flags :: int
  pool_size :: int
  pool_min_size :: int
  crush_ruleset :: int

record tree_node =
  node_id :: int
  node_name :: string
  node_type :: string
  node_children :: "int list option"
  node_reweight :: "rat option"

record crush_item =
  item_id :: int
  item_weight :: rat
  item_pos :: "int option"

record crush_bucket =
  bucket_id :: int
  bucket_name :: string
  bucket_type :: string
  bucket_weight :: rat
  bucket_items :: "crush_item list"

record crush_step =
  step_op :: string
  step_item :: "int option"
  step_type :: "string option"

record crush_rule =
  rule_id :: int
  ruleset :: int
  rule_min_size :: int
  rule_max_size :: int
  rule_steps :: "crush_step list"

record crush_type =
  type_id :: int
  type_name :: string

record osd_map_data =
  om_fsid :: string
  om_epoch :: int
  om_osds :: "osd_entry list"
  om_pools :: "pool list"
  om_tree :: "tree_node list"
  om_buckets :: "crush_bucket list"
  om_rules :: "crush_rule list"
  om_types :: "crush_type list"
  om_metadata :: "(int \<times> (string, string) dict) list"
  om_flags :: "string option"

record mon_entry =
  mon_rank :: int
  mon_name :: string
  mon_addr :: string

record mon_map_data =
  mm_fsid :: string
  mm_mons :: "mon_entry list"

record mon_status_data =
  ms_mons :: "mon_entry list"
  ms_quorum :: "int list"
  ms_election_epoch :: int
  ms_rank :: int

type_synonym counts = "(string, int) dict"

record pg_summary_data =
  by_osd :: "(int, counts) dict"
  by_pool :: "(int, counts) dict"
  all_pgs :: counts

text \<open>The names of the MDS daemons in the map's \<open>info\<close> section.\<close>

type_synonym mds_map_data = "string list"

datatype sync_data =
    DMds mds_map_data
  | DOsd osd_map_data
  | DMon mon_map_data
  | DMonStatus mon_status_data
  | DPg pg_summary_data
  | DHealth string
  | DConfig "(string, string) dict"

record sync_object =
  so_version :: version
  so_data :: "sync_data option"

section \<open>Building an OsdMap\<close>

text \<open>
  The constructor converts CRUSH weights from 16.16 fixed point. It writes the result
  back into the JSON object it was given, so that object holds the scaled weights
  afterwards. The division is exact in binary floating point and exact here.
\<close>

definition filter_crush_node :: "crush_bucket \<Rightarrow> crush_bucket" where
  "filter_crush_node n =
     n\<lparr>bucket_items := map (\<lambda>i. i\<lparr>item_weight := item_weight i / 65536\<rparr>) (bucket_items n),
       bucket_weight := bucket_weight n / 65536\<rparr>"

definition filter_crush_nodes ::
  "crush_bucket list \<Rightarrow> (int, crush_bucket) dict \<times> crush_bucket list" where
  "filter_crush_nodes ns =
     (let ns' = map filter_crush_node ns in (dict_of (map (\<lambda>n. (bucket_id n, n)) ns'), ns'))"

definition init_osd_map :: "osd_map_data \<Rightarrow> osd_map_data" where
  "init_osd_map d = d\<lparr>om_buckets := snd (filter_crush_nodes (om_buckets d))\<rparr>"

definition mk_sync_object :: "version \<Rightarrow> sync_data option \<Rightarrow> sync_object" where
  "mk_sync_object v d =
     \<lparr>so_version = v,
      so_data = map_option (\<lambda>x. case x of DOsd m \<Rightarrow> DOsd (init_osd_map m) | _ \<Rightarrow> x) d\<rparr>"

definition osds_by_id :: "osd_map_data option \<Rightarrow> (int, osd_entry) dict" where
  "osds_by_id m = (case m of None \<Rightarrow> [] | Some d \<Rightarrow> dict_of (map (\<lambda>o'. (osd o', o')) (om_osds d)))"

definition pools_by_id :: "osd_map_data option \<Rightarrow> (int, pool) dict" where
  "pools_by_id m = (case m of None \<Rightarrow> [] | Some d \<Rightarrow> dict_of (map (\<lambda>p. (pool_id p, p)) (om_pools d)))"

definition osd_tree_node_by_id :: "osd_map_data option \<Rightarrow> (int, tree_node) dict" where
  "osd_tree_node_by_id m = (case m of None \<Rightarrow> [] | Some d \<Rightarrow>
     dict_of (map (\<lambda>n. (node_id n, n)) (filter (\<lambda>n. node_id n \<ge> 0) (om_tree d))))"

definition crush_node_by_id :: "osd_map_data option \<Rightarrow> (int, crush_bucket) dict" where
  "crush_node_by_id m = (case m of None \<Rightarrow> [] | Some d \<Rightarrow>
     dict_of (map (\<lambda>n. (bucket_id n, n)) (om_buckets d)))"

definition metadata_by_id :: "osd_map_data option \<Rightarrow> (int, (string, string) dict) dict" where
  "metadata_by_id m = (case m of None \<Rightarrow> [] | Some d \<Rightarrow> dict_of (om_metadata d))"

definition OSD_FLAGS :: "string list" where
  "OSD_FLAGS = [''pause'', ''noup'', ''nodown'', ''noout'', ''noin'', ''nobackfill'',
     ''norecover'', ''noscrub'', ''nodeep-scrub'']"

definition OSD_IMPLEMENTED_COMMANDS :: "string list" where
  "OSD_IMPLEMENTED_COMMANDS = [''scrub'', ''deep_scrub'', ''repair'']"

definition tokenized_flags :: "osd_map_data \<Rightarrow> string list" where
  "tokenized_flags d =
     split_on (CHR '','')
       (replace (case om_flags d of None \<Rightarrow> [] | Some f \<Rightarrow> f) ''pauserd,pausewr'' ''pause'')"

definition osd_map_flags :: "osd_map_data option \<Rightarrow> (string, bool) dict" where
  "osd_map_flags m = (case m of
       None \<Rightarrow> map (\<lambda>x. (x, False)) OSD_FLAGS
     | Some d \<Rightarrow> map (\<lambda>x. (x, x \<in> set (tokenized_flags d))) OSD_FLAGS)"

definition get_tree_node :: "osd_map_data option \<Rightarrow> int \<Rightarrow> exn + crush_bucket" where
  "get_tree_node m i = (case map_of (crush_node_by_id m) i of
       Some n \<Rightarrow> Inr n
     | None \<Rightarrow> Inl (NotFound ''crush_node'' (str_int i)))"

lemma keys_osd_map_flags [simp]: "keys (osd_map_flags m) = OSD_FLAGS"
  by (cases m) (simp_all add: osd_map_flags_def comp_def)

lemma crush_node_by_id_init:
  "crush_node_by_id (Some (init_osd_map d)) = fst (filter_crush_nodes (om_buckets d))"
  by (simp add: crush_node_by_id_def init_osd_map_def filter_crush_nodes_def Let_def)

section \<open>Parents of CRUSH nodes\<close>

text \<open>
  The loop over the nodes and their children, with the set of pairs already mapped.
\<close>

definition children_of :: "tree_node \<Rightarrow> int list" where
  "children_of n = (case node_children n of None \<Rightarrow> [] | Some cs \<Rightarrow> cs)"

fun map_children ::
  "tree_node \<Rightarrow> int list \<Rightarrow> (int, tree_node list) dict \<times> (int \<times> int) list
     \<Rightarrow> (int, tree_node list) dict \<times> (int \<times> int) list" where
  "map_children n [] st = st"
| "map_children n (c # cs) (pm, seen) =
     (if (c, node_id n) \<notin> set seen
      then map_children n cs (AList.update c (get_default pm c [] @ [n]) pm, (c, node_id n) # seen)
      else map_children n cs (pm, seen))"

fun map_parents ::
  "tree_node list \<Rightarrow> (int, tree_node list) dict \<times> (int \<times> int) list
     \<Rightarrow> (int, tree_node list) dict \<times> (int \<times> int) list" where
  "map_parents [] st = st"
| "map_parents (n # ns) st = map_parents ns (map_children n (children_of n) st)"

definition parent_bucket_by_node_id :: "osd_map_data option \<Rightarrow> (int, tree_node list) dict" where
  "parent_bucket_by_node_id m = (case m of
       None \<Rightarrow> []
     | Some d \<Rightarrow> fst (map_parents (om_tree d) ([], [])))"

definition crush_type_by_id :: "osd_map_data option \<Rightarrow> exn + (int, crush_type) dict" where
  "crush_type_by_id m = (case m of
       None \<Rightarrow> Inl TypeError
     | Some d \<Rightarrow> Inr (dict_of (map (\<lambda>n. (type_id n, n)) (om_types d))))"

definition get_tree_nodes_by_id :: "osd_map_data \<Rightarrow> (int, tree_node) dict" where
  "get_tree_nodes_by_id d = dict_of (map (\<lambda>n. (node_id n, n)) (om_tree d))"

section \<open>OSDs a CRUSH rule selects\<close>

text \<open>
  The recursive helpers walk the tree, which the cluster supplies; on a cyclic one the
  interpreter stops them at its recursion limit with a RuntimeError. The first argument
  is the number of nested calls left.
\<close>

definition recursion_error :: exn where
  "recursion_error = RuntimeError ''maximum recursion depth exceeded''"

definition set_union :: "int list \<Rightarrow> int list \<Rightarrow> int list" where
  "set_union xs ys = fold List.insert ys xs"

fun gather_leaf_ids :: "nat \<Rightarrow> (int, tree_node) dict \<Rightarrow> tree_node \<Rightarrow> exn + int list"
and gather_leaf_loop :: "nat \<Rightarrow> (int, tree_node) dict \<Rightarrow> int list \<Rightarrow> int list \<Rightarrow> exn + int list"
where
  "gather_leaf_ids 0 nodes n = Inl recursion_error"
| "gather_leaf_ids (Suc k) nodes n =
     (if node_id n \<ge> 0 then Inr [node_id n]
      else (case node_children n of
              None \<Rightarrow> Inl (KeyError ''children'')
            | Some cs \<Rightarrow> gather_leaf_loop k nodes cs []))"
| "gather_leaf_loop k nodes [] acc = Inr acc"
| "gather_leaf_loop k nodes (c # cs) acc =
     (if c \<ge> 0 then gather_leaf_loop k nodes cs (List.insert c acc)
      else (case item nodes c (str_int c) of
              Inl e \<Rightarrow> Inl e
            | Inr child \<Rightarrow>
                (case gather_leaf_ids k nodes child of
                   Inl e \<Rightarrow> Inl e
                 | Inr r \<Rightarrow> gather_leaf_loop k nodes cs (set_union acc r))))"

fun gather_descendent_ids ::
  "nat \<Rightarrow> (int, tree_node) dict \<Rightarrow> tree_node \<Rightarrow> string \<Rightarrow> exn + int list"
and gather_descendent_loop ::
  "nat \<Rightarrow> (int, tree_node) dict \<Rightarrow> int list \<Rightarrow> string \<Rightarrow> int list \<Rightarrow> exn + int list"
where
  "gather_descendent_ids 0 nodes n typ = Inl recursion_error"
| "gather_descendent_ids (Suc k) nodes n typ =
     (case node_children n of
        None \<Rightarrow> Inl (KeyError ''children'')
      | Some cs \<Rightarrow> gather_descendent_loop k nodes cs typ [])"
| "gather_descendent_loop k nodes [] typ acc = Inr acc"
| "gather_descendent_loop k nodes (c # cs) typ acc =
     (case item nodes c (str_int c) of
        Inl e \<Rightarrow> Inl e
      | Inr child \<Rightarrow>
          (if node_type child = typ
           then gather_descendent_loop k nodes cs typ (List.insert (node_id child) acc)
           else if node_children child \<noteq> None
           then (case gather_descendent_ids k nodes child typ of
                   Inl e \<Rightarrow> Inl e
                 | Inr r \<Rightarrow> gather_descendent_loop k nodes cs typ (set_union acc r))
           else gather_descendent_loop k nodes cs typ acc))"

text \<open>Collect the results of a fallible call over a list of node ids, as a set.\<close>

fun union_over :: "(int \<Rightarrow> exn + int list) \<Rightarrow> int list \<Rightarrow> int list \<Rightarrow> exn + int list" where
  "union_over f [] acc = Inr acc"
| "union_over f (x # xs) acc =
     (case f x of Inl e \<Rightarrow> Inl e | Inr r \<Rightarrow> union_over f xs (set_union acc r))"

fun gather_osds ::
  "nat \<Rightarrow> (int, tree_node) dict \<Rightarrow> crush_step list \<Rightarrow> tree_node \<Rightarrow> exn + int list" where
  "gather_osds k nodes [] top_node = (if node_id top_node \<ge> 0 then Inr [node_id top_node] else Inl IndexError)"
| "gather_osds k nodes (step # steps) top_node =
     (if node_id top_node \<ge> 0 then Inr [node_id top_node]
      else if step_op step = ''choose_firstn'' then
        (case step_type step of
           None \<Rightarrow> Inl (KeyError ''type'')
         | Some typ \<Rightarrow>
             (case gather_descendent_ids k nodes top_node typ of
                Inl e \<Rightarrow> Inl e
              | Inr d \<Rightarrow> union_over (\<lambda>i. case item nodes i (str_int i) of
                    Inl e \<Rightarrow> Inl e | Inr n \<Rightarrow> gather_osds k nodes steps n) d []))
      else if step_op step = ''chooseleaf_firstn'' then
        (case step_type step of
           None \<Rightarrow> Inl (KeyError ''type'')
         | Some typ \<Rightarrow>
             (case gather_descendent_ids k nodes top_node typ of
                Inl e \<Rightarrow> Inl e
              | Inr d \<Rightarrow> union_over (\<lambda>i. case item nodes i (str_int i) of
                    Inl e \<Rightarrow> Inl e | Inr n \<Rightarrow> gather_leaf_ids k nodes n) d []))
      else Inr [])"

fun take_steps ::
  "nat \<Rightarrow> (int, tree_node) dict \<Rightarrow> crush_step list \<Rightarrow> int list \<Rightarrow> exn + int list" where
  "take_steps k nodes [] acc = Inr acc"
| "take_steps k nodes (step # steps) acc =
     (if step_op step = ''take'' then
        (case step_item step of
           None \<Rightarrow> Inl (KeyError ''item'')
         | Some i \<Rightarrow>
             (case item nodes i (str_int i) of
                Inl e \<Rightarrow> Inl e
              | Inr n \<Rightarrow>
                  (case gather_osds k nodes steps n of
                     Inl e \<Rightarrow> Inl e
                   | Inr r \<Rightarrow> take_steps k nodes steps (set_union acc r))))
      else take_steps k nodes steps acc)"

definition get_crush_rule_osds :: "nat \<Rightarrow> osd_map_data \<Rightarrow> crush_rule \<Rightarrow> exn + int list" where
  "get_crush_rule_osds k d r = take_steps k (get_tree_nodes_by_id d) (rule_steps r) []"

fun rule_osds_loop ::
  "nat \<Rightarrow> osd_map_data \<Rightarrow> crush_rule list \<Rightarrow> (int, int list) dict \<Rightarrow> exn + (int, int list) dict" where
  "rule_osds_loop k d [] acc = Inr acc"
| "rule_osds_loop k d (r # rs) acc =
     (case get_crush_rule_osds k d r of
        Inl e \<Rightarrow> Inl e
      | Inr osds \<Rightarrow> rule_osds_loop k d rs (AList.update (rule_id r) osds acc))"

definition osds_by_rule_id :: "nat \<Rightarrow> osd_map_data \<Rightarrow> exn + (int, int list) dict" where
  "osds_by_rule_id k d = rule_osds_loop k d (om_rules d) []"

section \<open>OSDs of a pool and pools of an OSD\<close>

text \<open>A rule of the pool's ruleset whose size range covers the pool.\<close>

definition rule_covers :: "pool \<Rightarrow> crush_rule \<Rightarrow> bool" where
  "rule_covers p r \<longleftrightarrow> ruleset r = crush_ruleset p
     \<and> rule_min_size r \<le> pool_size p \<and> pool_size p \<le> rule_max_size r"

fun pool_rule_loop ::
  "nat \<Rightarrow> osd_map_data \<Rightarrow> pool \<Rightarrow> crush_rule list \<Rightarrow> int list option \<Rightarrow> exn + int list option" where
  "pool_rule_loop k d p [] osds = Inr osds"
| "pool_rule_loop k d p (r # rs) osds =
     (if rule_covers p r then
        (case osds_by_rule_id k d of
           Inl e \<Rightarrow> Inl e
         | Inr by_rule \<Rightarrow>
             (case item by_rule (rule_id r) (str_int (rule_id r)) of
                Inl e \<Rightarrow> Inl e
              | Inr x \<Rightarrow> pool_rule_loop k d p rs (Some x)))
      else pool_rule_loop k d p rs osds)"

fun osds_by_pool_loop ::
  "nat \<Rightarrow> osd_map_data \<Rightarrow> (int \<times> pool) list \<Rightarrow> (int, int list) dict \<Rightarrow> exn + (int, int list) dict" where
  "osds_by_pool_loop k d [] acc = Inr acc"
| "osds_by_pool_loop k d ((pid, p) # ps) acc =
     (case pool_rule_loop k d p (om_rules d) None of
        Inl e \<Rightarrow> Inl e
      | Inr osds \<Rightarrow>
          osds_by_pool_loop k d ps
            (AList.update pid (case osds of None \<Rightarrow> keys (osds_by_id (Some d)) | Some x \<Rightarrow> x) acc))"

definition osds_by_pool :: "nat \<Rightarrow> osd_map_data \<Rightarrow> exn + (int, int list) dict" where
  "osds_by_pool k d = osds_by_pool_loop k d (pools_by_id (Some d)) []"

text \<open>Append a pool to each of its OSDs; an OSD that is not in the OSD map is skipped.\<close>

fun add_pool :: "int \<Rightarrow> int list \<Rightarrow> (int, int list) dict \<Rightarrow> (int, int list) dict" where
  "add_pool pid [] osds = osds"
| "add_pool pid (o' # os) osds =
     add_pool pid os (case map_of osds o' of
        None \<Rightarrow> osds
      | Some ps \<Rightarrow> AList.update o' (ps @ [pid]) osds)"

fun osd_pools_loop ::
  "(int, int list) dict \<Rightarrow> int list \<Rightarrow> (int, int list) dict \<Rightarrow> exn + (int, int list) dict" where
  "osd_pools_loop by_p [] osds = Inr osds"
| "osd_pools_loop by_p (pid # pids) osds =
     (case item by_p pid (str_int pid) of
        Inl e \<Rightarrow> Inl e
      | Inr in_pool \<Rightarrow> osd_pools_loop by_p pids (add_pool pid in_pool osds))"

definition osd_pools :: "nat \<Rightarrow> osd_map_data \<Rightarrow> exn + (int, int list) dict" where
  "osd_pools k d =
     (let osds = map (\<lambda>i. (i, [])) (keys (osds_by_id (Some d))); pids = keys (pools_by_id (Some d))
      in if pids = [] then Inr osds
         else (case osds_by_pool k d of Inl e \<Rightarrow> Inl e | Inr by_p \<Rightarrow> osd_pools_loop by_p pids osds))"

section \<open>What the parent map holds\<close>

definition node_parent_ids :: "(int, tree_node list) dict \<Rightarrow> int \<Rightarrow> int list" where
  "node_parent_ids pm c = map node_id (get_default pm c [])"

text \<open>
  The loop invariant: the parents recorded for \<open>c\<close> are exactly the pairs already
  seen, each once.
\<close>

definition parents_inv :: "(int, tree_node list) dict \<times> (int \<times> int) list \<Rightarrow> bool" where
  "parents_inv st \<longleftrightarrow>
     (\<forall>c. set (node_parent_ids (fst st) c) = {p. (c, p) \<in> set (snd st)}
        \<and> distinct (node_parent_ids (fst st) c))"

lemma node_parent_ids_update [simp]:
  "node_parent_ids (AList.update c ns pm) d = (if d = c then map node_id ns else node_parent_ids pm d)"
  by (simp add: node_parent_ids_def get_default_def)

lemma map_children_inv: "parents_inv st \<Longrightarrow> parents_inv (map_children n cs st)"
proof (induction n cs st rule: map_children.induct)
  case (2 n c cs pm seen)
  show ?case
  proof (cases "(c, node_id n) \<in> set seen")
    case True
    with 2 show ?thesis by simp
  next
    case False
    have "parents_inv (AList.update c (get_default pm c [] @ [n]) pm, (c, node_id n) # seen)"
      using "2.prems" False by (auto simp: parents_inv_def node_parent_ids_def [symmetric])
    with 2 False show ?thesis by simp
  qed
qed simp

lemma map_children_seen:
  "set (snd (map_children n cs st)) = set (snd st) \<union> {(c, node_id n) | c. c \<in> set cs}"
  by (induction n cs st rule: map_children.induct) auto

lemma map_parents_inv: "parents_inv st \<Longrightarrow> parents_inv (map_parents ns st)"
  by (induction ns st rule: map_parents.induct) (auto intro: map_children_inv)

lemma map_parents_seen:
  "set (snd (map_parents ns st)) =
     set (snd st) \<union> {(c, node_id n) | c n. n \<in> set ns \<and> c \<in> set (children_of n)}"
  by (induction ns st rule: map_parents.induct) (auto simp: map_children_seen)

lemma parents_inv_init: "parents_inv ([], [])"
  by (simp add: parents_inv_def node_parent_ids_def get_default_def)

lemma parent_bucket_char:
  "set (node_parent_ids (parent_bucket_by_node_id (Some d)) c) =
     {node_id n | n. n \<in> set (om_tree d) \<and> c \<in> set (children_of n)}
   \<and> distinct (node_parent_ids (parent_bucket_by_node_id (Some d)) c)"
  using map_parents_inv [OF parents_inv_init, of "om_tree d"]
    map_parents_seen [of "om_tree d" "([], [])"]
  by (auto simp: parents_inv_def parent_bucket_by_node_id_def)

section \<open>Leaves under a node\<close>

inductive leaf_below :: "(int, tree_node) dict \<Rightarrow> tree_node \<Rightarrow> int \<Rightarrow> bool" for nodes where
  leaf_self: "node_id n \<ge> 0 \<Longrightarrow> leaf_below nodes n (node_id n)"
| leaf_child: "node_id n < 0 \<Longrightarrow> node_children n = Some cs \<Longrightarrow> c \<in> set cs \<Longrightarrow> c \<ge> 0
    \<Longrightarrow> leaf_below nodes n c"
| leaf_deep: "node_id n < 0 \<Longrightarrow> node_children n = Some cs \<Longrightarrow> c \<in> set cs \<Longrightarrow> c < 0
    \<Longrightarrow> map_of nodes c = Some m \<Longrightarrow> leaf_below nodes m l \<Longrightarrow> leaf_below nodes n l"

inductive_simps leaf_below_iff: "leaf_below nodes n l"

text \<open>
  A tree the helpers can walk: every inner node has a child list, negative children are
  in the node table, and \<open>rk\<close> decreases along them.
\<close>

definition ranked_tree :: "(int, tree_node) dict \<Rightarrow> (tree_node \<Rightarrow> nat) \<Rightarrow> bool" where
  "ranked_tree nodes rk \<longleftrightarrow>
     (\<forall>n \<in> set (vals nodes). node_id n < 0 \<longrightarrow>
        (case node_children n of
           None \<Rightarrow> False
         | Some cs \<Rightarrow> (\<forall>c \<in> set cs. c < 0 \<longrightarrow>
             (case map_of nodes c of None \<Rightarrow> False | Some m \<Rightarrow> rk m < rk n))))"

lemma set_set_union [simp]: "set (set_union xs ys) = set xs \<union> set ys"
  unfolding set_union_def by (induction ys arbitrary: xs) auto

lemma distinct_set_union [simp]: "distinct xs \<Longrightarrow> distinct (set_union xs ys)"
  unfolding set_union_def by (induction ys arbitrary: xs) auto

lemma gather_leaf_sound:
  "gather_leaf_ids k nodes n = Inr xs \<Longrightarrow> set xs = {l. leaf_below nodes n l}"
  "gather_leaf_loop k nodes cs acc = Inr ys \<Longrightarrow>
     set ys = set acc \<union> {c \<in> set cs. c \<ge> 0}
       \<union> {l. \<exists>c m. c \<in> set cs \<and> c < 0 \<and> map_of nodes c = Some m \<and> leaf_below nodes m l}"
proof (induction k nodes n and k nodes cs acc arbitrary: xs and ys
    rule: gather_leaf_ids_gather_leaf_loop.induct)
  case (2 k nodes n)
  show ?case
  proof (cases "node_id n \<ge> 0")
    case True
    with "2.prems" show ?thesis by (auto simp: leaf_below_iff [of nodes n])
  next
    case False
    with "2.prems" obtain cs where cs: "node_children n = Some cs"
      and loop: "gather_leaf_loop k nodes cs [] = Inr xs"
      by (auto split: option.splits)
    have "set xs = {c \<in> set cs. c \<ge> 0}
       \<union> {l. \<exists>c m. c \<in> set cs \<and> c < 0 \<and> map_of nodes c = Some m \<and> leaf_below nodes m l}"
      using "2.IH" [OF False cs loop] by simp
    with False cs show ?thesis by (auto simp: leaf_below_iff [of nodes n])
  qed
next
  case (4 k nodes c cs acc)
  show ?case
  proof (cases "c \<ge> 0")
    case True
    from "4.prems" True have loop: "gather_leaf_loop k nodes cs (List.insert c acc) = Inr ys"
      by simp
    have "set ys = set (List.insert c acc) \<union> {c \<in> set cs. c \<ge> 0}
       \<union> {l. \<exists>c m. c \<in> set cs \<and> c < 0 \<and> map_of nodes c = Some m \<and> leaf_below nodes m l}"
      using "4.IH"(1) [OF True loop] .
    moreover have "{l. \<exists>d m'. d \<in> set (c # cs) \<and> d < 0 \<and> map_of nodes d = Some m' \<and> leaf_below nodes m' l}
       = {l. \<exists>d m'. d \<in> set cs \<and> d < 0 \<and> map_of nodes d = Some m' \<and> leaf_below nodes m' l}"
      using True by auto
    moreover have "{d \<in> set (c # cs). d \<ge> 0} = insert c {d \<in> set cs. d \<ge> 0}"
      using True by auto
    ultimately show ?thesis by (simp only: set_insert List.set_insert Un_ac Un_insert_left Un_insert_right)
  next
    case False
    with "4.prems" obtain m r where m: "map_of nodes c = Some m"
      and r: "gather_leaf_ids k nodes m = Inr r"
      and rest: "gather_leaf_loop k nodes cs (set_union acc r) = Inr ys"
      by (auto split: sum.splits)
    from m have im: "item nodes c (str_int c) = Inr m" by simp
    have r_set: "set r = {l. leaf_below nodes m l}"
      using "4.IH"(2) [OF False im r] .
    have "set ys = set (set_union acc r) \<union> {c \<in> set cs. c \<ge> 0}
       \<union> {l. \<exists>c m. c \<in> set cs \<and> c < 0 \<and> map_of nodes c = Some m \<and> leaf_below nodes m l}"
      using "4.IH"(3) [OF False im r rest] .
    moreover have "{l. \<exists>d m'. d \<in> set (c # cs) \<and> d < 0 \<and> map_of nodes d = Some m' \<and> leaf_below nodes m' l}
       = set r \<union> {l. \<exists>d m'. d \<in> set cs \<and> d < 0 \<and> map_of nodes d = Some m' \<and> leaf_below nodes m' l}"
      using False m r_set by auto
    moreover have "{d \<in> set (c # cs). d \<ge> 0} = {d \<in> set cs. d \<ge> 0}"
      using False by auto
    ultimately show ?thesis by (simp only: set_set_union Un_ac)
  qed
qed auto

lemma ranked_tree_child:
  assumes "ranked_tree nodes rk" and "n \<in> set (vals nodes)" and "node_id n < 0"
  obtains cs where "node_children n = Some cs"
    and "\<And>c. c \<in> set cs \<Longrightarrow> c < 0 \<Longrightarrow> \<exists>m. map_of nodes c = Some m \<and> rk m < rk n"
  using assms unfolding ranked_tree_def by (fastforce split: option.splits)

lemma vals_map_of: "map_of d k = Some v \<Longrightarrow> v \<in> set (vals d)"
  by (force dest: map_of_SomeD)

lemma gather_leaf_enough:
  assumes "ranked_tree nodes rk"
  shows "n \<in> set (vals nodes) \<Longrightarrow> rk n < k \<Longrightarrow> \<exists>xs. gather_leaf_ids k nodes n = Inr xs"
    and "(\<And>c. c \<in> set cs \<Longrightarrow> c < 0 \<Longrightarrow> \<exists>m. map_of nodes c = Some m \<and> rk m < k) \<Longrightarrow>
           \<exists>ys. gather_leaf_loop k nodes cs acc = Inr ys"
  using assms
proof (induction k nodes n and k nodes cs acc rule: gather_leaf_ids_gather_leaf_loop.induct)
  case (2 k nodes n)
  show ?case
  proof (cases "node_id n \<ge> 0")
    case False
    then obtain cs where cs: "node_children n = Some cs"
      and ch: "\<And>c. c \<in> set cs \<Longrightarrow> c < 0 \<Longrightarrow> \<exists>m. map_of nodes c = Some m \<and> rk m < rk n"
      using ranked_tree_child [OF "2.prems"(3) "2.prems"(1)] by auto
    from "2.prems"(2) ch have "\<And>c. c \<in> set cs \<Longrightarrow> c < 0 \<Longrightarrow> \<exists>m. map_of nodes c = Some m \<and> rk m < k"
      by (metis less_Suc_eq_le order_less_le_trans)
    then have "\<exists>ys. gather_leaf_loop k nodes cs [] = Inr ys"
      using "2.IH" [OF False cs] "2.prems"(3) by blast
    with False cs show ?thesis by simp
  qed simp
next
  case (4 k nodes c cs acc)
  show ?case
  proof (cases "c \<ge> 0")
    case True
    with 4 show ?thesis by simp
  next
    case False
    then obtain m where m: "map_of nodes c = Some m" and less: "rk m < k"
      using "4.prems"(1) [of c] by auto
    then have im: "item nodes c (str_int c) = Inr m" by simp
    obtain r where r: "gather_leaf_ids k nodes m = Inr r"
      using "4.IH"(2) [OF False im vals_map_of [OF m] less "4.prems"(2)] by blast
    have "\<exists>ys. gather_leaf_loop k nodes cs (set_union acc r) = Inr ys"
      using "4.IH"(3) [OF False im r _ "4.prems"(2)] "4.prems"(1) by simp
    with False im r show ?thesis by simp
  qed
qed auto

section \<open>Pools and OSDs\<close>

lemma set_add_pool:
  assumes "has_key osds o'"
  shows "pid \<in> set (get_default (add_pool p os osds) o' []) \<longleftrightarrow>
     pid \<in> set (get_default osds o' []) \<or> (pid = p \<and> o' \<in> set os)"
  using assms
proof (induction p os osds rule: add_pool.induct)
  case (2 p a os osds)
  then show ?case
    by (cases "map_of osds a") (auto simp: get_default_def has_key_def split: option.splits)
qed simp

lemma has_key_add_pool [simp]: "has_key (add_pool p os osds) o' \<longleftrightarrow> has_key osds o'"
  by (induction p os osds rule: add_pool.induct) (auto simp: has_key_def split: option.splits)

lemma osd_pools_loop_char:
  assumes "\<And>p. p \<in> set pids \<Longrightarrow> has_key by_p p"
  shows "\<exists>m. osd_pools_loop by_p pids osds = Inr m
     \<and> (\<forall>o'. has_key m o' \<longleftrightarrow> has_key osds o')
     \<and> (\<forall>o' pid. has_key osds o' \<longrightarrow>
          (pid \<in> set (get_default m o' []) \<longleftrightarrow>
             pid \<in> set (get_default osds o' [])
             \<or> (pid \<in> set pids \<and> o' \<in> set (get_default by_p pid []))))"
  using assms
proof (induction by_p pids osds rule: osd_pools_loop.induct)
  case (2 by_p p pids osds)
  from "2.prems" [of p] obtain x where x: "map_of by_p p = Some x"
    by (auto simp: has_key_def)
  then have ix: "item by_p p (str_int p) = Inr x" by simp
  obtain m where m: "osd_pools_loop by_p pids (add_pool p x osds) = Inr m"
    and keys: "\<And>o'. has_key m o' \<longleftrightarrow> has_key osds o'"
    and mem: "\<And>o' pid. has_key osds o' \<Longrightarrow>
          (pid \<in> set (get_default m o' []) \<longleftrightarrow>
             pid \<in> set (get_default (add_pool p x osds) o' [])
             \<or> (pid \<in> set pids \<and> o' \<in> set (get_default by_p pid [])))"
    using "2.IH" [OF ix] "2.prems" by auto
  have "get_default by_p p [] = x" using x by (simp add: get_default_def)
  with m ix keys mem show ?case by (auto simp: set_add_pool)
qed simp

lemma osds_by_pool_loop_keys:
  "osds_by_pool_loop k d ps acc = Inr m \<Longrightarrow>
     has_key m pid \<longleftrightarrow> has_key acc pid \<or> pid \<in> fst ` set ps"
  by (induction k d ps acc rule: osds_by_pool_loop.induct) (auto split: sum.splits)

lemma osds_by_pool_keys:
  "osds_by_pool k d = Inr m \<Longrightarrow> has_key m pid \<longleftrightarrow> has_key (pools_by_id (Some d)) pid"
  unfolding osds_by_pool_def by (drule osds_by_pool_loop_keys [where pid = pid]) (auto simp: has_key_def map_of_eq_None_iff)

lemma map_of_map_const: "map_of (map (\<lambda>i. (i, c)) ks) k = (if k \<in> set ks then Some c else None)"
  by (induction ks) auto

lemma osd_pools_char:
  assumes "osds_by_pool k d = Inr by_p"
  shows "\<exists>m. osd_pools k d = Inr m
     \<and> (\<forall>o'. has_key m o' \<longleftrightarrow> has_key (osds_by_id (Some d)) o')
     \<and> (\<forall>o' pid. has_key (osds_by_id (Some d)) o' \<longrightarrow>
          (pid \<in> set (get_default m o' []) \<longleftrightarrow> o' \<in> set (get_default by_p pid [])))"
proof -
  let ?osds = "map (\<lambda>i. (i, [] :: int list)) (keys (osds_by_id (Some d)))"
  let ?pids = "keys (pools_by_id (Some d))"
  have k: "has_key ?osds o' \<longleftrightarrow> has_key (osds_by_id (Some d)) o'" for o'
    by (auto simp: has_key_iff image_image)
  have e: "get_default ?osds o' [] = []" for o'
    by (simp only: get_default_def map_of_map_const) simp
  have by_p: "has_key by_p p \<longleftrightarrow> p \<in> set ?pids" for p
    using osds_by_pool_keys [OF assms] by (auto simp: has_key_iff)
  have out: "p \<notin> set ?pids \<Longrightarrow> get_default by_p p [] = []" for p
    using by_p [of p] by (simp add: has_key_def get_default_def)
  obtain m where m: "osd_pools_loop by_p ?pids ?osds = Inr m"
    and mk: "\<And>o'. has_key m o' \<longleftrightarrow> has_key ?osds o'"
    and mm: "\<And>o' pid. has_key ?osds o' \<Longrightarrow> pid \<in> set (get_default m o' []) \<longleftrightarrow>
       pid \<in> set (get_default ?osds o' []) \<or> (pid \<in> set ?pids \<and> o' \<in> set (get_default by_p pid []))"
    using osd_pools_loop_char [of ?pids by_p ?osds] by_p by blast
  have "osd_pools k d = Inr m"
    using assms m by (cases "?pids = []") (auto simp: osd_pools_def Let_def)
  moreover have "pid \<in> set (get_default m o' []) \<longleftrightarrow> o' \<in> set (get_default by_p pid [])"
    if "has_key (osds_by_id (Some d)) o'" for o' pid
    using mm [of o' pid] that k [of o'] e [of o'] out [of pid] by (cases "pid \<in> set ?pids") auto
  ultimately show ?thesis using mk k by blast
qed

text \<open>The last covering rule decides; without one the pool may use every OSD.\<close>

lemma pool_rule_loop_char:
  assumes "osds_by_rule_id k d = Inr by_rule" and "\<And>r. r \<in> set rs \<Longrightarrow> has_key by_rule (rule_id r)"
  shows "pool_rule_loop k d p rs acc = Inr (case rev (filter (rule_covers p) rs) of
       [] \<Rightarrow> acc
     | r # _ \<Rightarrow> map_of by_rule (rule_id r))"
  using assms
proof (induction k d p rs acc rule: pool_rule_loop.induct)
  case (2 k d p r rs acc)
  show ?case
  proof (cases "rule_covers p r")
    case True
    from "2.prems"(2) [of r] obtain x where x: "map_of by_rule (rule_id r) = Some x"
      by (auto simp: has_key_def)
    then have "item by_rule (rule_id r) (str_int (rule_id r)) = Inr x" by simp
    with "2.IH"(1) [OF True "2.prems"(1), of x] "2.prems" True x show ?thesis
      by (cases "rev (filter (rule_covers p) rs)") auto
  next
    case False
    with 2 show ?thesis by simp
  qed
qed simp

lemma rule_osds_loop_keys:
  "rule_osds_loop k d rs acc = Inr m \<Longrightarrow>
     has_key m i \<longleftrightarrow> has_key acc i \<or> i \<in> rule_id ` set rs"
  by (induction k d rs acc rule: rule_osds_loop.induct) (auto split: sum.splits)

lemma osds_by_rule_id_keys:
  "osds_by_rule_id k d = Inr m \<Longrightarrow> r \<in> set (om_rules d) \<Longrightarrow> has_key m (rule_id r)"
  unfolding osds_by_rule_id_def by (auto dest: rule_osds_loop_keys)

definition pool_osds_spec :: "osd_map_data \<Rightarrow> (int, int list) dict \<Rightarrow> pool \<Rightarrow> int list" where
  "pool_osds_spec d by_rule p =
     (case rev (filter (rule_covers p) (om_rules d)) of
        [] \<Rightarrow> keys (osds_by_id (Some d))
      | r # _ \<Rightarrow> get_default by_rule (rule_id r) [])"

lemma osds_by_pool_loop_char:
  assumes "osds_by_rule_id k d = Inr by_rule"
  shows "osds_by_pool_loop k d ps acc =
     Inr (fold (\<lambda>(pid, p) m. AList.update pid (pool_osds_spec d by_rule p) m) ps acc)"
proof (induction ps arbitrary: acc)
  case (Cons q ps)
  obtain pid p where q: "q = (pid, p)" by fastforce
  have kr: "\<And>r. r \<in> set (om_rules d) \<Longrightarrow> has_key by_rule (rule_id r)"
    using osds_by_rule_id_keys [OF assms] .
  have spec: "(case (case rev (filter (rule_covers p) (om_rules d)) of
        [] \<Rightarrow> None | r # _ \<Rightarrow> map_of by_rule (rule_id r)) of
      None \<Rightarrow> keys (osds_by_id (Some d)) | Some x \<Rightarrow> x) = pool_osds_spec d by_rule p"
  proof (cases "rev (filter (rule_covers p) (om_rules d))")
    case Nil
    then show ?thesis by (simp add: pool_osds_spec_def)
  next
    case (Cons r rs)
    then have "r \<in> set (om_rules d)"
      by (metis filter_is_subset list.set_intros(1) set_rev subsetD)
    with kr obtain x where "map_of by_rule (rule_id r) = Some x"
      by (auto simp: has_key_def)
    with Cons show ?thesis by (simp add: pool_osds_spec_def get_default_def)
  qed
  show ?case
    using pool_rule_loop_char [OF assms kr, of "om_rules d" p None] spec
    by (simp add: q Cons.IH)
qed simp

lemma osds_by_pool_char:
  assumes "osds_by_rule_id k d = Inr by_rule"
  shows "osds_by_pool k d = Inr (fold (\<lambda>(pid, p) m. AList.update pid (pool_osds_spec d by_rule p) m)
     (pools_by_id (Some d)) [])"
  by (simp add: osds_by_pool_def osds_by_pool_loop_char [OF assms])

lemma map_of_fold_update_map:
  "map_of (fold (\<lambda>(k, v) m. AList.update k (f v) m) ps m) k =
     (case map_of (rev ps) k of None \<Rightarrow> map_of m k | Some v \<Rightarrow> Some (f v))"
  by (induction ps arbitrary: m) (auto simp: map_add_def split: option.splits)

lemma map_of_rev_distinct: "distinct (keys d) \<Longrightarrow> map_of (rev d) = map_of d"
  by (rule map_of_inject_set [THEN iffD2]) (simp_all add: rev_map [symmetric])

section \<open>Properties\<close>

text \<open>The parents of a CRUSH node are exactly the nodes of the tree that list it as a
  child, each of them once, even if a node lists the same child twice.\<close>

theorem parents_are_listing_nodes:
  "set (node_parent_ids (parent_bucket_by_node_id (Some d)) c) =
     {node_id n | n. n \<in> set (om_tree d) \<and> c \<in> set (children_of n)}
   \<and> distinct (node_parent_ids (parent_bucket_by_node_id (Some d)) c)"
  by (rule parent_bucket_char)

text \<open>On a CRUSH tree without cycles and dangling children, collecting the leaves under a
  node ends, within the recursion limit if the tree is not deeper than that, without an
  error, and yields exactly the OSDs below the node.\<close>

theorem leaves_of_a_tree:
  assumes "ranked_tree nodes rk" and "n \<in> set (vals nodes)" and "rk n < k"
  shows "\<exists>xs. gather_leaf_ids k nodes n = Inr xs \<and> set xs = {l. leaf_below nodes n l}"
  using gather_leaf_enough(1) [OF assms] gather_leaf_sound(1) by blast

definition two_level_tree :: "(int, tree_node) dict" where
  "two_level_tree =
     [(-1, \<lparr>node_id = -1, node_name = ''default'', node_type = ''root'', node_children = Some [-2, 1],
         node_reweight = None\<rparr>),
      (-2, \<lparr>node_id = -2, node_name = ''h'', node_type = ''host'', node_children = Some [0],
         node_reweight = None\<rparr>)]"

theorem leaves_of_a_tree_witness:
  "\<exists>xs. gather_leaf_ids 3 two_level_tree (snd (hd two_level_tree)) = Inr xs
     \<and> set xs = {l. leaf_below two_level_tree (snd (hd two_level_tree)) l}"
  by (rule leaves_of_a_tree [where rk = "\<lambda>n. if node_id n = -1 then 1 else 0"])
    (simp_all add: ranked_tree_def two_level_tree_def)

text \<open>C27. Where the CRUSH rules can be evaluated, every pool gets the OSDs of the last rule of its
  ruleset whose size range covers it, or all OSDs if there is none; and the pools reported
  for an OSD of the map are exactly the pools that OSD was reported for.\<close>

theorem pools_and_osds_agree:
  assumes "osds_by_rule_id k d = Inr by_rule" and "distinct (map pool_id (om_pools d))"
  shows "\<exists>by_p m. osds_by_pool k d = Inr by_p \<and> osd_pools k d = Inr m
     \<and> (\<forall>p \<in> set (om_pools d). map_of by_p (pool_id p) = Some (pool_osds_spec d by_rule p))
     \<and> (\<forall>o' pid. has_key (osds_by_id (Some d)) o' \<longrightarrow>
          (pid \<in> set (get_default m o' []) \<longleftrightarrow> o' \<in> set (get_default by_p pid [])))"
proof -
  let ?by_p = "fold (\<lambda>(pid, p) m. AList.update pid (pool_osds_spec d by_rule p) m) (pools_by_id (Some d)) []"
  have by_p: "osds_by_pool k d = Inr ?by_p"
    by (rule osds_by_pool_char [OF assms(1)])
  have "map_of ?by_p (pool_id p) = Some (pool_osds_spec d by_rule p)" if "p \<in> set (om_pools d)" for p
  proof -
    from that assms(2) have "map_of (map (\<lambda>p. (pool_id p, p)) (om_pools d)) (pool_id p) = Some p"
      by (intro map_of_is_SomeI) (auto simp: comp_def)
    moreover have "distinct (keys (map (\<lambda>p. (pool_id p, p)) (om_pools d)))"
      using assms(2) by (simp add: comp_def)
    ultimately show ?thesis
      by (simp add: map_of_fold_update_map pools_by_id_def map_of_rev_distinct)
  qed
  with by_p osd_pools_char [OF by_p] show ?thesis by blast
qed

definition one_rule_map :: osd_map_data where
  "one_rule_map = \<lparr>om_fsid = ''f'', om_epoch = 1,
     om_osds = [\<lparr>osd = 0, osd_up = 1, osd_in = 1, public_addr = '''', cluster_addr = ''''\<rparr>],
     om_pools = [\<lparr>pool_id = 3, pool_name = ''rbd'', pg_num = 8, pg_placement_num = 8, pool_flags = 1, pool_size = 2, pool_min_size = 1, crush_ruleset = 0\<rparr>],
     om_tree = vals two_level_tree, om_buckets = [],
     om_rules = [\<lparr>rule_id = 0, ruleset = 0, rule_min_size = 1, rule_max_size = 10,
        rule_steps = [\<lparr>step_op = ''take'', step_item = Some (-1), step_type = None\<rparr>,
          \<lparr>step_op = ''chooseleaf_firstn'', step_item = None, step_type = Some ''host''\<rparr>,
          \<lparr>step_op = ''emit'', step_item = None, step_type = None\<rparr>]\<rparr>],
     om_types = [], om_metadata = [], om_flags = None\<rparr>"

lemma one_rule_map_rules:
  "osds_by_rule_id 9 (one_rule_map\<lparr>om_tree := [snd (hd (tl two_level_tree)),
      (snd (hd two_level_tree))\<lparr>node_children := Some [-2]\<rparr>]\<rparr>) = Inr [(0, [0])]"
  by code_simp

theorem pools_and_osds_agree_witness:
  "\<exists>by_p m. let d = one_rule_map\<lparr>om_tree := [snd (hd (tl two_level_tree)),
        (snd (hd two_level_tree))\<lparr>node_children := Some [-2]\<rparr>]\<rparr>
     in osds_by_pool 9 d = Inr by_p \<and> osd_pools 9 d = Inr m \<and> map_of by_p 3 = Some [0]"
  using pools_and_osds_agree [OF one_rule_map_rules]
  by (fastforce simp: one_rule_map_def pool_osds_spec_def rule_covers_def get_default_def)

end
