(* ===== verification/UserRequests.thy ===== *)
theory UserRequests
  imports Types
begin

text \<open>
  User requests (cthulhu/manager/user_request.py): the life cycle every request goes
  through, the classes that wait for cluster maps after their remote job, and the block
  arithmetic by which PgCreatingRequest splits a pool in several commands.

  A request method works on the request object and on the list of jobs published to salt
  so far. Salt itself is not part of the repository: \<open>pub n\<close> is its reply to the
  \<open>n\<close>-th publication, \<open>None\<close> where publishing fails and the new job's id otherwise.
\<close>

definition quote :: string where
  "quote = [CHR 0x27]"

text \<open>How a sync object class prints.\<close>

fun class_name :: "sync_type \<Rightarrow> string" where
  "class_name MdsMap = ''MdsMap''"
| "class_name OsdMap = ''OsdMap''"
| "class_name MonMap = ''MonMap''"
| "class_name MonStatus = ''MonStatus''"
| "class_name PgSummary = ''PgSummary''"
| "class_name Health = ''Health''"
| "class_name Config = ''Config''"

definition class_repr :: "sync_type \<Rightarrow> string" where
  "class_repr ty = ''<class '' @ quote @ ''calamari_common.types.'' @ class_name ty @ quote @ ''>''"

section \<open>Commands and jobs\<close>

text \<open>
  Values of request attributes and command arguments. \<open>JText\<close> is the JSON text of an
  object with the given string members.
\<close>

datatype jval = JNull | JBool bool | JInt int | JNum rat | JStr string | JList "jval list"
  | JText "(string \<times> string) list"

type_synonym command = "string \<times> (string, jval) dict"

datatype salt_job =
    RadosCommands "string option" "string option" "string option" "command list"
  | SaltFn "string option" string "jval list"
  | Running "string option list"
  | KillJob "string option" string
  | GetClusterObject string string sync_type

record ret_dict =
  ret_error :: bool
  ret_error_status :: "string option"
  ret_osd_version :: "int option"
  ret_fsid :: "string option"

datatype job_return = RetDict ret_dict | RetText string

section \<open>Progress of a PG creation\<close>

record pg_progress =
  initial :: int
  final :: int
  block_size :: int
  still_to_create :: int
  intermediate_goal :: int

definition is_final_block :: "pg_progress \<Rightarrow> bool" where
  "is_final_block p = (intermediate_goal p = final p)"

definition advance_goal :: "pg_progress \<Rightarrow> exn + pg_progress" where
  "advance_goal p =
     (if is_final_block p then Inl AssertionError
      else Inr (p\<lparr>intermediate_goal := min (final p) (intermediate_goal p + block_size p)\<rparr>))"

definition pg_progress_init :: "int \<Rightarrow> int \<Rightarrow> int \<Rightarrow> exn + pg_progress" where
  "pg_progress_init i f b =
     advance_goal \<lparr>initial = i, final = f, block_size = b,
       still_to_create = f - i, intermediate_goal = i\<rparr>"

definition set_created_pg_count :: "int \<Rightarrow> pg_progress \<Rightarrow> pg_progress" where
  "set_created_pg_count n p = p\<lparr>still_to_create := max (final p - n) 0\<rparr>"

definition expected_count :: "pg_progress \<Rightarrow> int" where
  "expected_count p = intermediate_goal p"

definition is_complete :: "pg_progress \<Rightarrow> bool" where
  "is_complete p = (still_to_create p = 0)"

definition goal :: "pg_progress \<Rightarrow> int" where
  "goal p = intermediate_goal p"

definition get_status :: "pg_progress \<Rightarrow> string" where
  "get_status p =
     (let total_creating = final p - initial p;
          created = total_creating - still_to_create p
      in if intermediate_goal p \<noteq> final p then
           (let currently_creating_min = max (intermediate_goal p - block_size p) (initial p);
                currently_creating_max = intermediate_goal p
            in ''Waiting for PG creation ('' @ str_int created @ ''/'' @ str_int total_creating
               @ ''), currently creating PGs '' @ str_int currently_creating_min
               @ ''-'' @ str_int currently_creating_max)
         else ''Waiting for PG creation ('' @ str_int created @ ''/'' @ str_int total_creating @ '')'')"

section \<open>Request objects\<close>

datatype request_state = New | Submitted | Complete

datatype pg_phase = JidWait | OsdMapWait | PgMapWait

record pool_creating =
  pc_awaiting_pgs :: bool
  pc_pool_name :: string
  pc_pool_id :: "int option"
  pc_pg_count :: "int option"

text \<open>
  \<open>cg_post_create_commands\<close> is \<open>None\<close> while the attribute does not exist: the
  constructor sets it only when the PG count changes.
\<close>

record pg_creating =
  cg_pool_id :: int
  cg_pool_name :: string
  cg_progress :: pg_progress
  cg_post_create_commands :: "command list option"
  cg_phase :: pg_phase

datatype request_kind =
    RadosRequest
  | SaltRequest string "jval list"
  | OsdMapModifyingRequest
  | PoolCreatingRequest pool_creating
  | PgCreatingRequest pg_creating

record request =
  rq_id :: string
  rq_kind :: request_kind
  rq_headline :: string
  rq_fsid :: "string option"
  rq_cluster_name :: "string option"
  rq_commands :: "command list"
  rq_minion_id :: "string option"
  rq_jid :: "string option"
  rq_state :: request_state
  rq_result :: "job_return option"
  rq_error :: bool
  rq_error_message :: string
  rq_requested_at :: time
  rq_completed_at :: "time option"
  rq_alive_at :: "time option"
  rq_await_version :: "int option"

definition new_request ::
  "string \<Rightarrow> time \<Rightarrow> request_kind \<Rightarrow> string \<Rightarrow> string option \<Rightarrow> string option \<Rightarrow> command list \<Rightarrow> request" where
  "new_request i t k h fsid cluster cmds =
     \<lparr>rq_id = i, rq_kind = k, rq_headline = h, rq_fsid = fsid, rq_cluster_name = cluster,
      rq_commands = cmds, rq_minion_id = None, rq_jid = None, rq_state = New, rq_result = None,
      rq_error = False, rq_error_message = '''', rq_requested_at = t, rq_completed_at = None,
      rq_alive_at = None, rq_await_version = None\<rparr>"

definition new_pool_creating ::
  "string \<Rightarrow> time \<Rightarrow> string \<Rightarrow> string option \<Rightarrow> string option \<Rightarrow> string \<Rightarrow> command list \<Rightarrow> request" where
  "new_pool_creating i t h fsid cluster name cmds =
     new_request i t (PoolCreatingRequest \<lparr>pc_awaiting_pgs = False, pc_pool_name = name,
       pc_pool_id = None, pc_pg_count = None\<rparr>) h fsid cluster cmds"

definition set_pg_num :: "string \<Rightarrow> int \<Rightarrow> command" where
  "set_pg_num name n =
     (''osd pool set'', [(''pool'', JStr name), (''var'', JStr ''pg_num''), (''val'', JInt n)])"

definition new_pg_creating ::
  "string \<Rightarrow> time \<Rightarrow> string \<Rightarrow> string option \<Rightarrow> string option \<Rightarrow> command list \<Rightarrow>
   int \<Rightarrow> string \<Rightarrow> int \<Rightarrow> int \<Rightarrow> int \<Rightarrow> int \<Rightarrow> exn + request" where
  "new_pg_creating i t h fsid cluster cmds pid name pgp_num initial_count final_count block =
     (case pg_progress_init initial_count final_count block of
        Inl e \<Rightarrow> Inl e
      | Inr p \<Rightarrow>
          (let changed = initial_count \<noteq> final_count;
               cmds' = (if changed then cmds @ [set_pg_num name (goal p)] else cmds);
               post = (if changed then Some [(''osd pool set'', [(''pool'', JStr name),
                          (''var'', JStr ''pgp_num''), (''val'', JInt pgp_num)])] else None)
           in Inr (new_request i t (PgCreatingRequest \<lparr>cg_pool_id = pid, cg_pool_name = name,
                cg_progress = p, cg_post_create_commands = post, cg_phase = JidWait\<rparr>)
                h fsid cluster cmds')))"

section \<open>Methods of every request\<close>

type_synonym 'a rq_py = "(request \<times> salt_job list, 'a) py"

definition self :: "request rq_py" where
  [py_simps]: "self = gets fst"

definition upd :: "(request \<Rightarrow> request) \<Rightarrow> unit rq_py" where
  [py_simps]: "upd f = modify (\<lambda>(r, js). (f r, js))"

definition run_job :: "(nat \<Rightarrow> string option) \<Rightarrow> salt_job \<Rightarrow> string option rq_py" where
  [py_simps]: "run_job pub job = (\<lambda>(r, js). (Inr (pub (length js)), (r, js @ [job])))"

definition set_error :: "string \<Rightarrow> unit rq_py" where
  "set_error m = upd (\<lambda>r. r\<lparr>rq_error := True, rq_error_message := m\<rparr>)"

definition complete :: "time \<Rightarrow> unit rq_py" where
  "complete t =
     bnd self (\<lambda>r.
     bnd (assert_that (rq_state r \<noteq> Complete)) (\<lambda>_.
     bnd (assert_that (rq_jid r = None)) (\<lambda>_.
     upd (\<lambda>r. r\<lparr>rq_state := Complete, rq_completed_at := Some t\<rparr>))))"

definition published :: "time \<Rightarrow> string option \<Rightarrow> unit rq_py" where
  "published t reply = (case reply of
       None \<Rightarrow> raise (PublishError ''Failed to publish job'')
     | Some j \<Rightarrow> upd (\<lambda>r. r\<lparr>rq_alive_at := Some t, rq_jid := Some j\<rparr>))"

definition rados_submit ::
  "(nat \<Rightarrow> string option) \<Rightarrow> time \<Rightarrow> command list option \<Rightarrow> unit rq_py" where
  "rados_submit pub t commands =
     bnd self (\<lambda>r.
     bnd (run_job pub (RadosCommands (rq_minion_id r) (rq_fsid r) (rq_cluster_name r)
            (case commands of None \<Rightarrow> rq_commands r | Some c \<Rightarrow> c))) (\<lambda>reply.
     published t reply))"

definition salt_submit ::
  "(nat \<Rightarrow> string option) \<Rightarrow> time \<Rightarrow> string \<Rightarrow> jval list \<Rightarrow> unit rq_py" where
  "salt_submit pub t cmd args =
     bnd self (\<lambda>r.
     bnd (run_job pub (SaltFn (rq_minion_id r) cmd args)) (\<lambda>reply. published t reply))"

definition do_submit :: "(nat \<Rightarrow> string option) \<Rightarrow> time \<Rightarrow> request_kind \<Rightarrow> unit rq_py" where
  "do_submit pub t k = (case k of
       SaltRequest cmd args \<Rightarrow> salt_submit pub t cmd args
     | _ \<Rightarrow> rados_submit pub t None)"

definition submit :: "(nat \<Rightarrow> string option) \<Rightarrow> time \<Rightarrow> string \<Rightarrow> unit rq_py" where
  "submit pub t minion =
     bnd self (\<lambda>r.
     bnd (assert_that (rq_state r = New)) (\<lambda>_.
     bnd (upd (\<lambda>r. r\<lparr>rq_minion_id := Some minion\<rparr>)) (\<lambda>_.
     bnd (do_submit pub t (rq_kind r)) (\<lambda>_.
     upd (\<lambda>r. r\<lparr>rq_state := Submitted\<rparr>)))))"

section \<open>Completion of the remote job\<close>

definition osd_version_of :: "job_return \<Rightarrow> exn + int" where
  "osd_version_of result = (case result of
       RetText _ \<Rightarrow> Inl TypeError
     | RetDict d \<Rightarrow> (case ret_osd_version d of None \<Rightarrow> Inl (KeyError ''versions'') | Some v \<Rightarrow> Inr v))"

definition base_complete_jid :: "time \<Rightarrow> job_return \<Rightarrow> unit rq_py" where
  "base_complete_jid t result =
     bnd (upd (\<lambda>r. r\<lparr>rq_result := Some result, rq_jid := None\<rparr>)) (\<lambda>_. complete t)"

definition osd_complete_jid :: "job_return \<Rightarrow> unit rq_py" where
  "osd_complete_jid result =
     bnd (upd (\<lambda>r. r\<lparr>rq_jid := None, rq_result := Some result\<rparr>)) (\<lambda>_.
     bnd (lift_exn (osd_version_of result)) (\<lambda>v.
     upd (\<lambda>r. r\<lparr>rq_await_version := Some v\<rparr>)))"

definition set_cg :: "pg_creating \<Rightarrow> unit rq_py" where
  "set_cg cg = upd (\<lambda>r. r\<lparr>rq_kind := PgCreatingRequest cg\<rparr>)"

definition set_pc :: "pool_creating \<Rightarrow> unit rq_py" where
  "set_pc pc = upd (\<lambda>r. r\<lparr>rq_kind := PoolCreatingRequest pc\<rparr>)"

definition pg_complete_jid :: "pg_creating \<Rightarrow> job_return \<Rightarrow> unit rq_py" where
  "pg_complete_jid cg result =
     bnd (assert_that (cg_phase cg = JidWait)) (\<lambda>_.
     bnd (osd_complete_jid result) (\<lambda>_.
     set_cg (cg\<lparr>cg_phase := OsdMapWait\<rparr>)))"

definition complete_jid :: "time \<Rightarrow> job_return \<Rightarrow> unit rq_py" where
  "complete_jid t result =
     bnd self (\<lambda>r. case rq_kind r of
         RadosRequest \<Rightarrow> base_complete_jid t result
       | SaltRequest _ _ \<Rightarrow> base_complete_jid t result
       | OsdMapModifyingRequest \<Rightarrow> osd_complete_jid result
       | PoolCreatingRequest _ \<Rightarrow> osd_complete_jid result
       | PgCreatingRequest cg \<Rightarrow> pg_complete_jid cg result)"

section \<open>Waiting for cluster maps\<close>

text \<open>Python's truth value of \<open>_await_version\<close>: neither \<open>None\<close> nor 0.\<close>

definition truthy_version :: "int option \<Rightarrow> bool" where
  "truthy_version v = (case v of None \<Rightarrow> False | Some n \<Rightarrow> n \<noteq> 0)"

definition awaiting_versions :: "request \<Rightarrow> (sync_type, int option) dict" where
  "awaiting_versions r = (case rq_kind r of
       OsdMapModifyingRequest \<Rightarrow>
         (if truthy_version (rq_await_version r) \<and> rq_state r \<noteq> Complete
          then [(OsdMap, rq_await_version r)] else [])
     | PoolCreatingRequest pc \<Rightarrow>
         (if pc_awaiting_pgs pc then [(PgSummary, None)]
          else if truthy_version (rq_await_version r) then [(OsdMap, rq_await_version r)]
          else [])
     | PgCreatingRequest cg \<Rightarrow>
         (case cg_phase cg of
            JidWait \<Rightarrow> []
          | OsdMapWait \<Rightarrow> [(OsdMap, rq_await_version r)]
          | PgMapWait \<Rightarrow> [(PgSummary, None), (OsdMap, None)])
     | _ \<Rightarrow> [])"

definition associations :: "request \<Rightarrow> string option" where
  "associations r = (case rq_kind r of
       RadosRequest \<Rightarrow> None
     | SaltRequest _ _ \<Rightarrow> None
     | _ \<Rightarrow> rq_fsid r)"

definition base_status :: "request \<Rightarrow> string" where
  "base_status r =
     (if rq_state r \<noteq> Complete then ''Running''
      else if rq_error r then ''Failed ('' @ rq_error_message r @ '')''
      else ''Completed successfully'')"

definition osd_status :: "request \<Rightarrow> string" where
  "osd_status r =
     (if rq_state r \<noteq> Complete \<and> truthy_version (rq_await_version r)
      then ''Waiting for OSD map epoch ''
           @ (case rq_await_version r of None \<Rightarrow> ''None'' | Some v \<Rightarrow> str_int v)
      else base_status r)"

definition status :: "request \<Rightarrow> string" where
  "status r = (case rq_kind r of
       RadosRequest \<Rightarrow> base_status r
     | SaltRequest _ _ \<Rightarrow> base_status r
     | OsdMapModifyingRequest \<Rightarrow> osd_status r
     | PoolCreatingRequest _ \<Rightarrow> osd_status r
     | PgCreatingRequest cg \<Rightarrow>
         (if rq_state r \<noteq> Complete \<and> \<not> is_complete (cg_progress cg)
          then get_status (cg_progress cg) else osd_status r))"

definition osd_map_of :: "sync_object \<Rightarrow> osd_map_data option" where
  "osd_map_of obj = (case so_data obj of Some (DOsd d) \<Rightarrow> Some d | _ \<Rightarrow> None)"

definition pg_counts_of :: "sync_object \<Rightarrow> int option \<Rightarrow> exn + counts" where
  "pg_counts_of obj pid = (case so_data obj of
       Some (DPg s) \<Rightarrow>
         (case pid of
            None \<Rightarrow> Inl (KeyError ''None'')
          | Some p \<Rightarrow> item (by_pool s) p (str_int p))
     | _ \<Rightarrow> Inl TypeError)"

definition pgs_not_creating :: "counts \<Rightarrow> int" where
  "pgs_not_creating cs =
     sum_list (map snd (filter (\<lambda>(st, n). ''creating'' \<notin> set (split_on (CHR ''+'') st)) cs))"

definition osd_on_map :: "time \<Rightarrow> sync_type \<Rightarrow> sync_object \<Rightarrow> unit rq_py" where
  "osd_on_map t ty obj =
     bnd (assert_that (ty = OsdMap)) (\<lambda>_.
     bnd self (\<lambda>r. case rq_await_version r of
         None \<Rightarrow> raise AssertionError
       | Some v \<Rightarrow> guarded (VInt v \<le> so_version obj) (complete t)))"

definition find_pool_named :: "string \<Rightarrow> (int, pool) dict \<Rightarrow> (int \<times> pool) option" where
  "find_pool_named name ps = find (\<lambda>(i, p). pool_name p = name) ps"

definition pool_on_map :: "time \<Rightarrow> pool_creating \<Rightarrow> sync_type \<Rightarrow> sync_object \<Rightarrow> unit rq_py" where
  "pool_on_map t pc ty obj =
     (if pc_awaiting_pgs pc then
        bnd (assert_that (ty = PgSummary)) (\<lambda>_.
        bnd (lift_exn (pg_counts_of obj (pc_pool_id pc))) (\<lambda>cs.
        guarded (case pc_pg_count pc of None \<Rightarrow> True | Some n \<Rightarrow> n \<le> pgs_not_creating cs)
          (complete t)))
      else
        bnd self (\<lambda>r.
        if truthy_version (rq_await_version r) then
          bnd (assert_that (ty = OsdMap)) (\<lambda>_.
          guarded (VInt (the (rq_await_version r)) \<le> so_version obj)
            (let found = find_pool_named (pc_pool_name pc) (pools_by_id (osd_map_of obj));
                 pc' = (case found of None \<Rightarrow> pc
                        | Some (i, p) \<Rightarrow> pc\<lparr>pc_pool_id := Some i, pc_pg_count := Some (pg_num p)\<rparr>)
             in bnd (set_pc pc') (\<lambda>_.
                bnd (guarded (pc_pool_id pc' = None)
                  (bnd (set_error (''Expected pool '' @ quote @ pc_pool_name pc @ quote @ '' not found'')) (\<lambda>_.
                   complete t))) (\<lambda>_.
                set_pc (pc'\<lparr>pc_awaiting_pgs := True\<rparr>)))))
        else raise (NotImplementedError (''Unexpected map '' @ class_repr ty))))"

text \<open>
  PgCreatingRequest: a summary arrived while waiting for PGs, an OSD map arrived while
  waiting for PGs, and an OSD map arrived while waiting for the map.
\<close>

definition pg_on_summary ::
  "(nat \<Rightarrow> string option) \<Rightarrow> time \<Rightarrow> pg_creating \<Rightarrow> sync_object \<Rightarrow> unit rq_py" where
  "pg_on_summary pub t cg obj =
     bnd (lift_exn (pg_counts_of obj (Some (cg_pool_id cg)))) (\<lambda>cs.
       let p = set_created_pg_count (pgs_not_creating cs) (cg_progress cg);
           cg1 = cg\<lparr>cg_progress := p\<rparr>
       in bnd (set_cg cg1) (\<lambda>_.
          guarded (goal p \<le> pgs_not_creating cs)
            (if is_final_block p then
               (case cg_post_create_commands cg of
                  None \<Rightarrow> raise AttributeError
                | Some cmds \<Rightarrow>
                    (if cmds \<noteq> [] then
                       bnd (rados_submit pub t (Some cmds)) (\<lambda>_.
                       set_cg (cg1\<lparr>cg_phase := JidWait\<rparr>))
                     else complete t))
             else
               bnd (lift_exn (advance_goal p)) (\<lambda>p'.
               bnd (set_cg (cg1\<lparr>cg_progress := p'\<rparr>)) (\<lambda>_.
               bnd (rados_submit pub t (Some [set_pg_num (cg_pool_name cg) (goal p')])) (\<lambda>_.
               set_cg (cg1\<lparr>cg_progress := p', cg_phase := JidWait\<rparr>)))))))"

definition pg_check_map :: "time \<Rightarrow> pg_creating \<Rightarrow> sync_object \<Rightarrow> unit rq_py" where
  "pg_check_map t cg obj =
     bnd (lift_exn (item (pools_by_id (osd_map_of obj)) (cg_pool_id cg) (str_int (cg_pool_id cg)))) (\<lambda>p.
     guarded (pg_num p \<noteq> expected_count (cg_progress cg))
       (bnd (set_error ''PG creation interrupted (unexpected change to pg_num)'') (\<lambda>_.
        complete t)))"

definition pg_await_map :: "time \<Rightarrow> pg_creating \<Rightarrow> sync_object \<Rightarrow> unit rq_py" where
  "pg_await_map t cg obj =
     bnd (lift_exn (item (pools_by_id (osd_map_of obj)) (cg_pool_id cg) (str_int (cg_pool_id cg)))) (\<lambda>p.
     if pg_num p \<noteq> expected_count (cg_progress cg) then
       bnd (set_error (''PG creation failed (check that there aren'' @ quote @ ''t already PGs in '' @ quote
                  @ ''creating'' @ quote @ '' state)''))
         (\<lambda>_. complete t)
     else
       bnd self (\<lambda>r.
       bnd (assert_that (truthy_version (rq_await_version r))) (\<lambda>_.
       guarded (VInt (the (rq_await_version r)) \<le> so_version obj)
         (if is_complete (cg_progress cg) then complete t
          else set_cg (cg\<lparr>cg_phase := PgMapWait\<rparr>)))))"

definition pg_on_map ::
  "(nat \<Rightarrow> string option) \<Rightarrow> time \<Rightarrow> pg_creating \<Rightarrow> sync_type \<Rightarrow> sync_object \<Rightarrow> unit rq_py" where
  "pg_on_map pub t cg ty obj = (case cg_phase cg of
       PgMapWait \<Rightarrow>
         (if ty = PgSummary then pg_on_summary pub t cg obj
          else if ty = OsdMap then pg_check_map t cg obj
          \<comment> \<open>formatting the message fails: the string names a third argument\<close>
          else raise IndexError)
     | OsdMapWait \<Rightarrow> pg_await_map t cg obj
     | JidWait \<Rightarrow> raise (NotImplementedError (''Unexpected '' @ class_repr ty @ '' in phase jid_wait'')))"

definition on_map ::
  "(nat \<Rightarrow> string option) \<Rightarrow> time \<Rightarrow> sync_type \<Rightarrow> sync_object \<Rightarrow> unit rq_py" where
  "on_map pub t ty obj =
     bnd self (\<lambda>r. case rq_kind r of
         RadosRequest \<Rightarrow> ret ()
       | SaltRequest _ _ \<Rightarrow> ret ()
       | OsdMapModifyingRequest \<Rightarrow> osd_on_map t ty obj
       | PoolCreatingRequest pc \<Rightarrow> pool_on_map t pc ty obj
       | PgCreatingRequest cg \<Rightarrow> pg_on_map pub t cg ty obj)"

section \<open>The life cycle as a contract\<close>

fun stage :: "request_state \<Rightarrow> nat" where
  "stage New = 0"
| "stage Submitted = 1"
| "stage Complete = 2"

text \<open>
  What every method keeps of the object: its identity never changes, its state only
  moves forward, the time of completion is final and published jobs are never forgotten.
\<close>

definition moves_on :: "request \<times> salt_job list \<Rightarrow> request \<times> salt_job list \<Rightarrow> bool" where
  "moves_on x y \<longleftrightarrow>
     stage (rq_state (fst x)) \<le> stage (rq_state (fst y))
     \<and> rq_id (fst x) = rq_id (fst y) \<and> rq_fsid (fst x) = rq_fsid (fst y)
     \<and> rq_headline (fst x) = rq_headline (fst y)
     \<and> rq_requested_at (fst x) = rq_requested_at (fst y)
     \<and> (rq_state (fst x) = Complete \<longrightarrow> rq_completed_at (fst y) = rq_completed_at (fst x))
     \<and> (\<exists>new. snd y = snd x @ new)"

lemma stage_bounds [simp]: "stage st \<le> 2" "2 \<le> stage st \<longleftrightarrow> st = Complete"
  by (cases st; simp)+

lemma still_complete: "stage Complete \<le> stage st \<Longrightarrow> st = Complete"
  by simp

interpretation lc: step_contract moves_on
  by unfold_locales (auto simp: moves_on_def dest: still_complete)

lemma moves_on_upd:
  assumes "\<And>r. stage (rq_state r) \<le> stage (rq_state (f r)) \<and> rq_id (f r) = rq_id r
    \<and> rq_fsid (f r) = rq_fsid r \<and> rq_headline (f r) = rq_headline r
    \<and> rq_requested_at (f r) = rq_requested_at r \<and> rq_completed_at (f r) = rq_completed_at r"
  shows "obeys moves_on (upd f)"
  using assms by (auto simp: upd_def modify_def obeys_def moves_on_def)

lemma moves_on_self [intro]: "obeys moves_on self"
  unfolding self_def by blast

lemma moves_on_run_job [intro]: "obeys moves_on (run_job pub job)"
  by (auto simp: run_job_def obeys_def moves_on_def)

lemma moves_on_set_error [intro]: "obeys moves_on (set_error m)"
  unfolding set_error_def by (rule moves_on_upd) simp

lemma moves_on_set_cg [intro]: "obeys moves_on (set_cg cg)"
  unfolding set_cg_def by (rule moves_on_upd) simp

lemma moves_on_set_pc [intro]: "obeys moves_on (set_pc pc)"
  unfolding set_pc_def by (rule moves_on_upd) simp

lemma moves_on_complete [intro]: "obeys moves_on (complete t)"
  by (auto simp: obeys_def complete_def py_simps moves_on_def)

lemma moves_on_published [intro]: "obeys moves_on (published t reply)"
  unfolding published_def by (cases reply) (auto intro!: moves_on_upd)

lemma moves_on_rados_submit [intro]: "obeys moves_on (rados_submit pub t cmds)"
  unfolding rados_submit_def by blast

lemma moves_on_salt_submit [intro]: "obeys moves_on (salt_submit pub t cmd args)"
  unfolding salt_submit_def by blast

lemma moves_on_do_submit [intro]: "obeys moves_on (do_submit pub t k)"
  unfolding do_submit_def by (cases k) auto

lemmas moves_on_intros = lc.obeys_bnd lc.obeys_guarded lc.obeys_lift lc.obeys_assert
  lc.obeys_raise lc.obeys_ret lc.obeys_if moves_on_self moves_on_complete moves_on_set_error
  moves_on_set_cg moves_on_set_pc moves_on_rados_submit

text \<open>\<open>submit\<close> asserts the state it overwrites, so it needs the state it starts in.\<close>

lemma rq_state_run_job: "run_job pub job s = (r, t) \<Longrightarrow> rq_state (fst t) = rq_state (fst s)"
  by (auto simp: run_job_def split: prod.splits)

lemma rq_state_do_submit:
  "rq_state (fst (snd (do_submit pub t k s))) = rq_state (fst s)"
  by (cases s; cases k; cases "pub (length (snd s))")
    (simp_all add: do_submit_def rados_submit_def salt_submit_def published_def py_simps)

lemma moves_on_submit: "obeys moves_on (submit pub t minion)"
proof -
  have "moves_on s (snd (submit pub t minion s))" for s
  proof (cases "rq_state (fst s) = New")
    case False
    then show ?thesis
      by (cases s) (simp add: submit_def py_simps moves_on_def)
  next
    case True
    let ?s1 = "((fst s)\<lparr>rq_minion_id := Some minion\<rparr>, snd s)"
    let ?s2 = "snd (do_submit pub t (rq_kind (fst s)) ?s1)"
    have st: "rq_state (fst ?s2) = New"
      using True by (simp add: rq_state_do_submit)
    have mv: "moves_on ?s1 ?s2"
      using moves_on_do_submit unfolding obeys_def by blast
    then have mv': "moves_on s ?s2"
      by (auto simp: moves_on_def)
    show ?thesis
    proof (cases "fst (do_submit pub t (rq_kind (fst s)) ?s1)")
      case (Inl e)
      then have "snd (submit pub t minion s) = ?s2"
        using True
        by (cases s; cases "do_submit pub t (rq_kind (fst s)) ?s1") (simp add: submit_def py_simps)
      with mv' show ?thesis by simp
    next
      case (Inr u)
      then have "snd (submit pub t minion s) = ((fst ?s2)\<lparr>rq_state := Submitted\<rparr>, snd ?s2)"
        using True
        by (cases s; cases "do_submit pub t (rq_kind (fst s)) ?s1") (simp add: submit_def py_simps)
      with mv' st show ?thesis by (simp add: moves_on_def)
    qed
  qed
  then show ?thesis by (simp add: obeys_def)
qed

lemma moves_on_osd_complete_jid [intro]: "obeys moves_on (osd_complete_jid result)"
  unfolding osd_complete_jid_def
  by (intro moves_on_intros moves_on_upd) simp_all

lemma moves_on_complete_jid: "obeys moves_on (complete_jid t result)"
proof -
  have base: "obeys moves_on (base_complete_jid t result)"
    unfolding base_complete_jid_def by (intro moves_on_intros moves_on_upd) simp
  have pg: "obeys moves_on (pg_complete_jid cg result)" for cg
    unfolding pg_complete_jid_def by (intro moves_on_intros moves_on_osd_complete_jid)
  show ?thesis
    unfolding complete_jid_def
    by (intro lc.obeys_bnd moves_on_self) (auto intro: base pg split: request_kind.splits)
qed

lemma moves_on_on_map: "obeys moves_on (on_map pub t ty obj)"
proof -
  have osd: "obeys moves_on (osd_on_map t ty obj)"
    unfolding osd_on_map_def
    by (intro moves_on_intros) (auto split: option.splits intro!: moves_on_intros)
  have pool: "obeys moves_on (pool_on_map t pc ty obj)" for pc
    unfolding pool_on_map_def Let_def by (intro moves_on_intros)
  have summary: "obeys moves_on (pg_on_summary pub t cg obj)" for cg
    unfolding pg_on_summary_def Let_def
    by (auto split: option.splits intro!: moves_on_intros)
  have check_map: "obeys moves_on (pg_check_map t cg obj)" for cg
    unfolding pg_check_map_def by (intro moves_on_intros)
  have await: "obeys moves_on (pg_await_map t cg obj)" for cg
    unfolding pg_await_map_def by (intro moves_on_intros)
  have pg: "obeys moves_on (pg_on_map pub t cg ty obj)" for cg
    unfolding pg_on_map_def
    by (auto split: pg_phase.splits intro: summary check_map await moves_on_intros)
  show ?thesis
    unfolding on_map_def
    by (intro lc.obeys_bnd moves_on_self)
      (auto split: request_kind.splits intro: osd pool pg moves_on_intros)
qed

section \<open>Blocks of a PG creation\<close>

lemma advance_goal_ok:
  assumes "intermediate_goal p < final p" and "0 < block_size p"
  obtains p' where "advance_goal p = Inr p'"
    and "intermediate_goal p < intermediate_goal p'" and "intermediate_goal p' \<le> final p"
    and "intermediate_goal p' \<le> intermediate_goal p + block_size p"
    and "final p' = final p" and "block_size p' = block_size p"
    and "still_to_create p' = still_to_create p"
  using assms by (auto simp: advance_goal_def is_final_block_def)

text \<open>
  The commands a request sends after its first one: a \<open>pg_num\<close> per further block, then
  the post-creation commands.
\<close>

function further_goals :: "int \<Rightarrow> int \<Rightarrow> int \<Rightarrow> int list" where
  "further_goals g f b =
     (if b \<le> 0 \<or> f \<le> g then [] else (let g' = min f (g + b) in g' # further_goals g' f b))"
  by auto
termination
  by (relation "measure (\<lambda>(g, f, b). nat (f - g))") auto

declare further_goals.simps [simp del]

lemma further_goals_done [simp]: "further_goals f f b = []"
  by (simp add: further_goals.simps)

lemma further_goals_step:
  "0 < b \<Longrightarrow> g < f \<Longrightarrow> further_goals g f b = min f (g + b) # further_goals (min f (g + b)) f b"
  by (subst further_goals.simps) (simp add: Let_def)

lemma further_goals_gaps:
  assumes "0 < b" and "g \<le> f"
  shows "last (g # further_goals g f b) = f
    \<and> sorted_wrt (<) (g # further_goals g f b)
    \<and> successively (\<lambda>x y. y \<le> x + b) (g # further_goals g f b)"
  using assms
proof (induction g f b rule: further_goals.induct)
  case (1 g f b)
  show ?case
  proof (cases "f \<le> g")
    case True
    with 1 show ?thesis by simp
  next
    case False
    define g' gs where g': "g' = min f (g + b)" and gs: "gs = further_goals g' f b"
    have "g' \<le> f" by (simp add: g')
    with 1 False have ih: "last (g' # gs) = f" "sorted_wrt (<) (g' # gs)"
      "successively (\<lambda>x y. y \<le> x + b) (g' # gs)"
      unfolding gs g' by simp_all
    have step: "further_goals g f b = g' # gs"
      unfolding gs g' using False 1 by (simp add: further_goals_step)
    have less: "g < g'" and "g' \<le> g + b"
      using False 1 by (auto simp: g')
    have "\<forall>x \<in> set gs. g < x"
      using ih(2) less by fastforce
    with ih less \<open>g' \<le> g + b\<close> show ?thesis
      unfolding step by simp
  qed
qed

lemma length_further_goals_bound:
  assumes "0 < b" and "g \<le> f"
  shows "b * int (length (further_goals g f b)) < f - g + b"
  using assms
proof (induction g f b rule: further_goals.induct)
  case (1 g f b)
  show ?case
  proof (cases "f \<le> g")
    case False
    with 1 have ih: "b * int (length (further_goals (min f (g + b)) f b)) < f - min f (g + b) + b"
      by simp
    show ?thesis
    proof (cases "f \<le> g + b")
      case True
      with False 1 have "min f (g + b) = f" by simp
      with False 1 show ?thesis by (simp add: further_goals_step)
    next
      case big: False
      then have "min f (g + b) = g + b" by simp
      with ih False 1 show ?thesis by (simp add: further_goals_step algebra_simps)
    qed
  qed (use 1 in simp)
qed

section \<open>A cluster that does what it is told\<close>

text \<open>
  The surroundings of a PgCreatingRequest: after each job the cluster's OSD map has the
  commanded \<open>pg_num\<close> at the version the job reported, and then a summary counts
  all those PGs as created.
\<close>

definition job_ok :: "int \<Rightarrow> job_return" where
  "job_ok v = RetDict \<lparr>ret_error = False, ret_error_status = Some '''', ret_osd_version = Some v,
     ret_fsid = None\<rparr>"

definition obedient :: "int \<Rightarrow> int \<Rightarrow> (int \<Rightarrow> sync_object) \<Rightarrow> (int \<Rightarrow> sync_object) \<Rightarrow> bool" where
  "obedient v pid om pgs \<longleftrightarrow> 0 < v
     \<and> (\<forall>n. VInt v \<le> so_version (om n)
          \<and> (\<exists>p. map_of (pools_by_id (osd_map_of (om n))) pid = Some p \<and> pg_num p = n)
          \<and> (\<exists>cs. pg_counts_of (pgs n) (Some pid) = Inr cs \<and> pgs_not_creating cs = n))"

text \<open>The PG count the latest job of the request asked for.\<close>

definition goal_of :: "request \<Rightarrow> int" where
  "goal_of r = (case rq_kind r of PgCreatingRequest cg \<Rightarrow> goal (cg_progress cg) | _ \<Rightarrow> 0)"

definition pg_round ::
  "(nat \<Rightarrow> string option) \<Rightarrow> time \<Rightarrow> int \<Rightarrow> (int \<Rightarrow> sync_object) \<Rightarrow> (int \<Rightarrow> sync_object) \<Rightarrow> unit rq_py" where
  "pg_round pub t v om pgs =
     bnd self (\<lambda>r.
     bnd (complete_jid t (job_ok v)) (\<lambda>_.
     bnd (on_map pub t OsdMap (om (goal_of r))) (\<lambda>_.
     on_map pub t PgSummary (pgs (goal_of r)))))"

fun pg_rounds ::
  "nat \<Rightarrow> (nat \<Rightarrow> string option) \<Rightarrow> time \<Rightarrow> int \<Rightarrow> (int \<Rightarrow> sync_object) \<Rightarrow> (int \<Rightarrow> sync_object) \<Rightarrow> unit rq_py" where
  "pg_rounds 0 pub t v om pgs = ret ()"
| "pg_rounds (Suc k) pub t v om pgs =
     bnd (pg_round pub t v om pgs) (\<lambda>_. pg_rounds k pub t v om pgs)"

definition pg_finish :: "(nat \<Rightarrow> string option) \<Rightarrow> time \<Rightarrow> int \<Rightarrow> (int \<Rightarrow> sync_object) \<Rightarrow> unit rq_py" where
  "pg_finish pub t v om =
     bnd self (\<lambda>r.
     bnd (complete_jid t (job_ok v)) (\<lambda>_. on_map pub t OsdMap (om (goal_of r))))"

definition rados_job :: "request \<Rightarrow> command list \<Rightarrow> salt_job" where
  "rados_job r cmds = RadosCommands (rq_minion_id r) (rq_fsid r) (rq_cluster_name r) cmds"

text \<open>A submitted PgCreatingRequest whose current job is running, with work left.\<close>

definition pg_running :: "request \<Rightarrow> pg_creating \<Rightarrow> bool" where
  "pg_running r cg \<longleftrightarrow> rq_kind r = PgCreatingRequest cg \<and> rq_state r = Submitted
     \<and> \<not> rq_error r \<and> cg_phase cg = JidWait \<and> cg_post_create_commands cg \<noteq> None
     \<and> cg_post_create_commands cg \<noteq> Some [] \<and> 0 < block_size (cg_progress cg)
     \<and> intermediate_goal (cg_progress cg) \<le> final (cg_progress cg)"

text \<open>One round ends with the next block's command in flight, or the post-creation ones.\<close>

lemma pg_round_next:
  assumes env: "obedient v (cg_pool_id cg) om pgs" and pub: "\<forall>n. pub n \<noteq> None"
    and run: "pg_running r cg" and left: "still_to_create (cg_progress cg) \<noteq> 0"
    and more: "intermediate_goal (cg_progress cg) < final (cg_progress cg)"
  shows "\<exists>r' cg'. pg_round pub t v om pgs (r, js)
       = (Inr (), (r', js @ [rados_job r [set_pg_num (cg_pool_name cg) (goal (cg_progress cg'))]]))
     \<and> pg_running r' cg' \<and> still_to_create (cg_progress cg') \<noteq> 0
     \<and> cg_progress cg' = (cg_progress cg)
          \<lparr>still_to_create := final (cg_progress cg) - intermediate_goal (cg_progress cg),
           intermediate_goal := min (final (cg_progress cg))
             (intermediate_goal (cg_progress cg) + block_size (cg_progress cg))\<rparr>
     \<and> cg_pool_id cg' = cg_pool_id cg \<and> cg_pool_name cg' = cg_pool_name cg
     \<and> cg_post_create_commands cg' = cg_post_create_commands cg
     \<and> rados_job r' = rados_job r"
proof -
  let ?n = "goal (cg_progress cg)"
  let ?cg' = "cg\<lparr>cg_phase := JidWait,
          cg_progress := (cg_progress cg)
          \<lparr>still_to_create := final (cg_progress cg) - intermediate_goal (cg_progress cg),
           intermediate_goal := min (final (cg_progress cg))
             (intermediate_goal (cg_progress cg) + block_size (cg_progress cg))\<rparr>\<rparr>"
  from env obtain p cs where p: "map_of (pools_by_id (osd_map_of (om ?n))) (cg_pool_id cg) = Some p"
    and pn: "pg_num p = ?n" and ver: "VInt v \<le> so_version (om ?n)" and v: "0 < v"
    and cs: "pg_counts_of (pgs ?n) (Some (cg_pool_id cg)) = Inr cs" and ncs: "pgs_not_creating cs = ?n"
    unfolding obedient_def by meson
  from pub obtain j where j: "pub (length js) = Some j" by blast
  have rk: "rq_kind r = PgCreatingRequest cg" and st: "rq_state r = Submitted"
    and ph: "cg_phase cg = JidWait" and er: "\<not> rq_error r"
    and po: "cg_post_create_commands cg \<noteq> None" "cg_post_create_commands cg \<noteq> Some []"
    and b: "0 < block_size (cg_progress cg)"
    using run by (auto simp: pg_running_def)
  have g: "goal_of r = ?n" using rk by (simp add: goal_of_def)
  have round: "pg_round pub t v om pgs (r, js) =
     (Inr (), (r\<lparr>rq_jid := Some j, rq_result := Some (job_ok v), rq_await_version := Some v,
        rq_alive_at := Some t, rq_kind := PgCreatingRequest ?cg'\<rparr>,
      js @ [rados_job r [set_pg_num (cg_pool_name cg) (min (final (cg_progress cg))
             (intermediate_goal (cg_progress cg) + block_size (cg_progress cg)))]]))"
    using p pn ver v cs ncs j rk st ph er po left more g
    by (simp add: pg_round_def complete_jid_def pg_complete_jid_def osd_complete_jid_def
        osd_version_of_def job_ok_def py_simps set_cg_def on_map_def pg_on_map_def
        pg_await_map_def pg_on_summary_def Let_def rados_submit_def published_def
        truthy_version_def is_complete_def is_final_block_def advance_goal_def
        set_created_pg_count_def expected_count_def goal_def rados_job_def)
  show ?thesis
    unfolding round using run more b
    by - (rule exI [of _ "r\<lparr>rq_jid := Some j, rq_result := Some (job_ok v), rq_await_version := Some v,
        rq_alive_at := Some t, rq_kind := PgCreatingRequest ?cg'\<rparr>"],
        rule exI [of _ ?cg'], auto simp: pg_running_def goal_def rados_job_def)
qed

lemma pg_round_last:
  assumes env: "obedient v (cg_pool_id cg) om pgs" and pub: "\<forall>n. pub n \<noteq> None"
    and run: "pg_running r cg" and left: "still_to_create (cg_progress cg) \<noteq> 0"
    and last: "intermediate_goal (cg_progress cg) = final (cg_progress cg)"
    and post: "cg_post_create_commands cg = Some cmds"
  shows "\<exists>r' cg'. pg_round pub t v om pgs (r, js) = (Inr (), (r', js @ [rados_job r cmds]))
     \<and> pg_running r' cg' \<and> is_complete (cg_progress cg') \<and> goal_of r' = final (cg_progress cg)
     \<and> cg_pool_id cg' = cg_pool_id cg"
proof -
  let ?n = "goal (cg_progress cg)"
  let ?cg' = "cg\<lparr>cg_phase := JidWait,
          cg_progress := (cg_progress cg)\<lparr>still_to_create := 0\<rparr>\<rparr>"
  from env obtain p cs where p: "map_of (pools_by_id (osd_map_of (om ?n))) (cg_pool_id cg) = Some p"
    and pn: "pg_num p = ?n" and ver: "VInt v \<le> so_version (om ?n)" and v: "0 < v"
    and cs: "pg_counts_of (pgs ?n) (Some (cg_pool_id cg)) = Inr cs" and ncs: "pgs_not_creating cs = ?n"
    unfolding obedient_def by meson
  from pub obtain j where j: "pub (length js) = Some j" by blast
  have rk: "rq_kind r = PgCreatingRequest cg" and st: "rq_state r = Submitted"
    and ph: "cg_phase cg = JidWait" and er: "\<not> rq_error r"
    and po: "cmds \<noteq> []"
    using run post by (auto simp: pg_running_def)
  have g: "goal_of r = ?n" using rk by (simp add: goal_of_def)
  have round: "pg_round pub t v om pgs (r, js) =
     (Inr (), (r\<lparr>rq_jid := Some j, rq_result := Some (job_ok v), rq_await_version := Some v,
        rq_alive_at := Some t, rq_kind := PgCreatingRequest ?cg'\<rparr>,
      js @ [rados_job r cmds]))"
    using p pn ver v cs ncs j rk st ph er po left last g post
    by (simp add: pg_round_def complete_jid_def pg_complete_jid_def osd_complete_jid_def
        osd_version_of_def job_ok_def py_simps set_cg_def on_map_def pg_on_map_def
        pg_await_map_def pg_on_summary_def Let_def rados_submit_def published_def
        truthy_version_def is_complete_def is_final_block_def
        set_created_pg_count_def expected_count_def goal_def rados_job_def)
  show ?thesis
    unfolding round using run last post
    by - (rule exI [of _ "r\<lparr>rq_jid := Some j, rq_result := Some (job_ok v), rq_await_version := Some v,
        rq_alive_at := Some t, rq_kind := PgCreatingRequest ?cg'\<rparr>"],
        rule exI [of _ ?cg'], auto simp: pg_running_def goal_def goal_of_def is_complete_def)
qed

lemma pg_finish_completes:
  assumes env: "obedient v (cg_pool_id cg) om pgs"
    and run: "pg_running r cg" and "is_complete (cg_progress cg)"
  shows "\<exists>r'. pg_finish pub t v om (r, js) = (Inr (), (r', js))
     \<and> rq_state r' = Complete \<and> \<not> rq_error r' \<and> rq_jid r' = None"
proof -
  let ?n = "goal (cg_progress cg)"
  from env obtain p where p: "map_of (pools_by_id (osd_map_of (om ?n))) (cg_pool_id cg) = Some p"
    and pn: "pg_num p = ?n" and ver: "VInt v \<le> so_version (om ?n)" and v: "0 < v"
    unfolding obedient_def by meson
  have rk: "rq_kind r = PgCreatingRequest cg" and st: "rq_state r = Submitted"
    and ph: "cg_phase cg = JidWait" and er: "\<not> rq_error r"
    using run by (auto simp: pg_running_def)
  have g: "goal_of r = ?n" using rk by (simp add: goal_of_def)
  show ?thesis
    using p pn ver v rk st ph er g assms(3)
    by (simp add: pg_finish_def complete_jid_def pg_complete_jid_def osd_complete_jid_def
        osd_version_of_def job_ok_def py_simps set_cg_def on_map_def pg_on_map_def
        pg_await_map_def truthy_version_def expected_count_def goal_def complete_def)
qed

lemma pg_rounds_run:
  assumes "obedient v (cg_pool_id cg) om pgs" and pub: "\<forall>n. pub n \<noteq> None"
    and "pg_running r cg" and "still_to_create (cg_progress cg) \<noteq> 0"
    and "cg_post_create_commands cg = Some cmds"
    and "gs = further_goals (intermediate_goal (cg_progress cg)) (final (cg_progress cg))
           (block_size (cg_progress cg))"
  shows "\<exists>r' cg'. pg_rounds (Suc (length gs)) pub t v om pgs (r, js)
       = (Inr (), (r', js @ map (\<lambda>g. rados_job r [set_pg_num (cg_pool_name cg) g]) gs
                        @ [rados_job r cmds]))
     \<and> pg_running r' cg' \<and> is_complete (cg_progress cg') \<and> cg_pool_id cg' = cg_pool_id cg"
  using assms
proof (induction gs arbitrary: r cg js)
  case Nil
  have last: "intermediate_goal (cg_progress cg) = final (cg_progress cg)"
  proof (rule ccontr)
    assume "intermediate_goal (cg_progress cg) \<noteq> final (cg_progress cg)"
    with Nil.prems(3) have "intermediate_goal (cg_progress cg) < final (cg_progress cg)"
      and "0 < block_size (cg_progress cg)" by (auto simp: pg_running_def)
    with Nil.prems(6) show False by (simp add: further_goals_step)
  qed
  show ?case
    using pg_round_last [OF Nil.prems(1) pub Nil.prems(3,4) last Nil.prems(5), where t = t and js = js]
    by (auto simp: bnd_def ret_def)
next
  case (Cons g gs)
  have more: "intermediate_goal (cg_progress cg) < final (cg_progress cg)"
    and b: "0 < block_size (cg_progress cg)"
    using Cons.prems(3,6) by (auto simp: pg_running_def less_le)
  let ?f = "final (cg_progress cg)"
  let ?g = "min ?f (intermediate_goal (cg_progress cg) + block_size (cg_progress cg))"
  from pg_round_next [OF Cons.prems(1) pub Cons.prems(3,4) more, where t = t and js = js]
  obtain r1 cg1 where step: "pg_round pub t v om pgs (r, js)
       = (Inr (), (r1, js @ [rados_job r [set_pg_num (cg_pool_name cg) (goal (cg_progress cg1))]]))"
    and run1: "pg_running r1 cg1" and left1: "still_to_create (cg_progress cg1) \<noteq> 0"
    and prog: "cg_progress cg1 = (cg_progress cg)
          \<lparr>still_to_create := ?f - intermediate_goal (cg_progress cg), intermediate_goal := ?g\<rparr>"
    and same: "cg_pool_id cg1 = cg_pool_id cg" "cg_pool_name cg1 = cg_pool_name cg"
      "cg_post_create_commands cg1 = cg_post_create_commands cg" "rados_job r1 = rados_job r"
    by blast
  have "g # gs = ?g # further_goals ?g ?f (block_size (cg_progress cg))"
    using Cons.prems(6) more b by (simp add: further_goals_step)
  then have g: "g = goal (cg_progress cg1)"
    and gs: "gs = further_goals (intermediate_goal (cg_progress cg1)) (final (cg_progress cg1))
        (block_size (cg_progress cg1))"
    by (simp_all add: prog goal_def)
  from Cons.IH [OF _ pub run1 left1 _ gs, where js = "js @ [rados_job r [set_pg_num (cg_pool_name cg) g]]"]
    Cons.prems(1,5) same
  obtain r' cg' where "pg_rounds (Suc (length gs)) pub t v om pgs
        (r1, js @ [rados_job r [set_pg_num (cg_pool_name cg) g]])
       = (Inr (), (r', (js @ [rados_job r [set_pg_num (cg_pool_name cg) g]])
            @ map (\<lambda>g. rados_job r [set_pg_num (cg_pool_name cg) g]) gs @ [rados_job r cmds]))"
    and "pg_running r' cg'" "is_complete (cg_progress cg')" "cg_pool_id cg' = cg_pool_id cg"
    by auto
  with step g show ?case
    by (auto simp: bnd_def)
qed

lemma new_pg_creating_ok:
  assumes "initial_count < final_count" and "0 < block"
  shows "\<exists>r cg. new_pg_creating i t h fsid cluster cmds pid name pgp_num initial_count final_count block = Inr r
     \<and> rq_kind r = PgCreatingRequest cg \<and> rq_state r = New \<and> \<not> rq_error r \<and> rq_minion_id r = None
     \<and> rq_fsid r = fsid \<and> rq_cluster_name r = cluster
     \<and> rq_commands r = cmds @ [set_pg_num name (min final_count (initial_count + block))]
     \<and> cg = \<lparr>cg_pool_id = pid, cg_pool_name = name, cg_progress = \<lparr>initial = initial_count,
          final = final_count, block_size = block, still_to_create = final_count - initial_count,
          intermediate_goal = min final_count (initial_count + block)\<rparr>,
         cg_post_create_commands = Some [(''osd pool set'', [(''pool'', JStr name),
                          (''var'', JStr ''pgp_num''), (''val'', JInt pgp_num)])],
         cg_phase = JidWait\<rparr>"
  using assms
  by (simp add: new_pg_creating_def pg_progress_init_def advance_goal_def is_final_block_def
      Let_def new_request_def goal_def)

lemma submit_char:
  "submit pub t minion (r, js) =
     (if rq_state r \<noteq> New then (Inl AssertionError, (r, js))
      else (let r1 = r\<lparr>rq_minion_id := Some minion\<rparr>;
                job = (case rq_kind r of
                    SaltRequest cmd args \<Rightarrow> SaltFn (Some minion) cmd args
                  | _ \<Rightarrow> rados_job r1 (rq_commands r))
            in case pub (length js) of
                 None \<Rightarrow> (Inl (PublishError ''Failed to publish job''), (r1, js @ [job]))
               | Some j \<Rightarrow> (Inr (), (r1\<lparr>rq_alive_at := Some t, rq_jid := Some j,
                                       rq_state := Submitted\<rparr>, js @ [job]))))"
  by (cases "rq_kind r"; cases "pub (length js)")
    (simp_all add: submit_def do_submit_def rados_submit_def salt_submit_def published_def
      py_simps rados_job_def Let_def)

section \<open>Properties\<close>

text \<open>
  C12. Whatever a request is given (a submission, the result of its remote job, any map), and
  whether the method returns or raises, the request only moves forward along
  New, Submitted, Complete, keeps its identity, completes at most once (the time of its
  completion never changes) and only adds to the published jobs.
\<close>

theorem request_lifecycle:
  "obeys moves_on (submit pub t minion) \<and> obeys moves_on (complete_jid t result)
   \<and> obeys moves_on (on_map pub t ty obj)"
  using moves_on_submit moves_on_complete_jid moves_on_on_map by blast

text \<open>
  Submitting publishes exactly one job, built from the request's commands, and marks the
  request Submitted with the id salt gave the job. When salt does not accept the job the
  PublishError leaves the request New, so that it is not mistaken for a running one; a
  request that is not New is refused with no effect at all.
\<close>

theorem submit_outcome:
  "case submit pub t minion (r, js) of
     (Inr _, (r', js')) \<Rightarrow> rq_state r = New \<and> rq_state r' = Submitted \<and> rq_jid r' \<noteq> None
        \<and> rq_jid r' = pub (length js) \<and> rq_minion_id r' = Some minion
        \<and> (\<exists>job. js' = js @ [job] \<and> job = (case rq_kind r of
              SaltRequest cmd args \<Rightarrow> SaltFn (Some minion) cmd args
            | _ \<Rightarrow> RadosCommands (Some minion) (rq_fsid r) (rq_cluster_name r) (rq_commands r)))
   | (Inl (PublishError _), (r', js')) \<Rightarrow> rq_state r' = New \<and> rq_jid r' = rq_jid r
        \<and> pub (length js) = None
   | (Inl e, s') \<Rightarrow> e = AssertionError \<and> rq_state r \<noteq> New \<and> s' = (r, js)"
  unfolding submit_char
  by (auto simp: Let_def rados_job_def split: option.splits request_kind.splits)


definition one_pool_map :: "pool list \<Rightarrow> osd_map_data" where
  "one_pool_map ps = \<lparr>om_fsid = ''f'', om_epoch = 7, om_osds = [], om_pools = ps, om_tree = [],
     om_buckets = [], om_rules = [], om_types = [], om_metadata = [], om_flags = None\<rparr>"

definition grown_map :: "int \<Rightarrow> sync_object" where
  "grown_map n = \<lparr>so_version = VInt 7, so_data = Some (DOsd (one_pool_map
     [\<lparr>pool_id = 3, pool_name = ''rbd'', pg_num = n, pg_placement_num = n, pool_flags = 1, pool_size = 2, pool_min_size = 1,
       crush_ruleset = 0\<rparr>]))\<rparr>"

definition grown_pgs :: "int \<Rightarrow> sync_object" where
  "grown_pgs n = \<lparr>so_version = VNone, so_data = Some (DPg \<lparr>by_osd = [],
     by_pool = [(3, [(''active+clean'', n), (''creating+peering'', 4)])],
     all_pgs = []\<rparr>)\<rparr>"

lemma obedient_grown: "obedient 7 3 grown_map grown_pgs"
  by (auto simp: obedient_def grown_map_def grown_pgs_def one_pool_map_def osd_map_of_def
      pools_by_id_def pg_counts_of_def pgs_not_creating_def dict_of_def)


text \<open>
  A request that leaves the number of PGs alone cannot be built: the progress object
  always sets a first goal, which asserts that there is one to set. The branch of the
  constructor that leaves out the \<open>pg_num\<close> command is never reached.
\<close>

theorem pg_creating_needs_a_change:
  "(\<exists>r. new_pg_creating i t h fsid cluster cmds pid name pgp_num initial_count final_count block = Inr r)
     \<longleftrightarrow> initial_count \<noteq> final_count"
  by (auto simp: new_pg_creating_def pg_progress_init_def advance_goal_def is_final_block_def Let_def)

text \<open>
  While it waits for the PGs of a block, an OSD map in which the pool's \<open>pg_num\<close> is
  not the one the request commanded completes it at once with an error; the expected
  value changes nothing and no command is sent.
\<close>

theorem pg_creation_interrupted:
  assumes "rq_kind r = PgCreatingRequest cg" and "cg_phase cg = PgMapWait"
    and "rq_state r = Submitted" and "rq_jid r = None"
    and "map_of (pools_by_id (osd_map_of obj)) (cg_pool_id cg) = Some p"
  shows "\<exists>r'. on_map pub t OsdMap obj (r, js) = (Inr (), (r', js))
     \<and> (if pg_num p = goal (cg_progress cg) then r' = r
        else rq_state r' = Complete \<and> rq_error r'
           \<and> status r' = ''Failed (PG creation interrupted (unexpected change to pg_num))'')"
  using assms
  by (simp add: on_map_def pg_on_map_def pg_check_map_def py_simps expected_count_def goal_def
      set_error_def complete_def status_def osd_status_def base_status_def)

definition growing :: pg_creating where
  "growing = \<lparr>cg_pool_id = 3, cg_pool_name = ''rbd'',
     cg_progress = \<lparr>initial = 8, final = 20, block_size = 5, still_to_create = 12,
       intermediate_goal = 13\<rparr>,
     cg_post_create_commands = Some [], cg_phase = PgMapWait\<rparr>"

definition growing_request :: request where
  "growing_request = (new_request ''u'' 0 (PgCreatingRequest growing) ''grow'' (Some ''f'')
     (Some ''ceph'') []) \<lparr>rq_state := Submitted\<rparr>"

theorem pg_creation_interrupted_witness:
  "\<exists>r'. on_map (\<lambda>_. None) 5 OsdMap (grown_map 12) (growing_request, []) = (Inr (), (r', []))
     \<and> rq_state r' = Complete \<and> rq_error r'"
  using pg_creation_interrupted [where r = growing_request and cg = growing
      and obj = "grown_map 12" and t = 5 and pub = "\<lambda>_. None" and js = "[]"]
  by (auto simp: growing_request_def growing_def new_request_def grown_map_def one_pool_map_def
      osd_map_of_def pools_by_id_def dict_of_def goal_def)

text \<open>
  A PoolCreatingRequest looks for its pool in the first OSD map that is new enough. Where
  the pool is there it goes on to wait for that pool's PGs. Where it is not, the request
  completes with an error, and yet goes on to declare that it waits for a PG summary: a
  summary delivered to it then fails on the missing pool id.
\<close>

theorem pool_creating_on_osd_map:
  assumes "rq_kind r = PoolCreatingRequest pc" and "\<not> pc_awaiting_pgs pc" and "pc_pool_id pc = None"
    and "rq_state r = Submitted" and "rq_jid r = None"
    and "rq_await_version r = Some v" and "0 < v" and "VInt v \<le> so_version obj"
  shows "\<exists>r'. on_map pub t OsdMap obj (r, js) = (Inr (), (r', js))
     \<and> awaiting_versions r' = [(PgSummary, None)]
     \<and> (case find_pool_named (pc_pool_name pc) (pools_by_id (osd_map_of obj)) of
          Some (i, p) \<Rightarrow> rq_state r' = Submitted \<and> rq_error r' = rq_error r
             \<and> rq_kind r' = PoolCreatingRequest (pc\<lparr>pc_awaiting_pgs := True, pc_pool_id := Some i,
                 pc_pg_count := Some (pg_num p)\<rparr>)
        | None \<Rightarrow> rq_state r' = Complete \<and> rq_error r'
             \<and> (\<forall>s. so_data s = Some (DPg summary) \<longrightarrow>
                  fst (on_map pub t PgSummary s (r', js)) = Inl (KeyError ''None'')))"
proof (cases "find_pool_named (pc_pool_name pc) (pools_by_id (osd_map_of obj))")
  case None
  with assms show ?thesis
    by (simp add: on_map_def pool_on_map_def py_simps truthy_version_def set_pc_def set_error_def
        complete_def awaiting_versions_def pg_counts_of_def)
next
  case (Some ip)
  then obtain i p where ip: "find_pool_named (pc_pool_name pc) (pools_by_id (osd_map_of obj)) = Some (i, p)"
    by (cases ip) auto
  let ?pc = "pc\<lparr>pc_awaiting_pgs := True, pc_pool_id := Some i, pc_pg_count := Some (pg_num p)\<rparr>"
  have "on_map pub t OsdMap obj (r, js) = (Inr (), (r\<lparr>rq_kind := PoolCreatingRequest ?pc\<rparr>, js))"
    using assms ip
    by (simp add: on_map_def pool_on_map_def py_simps truthy_version_def set_pc_def Let_def)
  with assms ip show ?thesis
    by (intro exI [of _ "r\<lparr>rq_kind := PoolCreatingRequest ?pc\<rparr>"]) (simp add: awaiting_versions_def)
qed

theorem pool_creating_on_osd_map_witness:
  "\<exists>r'. on_map (\<lambda>_. None) 5 OsdMap (grown_map 12)
     ((new_pool_creating ''u'' 0 ''create'' None None ''rbd'' [])
        \<lparr>rq_state := Submitted, rq_await_version := Some 7\<rparr>, []) = (Inr (), (r', []))
     \<and> rq_kind r' = PoolCreatingRequest \<lparr>pc_awaiting_pgs = True, pc_pool_name = ''rbd'',
         pc_pool_id = Some 3, pc_pg_count = Some 12\<rparr>"
  using pool_creating_on_osd_map [where r = "(new_pool_creating ''u'' 0 ''create'' None None ''rbd'' [])
        \<lparr>rq_state := Submitted, rq_await_version := Some 7\<rparr>"
      and pc = "\<lparr>pc_awaiting_pgs = False, pc_pool_name = ''rbd'', pc_pool_id = None, pc_pg_count = None\<rparr>"
      and v = 7 and obj = "grown_map 12" and t = 5 and pub = "\<lambda>_. None" and js = "[]"]
  by (auto simp: new_pool_creating_def new_request_def grown_map_def one_pool_map_def osd_map_of_def
      pools_by_id_def dict_of_def find_pool_named_def)

end
