(* ===== verification/EventLog.thy ===== *)
theory EventLog
  imports UserRequests
begin

text \<open>
  The event log: the part of Eventer (cthulhu/manager/eventer.py) every component writes
  to, and the events of user requests. Saving hands the pending events to the persister
  thread; the model keeps them in the order in which it received them.
\<close>

section \<open>Events\<close>

datatype severity = CRITICAL | ERROR | WARNING | RECOVERY | INFO

fun severity_value :: "severity \<Rightarrow> int" where
  "severity_value CRITICAL = 1"
| "severity_value ERROR = 2"
| "severity_value WARNING = 3"
| "severity_value RECOVERY = 4"
| "severity_value INFO = 5"

fun severity_str :: "severity \<Rightarrow> string" where
  "severity_str CRITICAL = ''CRITICAL''"
| "severity_str ERROR = ''ERROR''"
| "severity_str WARNING = ''WARNING''"
| "severity_str RECOVERY = ''RECOVERY''"
| "severity_str INFO = ''INFO''"

definition severity_from_str :: "string \<Rightarrow> exn + severity" where
  "severity_from_str s =
     item (dict_of (map (\<lambda>v. (severity_str v, v)) [CRITICAL, ERROR, WARNING, RECOVERY, INFO])) s s"

record assoc =
  as_fsid :: "string option"
  as_fqdn :: "string option"
  as_service_type :: "string option"
  as_service_id :: "string option"

definition no_assoc :: assoc where
  "no_assoc = \<lparr>as_fsid = None, as_fqdn = None, as_service_type = None, as_service_id = None\<rparr>"

record event =
  ev_when :: time
  ev_severity :: severity
  ev_message :: string
  ev_assoc :: assoc

record event_log =
  ev_pending :: "event list"
  ev_saved :: "event list"

type_synonym 'a ev_py = "(event_log, 'a) py"

section \<open>Emitting and saving\<close>

definition emit :: "time \<Rightarrow> severity \<Rightarrow> string \<Rightarrow> assoc \<Rightarrow> unit ev_py" where
  "emit t sev msg a =
     modify (\<lambda>l. l\<lparr>ev_pending := ev_pending l @
       [\<lparr>ev_when = t, ev_severity = sev, ev_message = msg, ev_assoc = a\<rparr>]\<rparr>)"

definition flush :: "unit ev_py" where
  "flush = modify (\<lambda>l. if ev_pending l \<noteq> []
     then l\<lparr>ev_saved := ev_saved l @ ev_pending l, ev_pending := []\<rparr> else l)"

definition request_assoc :: "request \<Rightarrow> assoc" where
  "request_assoc r = no_assoc\<lparr>as_fsid := associations r\<rparr>"

definition on_user_request_begin :: "time \<Rightarrow> request \<Rightarrow> unit ev_py" where
  "on_user_request_begin t r =
     bnd (emit t INFO (''Started: '' @ rq_headline r) (request_assoc r)) (\<lambda>_. flush)"

definition on_user_request_complete :: "time \<Rightarrow> request \<Rightarrow> unit ev_py" where
  "on_user_request_complete t r =
     bnd (if rq_error r
          then emit t WARNING (''Failed: '' @ rq_headline r @ '' ('' @ rq_error_message r @ '')'')
                 (request_assoc r)
          else emit t INFO (''Succeeded: '' @ rq_headline r) (request_assoc r)) (\<lambda>_. flush)"

section \<open>Nothing is lost\<close>

text \<open>
  The log is the saved events followed by the pending ones; every operation only appends
  to it, and what is saved stays saved.
\<close>

definition full_log :: "event_log \<Rightarrow> event list" where
  "full_log l = ev_saved l @ ev_pending l"

definition log_grows :: "event_log \<Rightarrow> event_log \<Rightarrow> bool" where
  "log_grows l l' \<longleftrightarrow> (\<exists>new. full_log l' = full_log l @ new) \<and> (\<exists>new. ev_saved l' = ev_saved l @ new)"

interpretation el: step_contract log_grows
  by unfold_locales (auto simp: log_grows_def)

lemma log_grows_emit [intro]: "obeys log_grows (emit t sev msg a)"
  unfolding emit_def by (rule el.obeys_modify) (simp add: log_grows_def full_log_def)

lemma log_grows_flush [intro]: "obeys log_grows flush"
  unfolding flush_def by (rule el.obeys_modify) (simp add: log_grows_def full_log_def)

lemma log_grows_begin [intro]: "obeys log_grows (on_user_request_begin t r)"
  unfolding on_user_request_begin_def by blast

lemma log_grows_complete [intro]: "obeys log_grows (on_user_request_complete t r)"
  unfolding on_user_request_complete_def by (intro el.obeys_bnd el.obeys_if) auto

lemma emit_ok [simp]: "emit t sev msg a l = (Inr (), l\<lparr>ev_pending := ev_pending l @
       [\<lparr>ev_when = t, ev_severity = sev, ev_message = msg, ev_assoc = a\<rparr>]\<rparr>)"
  by (simp add: emit_def modify_def)

lemma flush_ok [simp]: "flush l = (Inr (), \<lparr>ev_pending = [], ev_saved = full_log l\<rparr>)"
  by (cases l) (simp add: flush_def modify_def full_log_def)

lemma begin_ok [simp]: "fst (on_user_request_begin t r l) = Inr ()"
  by (simp add: on_user_request_begin_def bnd_def)

lemma complete_event_ok [simp]: "fst (on_user_request_complete t r l) = Inr ()"
  by (simp add: on_user_request_complete_def bnd_def)

end
