(* ===== verification/ServerMonitor.thy ===== *)
theory ServerMonitor
  imports EventLog
begin

text \<open>
  ServerMonitor (cthulhu/manager/server_monitor.py): which servers there are, which Ceph
  services run on them, and how heartbeats and cluster maps change that. The events it
  raises through Eventer (on_server, on_reboot, on_new_version) are here too.

  A ServerState object is shared between two dictionaries and the services that refer to
  it, so it lives in a heap under an address. There is one ServiceState object per
  service id, and the service id stands for it. Writes to the database are queued by the
  persister; the model keeps the queue.
\<close>

section \<open>State\<close>

datatype service_id = ServiceId (sid_fsid: string) (sid_type: string) (sid_id: string)

type_synonym address = nat

record server_state =
  ss_fqdn :: string
  ss_hostname :: string
  ss_managed :: bool
  ss_services :: "service_id list"
  ss_last_contact :: "time option"
  ss_boot_time :: "time option"
  ss_ceph_version :: "string option"

record service_state =
  sv_server :: "address option"
  sv_running :: bool
  sv_status :: "string option"

datatype db_op =
    CreateServer string string bool "time option"
  | UpdateServerFqdn string string
  | UpdateServerManaged string
  | UpdateServerContact string time
  | UpdateServerBoot string time
  | UpdateServerVersion string "string option"
  | DeleteServer string
  | CreateService service_id "string option" string
  | UpdateServiceRunning service_id bool
  | UpdateServiceStatus service_id "string option"
  | UpdateServiceLocation service_id string
  | DeleteService service_id
  | UpdateSyncObject string string string "int option" time "sync_data option"
  | ExpungeSyncObjects string

text \<open>\<open>sm_heap\<close> also keeps servers that no dictionary refers to any more.\<close>

record server_monitor =
  sm_heap :: "(address, server_state) dict"
  sm_next :: address
  sm_servers :: "(string, address) dict"
  sm_hostname_to_server :: "(string, address) dict"
  sm_fsid_services :: "(string, service_id list) dict"
  sm_services :: "(service_id, service_state) dict"
  sm_contact_period_cache :: "(string, int) dict"
  sm_db :: "db_op list"

definition init_server_monitor :: server_monitor where
  "init_server_monitor = \<lparr>sm_heap = [], sm_next = 0, sm_servers = [], sm_hostname_to_server = [],
     sm_fsid_services = [], sm_services = [], sm_contact_period_cache = [], sm_db = []\<rparr>"

type_synonym 'a sm_py = "(server_monitor \<times> event_log, 'a) py"

definition sm_get :: "(server_monitor \<Rightarrow> 'a) \<Rightarrow> 'a sm_py" where
  [py_simps]: "sm_get f = gets (\<lambda>(m, l). f m)"

definition sm_upd :: "(server_monitor \<Rightarrow> server_monitor) \<Rightarrow> unit sm_py" where
  [py_simps]: "sm_upd f = modify (\<lambda>(m, l). (f m, l))"

definition sm_emit :: "time \<Rightarrow> severity \<Rightarrow> string \<Rightarrow> assoc \<Rightarrow> unit sm_py" where
  "sm_emit t sev msg a = zoom snd (\<lambda>l (m, _). (m, l)) (emit t sev msg a)"

definition persist :: "db_op \<Rightarrow> unit sm_py" where
  "persist op' = sm_upd (\<lambda>m. m\<lparr>sm_db := sm_db m @ [op']\<rparr>)"

text \<open>Reading and writing the object at an address, which is always one of the heap.\<close>

definition server_at :: "address \<Rightarrow> server_state sm_py" where
  "server_at a = bnd (sm_get sm_heap) (\<lambda>h. lift_exn (item h a ''address''))"

definition set_server_at :: "address \<Rightarrow> (server_state \<Rightarrow> server_state) \<Rightarrow> unit sm_py" where
  "set_server_at a f = bnd (server_at a) (\<lambda>s.
     sm_upd (\<lambda>m. m\<lparr>sm_heap := AList.update a (f s) (sm_heap m)\<rparr>))"

definition sid_repr :: "service_id \<Rightarrow> string" where
  "sid_repr s = ''ServiceId('' @ join '', '' [sid_fsid s, sid_type s, sid_id s] @ '')''"

definition service_at :: "service_id \<Rightarrow> service_state sm_py" where
  "service_at s = bnd (sm_get sm_services) (\<lambda>d. lift_exn (item d s (sid_repr s)))"

definition set_service_at :: "service_id \<Rightarrow> (service_state \<Rightarrow> service_state) \<Rightarrow> unit sm_py" where
  "set_service_at s f = bnd (service_at s) (\<lambda>v.
     sm_upd (\<lambda>m. m\<lparr>sm_services := AList.update s (f v) (sm_services m)\<rparr>))"

section \<open>Events about servers\<close>

definition clusters_of :: "server_state \<Rightarrow> string list" where
  "clusters_of s = remdups (map sid_fsid (ss_services s))"

definition humanize_service :: "int \<Rightarrow> string \<Rightarrow> exn + string" where
  "humanize_service n ty =
     (case map_of [(''mon'', ''monitor service''), (''osd'', ''OSD''), (''mds'', ''MDS'')] ty of
        None \<Rightarrow> Inl (KeyError ty)
      | Some h \<Rightarrow> Inr (str_int n @ '' '' @ h @ (if n > 1 then ''s'' else '''')))"

definition server_fsid :: "server_state \<Rightarrow> string option" where
  "server_fsid s = (case clusters_of s of [f] \<Rightarrow> Some f | _ \<Rightarrow> None)"

definition counts_by_type :: "service_id list \<Rightarrow> (string, int) dict" where
  "counts_by_type ss =
     fold (\<lambda>s d. AList.update (sid_type s) (get_default d (sid_type s) 0 + 1) d) ss []"

fun humanize_counts :: "(string, int) dict \<Rightarrow> exn + string list" where
  "humanize_counts [] = Inr []"
| "humanize_counts ((ty, n) # d) = (case humanize_service n ty of
       Inl e \<Rightarrow> Inl e
     | Inr x \<Rightarrow> (case humanize_counts d of Inl e \<Rightarrow> Inl e | Inr xs \<Rightarrow> Inr (x # xs)))"

definition server_assoc :: "server_state \<Rightarrow> assoc" where
  "server_assoc s = no_assoc\<lparr>as_fqdn := Some (ss_fqdn s), as_fsid := server_fsid s\<rparr>"

definition on_server :: "time \<Rightarrow> server_state \<Rightarrow> unit sm_py" where
  "on_server t s =
     (let counts = counts_by_type (ss_services s); msg = ''Added server '' @ ss_fqdn s
      in if counts = [] then sm_emit t INFO msg (server_assoc s)
         else bnd (lift_exn (humanize_counts counts)) (\<lambda>xs.
              sm_emit t INFO (msg @ '' with '' @ join '', '' xs) (server_assoc s)))"

definition on_reboot :: "time \<Rightarrow> server_state \<Rightarrow> bool \<Rightarrow> unit sm_py" where
  "on_reboot t s expected =
     sm_emit t (if expected then INFO else WARNING) (''Server '' @ ss_fqdn s @ '' rebooted'') (server_assoc s)"

definition on_new_version :: "time \<Rightarrow> server_state \<Rightarrow> unit sm_py" where
  "on_new_version t s =
     sm_emit t INFO
       (case ss_ceph_version s of
          Some v \<Rightarrow> ''Ceph '' @ v @ '' installed on '' @ ss_fqdn s
        | None \<Rightarrow> ''Ceph uninstalled from '' @ ss_fqdn s) (server_assoc s)"

section \<open>Contact period\<close>

text \<open>\<open>pillar\<close> is salt's answer, \<open>None\<close> where some key of the path is missing.\<close>

definition pillar_contact_period :: "(string \<Rightarrow> int option) \<Rightarrow> string \<Rightarrow> int" where
  "pillar_contact_period pillar fqdn = (case pillar fqdn of None \<Rightarrow> 60 | Some s \<Rightarrow> s)"

definition get_contact_period :: "(string \<Rightarrow> int option) \<Rightarrow> string \<Rightarrow> int sm_py" where
  "get_contact_period pillar fqdn =
     bnd (sm_get sm_contact_period_cache) (\<lambda>c. case map_of c fqdn of
         Some p \<Rightarrow> ret p
       | None \<Rightarrow> (let p = pillar_contact_period pillar fqdn
                  in bnd (sm_upd (\<lambda>m. m\<lparr>sm_contact_period_cache :=
                        AList.update fqdn p (sm_contact_period_cache m)\<rparr>)) (\<lambda>_. ret p)))"

section \<open>OSDs by CRUSH host\<close>

definition CRUSH_HOST_TYPE :: string where "CRUSH_HOST_TYPE = ''host''"

definition CRUSH_OSD_TYPE :: string where "CRUSH_OSD_TYPE = ''osd''"

text \<open>The recursion stops with an error at the interpreter's depth limit \<open>k\<close>.\<close>

fun find_descendants :: "nat \<Rightarrow> (int, tree_node) dict \<Rightarrow> tree_node \<Rightarrow> exn + tree_node list"
and find_descendants_loop :: "nat \<Rightarrow> (int, tree_node) dict \<Rightarrow> int list \<Rightarrow> exn + tree_node list"
where
  "find_descendants 0 nodes n = Inl recursion_error"
| "find_descendants (Suc k) nodes n =
     (if node_type n = CRUSH_OSD_TYPE then Inr [n]
      else (case node_children n of
              None \<Rightarrow> Inl (KeyError ''children'')
            | Some cs \<Rightarrow> find_descendants_loop k nodes cs))"
| "find_descendants_loop k nodes [] = Inr []"
| "find_descendants_loop k nodes (c # cs) =
     (case item nodes c (str_int c) of
        Inl e \<Rightarrow> Inl e
      | Inr child \<Rightarrow> (case find_descendants k nodes child of
          Inl e \<Rightarrow> Inl e
        | Inr xs \<Rightarrow> (case find_descendants_loop k nodes cs of
            Inl e \<Rightarrow> Inl e
          | Inr ys \<Rightarrow> Inr (xs @ ys))))"

fun osd_id_to_host ::
  "nat \<Rightarrow> (int, tree_node) dict \<Rightarrow> tree_node list \<Rightarrow> (int, string) dict \<Rightarrow> exn + (int, string) dict" where
  "osd_id_to_host k nodes [] acc = Inr acc"
| "osd_id_to_host k nodes (n # ns) acc =
     (if node_type n = CRUSH_HOST_TYPE then
        (case find_descendants k nodes n of
           Inl e \<Rightarrow> Inl e
         | Inr os \<Rightarrow> osd_id_to_host k nodes ns
             (fold (\<lambda>o' d. AList.update (node_id o') (node_name n) d) os acc))
      else osd_id_to_host k nodes ns acc)"

definition get_hostname_to_osds ::
  "nat \<Rightarrow> osd_map_data \<Rightarrow> exn + (string, osd_entry list) dict" where
  "get_hostname_to_osds k d =
     (case osd_id_to_host k (get_tree_nodes_by_id d) (om_tree d) [] of
        Inl e \<Rightarrow> Inl e
      | Inr hosts \<Rightarrow> Inr (fold (\<lambda>o' m. case map_of hosts (osd o') of
            None \<Rightarrow> m
          | Some h \<Rightarrow> AList.update h (get_default m h [] @ [o']) m) (om_osds d) []))"

section \<open>Services and servers in the dictionaries\<close>

definition fsid_list :: "string \<Rightarrow> service_id list sm_py" where
  \<comment> \<open>reading the defaultdict creates the entry\<close>
  "fsid_list f =
     bnd (sm_get sm_fsid_services) (\<lambda>d. case map_of d f of
         Some ss \<Rightarrow> ret ss
       | None \<Rightarrow> bnd (sm_upd (\<lambda>m. m\<lparr>sm_fsid_services := AList.update f [] (sm_fsid_services m)\<rparr>))
                   (\<lambda>_. ret []))"

definition set_fsid_list :: "string \<Rightarrow> service_id list \<Rightarrow> unit sm_py" where
  "set_fsid_list f ss = sm_upd (\<lambda>m. m\<lparr>sm_fsid_services := AList.update f ss (sm_fsid_services m)\<rparr>)"

definition fsid_list_remove :: "service_id \<Rightarrow> unit sm_py" where
  "fsid_list_remove s =
     bnd (fsid_list (sid_fsid s)) (\<lambda>ss.
     if s \<in> set ss then set_fsid_list (sid_fsid s) (remove1 s ss)
     else raise (ValueError ''list.remove(x): x not in list''))"

definition del_service :: "service_id \<Rightarrow> unit sm_py" where
  "del_service s = bnd (service_at s) (\<lambda>_.
     sm_upd (\<lambda>m. m\<lparr>sm_services := AList.delete s (sm_services m)\<rparr>))"

definition server_add_service :: "address \<Rightarrow> service_id \<Rightarrow> unit sm_py" where
  "server_add_service a s =
     set_server_at a (\<lambda>v. v\<lparr>ss_services := (if s \<in> set (ss_services v) then ss_services v
                                      else ss_services v @ [s])\<rparr>)"

definition server_del_service :: "address \<Rightarrow> service_id \<Rightarrow> unit sm_py" where
  "server_del_service a s =
     bnd (server_at a) (\<lambda>v.
     if s \<in> set (ss_services v) then set_server_at a (\<lambda>v. v\<lparr>ss_services := remove1 s (ss_services v)\<rparr>)
     else raise (KeyError (sid_repr s)))"

text \<open>\<open>new_server\<close> allocates the object that \<open>inject_server\<close> files.\<close>

definition new_server :: "server_state \<Rightarrow> address sm_py" where
  "new_server s =
     bnd (sm_get sm_next) (\<lambda>a.
     bnd (sm_upd (\<lambda>m. m\<lparr>sm_heap := AList.update a s (sm_heap m), sm_next := Suc a\<rparr>)) (\<lambda>_. ret a))"

definition inject_server :: "address \<Rightarrow> unit sm_py" where
  "inject_server a =
     bnd (server_at a) (\<lambda>s.
     sm_upd (\<lambda>m. m\<lparr>sm_hostname_to_server := AList.update (ss_hostname s) a (sm_hostname_to_server m),
                  sm_servers := AList.update (ss_fqdn s) a (sm_servers m)\<rparr>))"

definition new_service_state :: service_state where
  "new_service_state = \<lparr>sv_server = None, sv_running = True, sv_status = None\<rparr>"

definition inject_service :: "service_id \<Rightarrow> string \<Rightarrow> unit sm_py" where
  "inject_service s fqdn =
     bnd (sm_get sm_servers) (\<lambda>d.
     bnd (lift_exn (item d fqdn fqdn)) (\<lambda>a.
     bnd (sm_upd (\<lambda>m. m\<lparr>sm_services := AList.update s
            (new_service_state\<lparr>sv_server := Some a\<rparr>) (sm_services m)\<rparr>)) (\<lambda>_.
     bnd (server_add_service a s) (\<lambda>_.
     bnd (fsid_list (sid_fsid s)) (\<lambda>ss.
     set_fsid_list (sid_fsid s) (ss @ [s]))))))"

definition forget_service :: "service_id \<Rightarrow> unit sm_py" where
  "forget_service s =
     bnd (service_at s) (\<lambda>v.
     bnd (fsid_list_remove s) (\<lambda>_.
     bnd (del_service s) (\<lambda>_.
     bnd (case sv_server v of None \<Rightarrow> ret () | Some a \<Rightarrow> server_del_service a s) (\<lambda>_.
     persist (DeleteService s)))))"

text \<open>\<open>v\<close> is the service's record as it was before any of the changes below.\<close>

definition refresh_service :: "service_id \<Rightarrow> bool \<Rightarrow> string option \<Rightarrow> service_state \<Rightarrow> unit sm_py" where
  "refresh_service s running st v =
     bnd (guarded (running \<noteq> sv_running v)
       (bnd (set_service_at s (\<lambda>v. v\<lparr>sv_running := running\<rparr>)) (\<lambda>_.
        persist (UpdateServiceRunning s running)))) (\<lambda>_.
     guarded (st \<noteq> sv_status v)
       (bnd (set_service_at s (\<lambda>v. v\<lparr>sv_status := st\<rparr>)) (\<lambda>_.
        persist (UpdateServiceStatus s st))))"

definition expunge_if_empty :: "address option \<Rightarrow> unit sm_py" where
  "expunge_if_empty old = (case old of
       None \<Rightarrow> raise AttributeError
     | Some a \<Rightarrow>
         bnd (server_at a) (\<lambda>sv.
         guarded (\<not> ss_managed sv \<and> ss_services sv = [])
           (bnd (sm_get sm_servers) (\<lambda>d.
            bnd (lift_exn (item d (ss_fqdn sv) (ss_fqdn sv))) (\<lambda>_.
            bnd (sm_upd (\<lambda>m. m\<lparr>sm_servers := AList.delete (ss_fqdn sv) (sm_servers m)\<rparr>)) (\<lambda>_.
            persist (DeleteServer (ss_fqdn sv))))))))"

definition move_service :: "address \<Rightarrow> service_id \<Rightarrow> service_state \<Rightarrow> unit sm_py" where
  "move_service a s v =
     guarded (sv_server v \<noteq> Some a)
       (bnd (set_service_at s (\<lambda>v. v\<lparr>sv_server := Some a\<rparr>)) (\<lambda>_.
        bnd (case sv_server v of None \<Rightarrow> ret () | Some old \<Rightarrow> server_del_service old s) (\<lambda>_.
        bnd (server_add_service a s) (\<lambda>_.
        bnd (server_at a) (\<lambda>sv.
        bnd (persist (UpdateServiceLocation s (ss_fqdn sv))) (\<lambda>_.
        expunge_if_empty (sv_server v)))))))"

definition register_service ::
  "address \<Rightarrow> service_id \<Rightarrow> bool \<Rightarrow> string option \<Rightarrow> unit sm_py" where
  "register_service a s running st =
     bnd (sm_get sm_services) (\<lambda>d.
     bnd (guarded (\<not> has_key d s)
       (bnd (server_at a) (\<lambda>sv.
        bnd (inject_service s (ss_fqdn sv)) (\<lambda>_.
        persist (CreateService s st (ss_fqdn sv)))))) (\<lambda>_.
     bnd (service_at s) (\<lambda>v.
     bnd (refresh_service s running st v) (\<lambda>_.
     move_service a s v))))"

section \<open>Cluster maps\<close>

text \<open>
  The last OSD under the host name that is known to run on a managed server decides;
  a known service without a server raises.
\<close>

fun crush_alias :: "service_id list \<Rightarrow> address option \<Rightarrow> address option sm_py" where
  "crush_alias [] acc = ret acc"
| "crush_alias (s # ss) acc =
     bnd (sm_get sm_services) (\<lambda>d. case map_of d s of
         None \<Rightarrow> crush_alias ss acc
       | Some v \<Rightarrow> (case sv_server v of
           None \<Rightarrow> raise AttributeError
         | Some a \<Rightarrow> bnd (server_at a) (\<lambda>sv.
             crush_alias ss (if ss_managed sv then Some a else acc))))"

definition osd_service :: "string \<Rightarrow> osd_entry \<Rightarrow> service_id" where
  "osd_service f o' = ServiceId f ''osd'' (str_int (osd o'))"

definition map_server :: "string \<Rightarrow> address sm_py" where
  "map_server hostname =
     bnd (sm_get sm_hostname_to_server) (\<lambda>d. case map_of d hostname of
         Some a \<Rightarrow> ret a
       | None \<Rightarrow>
           bnd (new_server \<lparr>ss_fqdn = hostname, ss_hostname = hostname, ss_managed = False,
                  ss_services = [], ss_last_contact = None, ss_boot_time = None,
                  ss_ceph_version = None\<rparr>) (\<lambda>a.
           bnd (inject_server a) (\<lambda>_.
           bnd (persist (CreateServer hostname hostname False None)) (\<lambda>_. ret a))))"

definition on_host_osds :: "string \<Rightarrow> string \<Rightarrow> osd_entry list \<Rightarrow> unit sm_py" where
  "on_host_osds f hostname osds =
     (let id_to_osd = dict_of (map (\<lambda>o'. (osd_service f o', o')) osds)
      in bnd (sm_get sm_hostname_to_server) (\<lambda>d.
         bnd (if has_key d hostname then ret None else crush_alias (keys id_to_osd) None) (\<lambda>crush_alias_to.
         guarded (crush_alias_to = None)
           (bnd (map_server hostname) (\<lambda>a.
            for_each (\<lambda>(s, o').
                bnd (server_at a) (\<lambda>sv.
                guarded (\<not> ss_managed sv) (register_service a s (osd_up o' \<noteq> 0) None)))
              id_to_osd)))))"

definition forget_stale :: "string \<Rightarrow> string \<Rightarrow> service_id list \<Rightarrow> unit sm_py" where
  "forget_stale f ty in_map =
     bnd (fsid_list f) (\<lambda>ss.
     for_each forget_service
       (filter (\<lambda>s. s \<notin> set in_map) (remdups (filter (\<lambda>s. sid_type s = ty) ss))))"

definition on_osd_map :: "nat \<Rightarrow> osd_map_data \<Rightarrow> unit sm_py" where
  "on_osd_map k d =
     bnd (lift_exn (get_hostname_to_osds k d)) (\<lambda>hosts.
     bnd (for_each (\<lambda>(hostname, osds). on_host_osds (om_fsid d) hostname osds) hosts) (\<lambda>_.
     forget_stale (om_fsid d) ''osd''
       (concat (map (\<lambda>(h, osds). map (osd_service (om_fsid d)) osds) hosts))))"

definition on_mds_map :: "string \<Rightarrow> mds_map_data \<Rightarrow> unit sm_py" where
  "on_mds_map f names = forget_stale f ''mds'' (map (ServiceId f ''mds'') names)"

definition on_mon_map :: "mon_map_data \<Rightarrow> unit sm_py" where
  "on_mon_map d =
     forget_stale (mm_fsid d) ''mon'' (map (\<lambda>m. ServiceId (mm_fsid d) ''mon'' (mon_name m)) (mm_mons d))"

section \<open>Heartbeats\<close>

record hb_service =
  hs_id :: service_id
  hs_status :: "string option"

record heartbeat =
  hb_boot_time :: int
  hb_ceph_version :: "string option"
  hb_services :: "hb_service list"

definition REBOOT_THRESHOLD :: time where "REBOOT_THRESHOLD = seconds 10"

text \<open>
  \<open>grains\<close> gives the host name salt has for a minion. The first step finds the server:
  its address if it is known, and whether it has just come under management.
\<close>

definition manage_server :: "address \<Rightarrow> unit sm_py" where
  "manage_server a =
     bnd (set_server_at a (\<lambda>s. s\<lparr>ss_managed := True\<rparr>)) (\<lambda>_.
     bnd (server_at a) (\<lambda>s. persist (UpdateServerManaged (ss_fqdn s))))"

definition take_over :: "address \<Rightarrow> string \<Rightarrow> unit sm_py" where
  "take_over a fqdn =
     bnd (set_server_at a (\<lambda>s. s\<lparr>ss_managed := True\<rparr>)) (\<lambda>_.
     bnd (server_at a) (\<lambda>s.
     bnd (sm_get sm_servers) (\<lambda>d.
     bnd (lift_exn (item d (ss_fqdn s) (ss_fqdn s))) (\<lambda>_.
     bnd (sm_upd (\<lambda>m. m\<lparr>sm_servers := AList.delete (ss_fqdn s) (sm_servers m)\<rparr>)) (\<lambda>_.
     bnd (set_server_at a (\<lambda>s. s\<lparr>ss_fqdn := fqdn\<rparr>)) (\<lambda>_.
     bnd (sm_upd (\<lambda>m. m\<lparr>sm_servers := AList.update fqdn a (sm_servers m)\<rparr>)) (\<lambda>_.
     persist (UpdateServerFqdn (ss_fqdn s) fqdn))))))))"

definition find_server :: "(string \<Rightarrow> exn + string) \<Rightarrow> string \<Rightarrow> (address option \<times> bool) sm_py" where
  "find_server grains fqdn =
     bnd (sm_get sm_servers) (\<lambda>d. case map_of d fqdn of
         Some a \<Rightarrow>
           bnd (server_at a) (\<lambda>s.
           if ss_managed s then ret (Some a, False)
           else bnd (manage_server a) (\<lambda>_. ret (Some a, True)))
       | None \<Rightarrow>
           bnd (lift_exn (grains fqdn)) (\<lambda>hostname.
           bnd (sm_get sm_hostname_to_server) (\<lambda>h. case map_of h hostname of
               None \<Rightarrow> ret (None, False)
             | Some a \<Rightarrow>
                 bnd (server_at a) (\<lambda>s.
                 if ss_managed s then ret (None, False)
                 else bnd (take_over a fqdn) (\<lambda>_. ret (Some a, True))))))"

definition create_server ::
  "(string \<Rightarrow> exn + string) \<Rightarrow> time \<Rightarrow> string \<Rightarrow> heartbeat \<Rightarrow> address sm_py" where
  "create_server grains t fqdn hb =
     bnd (lift_exn (grains fqdn)) (\<lambda>hostname.
     bnd (new_server \<lparr>ss_fqdn = fqdn, ss_hostname = hostname, ss_managed = True, ss_services = [],
            ss_last_contact = Some t, ss_boot_time = Some (seconds (hb_boot_time hb)),
            ss_ceph_version = hb_ceph_version hb\<rparr>) (\<lambda>a.
     bnd (inject_server a) (\<lambda>_.
     bnd (persist (CreateServer fqdn hostname True (Some t))) (\<lambda>_. ret a))))"

definition check_boot_time :: "time \<Rightarrow> address \<Rightarrow> time \<Rightarrow> unit sm_py" where
  "check_boot_time t a boot_time =
     bnd (server_at a) (\<lambda>s.
     guarded (ss_boot_time s \<noteq> Some boot_time)
       (bnd (set_server_at a (\<lambda>s. s\<lparr>ss_boot_time := Some boot_time\<rparr>)) (\<lambda>_.
        bnd (persist (UpdateServerBoot (ss_fqdn s) boot_time)) (\<lambda>_.
        case ss_boot_time s of
          None \<Rightarrow> ret ()
        | Some old_boot_time \<Rightarrow>
            if boot_time < old_boot_time then ret ()
            else if boot_time - old_boot_time < REBOOT_THRESHOLD then ret ()
            else bnd (server_at a) (\<lambda>s'. on_reboot t s' False)))))"

definition check_version :: "time \<Rightarrow> address \<Rightarrow> heartbeat \<Rightarrow> bool \<Rightarrow> unit sm_py" where
  "check_version t a hb fresh =
     bnd (server_at a) (\<lambda>s.
     let upgrading = hb_ceph_version hb = None \<and> hb_services hb \<noteq> []
     in guarded (ss_ceph_version s \<noteq> hb_ceph_version hb \<and> \<not> (hb_ceph_version hb = None \<and> upgrading))
       (bnd (set_server_at a (\<lambda>s. s\<lparr>ss_ceph_version := hb_ceph_version hb\<rparr>)) (\<lambda>_.
        bnd (persist (UpdateServerVersion (ss_fqdn s) (hb_ceph_version hb))) (\<lambda>_.
        guarded (\<not> fresh) (bnd (server_at a) (\<lambda>s'. on_new_version t s'))))))"

definition stop_unseen :: "address \<Rightarrow> service_id list \<Rightarrow> unit sm_py" where
  "stop_unseen a seen =
     bnd (server_at a) (\<lambda>s.
     for_each (\<lambda>x.
         bnd (service_at x) (\<lambda>v.
         guarded (sv_running v) (set_service_at x (\<lambda>v. v\<lparr>sv_running := False\<rparr>))))
       (filter (\<lambda>x. x \<notin> set seen) (ss_services s)
        @ filter (\<lambda>x. x \<notin> set (ss_services s)) (remdups seen)))"

definition on_server_heartbeat ::
  "(string \<Rightarrow> exn + string) \<Rightarrow> time \<Rightarrow> string \<Rightarrow> heartbeat \<Rightarrow> unit sm_py" where
  "on_server_heartbeat grains t fqdn hb =
     bnd (find_server grains fqdn) (\<lambda>(found, newly_managed).
     bnd (case found of None \<Rightarrow> create_server grains t fqdn hb | Some a \<Rightarrow> ret a) (\<lambda>a.
     bnd (set_server_at a (\<lambda>s. s\<lparr>ss_last_contact := Some t\<rparr>)) (\<lambda>_.
     bnd (server_at a) (\<lambda>s.
     bnd (persist (UpdateServerContact (ss_fqdn s) t)) (\<lambda>_.
     bnd (check_boot_time t a (seconds (hb_boot_time hb))) (\<lambda>_.
     bnd (check_version t a hb (found = None \<or> newly_managed)) (\<lambda>_.
     bnd (for_each (\<lambda>x. register_service a (hs_id x) True (hs_status x)) (hb_services hb)) (\<lambda>_.
     bnd (stop_unseen a (map hs_id (hb_services hb))) (\<lambda>_.
     guarded (found = None \<or> newly_managed)
       (bnd (server_at a) (\<lambda>s'. on_server t s')))))))))))"

section \<open>Looking up and deleting\<close>

definition get_all_cluster :: "string \<Rightarrow> address list sm_py" where
  "get_all_cluster f =
     bnd (fsid_list f) (\<lambda>ss.
     bnd (sm_get sm_services) (\<lambda>d.
     ret (remdups (concat (map (\<lambda>s. case map_of d s of
         None \<Rightarrow> [] | Some v \<Rightarrow> (case sv_server v of None \<Rightarrow> [] | Some a \<Rightarrow> [a])) ss)))))"

definition get_all_servers :: "server_monitor \<Rightarrow> address list" where
  "get_all_servers m = vals (sm_servers m)"

definition get_one :: "string \<Rightarrow> address sm_py" where
  "get_one fqdn = bnd (sm_get sm_servers) (\<lambda>d. lift_exn (item d fqdn fqdn))"

definition get_by_service :: "server_monitor \<Rightarrow> service_id \<Rightarrow> server_state option" where
  "get_by_service m s = (case map_of (sm_services m) s of
       None \<Rightarrow> None
     | Some v \<Rightarrow> (case sv_server v of None \<Rightarrow> None | Some a \<Rightarrow> map_of (sm_heap m) a))"

definition list_by_service :: "server_monitor \<Rightarrow> service_id list \<Rightarrow> (service_id \<times> string option) list" where
  "list_by_service m ss = map (\<lambda>s. (s, map_option ss_fqdn (get_by_service m s))) ss"

definition get_services :: "server_monitor \<Rightarrow> service_id list \<Rightarrow> service_state option list" where
  "get_services m ss = map (map_of (sm_services m)) ss"

definition delete_server :: "string \<Rightarrow> unit sm_py" where
  "delete_server fqdn =
     bnd (get_one fqdn) (\<lambda>a.
     bnd (server_at a) (\<lambda>s.
     bnd (for_each (\<lambda>x.
            bnd (del_service x) (\<lambda>_.
            bnd (fsid_list_remove x) (\<lambda>_.
            persist (DeleteService x)))) (ss_services s)) (\<lambda>_.
     bnd (sm_upd (\<lambda>m. m\<lparr>sm_hostname_to_server := AList.delete (ss_hostname s) (sm_hostname_to_server m)\<rparr>)) (\<lambda>_.
     bnd (sm_upd (\<lambda>m. m\<lparr>sm_servers := AList.delete fqdn (sm_servers m)\<rparr>)) (\<lambda>_.
     persist (DeleteServer fqdn))))))"

definition delete_cluster_services :: "string \<Rightarrow> unit sm_py" where
  "delete_cluster_services f =
     bnd (sm_get sm_fsid_services) (\<lambda>d. case map_of d f of
         None \<Rightarrow> ret ()
       | Some ss \<Rightarrow>
           bnd (for_each (\<lambda>s.
               bnd (service_at s) (\<lambda>v.
               bnd (del_service s) (\<lambda>_.
               bnd (case sv_server v of None \<Rightarrow> ret () | Some a \<Rightarrow> server_del_service a s) (\<lambda>_.
               bnd (persist (DeleteService s)) (\<lambda>_.
               case sv_server v of
                 None \<Rightarrow> ret ()
               | Some a \<Rightarrow> bnd (server_at a) (\<lambda>sv.
                   guarded (\<not> ss_managed sv \<and> ss_services sv = []) (delete_server (ss_fqdn sv)))))))) ss) (\<lambda>_.
           sm_upd (\<lambda>m. m\<lparr>sm_fsid_services := AList.delete f (sm_fsid_services m)\<rparr>)))"

section \<open>Dumping a server\<close>

record server_dump =
  sd_fqdn :: string
  sd_hostname :: string
  sd_managed :: bool
  sd_last_contact :: "string option"
  sd_boot_time :: "string option"
  sd_ceph_version :: "string option"
  sd_services :: "(service_id \<times> bool) list"
  sd_frontend_addr :: "string option"
  sd_backend_addr :: "string option"

definition running_of :: "server_monitor \<Rightarrow> service_id \<Rightarrow> bool" where
  "running_of m s = (case map_of (sm_services m) s of None \<Rightarrow> False | Some v \<Rightarrow> sv_running v)"

definition dump_with :: "server_monitor \<Rightarrow> server_state \<Rightarrow> service_id list \<Rightarrow> string option \<Rightarrow>
    string option \<Rightarrow> server_dump" where
  "dump_with m s ss front back =
     \<lparr>sd_fqdn = ss_fqdn s, sd_hostname = ss_hostname s, sd_managed = ss_managed s,
      sd_last_contact = map_option isoformat (ss_last_contact s),
      sd_boot_time = map_option isoformat (ss_boot_time s),
      sd_ceph_version = ss_ceph_version s, sd_services = map (\<lambda>x. (x, running_of m x)) ss,
      sd_frontend_addr = front, sd_backend_addr = back\<rparr>"

definition dump :: "server_monitor \<Rightarrow> server_state \<Rightarrow> server_dump" where
  "dump m s = dump_with m s (ss_services s) None None"

definition addr_host :: "string \<Rightarrow> string" where
  "addr_host addr = hd (split_on (CHR '':'') addr)"

text \<open>The addresses the mon map and the OSD map give for the server's services, in their order.\<close>

fun dump_addrs :: "mon_map_data option \<Rightarrow> osd_map_data option \<Rightarrow> service_id list \<Rightarrow>
    string option \<Rightarrow> string option \<Rightarrow> exn + (string option \<times> string option)" where
  "dump_addrs mm om [] front back = Inr (front, back)"
| "dump_addrs mm om (s # ss) front back =
     (case (if front = None \<and> sid_type s = ''mon'' then
              (case mm of
                 None \<Rightarrow> Inr front
               | Some d \<Rightarrow> (case filter (\<lambda>m. mon_name m = sid_id s) (mm_mons d) of
                     [] \<Rightarrow> Inl IndexError
                   | m # _ \<Rightarrow> Inr (Some (addr_host (mon_addr m)))))
            else Inr front) of
        Inl e \<Rightarrow> Inl e
      | Inr front1 \<Rightarrow>
          (if (front1 = None \<or> back = None) \<and> sid_type s = ''osd'' then
             (case om of
                None \<Rightarrow> dump_addrs mm om ss front1 back
              | Some d \<Rightarrow> (case filter (\<lambda>o'. str_int (osd o') = sid_id s) (om_osds d) of
                    [] \<Rightarrow> dump_addrs mm om ss front1 back
                  | o' # _ \<Rightarrow> dump_addrs mm om ss (Some (addr_host (public_addr o')))
                               (Some (addr_host (cluster_addr o')))))
           else dump_addrs mm om ss front1 back))"

definition dump_cluster :: "server_monitor \<Rightarrow> server_state \<Rightarrow> string \<Rightarrow> mon_map_data option \<Rightarrow>
    osd_map_data option \<Rightarrow> exn + server_dump" where
  "dump_cluster m s fsid mm om =
     (let ss = filter (\<lambda>x. sid_fsid x = fsid) (ss_services s)
      in case dump_addrs mm om ss None None of
           Inl e \<Rightarrow> Inl e
         | Inr (front, back) \<Rightarrow> Inr (dump_with m s ss front back))"

section \<open>Consistency of the dictionaries\<close>

text \<open>The servers that a dictionary or a service still refers to.\<close>

definition live :: "server_monitor \<Rightarrow> address \<Rightarrow> bool" where
  "live m a \<longleftrightarrow> (\<exists>k. map_of (sm_servers m) k = Some a) \<or> (\<exists>k. map_of (sm_hostname_to_server m) k = Some a)
     \<or> (\<exists>s v. map_of (sm_services m) s = Some v \<and> sv_server v = Some a)"

definition listed :: "server_monitor \<Rightarrow> string \<Rightarrow> service_id list" where
  "listed m f = get_default (sm_fsid_services m) f []"

text \<open>
  Every service is on a server that lists it and in the list of its cluster; every live
  server and every cluster list only known services, each once, and a server only its own.
\<close>

definition consistent :: "server_monitor \<Rightarrow> bool" where
  "consistent m \<longleftrightarrow>
     (\<forall>s v. map_of (sm_services m) s = Some v \<longrightarrow>
        (\<exists>a sv. sv_server v = Some a \<and> map_of (sm_heap m) a = Some sv \<and> s \<in> set (ss_services sv))
        \<and> s \<in> set (listed m (sid_fsid s)))
     \<and> (\<forall>f s. s \<in> set (listed m f) \<longrightarrow> sid_fsid s = f \<and> has_key (sm_services m) s)
     \<and> (\<forall>f. distinct (listed m f))
     \<and> (\<forall>a sv s. live m a \<longrightarrow> map_of (sm_heap m) a = Some sv \<longrightarrow> s \<in> set (ss_services sv) \<longrightarrow>
          (\<exists>v. map_of (sm_services m) s = Some v \<and> sv_server v = Some a))
     \<and> (\<forall>a sv. map_of (sm_heap m) a = Some sv \<longrightarrow> distinct (ss_services sv))
     \<and> (\<forall>a. live m a \<longrightarrow> has_key (sm_heap m) a)
     \<and> (\<forall>a. has_key (sm_heap m) a \<longrightarrow> a < sm_next m)"

lemma consistent_init: "consistent init_server_monitor"
  by (simp add: consistent_def init_server_monitor_def live_def listed_def get_default_def has_key_def)

lemma consistentD:
  assumes "consistent m" and "map_of (sm_services m) s = Some v"
  obtains a sv where "sv_server v = Some a" and "map_of (sm_heap m) a = Some sv"
    and "s \<in> set (ss_services sv)" and "s \<in> set (listed m (sid_fsid s))" and "live m a"
proof -
  from assms obtain a sv where "sv_server v = Some a" "map_of (sm_heap m) a = Some sv"
    "s \<in> set (ss_services sv)" "s \<in> set (listed m (sid_fsid s))"
    unfolding consistent_def by blast
  with assms(2) show ?thesis by (intro that) (auto simp: live_def)
qed

lemma consistentI:
  assumes "\<And>s v. map_of (sm_services m) s = Some v \<Longrightarrow>
        \<exists>a sv. sv_server v = Some a \<and> map_of (sm_heap m) a = Some sv \<and> s \<in> set (ss_services sv)"
    and "\<And>s v. map_of (sm_services m) s = Some v \<Longrightarrow> s \<in> set (listed m (sid_fsid s))"
    and "\<And>f s. s \<in> set (listed m f) \<Longrightarrow> sid_fsid s = f \<and> has_key (sm_services m) s"
    and "\<And>f. distinct (listed m f)"
    and "\<And>a sv s. live m a \<Longrightarrow> map_of (sm_heap m) a = Some sv \<Longrightarrow> s \<in> set (ss_services sv) \<Longrightarrow>
          \<exists>v. map_of (sm_services m) s = Some v \<and> sv_server v = Some a"
    and "\<And>a sv. map_of (sm_heap m) a = Some sv \<Longrightarrow> distinct (ss_services sv)"
    and "\<And>a. live m a \<Longrightarrow> has_key (sm_heap m) a"
    and "\<And>a. has_key (sm_heap m) a \<Longrightarrow> a < sm_next m"
  shows "consistent m"
  unfolding consistent_def using assms by blast

lemma consistent_parts:
  assumes "consistent m"
  shows "distinct (listed m f)"
    and "map_of (sm_heap m) a = Some sv \<Longrightarrow> distinct (ss_services sv)"
    and "live m a \<Longrightarrow> has_key (sm_heap m) a"
    and "has_key (sm_heap m) a \<Longrightarrow> a < sm_next m"
  using assms unfolding consistent_def by blast+

lemma listed_in_map: "s \<in> set (listed m f) \<Longrightarrow> map_of (sm_fsid_services m) f = Some (listed m f)"
  by (cases "map_of (sm_fsid_services m) f") (auto simp: listed_def get_default_def)

text \<open>The state after a service is forgotten.\<close>

definition without_service :: "service_id \<Rightarrow> address \<Rightarrow> server_state \<Rightarrow> server_monitor \<Rightarrow> server_monitor" where
  "without_service s a sv m = m\<lparr>
     sm_fsid_services := AList.update (sid_fsid s) (remove1 s (listed m (sid_fsid s))) (sm_fsid_services m),
     sm_services := AList.delete s (sm_services m),
     sm_heap := AList.update a (sv\<lparr>ss_services := remove1 s (ss_services sv)\<rparr>) (sm_heap m),
     sm_db := sm_db m @ [DeleteService s]\<rparr>"

lemma forget_service_run:
  assumes "consistent m" and "map_of (sm_services m) s = Some v" and "sv_server v = Some a"
    and "map_of (sm_heap m) a = Some sv"
  shows "forget_service s (m, l) = (Inr (), (without_service s a sv m, l))"
proof -
  from assms have "s \<in> set (ss_services sv)" and ls: "s \<in> set (listed m (sid_fsid s))"
    by (auto elim!: consistentD)
  with assms listed_in_map [OF ls] show ?thesis
    by (simp add: forget_service_def service_at_def fsid_list_remove_def fsid_list_def set_fsid_list_def
        del_service_def server_del_service_def server_at_def set_server_at_def persist_def py_simps
        without_service_def)
qed

lemma live_without_service: "live (without_service s a sv m) b \<Longrightarrow> live m b"
  by (auto simp: live_def without_service_def split: if_splits)

lemma listed_without_service:
  "listed (without_service s a sv m) f = (if f = sid_fsid s then remove1 s (listed m f) else listed m f)"
  by (simp add: listed_def without_service_def get_default_def)

lemma consistent_without_service:
  assumes "consistent m" and "map_of (sm_services m) s = Some v" and "sv_server v = Some a"
    and "map_of (sm_heap m) a = Some sv"
  shows "consistent (without_service s a sv m)"
proof -
  let ?m = "without_service s a sv m"
  have svc: "map_of (sm_services ?m) = (map_of (sm_services m))(s := None)"
    and heap: "map_of (sm_heap ?m) = (map_of (sm_heap m))(a \<mapsto> sv\<lparr>ss_services := remove1 s (ss_services sv)\<rparr>)"
    and nxt: "sm_next ?m = sm_next m"
    by (simp_all add: without_service_def)
  have hk: "has_key (sm_heap ?m) b \<longleftrightarrow> has_key (sm_heap m) b" for b
    using assms(4) by (auto simp: has_key_def heap)
  have dist: "distinct (ss_services sv)" "\<And>f. distinct (listed m f)"
    using assms(1,4) by (auto simp: consistent_def)
  have p1: "(\<exists>a sv. sv_server w = Some a \<and> map_of (sm_heap ?m) a = Some sv \<and> x \<in> set (ss_services sv))
        \<and> x \<in> set (listed ?m (sid_fsid x))" if x: "map_of (sm_services ?m) x = Some w" for x w
  proof -
    from x have xs: "x \<noteq> s" and xm: "map_of (sm_services m) x = Some w" by (auto simp: svc split: if_splits)
    from assms(1) xm obtain b bv where "sv_server w = Some b" "map_of (sm_heap m) b = Some bv"
      "x \<in> set (ss_services bv)" "x \<in> set (listed m (sid_fsid x))" by (rule consistentD)
    with xs assms(4) show ?thesis
      by (cases "b = a") (auto simp: without_service_def listed_def get_default_def)
  qed
  have p2: "sid_fsid x = f \<and> has_key (sm_services ?m) x" if "x \<in> set (listed ?m f)" for x f
  proof -
    have "x \<in> set (listed m f)" "x \<noteq> s \<or> f \<noteq> sid_fsid s"
      using that dist(2) [of f] by (auto simp: listed_without_service split: if_splits)
    moreover from this assms(1) have "sid_fsid x = f" "has_key (sm_services m) x"
      by (auto simp: consistent_def)
    ultimately show ?thesis by (auto simp: has_key_def svc)
  qed
  have p4: "\<exists>w. map_of (sm_services ?m) x = Some w \<and> sv_server w = Some b"
    if lv: "live ?m b" and b: "map_of (sm_heap ?m) b = Some bv" and x: "x \<in> set (ss_services bv)" for b bv x
  proof -
    obtain bv0 where bv0: "map_of (sm_heap m) b = Some bv0" "x \<in> set (ss_services bv0)" "b = a \<longrightarrow> x \<noteq> s"
      using b x assms(4) dist(1) by (cases "b = a") (auto simp: heap)
    with live_without_service [OF lv] assms(1) obtain w
      where w: "map_of (sm_services m) x = Some w" "sv_server w = Some b" unfolding consistent_def by blast
    have "x \<noteq> s" using w assms(2,3) bv0(3) by auto
    with w show ?thesis by (simp add: svc)
  qed
  have "distinct (listed ?m f)" for f
    using dist(2) [of f] by (auto simp: listed_without_service distinct_remove1)
  moreover have "distinct (ss_services bv)" if "map_of (sm_heap ?m) b = Some bv" for b bv
    using that assms(1) dist(1) by (auto simp: heap consistent_def split: if_splits)
  moreover have "has_key (sm_heap ?m) b" if "live ?m b" for b
    using live_without_service [OF that] assms(1) by (simp add: hk consistent_def)
  moreover have "b < sm_next ?m" if "has_key (sm_heap ?m) b" for b
    using that assms(1) by (simp add: hk nxt consistent_def)
  ultimately show ?thesis
    unfolding consistent_def using p1 p2 p4 by blast
qed

text \<open>Forgetting several known services removes exactly those.\<close>

lemma forget_many:
  assumes "consistent m" and "distinct ss" and "\<forall>s \<in> set ss. has_key (sm_services m) s"
  shows "\<exists>m'. for_each forget_service ss (m, l) = (Inr (), (m', l)) \<and> consistent m'
     \<and> (\<forall>s. map_of (sm_services m') s = (if s \<in> set ss then None else map_of (sm_services m) s))
     \<and> sm_servers m' = sm_servers m \<and> sm_hostname_to_server m' = sm_hostname_to_server m
     \<and> sm_db m' = sm_db m @ map DeleteService ss"
  using assms
proof (induction ss arbitrary: m)
  case Nil
  then show ?case by (simp add: ret_def)
next
  case (Cons s ss)
  obtain v where v: "map_of (sm_services m) s = Some v"
    using Cons.prems(3) by (auto simp: has_key_def)
  from Cons.prems(1) v obtain a sv where a: "sv_server v = Some a" "map_of (sm_heap m) a = Some sv"
    by (rule consistentD)
  let ?m = "without_service s a sv m"
  have c: "consistent ?m" using consistent_without_service [OF Cons.prems(1) v a] .
  have "\<forall>x \<in> set ss. has_key (sm_services ?m) x"
    using Cons.prems(2,3) by (auto simp: without_service_def)
  from Cons.IH [OF c _ this] Cons.prems(2) obtain m' where m':
    "for_each forget_service ss (?m, l) = (Inr (), (m', l))" "consistent m'"
    "\<And>x. map_of (sm_services m') x = (if x \<in> set ss then None else map_of (sm_services ?m) x)"
    "sm_servers m' = sm_servers ?m" "sm_hostname_to_server m' = sm_hostname_to_server ?m"
    "sm_db m' = sm_db ?m @ map DeleteService ss" by auto
  have "map_of (sm_services m') x = (if x \<in> set (s # ss) then None else map_of (sm_services m) x)" for x
    using m'(3) [of x] by (simp add: without_service_def)
  with m' forget_service_run [OF Cons.prems(1) v a] show ?case
    by (simp add: bnd_def without_service_def)
qed

lemma consistent_listed:
  "consistent m \<Longrightarrow> s \<in> set (listed m f) \<Longrightarrow> sid_fsid s = f \<and> has_key (sm_services m) s"
  unfolding consistent_def by blast

lemma consistent_server:
  "consistent m \<Longrightarrow> live m a \<Longrightarrow> map_of (sm_heap m) a = Some sv \<Longrightarrow> s \<in> set (ss_services sv) \<Longrightarrow>
     \<exists>v. map_of (sm_services m) s = Some v \<and> sv_server v = Some a"
  unfolding consistent_def by blast

text \<open>
  Consistency only depends on what the dictionaries map to, and on no more of a server
  than its services.
\<close>

lemma consistent_cong:
  assumes "consistent m"
    and svc: "\<And>s. map_option sv_server (map_of (sm_services m') s) = map_option sv_server (map_of (sm_services m) s)"
    and heap: "\<And>a. map_option ss_services (map_of (sm_heap m') a) = map_option ss_services (map_of (sm_heap m) a)"
    and nxt: "sm_next m' = sm_next m"
    and lst: "\<And>f. set (listed m' f) = set (listed m f)" and dist: "\<And>f. distinct (listed m' f)"
    and lv: "\<And>a. live m' a \<Longrightarrow> live m a"
  shows "consistent m'"
proof (rule consistentI)
  have bwd: "\<exists>w. map_of (sm_services m) s = Some w \<and> sv_server w = sv_server v"
    if "map_of (sm_services m') s = Some v" for s v
    using svc [of s] that by (cases "map_of (sm_services m) s") auto
  have fwd: "\<exists>w. map_of (sm_services m') s = Some w \<and> sv_server w = sv_server v"
    if "map_of (sm_services m) s = Some v" for s v
    using svc [of s] that by (cases "map_of (sm_services m') s") auto
  have hk: "has_key (sm_services m') s \<longleftrightarrow> has_key (sm_services m) s" for s
    using svc [of s] by (cases "map_of (sm_services m) s"; cases "map_of (sm_services m') s")
      (simp_all add: has_key_def)
  have hh: "has_key (sm_heap m') a \<longleftrightarrow> has_key (sm_heap m) a" for a
    using heap [of a] by (cases "map_of (sm_heap m) a"; cases "map_of (sm_heap m') a") (simp_all add: has_key_def)
  have old: "\<exists>w. map_of (sm_heap m) a = Some w \<and> ss_services w = ss_services sv"
    if "map_of (sm_heap m') a = Some sv" for a sv
    using heap [of a] that by (cases "map_of (sm_heap m) a") auto
  show "\<exists>a sv. sv_server v = Some a \<and> map_of (sm_heap m') a = Some sv \<and> s \<in> set (ss_services sv)"
    and "s \<in> set (listed m' (sid_fsid s))" if "map_of (sm_services m') s = Some v" for s v
  proof -
    from bwd [OF that] obtain w where w: "map_of (sm_services m) s = Some w" "sv_server w = sv_server v"
      by blast
    from assms(1) w(1) obtain a sv where a: "sv_server w = Some a" "map_of (sm_heap m) a = Some sv"
      "s \<in> set (ss_services sv)" "s \<in> set (listed m (sid_fsid s))" by (rule consistentD)
    have "\<exists>sv'. map_of (sm_heap m') a = Some sv' \<and> ss_services sv' = ss_services sv"
      using heap [of a] a(2) by auto
    with a(1,3) w(2) show "\<exists>a sv. sv_server v = Some a \<and> map_of (sm_heap m') a = Some sv \<and> s \<in> set (ss_services sv)"
      by auto
    show "s \<in> set (listed m' (sid_fsid s))" using a(4) lst by simp
  qed
  show "sid_fsid s = f \<and> has_key (sm_services m') s" if "s \<in> set (listed m' f)" for f s
    using consistent_listed [OF assms(1)] that lst hk by blast
  show "distinct (listed m' f)" for f by (rule dist)
  show "\<exists>v. map_of (sm_services m') s = Some v \<and> sv_server v = Some a"
    if "live m' a" "map_of (sm_heap m') a = Some sv" "s \<in> set (ss_services sv)" for a sv s
  proof -
    from old [OF that(2)] consistent_server [OF assms(1) lv [OF that(1)]] that(3) obtain v
      where "map_of (sm_services m) s = Some v" "sv_server v = Some a" by metis
    with fwd show ?thesis by fastforce
  qed
  show "distinct (ss_services sv)" if "map_of (sm_heap m') a = Some sv" for a sv
    using consistent_parts(2) [OF assms(1)] old [OF that] by metis
  show "has_key (sm_heap m') a" if "live m' a" for a
    using consistent_parts(3) [OF assms(1) lv [OF that]] hh by simp
  show "a < sm_next m'" if "has_key (sm_heap m') a" for a
    using consistent_parts(4) [OF assms(1)] that hh nxt by simp
qed

lemma fsid_list_run:
  "\<exists>d. fsid_list f (m, l) = (Inr (listed m f), (m\<lparr>sm_fsid_services := d\<rparr>, l))
     \<and> (\<forall>g. get_default d g [] = listed m g)"
proof (cases "map_of (sm_fsid_services m) f")
  case None
  then show ?thesis
    by (intro exI [of _ "AList.update f [] (sm_fsid_services m)"])
      (simp add: fsid_list_def py_simps listed_def get_default_def)
next
  case (Some ss)
  then show ?thesis
    by (intro exI [of _ "sm_fsid_services m"])
      (simp add: fsid_list_def py_simps listed_def get_default_def)
qed

lemma consistent_same_lists:
  assumes "consistent m" and "\<And>g. get_default d g [] = listed m g"
  shows "consistent (m\<lparr>sm_fsid_services := d\<rparr>)"
proof (rule consistent_cong [OF assms(1)])
  have l: "listed (m\<lparr>sm_fsid_services := d\<rparr>) f = listed m f" for f
    using assms(2) [of f] by (simp add: listed_def)
  show "set (listed (m\<lparr>sm_fsid_services := d\<rparr>) f) = set (listed m f)" for f by (simp add: l)
  show "distinct (listed (m\<lparr>sm_fsid_services := d\<rparr>) f)" for f
    using consistent_parts(1) [OF assms(1)] by (simp add: l)
qed (simp_all add: live_def)

lemma forget_stale_run:
  assumes "consistent m"
  shows "\<exists>m'. forget_stale f ty keep (m, l) = (Inr (), (m', l)) \<and> consistent m'
     \<and> (\<forall>s. map_of (sm_services m') s =
          (if sid_fsid s = f \<and> sid_type s = ty \<and> s \<notin> set keep then None else map_of (sm_services m) s))
     \<and> sm_servers m' = sm_servers m \<and> sm_hostname_to_server m' = sm_hostname_to_server m"
proof -
  obtain d where d: "fsid_list f (m, l) = (Inr (listed m f), (m\<lparr>sm_fsid_services := d\<rparr>, l))"
    "\<And>g. get_default d g [] = listed m g"
    using fsid_list_run [of f m l] by blast
  let ?m = "m\<lparr>sm_fsid_services := d\<rparr>"
  let ?ss = "filter (\<lambda>s. s \<notin> set keep) (remdups (filter (\<lambda>s. sid_type s = ty) (listed m f)))"
  have c: "consistent ?m" using consistent_same_lists [OF assms d(2)] .
  have mem: "s \<in> set ?ss \<longleftrightarrow> s \<in> set (listed m f) \<and> sid_type s = ty \<and> s \<notin> set keep" for s
    by auto
  have "\<forall>s \<in> set ?ss. has_key (sm_services ?m) s"
    using consistent_listed [OF assms] by auto
  from forget_many [OF c _ this, where l = l] obtain m' where m':
    "for_each forget_service ?ss (?m, l) = (Inr (), (m', l))" "consistent m'"
    "\<And>s. map_of (sm_services m') s = (if s \<in> set ?ss then None else map_of (sm_services ?m) s)"
    "sm_servers m' = sm_servers m" "sm_hostname_to_server m' = sm_hostname_to_server m" by auto
  have "map_of (sm_services m') s =
          (if sid_fsid s = f \<and> sid_type s = ty \<and> s \<notin> set keep then None else map_of (sm_services m) s)" for s
  proof (cases "map_of (sm_services m) s")
    case None
    then show ?thesis using m'(3) [of s] by simp
  next
    case (Some v)
    from assms Some have "s \<in> set (listed m (sid_fsid s))" by (rule consistentD)
    moreover have "s \<in> set (listed m f) \<Longrightarrow> sid_fsid s = f"
      using consistent_listed [OF assms] by blast
    ultimately show ?thesis using m'(3) [of s] mem [of s] by auto
  qed
  with m' d(1) show ?thesis
    by (intro exI [of _ m']) (simp add: forget_stale_def bnd_def)
qed

section \<open>Registering a service\<close>

text \<open>
  A server is in place when it can be found under its own FQDN; all servers that
  heartbeats reach are.
\<close>

definition in_place :: "server_monitor \<Rightarrow> address \<Rightarrow> bool" where
  "in_place m a \<longleftrightarrow> (\<exists>sv. map_of (sm_heap m) a = Some sv \<and> map_of (sm_servers m) (ss_fqdn sv) = Some a)"

text \<open>The tables after a service that was not known is registered.\<close>

definition with_service :: "service_id \<Rightarrow> address \<Rightarrow> server_state \<Rightarrow> service_state \<Rightarrow> server_monitor \<Rightarrow>
    (string, service_id list) dict \<Rightarrow> db_op list \<Rightarrow> server_monitor" where
  "with_service s a sv v m d db = m\<lparr>
     sm_services := AList.update s v (sm_services m),
     sm_heap := AList.update a (sv\<lparr>ss_services := (if s \<in> set (ss_services sv) then ss_services sv
                                      else ss_services sv @ [s])\<rparr>) (sm_heap m),
     sm_fsid_services := d, sm_db := db\<rparr>"

lemma live_with_service:
  assumes "map_of (sm_services m) s = None" and "live m a" and "sv_server v = Some a"
  shows "live (with_service s a sv v m d db) b \<longleftrightarrow> live m b"
proof
  let ?m = "with_service s a sv v m d db"
  assume "live ?m b"
  then show "live m b" using assms(2,3) by (auto simp: live_def with_service_def split: if_splits)
next
  let ?m = "with_service s a sv v m d db"
  assume "live m b"
  have kept: "\<exists>x w. map_of (sm_services ?m) x = Some w \<and> sv_server w = Some b"
    if "map_of (sm_services m) x = Some w" "sv_server w = Some b" for x w
    using that assms(1) by (intro exI [of _ x] exI [of _ w]) (auto simp: with_service_def)
  have "sm_servers ?m = sm_servers m" "sm_hostname_to_server ?m = sm_hostname_to_server m"
    by (simp_all add: with_service_def)
  with \<open>live m b\<close> kept show "live ?m b" unfolding live_def by metis
qed

text \<open>The service \<open>s\<close>, not known to \<open>m\<close>, put on the server at \<open>a\<close>, and on the list of its cluster.\<close>

definition adds_service :: "service_id \<Rightarrow> address \<Rightarrow> server_state \<Rightarrow> service_state \<Rightarrow> server_monitor \<Rightarrow>
    (string, service_id list) dict \<Rightarrow> bool" where
  "adds_service s a sv v m d \<longleftrightarrow> map_of (sm_services m) s = None \<and> live m a \<and> map_of (sm_heap m) a = Some sv
     \<and> sv_server v = Some a \<and> (\<forall>g. get_default d g [] = (if g = sid_fsid s then listed m g @ [s] else listed m g))"

lemma with_service_fields:
  assumes "consistent m" and "adds_service s a sv v m d"
  shows "map_of (sm_services (with_service s a sv v m d db)) = (map_of (sm_services m))(s \<mapsto> v)"
    and "listed (with_service s a sv v m d db) g = (if g = sid_fsid s then listed m g @ [s] else listed m g)"
    and "sm_next (with_service s a sv v m d db) = sm_next m"
    and "s \<notin> set (ss_services sv)" and "s \<notin> set (listed m g)"
    and "map_of (sm_heap (with_service s a sv v m d db)) = (map_of (sm_heap m))(a \<mapsto> sv\<lparr>ss_services := ss_services sv @ [s]\<rparr>)"
    and "live (with_service s a sv v m d db) b \<longleftrightarrow> live m b"
proof -
  note new = assms(2) [unfolded adds_service_def]
  show "map_of (sm_services (with_service s a sv v m d db)) = (map_of (sm_services m))(s \<mapsto> v)"
    and "listed (with_service s a sv v m d db) g = (if g = sid_fsid s then listed m g @ [s] else listed m g)"
    and "sm_next (with_service s a sv v m d db) = sm_next m"
    using new by (simp_all add: with_service_def listed_def)
  show fresh: "s \<notin> set (ss_services sv)" and "s \<notin> set (listed m g)"
    using consistent_listed [OF assms(1), of s] consistent_server [OF assms(1), of a sv s] new
    by (auto simp: has_key_def)
  show "map_of (sm_heap (with_service s a sv v m d db)) = (map_of (sm_heap m))(a \<mapsto> sv\<lparr>ss_services := ss_services sv @ [s]\<rparr>)"
    using fresh by (simp add: with_service_def)
  show "live (with_service s a sv v m d db) b \<longleftrightarrow> live m b"
    using new by (intro live_with_service) auto
qed

lemma with_service_placed:
  assumes "consistent m" and new: "adds_service s a sv v m d"
    and x: "map_of (sm_services (with_service s a sv v m d db)) x = Some w"
  shows "\<exists>b bv. sv_server w = Some b \<and> map_of (sm_heap (with_service s a sv v m d db)) b = Some bv \<and> x \<in> set (ss_services bv)"
    and "x \<in> set (listed (with_service s a sv v m d db) (sid_fsid x))"
proof -
  note f = with_service_fields [OF assms(1,2)]
  have a: "map_of (sm_heap m) a = Some sv" "sv_server v = Some a" using new by (simp_all add: adds_service_def)
  have "(\<exists>b bv. sv_server w = Some b \<and> map_of (sm_heap (with_service s a sv v m d db)) b = Some bv \<and> x \<in> set (ss_services bv))
      \<and> x \<in> set (listed (with_service s a sv v m d db) (sid_fsid x))"
  proof (cases "x = s")
    case True
    with x a(2) have "sv_server w = Some a" by (simp add: f(1))
    with True show ?thesis by (simp add: f(2,6))
  next
    case False
    with x have "map_of (sm_services m) x = Some w" by (simp add: f(1))
    with assms(1) obtain b bv where b: "sv_server w = Some b" "map_of (sm_heap m) b = Some bv"
      "x \<in> set (ss_services bv)" "x \<in> set (listed m (sid_fsid x))" by (rule consistentD)
    have "map_of (sm_heap (with_service s a sv v m d db)) b
        = Some (if b = a then bv\<lparr>ss_services := ss_services bv @ [s]\<rparr> else bv)"
      unfolding f(6) using a(1) b(2) by auto
    with b show ?thesis by (auto simp: f(2))
  qed
  then show "\<exists>b bv. sv_server w = Some b \<and> map_of (sm_heap (with_service s a sv v m d db)) b = Some bv \<and> x \<in> set (ss_services bv)"
    and "x \<in> set (listed (with_service s a sv v m d db) (sid_fsid x))" by blast+
qed

lemma with_service_served:
  assumes "consistent m" and new: "adds_service s a sv v m d"
    and b: "live (with_service s a sv v m d db) b" "map_of (sm_heap (with_service s a sv v m d db)) b = Some bv" "x \<in> set (ss_services bv)"
  shows "\<exists>w. map_of (sm_services (with_service s a sv v m d db)) x = Some w \<and> sv_server w = Some b"
proof (cases "x = s \<and> b = a")
  case True
  with new show ?thesis by (simp add: with_service_fields [OF assms(1,2)] adds_service_def)
next
  case False
  note f = with_service_fields [OF assms(1,2)]
  have a: "map_of (sm_heap m) a = Some sv" "map_of (sm_services m) s = None" using new by (simp_all add: adds_service_def)
  obtain bv0 where "map_of (sm_heap m) b = Some bv0" "x \<in> set (ss_services bv0)"
    using b(2,3) False a(1) by (cases "b = a") (auto simp: f(6))
  with consistent_server [OF assms(1)] b(1) obtain w where w: "map_of (sm_services m) x = Some w" "sv_server w = Some b"
    unfolding f(7) by blast
  with a(2) have "x \<noteq> s" by auto
  with w show ?thesis by (simp add: f(1))
qed

lemma consistent_with_service:
  assumes "consistent m" and new: "adds_service s a sv v m d"
  shows "consistent (with_service s a sv v m d db)"
proof (rule consistentI)
  let ?m = "with_service s a sv v m d db"
  note f = with_service_fields [OF assms] and p = consistent_parts [OF assms(1)]
  have a: "map_of (sm_heap m) a = Some sv" using new by (simp add: adds_service_def)
  have hk: "has_key (sm_heap ?m) b \<longleftrightarrow> has_key (sm_heap m) b" for b using a by (auto simp: has_key_def f(6))
  show "\<exists>b bv. sv_server w = Some b \<and> map_of (sm_heap ?m) b = Some bv \<and> x \<in> set (ss_services bv)"
    "x \<in> set (listed ?m (sid_fsid x))" if "map_of (sm_services ?m) x = Some w" for x w
    using with_service_placed [OF assms that] by blast+
  show "sid_fsid x = g \<and> has_key (sm_services ?m) x" if "x \<in> set (listed ?m g)" for x g
    using that consistent_listed [OF assms(1), of x g] by (auto simp: f(1,2) has_key_def split: if_splits)
  show "distinct (listed ?m g)" for g using f(5) [of g] p(1) [of g] by (auto simp: f(2))
  show "\<exists>w. map_of (sm_services ?m) x = Some w \<and> sv_server w = Some b"
    if "live ?m b" "map_of (sm_heap ?m) b = Some bv" "x \<in> set (ss_services bv)" for b bv x
    using with_service_served [OF assms that] .
  show "distinct (ss_services bv)" if "map_of (sm_heap ?m) b = Some bv" for b bv
    using that p(2) a f(4) by (auto simp: f(6) split: if_splits)
  show "has_key (sm_heap ?m) b" if "live ?m b" for b using that p(3) by (simp add: hk f(7))
  show "b < sm_next ?m" if "has_key (sm_heap ?m) b" for b using that p(4) by (simp add: hk f(3))
qed

lemma consistent_update_service:
  assumes "consistent m" and "map_of (sm_services m) s = Some v" and "sv_server w = sv_server v"
    and "map_of S = (map_of (sm_services m))(s \<mapsto> w)"
  shows "consistent (m\<lparr>sm_services := S, sm_db := db\<rparr>)"
proof (rule consistent_cong [OF assms(1)])
  let ?m = "m\<lparr>sm_services := S, sm_db := db\<rparr>"
  have l: "listed ?m f = listed m f" for f by (simp add: listed_def)
  show "set (listed ?m f) = set (listed m f)" for f by (simp add: l)
  show "distinct (listed ?m f)" for f
    using consistent_parts(1) [OF assms(1)] by (simp add: l)
  show "map_option sv_server (map_of (sm_services ?m) x) = map_option sv_server (map_of (sm_services m) x)" for x
    using assms(2-4) by simp
  show "live m a" if "live ?m a" for a
    using that assms(2-4) unfolding live_def by (auto split: if_splits)
qed simp_all

definition refreshed :: "bool \<Rightarrow> string option \<Rightarrow> service_state \<Rightarrow> service_state" where
  "refreshed running st v = v\<lparr>sv_running := running, sv_status := st\<rparr>"

fun state_update :: "db_op \<Rightarrow> bool" where
  "state_update (UpdateServiceRunning s running) = True"
| "state_update (UpdateServiceStatus s st) = True"
| "state_update _ = False"

lemma refresh_run:
  assumes "map_of (sm_services m) s = Some v"
  shows "\<exists>S D. refresh_service s running st v (m, l) = (Inr (), (m\<lparr>sm_services := S, sm_db := sm_db m @ D\<rparr>, l))
     \<and> map_of S = (map_of (sm_services m))(s \<mapsto> refreshed running st v) \<and> list_all state_update D"
proof -
  have same: "(map_of (sm_services m))(s \<mapsto> v) = map_of (sm_services m)"
    using assms by (simp add: fun_upd_idem)
  show ?thesis
  proof (cases "running = sv_running v")
    case True
    show ?thesis
    proof (cases "st = sv_status v")
      case True
      with \<open>running = sv_running v\<close> same assms show ?thesis
        by (intro exI [of _ "sm_services m"] exI [of _ "[]"])
          (simp add: refresh_service_def py_simps refreshed_def)
    next
      case False
      with True assms show ?thesis
        by (intro exI [of _ "AList.update s (v\<lparr>sv_status := st\<rparr>) (sm_services m)"]
            exI [of _ "[UpdateServiceStatus s st]"])
          (simp add: refresh_service_def set_service_at_def service_at_def persist_def py_simps refreshed_def)
    qed
  next
    case ne: False
    show ?thesis
    proof (cases "st = sv_status v")
      case True
      with ne assms show ?thesis
        by (intro exI [of _ "AList.update s (v\<lparr>sv_running := running\<rparr>) (sm_services m)"]
            exI [of _ "[UpdateServiceRunning s running]"])
          (simp add: refresh_service_def set_service_at_def service_at_def persist_def py_simps refreshed_def)
    next
      case False
      with ne assms show ?thesis
        by (intro exI [of _ "AList.update s (v\<lparr>sv_running := running, sv_status := st\<rparr>)
              (AList.update s (v\<lparr>sv_running := running\<rparr>) (sm_services m))"]
            exI [of _ "[UpdateServiceRunning s running, UpdateServiceStatus s st]"])
          (simp add: refresh_service_def set_service_at_def service_at_def persist_def py_simps refreshed_def)
    qed
  qed
qed

text \<open>What registering promises: the tables are consistent and \<open>s\<close> is on \<open>a\<close>.\<close>

definition registered ::
  "server_monitor \<Rightarrow> service_id \<Rightarrow> address \<Rightarrow> bool \<Rightarrow> string option \<Rightarrow> server_monitor \<Rightarrow> bool" where
  "registered m s a running st m' \<longleftrightarrow> consistent m'
     \<and> map_of (sm_services m') = (map_of (sm_services m))
          (s \<mapsto> \<lparr>sv_server = Some a, sv_running = running, sv_status = st\<rparr>)
     \<and> sm_hostname_to_server m' = sm_hostname_to_server m
     \<and> (\<forall>k b. map_of (sm_servers m') k = Some b \<longrightarrow> map_of (sm_servers m) k = Some b)
     \<and> in_place m' a"

text \<open>
  What registering tells the database: the service is created, changed or located, and a
  server left empty is deleted.
\<close>

definition moved_away :: "server_monitor \<Rightarrow> service_id \<Rightarrow> address \<Rightarrow> db_op list \<Rightarrow> server_monitor \<Rightarrow> bool" where
  "moved_away m s old rest m' \<longleftrightarrow> (rest = [] \<and> sm_servers m' = sm_servers m)
     \<or> (\<exists>osv. map_of (sm_heap m) old = Some osv \<and> remove1 s (ss_services osv) = []
        \<and> map_of (sm_servers m) (ss_fqdn osv) = Some old \<and> rest = [DeleteServer (ss_fqdn osv)]
        \<and> sm_servers m' = AList.delete (ss_fqdn osv) (sm_servers m))"

definition logged :: "server_monitor \<Rightarrow> service_id \<Rightarrow> address \<Rightarrow> server_monitor \<Rightarrow> bool" where
  "logged m s a m' \<longleftrightarrow> (\<exists>sv upd. map_of (sm_heap m) a = Some sv \<and> list_all state_update upd
     \<and> ((map_of (sm_services m) s = None \<and> sm_servers m' = sm_servers m
          \<and> (\<exists>st. sm_db m' = sm_db m @ CreateService s st (ss_fqdn sv) # upd))
       \<or> (\<exists>v. map_of (sm_services m) s = Some v \<and> sv_server v = Some a \<and> sm_servers m' = sm_servers m
          \<and> sm_db m' = sm_db m @ upd)
       \<or> (\<exists>v old rest. map_of (sm_services m) s = Some v \<and> sv_server v = Some old \<and> old \<noteq> a
          \<and> moved_away m s old rest m'
          \<and> sm_db m' = sm_db m @ upd @ UpdateServiceLocation s (ss_fqdn sv) # rest)))"

lemma in_place_live: "in_place m a \<Longrightarrow> live m a"
  by (auto simp: in_place_def live_def)

lemma register_new_service:
  assumes "consistent m" and "map_of (sm_services m) s = None" and "in_place m a"
  shows "\<exists>m'. register_service a s running st (m, l) = (Inr (), (m', l)) \<and> registered m s a running st m'
     \<and> logged m s a m'"
proof -
  obtain sv where sv: "map_of (sm_heap m) a = Some sv" "map_of (sm_servers m) (ss_fqdn sv) = Some a"
    using assms(3) by (auto simp: in_place_def)
  define d where "d = AList.update (sid_fsid s) (listed m (sid_fsid s) @ [s])
     (case map_of (sm_fsid_services m) (sid_fsid s) of
        None \<Rightarrow> AList.update (sid_fsid s) [] (sm_fsid_services m) | Some _ \<Rightarrow> sm_fsid_services m)"
  have d: "get_default d g [] = (if g = sid_fsid s then listed m g @ [s] else listed m g)" for g
    by (simp add: d_def get_default_def listed_def split: option.splits)
  define m1 where "m1 = with_service s a sv (new_service_state\<lparr>sv_server := Some a\<rparr>) m d
     (sm_db m @ [CreateService s st (ss_fqdn sv)])"
  have c1: "consistent m1"
    unfolding m1_def
    using assms(2) in_place_live [OF assms(3)] sv(1) d
    by (intro consistent_with_service [OF assms(1)]) (simp add: adds_service_def)
  have v1: "map_of (sm_services m1) s = Some (new_service_state\<lparr>sv_server := Some a\<rparr>)"
    by (simp add: m1_def with_service_def)
  have inj: "bnd (inject_service s (ss_fqdn sv)) (\<lambda>_. persist (CreateService s st (ss_fqdn sv))) (m, l)
      = (Inr (), (m1, l))"
    using sv
    by (cases "map_of (sm_fsid_services m) (sid_fsid s)")
      (simp_all add: inject_service_def persist_def server_add_service_def set_server_at_def server_at_def
        fsid_list_def set_fsid_list_def py_simps m1_def with_service_def d_def listed_def get_default_def)
  obtain S D where r: "refresh_service s running st (new_service_state\<lparr>sv_server := Some a\<rparr>) (m1, l)
      = (Inr (), (m1\<lparr>sm_services := S, sm_db := sm_db m1 @ D\<rparr>, l))"
    and S: "map_of S = (map_of (sm_services m1))(s \<mapsto> refreshed running st (new_service_state\<lparr>sv_server := Some a\<rparr>))"
    and D: "list_all state_update D"
    using refresh_run [OF v1] by blast
  let ?m2 = "m1\<lparr>sm_services := S, sm_db := sm_db m1 @ D\<rparr>"
  have run: "register_service a s running st (m, l) = (Inr (), (?m2, l))"
  proof -
    have "register_service a s running st (m, l) =
      bnd (bnd (inject_service s (ss_fqdn sv)) (\<lambda>_. persist (CreateService s st (ss_fqdn sv)))) (\<lambda>_.
        bnd (service_at s) (\<lambda>v. bnd (refresh_service s running st v) (\<lambda>_. move_service a s v))) (m, l)"
      using assms(2) sv(1)
      by (simp add: register_service_def bnd_def sm_get_def gets_def guarded_def has_key_def
          server_at_def lift_exn_def)
    then show ?thesis
      using inj v1 r
      by (simp add: bnd_def [of "bnd (inject_service s (ss_fqdn sv)) f" for f])
        (simp add: bnd_def service_at_def sm_get_def gets_def lift_exn_def move_service_def guarded_def ret_def)
  qed
  have "consistent ?m2"
    by (rule consistent_update_service [OF c1 v1 _ S]) (simp add: refreshed_def)
  moreover have "in_place ?m2 a"
    using sv by (simp add: in_place_def m1_def with_service_def)
  ultimately have "registered m s a running st ?m2"
    using S by (simp add: registered_def m1_def with_service_def refreshed_def new_service_state_def)
  moreover have "logged m s a ?m2"
    using sv(1) assms(2) D unfolding logged_def
    by (intro exI [of _ sv] exI [of _ D]) (auto simp: m1_def with_service_def)
  ultimately show ?thesis using run by blast
qed

lemma consistent_fewer_servers:
  assumes "consistent m" and "\<And>k b. map_of S k = Some b \<Longrightarrow> map_of (sm_servers m) k = Some b"
  shows "consistent (m\<lparr>sm_servers := S, sm_db := D\<rparr>)"
proof (rule consistent_cong [OF assms(1)])
  let ?m = "m\<lparr>sm_servers := S, sm_db := D\<rparr>"
  have l: "listed ?m f = listed m f" for f by (simp add: listed_def)
  show "set (listed ?m f) = set (listed m f)" for f by (simp add: l)
  show "distinct (listed ?m f)" for f
    using consistent_parts(1) [OF assms(1)] by (simp add: l)
  show "live m a" if "live ?m a" for a
    using that assms(2) unfolding live_def by auto
qed simp_all

text \<open>
  Moving a known service. The server it leaves has to be found under its FQDN if this
  was its last service and it is not managed, because it is then expunged.
\<close>

definition expungeable :: "server_monitor \<Rightarrow> service_id \<Rightarrow> address \<Rightarrow> bool" where
  "expungeable m s old \<longleftrightarrow> (\<forall>sv. map_of (sm_heap m) old = Some sv \<longrightarrow> \<not> ss_managed sv \<longrightarrow>
     remove1 s (ss_services sv) = [] \<longrightarrow> map_of (sm_servers m) (ss_fqdn sv) = Some old)"

text \<open>The tables after the service \<open>s\<close> went from the server \<open>osv\<close> at \<open>old\<close> to \<open>sv\<close> at \<open>a\<close>.\<close>

definition with_moved :: "service_id \<Rightarrow> address \<Rightarrow> server_state \<Rightarrow> address \<Rightarrow> server_state \<Rightarrow> service_state \<Rightarrow>
    server_monitor \<Rightarrow> server_monitor" where
  "with_moved s old osv a sv w m = m\<lparr>sm_services := AList.update s (w\<lparr>sv_server := Some a\<rparr>) (sm_services m),
     sm_heap := AList.update a (sv\<lparr>ss_services := ss_services sv @ [s]\<rparr>)
       (AList.update old (osv\<lparr>ss_services := remove1 s (ss_services osv)\<rparr>) (sm_heap m)),
     sm_db := sm_db m @ [UpdateServiceLocation s (ss_fqdn sv)]\<rparr>"

text \<open>Where it is: on \<open>old\<close>, and not on \<open>a\<close>.\<close>

lemma to_be_moved:
  assumes c: "consistent m" and v: "map_of (sm_services m) s = Some w" and ow: "sv_server w = Some old"
    and "old \<noteq> a" and "in_place m a"
  obtains sv osv where "map_of (sm_heap m) a = Some sv" "map_of (sm_servers m) (ss_fqdn sv) = Some a"
    "s \<notin> set (ss_services sv)" "map_of (sm_heap m) old = Some osv" "s \<in> set (ss_services osv)"
    "s \<in> set (listed m (sid_fsid s))"
proof -
  obtain sv where sv: "map_of (sm_heap m) a = Some sv" "map_of (sm_servers m) (ss_fqdn sv) = Some a"
    using assms(5) by (auto simp: in_place_def)
  from c v obtain osv where osv: "map_of (sm_heap m) old = Some osv" "s \<in> set (ss_services osv)"
    "s \<in> set (listed m (sid_fsid s))"
    by (rule consistentD) (use ow in auto)
  have "s \<notin> set (ss_services sv)"
    using consistent_server [OF c in_place_live [OF assms(5)] sv(1), of s] v ow \<open>old \<noteq> a\<close> by auto
  with sv osv show thesis by (intro that)
qed

lemma consistent_with_moved:
  assumes c: "consistent m" and v: "map_of (sm_services m) s = Some w" and ow: "sv_server w = Some old"
    and "old \<noteq> a" and sv: "map_of (sm_heap m) a = Some sv" "map_of (sm_servers m) (ss_fqdn sv) = Some a"
    and snew: "s \<notin> set (ss_services sv)" and osv: "map_of (sm_heap m) old = Some osv" "s \<in> set (listed m (sid_fsid s))"
  shows "consistent (with_moved s old osv a sv w m)"
proof -
  let ?m1 = "without_service s old osv m" and ?w = "w\<lparr>sv_server := Some a\<rparr>" and ?m3 = "with_moved s old osv a sv w m"
  have c1: "consistent ?m1" using consistent_without_service [OF c v ow osv(1)] .
  define d where "d = AList.update (sid_fsid s) (listed ?m1 (sid_fsid s) @ [s]) (sm_fsid_services ?m1)"
  have d: "get_default d g [] = (if g = sid_fsid s then listed ?m1 g @ [s] else listed ?m1 g)" for g
    by (simp add: d_def get_default_def listed_def)
  let ?m2 = "with_service s a sv ?w ?m1 d []"
  have "live ?m1 a" using sv(2) by (auto simp: live_def without_service_def)
  then have "adds_service s a sv ?w ?m1 d"
    using sv(1) \<open>old \<noteq> a\<close> d by (simp add: adds_service_def) (simp add: without_service_def)
  then have c2: "consistent ?m2" by (rule consistent_with_service [OF c1])
  have l3: "listed ?m3 f = listed m f" for f by (simp add: with_moved_def listed_def)
  have l2: "listed ?m2 f = (if f = sid_fsid s then listed ?m1 f @ [s] else listed ?m1 f)" for f
    using d [of f] by (simp add: with_service_def listed_def)
  have dm: "distinct (listed m f)" for f using consistent_parts(1) [OF c] .
  note defs = with_moved_def with_service_def without_service_def
  show ?thesis
  proof (rule consistent_cong [OF c2])
    show "distinct (listed ?m3 f)" for f using dm by (simp add: l3)
    show "set (listed ?m3 f) = set (listed ?m2 f)" for f
      using osv(2) dm [of f] by (auto simp: l3 l2 listed_without_service)
    show "map_option ss_services (map_of (sm_heap ?m3) b) = map_option ss_services (map_of (sm_heap ?m2) b)" for b
      using \<open>old \<noteq> a\<close> snew by (simp add: defs)
    show "map_option sv_server (map_of (sm_services ?m3) x) = map_option sv_server (map_of (sm_services ?m2) x)" for x
      by (simp add: defs)
    show "sm_next ?m3 = sm_next ?m2" by (simp add: defs)
    show "live ?m2 b" if "live ?m3 b" for b
      using that unfolding live_def by (auto simp: defs split: if_splits)
  qed
qed

text \<open>What becomes of the server that a service has left.\<close>

lemma expunge_left:
  assumes c: "consistent m'" and "map_of (sm_heap m') old = Some os" and "in_place m' a" and "old \<noteq> a"
    and ex: "\<not> ss_managed os \<longrightarrow> ss_services os = [] \<longrightarrow> map_of (sm_servers m') (ss_fqdn os) = Some old"
  obtains S rest where "expunge_if_empty (Some old) (m', l) = (Inr (), (m'\<lparr>sm_servers := S, sm_db := sm_db m' @ rest\<rparr>, l))"
    and "consistent (m'\<lparr>sm_servers := S, sm_db := sm_db m' @ rest\<rparr>)" and "in_place (m'\<lparr>sm_servers := S, sm_db := sm_db m' @ rest\<rparr>) a"
    and "(S = sm_servers m' \<and> rest = []) \<or> (ss_services os = [] \<and> map_of (sm_servers m') (ss_fqdn os) = Some old
           \<and> S = AList.delete (ss_fqdn os) (sm_servers m') \<and> rest = [DeleteServer (ss_fqdn os)])"
proof (cases "\<not> ss_managed os \<and> ss_services os = []")
  case False
  then have "expunge_if_empty (Some old) (m', l) = (Inr (), (m', l))"
    using assms(2) by (auto simp: expunge_if_empty_def server_at_def py_simps)
  with c assms(3) show thesis by (intro that [where S = "sm_servers m'" and rest = "[]"]) simp_all
next
  case True
  with ex have fq: "map_of (sm_servers m') (ss_fqdn os) = Some old" by blast
  let ?S = "AList.delete (ss_fqdn os) (sm_servers m')" and ?rest = "[DeleteServer (ss_fqdn os)]"
  have "expunge_if_empty (Some old) (m', l) = (Inr (), (m'\<lparr>sm_servers := ?S, sm_db := sm_db m' @ ?rest\<rparr>, l))"
    using assms(2) True fq by (simp add: expunge_if_empty_def server_at_def persist_def py_simps)
  moreover have "consistent (m'\<lparr>sm_servers := ?S, sm_db := sm_db m' @ ?rest\<rparr>)"
    by (rule consistent_fewer_servers [OF c]) (auto split: if_splits)
  moreover have "in_place (m'\<lparr>sm_servers := ?S, sm_db := sm_db m' @ ?rest\<rparr>) a"
  proof -
    from assms(3) obtain av where av: "map_of (sm_heap m') a = Some av" "map_of (sm_servers m') (ss_fqdn av) = Some a"
      by (auto simp: in_place_def)
    then have "ss_fqdn av \<noteq> ss_fqdn os" using fq assms(4) by auto
    with av show ?thesis by (simp add: in_place_def)
  qed
  ultimately show thesis using True fq by (intro that) auto
qed

lemma move_run:
  assumes c: "consistent m" and v: "map_of (sm_services m) s = Some w" and "sv_server w = sv_server v"
    and old: "sv_server v = Some old" and "old \<noteq> a" and "in_place m a" and ex: "expungeable m s old"
  shows "\<exists>m'. move_service a s v (m, l) = (Inr (), (m', l)) \<and> consistent m' \<and> in_place m' a
     \<and> map_of (sm_services m') = (map_of (sm_services m))(s \<mapsto> w\<lparr>sv_server := Some a\<rparr>)
     \<and> sm_hostname_to_server m' = sm_hostname_to_server m
     \<and> (\<forall>k b. map_of (sm_servers m') k = Some b \<longrightarrow> map_of (sm_servers m) k = Some b)
     \<and> (\<exists>sv rest. map_of (sm_heap m) a = Some sv \<and> moved_away m s old rest m'
          \<and> sm_db m' = sm_db m @ UpdateServiceLocation s (ss_fqdn sv) # rest)"
proof -
  have ow: "sv_server w = Some old" using assms(3) old by simp
  from to_be_moved [OF c v ow assms(5,6)] obtain sv osv where sv: "map_of (sm_heap m) a = Some sv"
    "map_of (sm_servers m) (ss_fqdn sv) = Some a" "s \<notin> set (ss_services sv)"
    and osv: "map_of (sm_heap m) old = Some osv" "s \<in> set (ss_services osv)" "s \<in> set (listed m (sid_fsid s))" .
  define m3 where "m3 = with_moved s old osv a sv w m"
  let ?os = "osv\<lparr>ss_services := remove1 s (ss_services osv)\<rparr>"
  have c3: "consistent m3" unfolding m3_def
    using consistent_with_moved [OF c v ow assms(5) sv osv(1,3)] .
  have move3: "move_service a s v (m, l) = expunge_if_empty (Some old) (m3, l)"
    using v old \<open>old \<noteq> a\<close> sv osv
    by (simp add: move_service_def set_service_at_def service_at_def server_del_service_def
        server_add_service_def set_server_at_def server_at_def persist_def py_simps m3_def with_moved_def)
  have m3: "sm_servers m3 = sm_servers m" "sm_hostname_to_server m3 = sm_hostname_to_server m"
    "map_of (sm_services m3) = (map_of (sm_services m))(s \<mapsto> w\<lparr>sv_server := Some a\<rparr>)"
    "sm_db m3 = sm_db m @ [UpdateServiceLocation s (ss_fqdn sv)]" "map_of (sm_heap m3) old = Some ?os"
    using \<open>old \<noteq> a\<close> by (simp_all add: m3_def with_moved_def)
  have "in_place m3 a" using sv by (simp add: in_place_def m3_def with_moved_def)
  moreover have "\<not> ss_managed ?os \<longrightarrow> ss_services ?os = [] \<longrightarrow> map_of (sm_servers m3) (ss_fqdn ?os) = Some old"
    using ex osv(1) by (simp add: expungeable_def m3(1))
  ultimately obtain S rest where
    e: "expunge_if_empty (Some old) (m3, l) = (Inr (), (m3\<lparr>sm_servers := S, sm_db := sm_db m3 @ rest\<rparr>, l))"
      "consistent (m3\<lparr>sm_servers := S, sm_db := sm_db m3 @ rest\<rparr>)" "in_place (m3\<lparr>sm_servers := S, sm_db := sm_db m3 @ rest\<rparr>) a"
    and S: "(S = sm_servers m3 \<and> rest = []) \<or> (ss_services ?os = [] \<and> map_of (sm_servers m3) (ss_fqdn ?os) = Some old
           \<and> S = AList.delete (ss_fqdn ?os) (sm_servers m3) \<and> rest = [DeleteServer (ss_fqdn ?os)])"
    by (rule expunge_left [OF c3 m3(5) _ assms(5)])
  let ?m = "m3\<lparr>sm_servers := S, sm_db := sm_db m3 @ rest\<rparr>"
  have "moved_away m s old rest ?m" using S osv(1) by (auto simp: moved_away_def m3(1))
  moreover have "\<forall>k b. map_of (sm_servers ?m) k = Some b \<longrightarrow> map_of (sm_servers m) k = Some b"
    using S by (auto simp: m3(1) split: if_splits)
  ultimately show ?thesis
    using move3 e m3 sv(1) by (intro exI [of _ ?m]) simp
qed

lemma register_known_service:
  assumes c: "consistent m" and v: "map_of (sm_services m) s = Some v" and "in_place m a"
    and ex: "\<And>old. sv_server v = Some old \<Longrightarrow> old \<noteq> a \<Longrightarrow> expungeable m s old"
  shows "\<exists>m'. register_service a s running st (m, l) = (Inr (), (m', l)) \<and> registered m s a running st m'
     \<and> logged m s a m'"
proof -
  from c v obtain old where old: "sv_server v = Some old" by (rule consistentD)
  obtain S D where r: "refresh_service s running st v (m, l) = (Inr (), (m\<lparr>sm_services := S, sm_db := sm_db m @ D\<rparr>, l))"
    and S: "map_of S = (map_of (sm_services m))(s \<mapsto> refreshed running st v)"
    and D: "list_all state_update D"
    using refresh_run [OF v] by blast
  let ?m1 = "m\<lparr>sm_services := S, sm_db := sm_db m @ D\<rparr>"
  have c1: "consistent ?m1"
    by (rule consistent_update_service [OF c v _ S]) (simp add: refreshed_def)
  have ip1: "in_place ?m1 a" using assms(3) by (simp add: in_place_def)
  have v1: "map_of (sm_services ?m1) s = Some (refreshed running st v)" using S by simp
  have run: "register_service a s running st (m, l) = move_service a s v (?m1, l)"
    using v r by (simp add: register_service_def bnd_def sm_get_def gets_def guarded_def has_key_def
        service_at_def lift_exn_def ret_def)
  show ?thesis
  proof (cases "old = a")
    case True
    then have "move_service a s v (?m1, l) = (Inr (), (?m1, l))"
      using old by (simp add: move_service_def guarded_def ret_def)
    moreover have "refreshed running st v = \<lparr>sv_server = Some a, sv_running = running, sv_status = st\<rparr>"
      using True old by (cases v) (simp add: refreshed_def)
    moreover have "logged m s a ?m1"
      using v old True D assms(3) by (auto simp: logged_def in_place_def)
    ultimately show ?thesis
      using run c1 ip1 S by (auto simp: registered_def)
  next
    case False
    have "expungeable ?m1 s old" using ex [OF old False] by (simp add: expungeable_def)
    from move_run [OF c1 v1 _ old False ip1 this, of l] obtain m' where
      m': "move_service a s v (?m1, l) = (Inr (), (m', l))" "consistent m'" "in_place m' a"
        "map_of (sm_services m') = (map_of S)(s \<mapsto> (refreshed running st v)\<lparr>sv_server := Some a\<rparr>)"
        "sm_hostname_to_server m' = sm_hostname_to_server m"
        "\<forall>k b. map_of (sm_servers m') k = Some b \<longrightarrow> map_of (sm_servers m) k = Some b"
      and log: "\<exists>sv rest. map_of (sm_heap m) a = Some sv \<and> moved_away ?m1 s old rest m'
          \<and> sm_db m' = (sm_db m @ D) @ UpdateServiceLocation s (ss_fqdn sv) # rest"
      by (auto simp: refreshed_def)
    have "logged m s a m'"
      using log D v old False by (auto simp: logged_def moved_away_def)
    have "map_of (sm_services m') = (map_of (sm_services m))
          (s \<mapsto> \<lparr>sv_server = Some a, sv_running = running, sv_status = st\<rparr>)"
      using m'(4) S by (cases v) (simp add: refreshed_def)
    with m' run \<open>logged m s a m'\<close> show ?thesis by (auto simp: registered_def)
  qed
qed

lemma register_service_places:
  assumes "consistent m" and "in_place m a"
    and "\<And>v old. map_of (sm_services m) s = Some v \<Longrightarrow> sv_server v = Some old \<Longrightarrow> old \<noteq> a \<Longrightarrow>
           expungeable m s old"
  shows "\<exists>m'. register_service a s running st (m, l) = (Inr (), (m', l)) \<and> registered m s a running st m'
     \<and> logged m s a m'"
proof (cases "map_of (sm_services m) s")
  case None
  show ?thesis by (rule register_new_service [OF assms(1) None assms(2)])
next
  case (Some v)
  show ?thesis by (rule register_known_service [OF assms(1) Some assms(2)]) (rule assms(3) [OF Some])
qed

section \<open>Properties\<close>


definition one_server :: server_monitor where
  "one_server = init_server_monitor\<lparr>sm_heap := [(0, \<lparr>ss_fqdn = ''n1'', ss_hostname = ''n1'',
     ss_managed = True, ss_services = [], ss_last_contact = None, ss_boot_time = None,
     ss_ceph_version = None\<rparr>)], sm_next := 1, sm_servers := [(''n1'', 0)]\<rparr>"

lemma one_server_ok: "consistent one_server \<and> in_place one_server 0"
  by (auto simp: one_server_def init_server_monitor_def consistent_def in_place_def live_def
      listed_def get_default_def has_key_def)


text \<open>
  C28. A new mon map removes exactly those mon services of its cluster that it does not list, and
  a new MDS map does the same for MDS services; servers stay, and the tables stay
  consistent.
\<close>

theorem maps_remove_stale_services:
  assumes "consistent m"
  shows "(\<exists>m'. on_mon_map d (m, l) = (Inr (), (m', l)) \<and> consistent m'
     \<and> sm_servers m' = sm_servers m
     \<and> (\<forall>s. map_of (sm_services m') s =
          (if sid_fsid s = mm_fsid d \<and> sid_type s = ''mon'' \<and> sid_id s \<notin> mon_name ` set (mm_mons d)
           then None else map_of (sm_services m) s)))
    \<and> (\<exists>m'. on_mds_map f names (m, l) = (Inr (), (m', l)) \<and> consistent m'
     \<and> sm_servers m' = sm_servers m
     \<and> (\<forall>s. map_of (sm_services m') s =
          (if sid_fsid s = f \<and> sid_type s = ''mds'' \<and> sid_id s \<notin> set names
           then None else map_of (sm_services m) s)))"
proof -
  have mem: "s \<in> set (map (\<lambda>m. ServiceId (mm_fsid d) ''mon'' (mon_name m)) (mm_mons d))
      \<longleftrightarrow> sid_id s \<in> mon_name ` set (mm_mons d)"
    if "sid_fsid s = mm_fsid d" "sid_type s = ''mon''" for s
    using that by (cases s) auto
  have mem2: "s \<in> set (map (ServiceId f ''mds'') names) \<longleftrightarrow> sid_id s \<in> set names"
    if "sid_fsid s = f" "sid_type s = ''mds''" for s
    using that by (cases s) auto
  obtain m1 where m1: "on_mon_map d (m, l) = (Inr (), (m1, l))" "consistent m1" "sm_servers m1 = sm_servers m"
    "\<And>s. map_of (sm_services m1) s = (if sid_fsid s = mm_fsid d \<and> sid_type s = ''mon''
        \<and> s \<notin> set (map (\<lambda>m. ServiceId (mm_fsid d) ''mon'' (mon_name m)) (mm_mons d))
        then None else map_of (sm_services m) s)"
    using forget_stale_run [OF assms] unfolding on_mon_map_def by blast
  have mon: "\<exists>m'. on_mon_map d (m, l) = (Inr (), (m', l)) \<and> consistent m'
     \<and> sm_servers m' = sm_servers m
     \<and> (\<forall>s. map_of (sm_services m') s =
          (if sid_fsid s = mm_fsid d \<and> sid_type s = ''mon'' \<and> sid_id s \<notin> mon_name ` set (mm_mons d)
           then None else map_of (sm_services m) s))"
    by (intro exI [of _ m1] conjI m1(1-3) allI, subst m1(4)) (use mem in auto)
  obtain m2 where m2: "on_mds_map f names (m, l) = (Inr (), (m2, l))" "consistent m2" "sm_servers m2 = sm_servers m"
    "\<And>s. map_of (sm_services m2) s = (if sid_fsid s = f \<and> sid_type s = ''mds''
        \<and> s \<notin> set (map (ServiceId f ''mds'') names) then None else map_of (sm_services m) s)"
    using forget_stale_run [OF assms] unfolding on_mds_map_def by blast
  have mds: "\<exists>m'. on_mds_map f names (m, l) = (Inr (), (m', l)) \<and> consistent m'
     \<and> sm_servers m' = sm_servers m
     \<and> (\<forall>s. map_of (sm_services m') s =
          (if sid_fsid s = f \<and> sid_type s = ''mds'' \<and> sid_id s \<notin> set names
           then None else map_of (sm_services m) s))"
    by (intro exI [of _ m2] conjI m2(1-3) allI, subst m2(4)) (use mem2 in auto)
  from mon mds show ?thesis by blast
qed

theorem maps_remove_stale_services_witness:
  "\<exists>m'. on_mds_map ''f'' [''a''] (one_server, \<lparr>ev_pending = [], ev_saved = []\<rparr>)
      = (Inr (), (m', \<lparr>ev_pending = [], ev_saved = []\<rparr>)) \<and> sm_servers m' = [(''n1'', 0)]"
  using maps_remove_stale_services [of one_server _ _ "''f''" "[''a'']"] one_server_ok
  by (fastforce simp: one_server_def)

text \<open>
  A server's boot time always becomes the reported one. A warning that it rebooted is raised
  exactly if a boot time was known before and the new one is at least ten seconds later,
  so clock corrections and first contacts are not taken for reboots.
\<close>

theorem reboot_detection:
  assumes "map_of (sm_heap m) a = Some sv"
  shows "\<exists>m' l'. check_boot_time t a b (m, l) = (Inr (), (m', l'))
     \<and> map_of (sm_heap m') a = Some (sv\<lparr>ss_boot_time := Some b\<rparr>)
     \<and> (case ss_boot_time sv of
          Some old \<Rightarrow> if seconds 10 \<le> b - old
            then map (\<lambda>e. (ev_severity e, ev_message e)) (ev_pending l')
              = map (\<lambda>e. (ev_severity e, ev_message e)) (ev_pending l)
                @ [(WARNING, ''Server '' @ ss_fqdn sv @ '' rebooted'')]
            else l' = l
        | None \<Rightarrow> l' = l)"
proof (cases "ss_boot_time sv")
  case None
  with assms show ?thesis
    by (simp add: check_boot_time_def server_at_def set_server_at_def persist_def py_simps)
next
  case (Some old)
  with assms show ?thesis
    by (cases "b = old"; cases "b < old"; cases "b - old < seconds 10"; cases sv)
      (auto simp: check_boot_time_def server_at_def set_server_at_def persist_def py_simps
        on_reboot_def sm_emit_def zoom_def REBOOT_THRESHOLD_def seconds_def)
qed

theorem reboot_detection_witness:
  "\<exists>m' l'. check_boot_time 0 0 (seconds 100) (one_server, \<lparr>ev_pending = [], ev_saved = []\<rparr>) = (Inr (), (m', l'))
     \<and> ev_pending l' = []"
  using reboot_detection [of one_server 0]
  by (fastforce simp: one_server_def)

definition rack_map :: osd_map_data where
  "rack_map = (one_pool_map [])\<lparr>om_osds := [\<lparr>osd = 0, osd_up = 1, osd_in = 1, public_addr = '''', cluster_addr = ''''\<rparr>],
     om_tree := [\<lparr>node_id = -2, node_name = ''rack-a'', node_type = ''host'', node_children = Some [0],
         node_reweight = None\<rparr>,
       \<lparr>node_id = 0, node_name = ''osd.0'', node_type = ''osd'', node_children = None, node_reweight = Some 1\<rparr>]\<rparr>"

definition node_heartbeat :: heartbeat where
  "node_heartbeat = \<lparr>hb_boot_time = 1, hb_ceph_version = Some ''0.80'',
     hb_services = [\<lparr>hs_id = ServiceId ''f'' ''osd'' ''0'', hs_status = None\<rparr>]\<rparr>"

text \<open>The steps: a map that names the host by its CRUSH name, a heartbeat of the real host, the map again.\<close>

definition ghost_history :: "unit sm_py" where
  "ghost_history =
     bnd (on_osd_map 10 rack_map) (\<lambda>_.
     bnd (on_server_heartbeat (\<lambda>_. Inr ''node1'') 0 ''node1.example'' node_heartbeat) (\<lambda>_.
     on_osd_map 10 rack_map))"

definition after_ghost :: server_monitor where
  "after_ghost = fst (snd (ghost_history (init_server_monitor, \<lparr>ev_pending = [], ev_saved = []\<rparr>)))"

text \<open>A server that the OSD map named by its CRUSH name and that lost its last OSD to a
  heartbeat is dropped from the table of servers but not from the table of host names.
  After the next OSD map the OSD is on that unlisted server again, and from then on every
  heartbeat of the host that really runs it stops with a KeyError.\<close>

theorem expunged_server_returns:
  "fst (ghost_history (init_server_monitor, \<lparr>ev_pending = [], ev_saved = []\<rparr>)) = Inr ()
   \<and> map_option ss_fqdn (get_by_service after_ghost (ServiceId ''f'' ''osd'' ''0'')) = Some ''rack-a''
   \<and> keys (sm_servers after_ghost) = [''node1.example'']
   \<and> fst (on_server_heartbeat (\<lambda>_. Inr ''node1'') 60 ''node1.example'' node_heartbeat
        (after_ghost, \<lparr>ev_pending = [], ev_saved = []\<rparr>)) = Inl (KeyError ''rack-a'')"
  unfolding after_ghost_def by code_simp

end
