(* ===== verification/SyncObjects.thy ===== *)
theory SyncObjects
  imports UserRequests
begin

text \<open>
  SyncObjects (cthulhu/manager/cluster_monitor.py): calamari's copy of the cluster maps
  of one cluster, and the fetches it starts to keep that copy up to date.
\<close>

section \<open>State\<close>

text \<open>
  The dictionaries have an entry for every type, from the constructor on, so they are
  functions. \<open>fetching_at\<close> is when the fetch under way was issued.
\<close>

record sync_objects =
  so_cluster_name :: string
  objects :: "sync_type \<Rightarrow> sync_object"
  fetching_at :: "sync_type \<Rightarrow> time option"
  known_versions :: "sync_type \<Rightarrow> version"

type_synonym 'a so_py = "(sync_objects \<times> salt_job list, 'a) py"

definition FETCH_TIMEOUT :: time where
  "FETCH_TIMEOUT = seconds 10"

definition init_sync_objects :: "string \<Rightarrow> sync_objects" where
  "init_sync_objects name =
     \<lparr>so_cluster_name = name, objects = (\<lambda>_. mk_sync_object VNone None),
      fetching_at = (\<lambda>_. None), known_versions = (\<lambda>_. VNone)\<rparr>"

definition set_map :: "sync_type \<Rightarrow> version \<Rightarrow> sync_data option \<Rightarrow> sync_object so_py" where
  "set_map ty v d =
     bnd (modify (\<lambda>(s, js). (s\<lparr>objects := (objects s)(ty := mk_sync_object v d)\<rparr>, js)))
       (\<lambda>_. ret (mk_sync_object v d))"

definition get_version :: "sync_objects \<Rightarrow> sync_type \<Rightarrow> version" where
  "get_version s ty = so_version (objects s ty)"

definition get_data :: "sync_objects \<Rightarrow> sync_type \<Rightarrow> sync_data option" where
  "get_data s ty = so_data (objects s ty)"

section \<open>Fetching\<close>

text \<open>A publication that salt refuses is only logged; the retry is up to later heartbeats.\<close>

definition fetch :: "time \<Rightarrow> string option \<Rightarrow> sync_type \<Rightarrow> unit so_py" where
  "fetch t minion ty = (case minion of
       None \<Rightarrow> ret ()
     | Some m \<Rightarrow> modify (\<lambda>(s, js). (s\<lparr>fetching_at := (fetching_at s)(ty := Some t)\<rparr>,
                     js @ [GetClusterObject m (so_cluster_name s) ty])))"

definition on_version :: "time \<Rightarrow> string option \<Rightarrow> sync_type \<Rightarrow> version \<Rightarrow> unit so_py" where
  "on_version t reported_by ty new_version =
     bnd (gets fst) (\<lambda>s.
     guarded (0 < sync_cmp ty new_version (get_version s ty))
       (bnd (guarded (0 < sync_cmp ty new_version (known_versions s ty))
              (modify (\<lambda>(s, js). (s\<lparr>known_versions := (known_versions s)(ty := new_version)\<rparr>, js))))
       (\<lambda>_. case fetching_at s ty of
              Some started \<Rightarrow> if t - started < FETCH_TIMEOUT then ret () else fetch t reported_by ty
            | None \<Rightarrow> fetch t reported_by ty)))"

definition on_fetch_complete ::
  "time \<Rightarrow> string option \<Rightarrow> sync_type \<Rightarrow> version \<Rightarrow> sync_data option \<Rightarrow> sync_object option so_py" where
  "on_fetch_complete t minion ty v d =
     bnd (modify (\<lambda>(s, js). (s\<lparr>fetching_at := (fetching_at s)(ty := None)\<rparr>, js))) (\<lambda>_.
     bnd (gets fst) (\<lambda>s.
     bnd (guarded (0 < sync_cmp ty v (known_versions s ty))
            (modify (\<lambda>(s, js). (s\<lparr>known_versions := (known_versions s)(ty := v)\<rparr>, js)))) (\<lambda>_.
     bnd (if sync_cmp ty v (get_version s ty) \<le> 0 then ret None
          else bnd (set_map ty v d) (\<lambda>o'. ret (Some o'))) (\<lambda>new_object.
     bnd (gets fst) (\<lambda>s'.
     bnd (guarded (0 < sync_cmp ty (known_versions s' ty) v) (fetch t minion ty)) (\<lambda>_.
     ret new_object))))))"

section \<open>What every operation keeps\<close>

text \<open>
  Seen from any later time, the versions of the maps that have an epoch never go back,
  and an object changes only together with its version.
\<close>

definition newer_at :: "sync_type \<Rightarrow> sync_objects \<Rightarrow> sync_objects \<Rightarrow> bool" where
  "newer_at ty s s' \<longleftrightarrow> get_version s ty \<le> get_version s' ty
     \<and> known_versions s ty \<le> known_versions s' ty
     \<and> (get_version s ty = get_version s' ty \<longrightarrow> objects s ty = objects s' ty)"

definition newer :: "sync_objects \<times> salt_job list \<Rightarrow> sync_objects \<times> salt_job list \<Rightarrow> bool" where
  "newer x y \<longleftrightarrow> (\<forall>ty. versioned ty \<longrightarrow> newer_at ty (fst x) (fst y))
     \<and> so_cluster_name (fst x) = so_cluster_name (fst y)
     \<and> (\<exists>new. snd y = snd x @ new)"

lemma newer_at_trans: "newer_at ty s t \<Longrightarrow> newer_at ty t u \<Longrightarrow> newer_at ty s u"
  unfolding newer_at_def by (metis order_antisym order_trans)

interpretation so: step_contract newer
proof unfold_locales
  fix x y z :: "sync_objects \<times> salt_job list"
  show "newer x x" by (simp add: newer_def newer_at_def)
  show "newer x y \<Longrightarrow> newer y z \<Longrightarrow> newer x z"
    unfolding newer_def using newer_at_trans by fastforce
qed

text \<open>
  The copy is current or being made current: what is known to exist is what is stored,
  or there is a fetch under way.
\<close>

definition tracked :: "sync_objects \<Rightarrow> sync_type \<Rightarrow> bool" where
  "tracked s ty \<longleftrightarrow> get_version s ty \<le> known_versions s ty
     \<and> (get_version s ty < known_versions s ty \<longrightarrow> fetching_at s ty \<noteq> None)"

lemmas so_defs = on_version_def on_fetch_complete_def fetch_def set_map_def get_version_def
  mk_sync_object_def

lemma fetch_effect: "fetch t minion ty (s, js) = (Inr (), (case minion of None \<Rightarrow> (s, js)
     | Some m \<Rightarrow> (s\<lparr>fetching_at := (fetching_at s)(ty := Some t)\<rparr>,
                     js @ [GetClusterObject m (so_cluster_name s) ty])))"
  by (cases minion) (simp_all add: fetch_def py_simps)

lemma newer_fetch [intro]: "obeys newer (fetch t minion ty)"
proof -
  have "newer (s, js) (snd (fetch t minion ty (s, js)))" for s js
    by (cases minion) (auto simp: fetch_effect newer_def newer_at_def get_version_def)
  then show ?thesis by (simp add: obeys_def)
qed

text \<open>The operations in closed form.\<close>

definition latest :: "sync_type \<Rightarrow> version \<Rightarrow> version \<Rightarrow> version" where
  "latest ty new old = (if 0 < sync_cmp ty new old then new else old)"

lemma latest_versioned: "versioned ty \<Longrightarrow> latest ty v w = max w v"
  by (auto simp: latest_def sync_cmp_versioned_pos max_def)

definition fetch_due :: "time \<Rightarrow> time option \<Rightarrow> bool" where
  "fetch_due t at' = (case at' of None \<Rightarrow> True | Some started \<Rightarrow> FETCH_TIMEOUT \<le> t - started)"

lemma upd_latest: "\<not> 0 < sync_cmp ty v (f ty) \<Longrightarrow> f(ty := latest ty v (f ty)) = f"
  by (auto simp: latest_def)

lemma on_version_effect:
  "on_version t m ty v (s, js) =
    (if 0 < sync_cmp ty v (get_version s ty) then
       (let s1 = s\<lparr>known_versions := (known_versions s)(ty := latest ty v (known_versions s ty))\<rparr>
        in if fetch_due t (fetching_at s ty) then fetch t m ty (s1, js) else (Inr (), (s1, js)))
     else (Inr (), (s, js)))"
  by (cases "0 < sync_cmp ty v (known_versions s ty)")
    (auto simp: on_version_def py_simps Let_def fetch_due_def upd_latest latest_def
      split: option.splits)

lemma on_fetch_complete_effect:
  "on_fetch_complete t m ty v d (s, js) =
    (let known = latest ty v (known_versions s ty);
         fresh = 0 < sync_cmp ty v (get_version s ty);
         s1 = s\<lparr>fetching_at := (fetching_at s)(ty := None),
                known_versions := (known_versions s)(ty := known)\<rparr>;
         s2 = (if fresh then s1\<lparr>objects := (objects s)(ty := mk_sync_object v d)\<rparr> else s1);
         new = (if fresh then Some (mk_sync_object v d) else None)
     in if 0 < sync_cmp ty known v then (Inr new, snd (fetch t m ty (s2, js)))
        else (Inr new, (s2, js)))"
  by (cases "0 < sync_cmp ty v (known_versions s ty)"; cases "0 < sync_cmp ty v (get_version s ty)")
    (auto simp: on_fetch_complete_def set_map_def py_simps Let_def get_version_def latest_def
      fetch_effect upd_latest split: option.splits)

lemma newer_on_version [intro]: "obeys newer (on_version t m ty v)"
proof -
  have "newer (s, js) (snd (on_version t m ty v (s, js)))" for s js
    by (cases m) (auto simp: on_version_effect Let_def fetch_effect newer_def newer_at_def
        get_version_def latest_versioned)
  then show ?thesis by (simp add: obeys_def)
qed

lemma newer_on_fetch_complete [intro]: "obeys newer (on_fetch_complete t m ty v d)"
proof -
  have "newer (s, js) (snd (on_fetch_complete t m ty v d (s, js)))" for s js
    by (cases m) (auto simp: on_fetch_complete_effect Let_def fetch_effect newer_def newer_at_def
        get_version_def latest_versioned mk_sync_object_def sync_cmp_versioned_pos)
  then show ?thesis by (simp add: obeys_def)
qed

lemma tracked_init: "tracked (init_sync_objects name) ty"
  by (simp add: tracked_def init_sync_objects_def get_version_def mk_sync_object_def)

lemma tracked_on_version:
  assumes "versioned ty'" and "tracked s ty'"
  shows "tracked (fst (snd (on_version t (Some m) ty v (s, js)))) ty'"
  using assms
  by (cases "ty' = ty"; cases "fetching_at s ty")
    (auto simp: on_version_effect Let_def fetch_effect tracked_def get_version_def latest_versioned
      sync_cmp_versioned_pos le_max_iff_disj fetch_due_def)

lemma tracked_on_fetch_complete:
  assumes "versioned ty'" and "tracked s ty'"
  shows "tracked (fst (snd (on_fetch_complete t (Some m) ty v d (s, js)))) ty'"
  using assms
  by (cases "ty' = ty")
    (auto simp: on_fetch_complete_effect Let_def fetch_effect tracked_def get_version_def
      latest_versioned sync_cmp_versioned_pos mk_sync_object_def max_def)

lemma on_version_returns [simp]: "fst (on_version t m ty v sj) = Inr ()"
  by (cases sj) (auto simp: on_version_effect Let_def fetch_effect)

text \<open>The states that versions and fetched maps from minions lead to, from the constructor on.\<close>

inductive so_reach :: "string \<Rightarrow> sync_objects \<times> salt_job list \<Rightarrow> bool" for name where
  so_init: "so_reach name (init_sync_objects name, [])"
| so_version: "so_reach name sj \<Longrightarrow> on_version t (Some m) ty v sj = (r, sj') \<Longrightarrow> so_reach name sj'"
| so_fetched: "so_reach name sj \<Longrightarrow> on_fetch_complete t (Some m) ty v d sj = (r', sj') \<Longrightarrow>
     so_reach name sj'"

lemma so_reach_newer: "so_reach name sj \<Longrightarrow> newer (init_sync_objects name, []) sj"
proof (induction rule: so_reach.induct)
  case so_init
  show ?case by (rule so.step_refl)
next
  case (so_version sj t m ty v r sj')
  show ?case
    by (rule so.step_trans [OF so_version.IH obeysD [OF newer_on_version so_version.hyps(2)]])
next
  case (so_fetched sj t m ty v d r' sj')
  show ?case
    by (rule so.step_trans [OF so_fetched.IH obeysD [OF newer_on_fetch_complete so_fetched.hyps(2)]])
qed

section \<open>Properties\<close>

text \<open>
  Whatever is reported or fetched, by whoever and in whatever order, the stored map of an
  epoch-versioned type and the version known to exist never go back, and while the
  stored version stays the same so does the stored map.
\<close>

theorem sync_objects_never_go_back:
  "obeys newer (on_version t m ty v) \<and> obeys newer (on_fetch_complete t m ty v d)"
  using newer_on_version newer_on_fetch_complete by blast



text \<open>
  A report of a version newer than the stored one is always recorded; it sends a fetch to the
  minion that reported it unless one was sent less than ten seconds before. Any other
  report changes nothing.
\<close>

theorem on_version_fetches:
  assumes "versioned ty"
  shows "case on_version t (Some m) ty v (s, js) of (r, (s', js')) \<Rightarrow>
     r = Inr () \<and> objects s' = objects s
     \<and> (if v \<le> get_version s ty then s' = s \<and> js' = js
        else v \<le> known_versions s' ty
          \<and> (if \<exists>started. fetching_at s ty = Some started \<and> t < started + seconds 10
             then js' = js \<and> fetching_at s' = fetching_at s
             else js' = js @ [GetClusterObject m (so_cluster_name s) ty]
               \<and> fetching_at s' ty = Some t))"
  using assms
  by (cases "fetching_at s ty")
    (auto simp: on_version_effect Let_def fetch_effect sync_cmp_versioned_pos latest_versioned
      fetch_due_def FETCH_TIMEOUT_def not_le split: prod.splits)

theorem on_version_fetches_witness:
  "case on_version 20 (Some ''mon0'') OsdMap (VInt 4) (init_sync_objects ''ceph'', []) of (r, (s', js')) \<Rightarrow>
     js' = [GetClusterObject ''mon0'' ''ceph'' OsdMap]"
  using on_version_fetches [where ty = OsdMap and t = 20 and m = "''mon0''" and v = "VInt 4"
      and s = "init_sync_objects ''ceph''" and js = "[]"]
  by (auto simp: init_sync_objects_def get_version_def mk_sync_object_def split: prod.splits if_splits)

text \<open>
  A fetched map is stored, and announced to the caller, exactly if its version is newer than
  the stored one; the fetch counts as done, and another is sent at once exactly if a
  newer version than the fetched one is known. In particular the copy is current as soon
  as the latest known version arrives.
\<close>

theorem on_fetch_complete_outcome:
  assumes "versioned ty"
  shows "case on_fetch_complete t (Some m) ty v d (s, js) of (r, (s', js')) \<Rightarrow>
     r = Inr (if get_version s ty < v then Some (objects s' ty) else None)
     \<and> get_version s' ty = max (get_version s ty) v
     \<and> (get_version s ty < v \<longrightarrow> objects s' ty = mk_sync_object v d)
     \<and> known_versions s' ty = max (known_versions s ty) v
     \<and> (if v < known_versions s ty
        then fetching_at s' ty = Some t \<and> js' = js @ [GetClusterObject m (so_cluster_name s) ty]
        else fetching_at s' ty = None \<and> js' = js)
     \<and> (known_versions s ty \<le> v \<and> tracked s ty \<longrightarrow> get_version s' ty = known_versions s' ty)"
  using assms
  by (auto simp: on_fetch_complete_effect Let_def fetch_effect sync_cmp_versioned_pos
      latest_versioned get_version_def mk_sync_object_def tracked_def max_def split: prod.splits)

theorem on_fetch_complete_outcome_witness:
  "case on_fetch_complete 20 (Some ''mon0'') OsdMap (VInt 4) None
     (fst (snd (on_version 0 (Some ''mon0'') OsdMap (VInt 4) (init_sync_objects ''ceph'', []))), []) of
     (r, (s', js')) \<Rightarrow> get_version s' OsdMap = VInt 4 \<and> js' = []"
  using on_fetch_complete_outcome [where ty = OsdMap and t = 20 and m = "''mon0''" and v = "VInt 4"
      and d = None and js = "[]" and s = "fst (snd (on_version 0 (Some ''mon0'') OsdMap (VInt 4) (init_sync_objects ''ceph'', [])))"]
  by (auto simp: on_version_effect init_sync_objects_def get_version_def mk_sync_object_def
      sync_cmp_def Let_def fetch_due_def fetch_effect latest_def max_def split: prod.splits if_splits)

end
