(* ===== verification/RequestCollection.thy ===== *)
theory RequestCollection
  imports SyncObjects EventLog
begin

text \<open>
  RequestCollection (cthulhu/manager/request_collection.py): every user request by its
  id, and the running jobs by their salt job id. Its operations drive the requests: on
  submission, on job returns, on cluster maps, on a timer, on a cancellation and when the
  minion that ran the jobs is given up.

  The state is the part of the process these operations touch: the jobs published to
  salt, the event log, the cluster monitors (asked for cluster maps) and the two
  dictionaries. \<open>by_request_id\<close> holds the request objects and never drops one;
  \<open>by_jid\<close> refers to them by request id, which stands for the object's identity. The
  collection's lock makes each operation one step.
\<close>

section \<open>State\<close>

record cluster =
  cl_fsid :: string
  cl_name :: string
  cl_update_time :: time
  cl_favorite :: "string option"
  cl_last_heartbeat :: "(string, time) dict"
  cl_sync :: sync_objects

record hub =
  jobs :: "salt_job list"
  event_log :: event_log
  clusters :: "(string, cluster) dict"
  by_request_id :: "(string, request) dict"
  by_jid :: "(string, string) dict"

type_synonym ('z, 'a) hub_py = "('z hub_scheme, 'a) py"

definition TICK_PERIOD :: int where
  "TICK_PERIOD = 20"

definition on_events :: "'a ev_py \<Rightarrow> ('z, 'a) hub_py" where
  "on_events m = zoom event_log (\<lambda>l w. w\<lparr>event_log := l\<rparr>) m"

text \<open>A method of one request object, which may publish jobs.\<close>

definition on_request :: "string \<Rightarrow> 'a rq_py \<Rightarrow> ('z, 'a) hub_py" where
  "on_request rid m = (\<lambda>w. case map_of (by_request_id w) rid of
       None \<Rightarrow> (Inl (KeyError rid), w)
     | Some r \<Rightarrow> (case m (r, jobs w) of (x, (r', js')) \<Rightarrow>
         (x, w\<lparr>by_request_id := AList.update rid r' (by_request_id w), jobs := js'\<rparr>)))"

text \<open>A method of the SyncObjects of one cluster monitor.\<close>

definition on_cluster_sync :: "string \<Rightarrow> 'a so_py \<Rightarrow> ('z, 'a) hub_py" where
  "on_cluster_sync fsid m = (\<lambda>w. case map_of (clusters w) fsid of
       None \<Rightarrow> (Inl (KeyError fsid), w)
     | Some c \<Rightarrow> (case m (cl_sync c, jobs w) of (x, (s', js')) \<Rightarrow>
         (x, w\<lparr>clusters := AList.update fsid (c\<lparr>cl_sync := s'\<rparr>) (clusters w), jobs := js'\<rparr>)))"

definition get_request :: "string \<Rightarrow> ('z, request) hub_py" where
  "get_request rid = bnd get_state (\<lambda>w. lift_exn (item (by_request_id w) rid rid))"

definition request_ids_in :: "request_state \<Rightarrow> 'z hub_scheme \<Rightarrow> string list" where
  "request_ids_in st w = keys (filter (\<lambda>(i, r). rq_state r = st) (by_request_id w))"

definition get_all :: "request_state option \<Rightarrow> 'z hub_scheme \<Rightarrow> request list" where
  "get_all st w = (case st of
       None \<Rightarrow> vals (by_request_id w)
     | Some x \<Rightarrow> filter (\<lambda>r. rq_state r = x) (vals (by_request_id w)))"

definition get_by_jid :: "string \<Rightarrow> ('z, string) hub_py" where
  "get_by_jid j = bnd get_state (\<lambda>w. lift_exn (item (by_jid w) j j))"

section \<open>Keeping the job index\<close>

text \<open>
  The context manager around everything that may change a request's job. It has no
  \<open>finally\<close>: when the body raises, the index is left as it was.
\<close>

definition reindex :: "string \<Rightarrow> string option \<Rightarrow> ('z, unit) hub_py" where
  "reindex rid old_jid =
     bnd (get_request rid) (\<lambda>r.
     guarded (rq_jid r \<noteq> old_jid)
       (bnd (case old_jid of
               None \<Rightarrow> ret ()
             | Some j \<Rightarrow> bnd (get_by_jid j) (\<lambda>_. modify (\<lambda>w. w\<lparr>by_jid := AList.delete j (by_jid w)\<rparr>)))
       (\<lambda>_. case rq_jid r of
               None \<Rightarrow> ret ()
             | Some j \<Rightarrow> modify (\<lambda>w. w\<lparr>by_jid := AList.update j rid (by_jid w)\<rparr>))))"

definition update_index :: "string \<Rightarrow> ('z, 'a) hub_py \<Rightarrow> ('z, 'a) hub_py" where
  "update_index rid body =
     bnd (get_request rid) (\<lambda>r.
     bnd body (\<lambda>x.
     bnd (reindex rid (rq_jid r)) (\<lambda>_. ret x)))"

definition drop_jid :: "unit rq_py" where
  "drop_jid = upd (\<lambda>r. r\<lparr>rq_jid := None\<rparr>)"

definition abandon :: "time \<Rightarrow> string \<Rightarrow> unit rq_py" where
  "abandon t msg = bnd drop_jid (\<lambda>_. bnd (set_error msg) (\<lambda>_. complete t))"

definition report_if_complete :: "time \<Rightarrow> string \<Rightarrow> ('z, unit) hub_py" where
  "report_if_complete t rid =
     bnd (get_request rid) (\<lambda>r.
     guarded (rq_state r = Complete) (on_events (on_user_request_complete t r)))"

section \<open>Submitting, cancelling, giving up\<close>

definition submit_request ::
  "(nat \<Rightarrow> string option) \<Rightarrow> time \<Rightarrow> request \<Rightarrow> string \<Rightarrow> ('z, unit) hub_py" where
  "submit_request pub t r minion = (\<lambda>w. case UserRequests.submit pub t minion (r, jobs w) of
       (Inl e, (_, js)) \<Rightarrow> (Inl e, w\<lparr>jobs := js\<rparr>)
     | (Inr _, (r', js)) \<Rightarrow>
         on_events (on_user_request_begin t r')
           (w\<lparr>jobs := js, by_request_id := AList.update (rq_id r') r' (by_request_id w),
              by_jid := (case rq_jid r' of None \<Rightarrow> by_jid w
                         | Some j \<Rightarrow> AList.update j (rq_id r') (by_jid w))\<rparr>))"

definition cancel :: "time \<Rightarrow> string \<Rightarrow> ('z, unit) hub_py" where
  "cancel t rid =
     bnd (get_request rid) (\<lambda>r.
     guarded (rq_state r \<noteq> Complete)
       (update_index rid
         (bnd (on_request rid (abandon t ''Cancelled'')) (\<lambda>_.
          case rq_jid r of
            None \<Rightarrow> ret ()
          | Some j \<Rightarrow> modify (\<lambda>w. w\<lparr>jobs := jobs w @ [KillJob (rq_minion_id r) j]\<rparr>)))))"

definition fail_all :: "time \<Rightarrow> string \<Rightarrow> ('z, unit) hub_py" where
  "fail_all t failed_minion =
     bnd get_state (\<lambda>w.
     for_each (\<lambda>rid. update_index rid
         (on_request rid
           (bnd (set_error (''Lost contact with server '' @ failed_minion)) (\<lambda>_.
            bnd drop_jid (\<lambda>_. complete t)))))
       (request_ids_in Submitted w))"

section \<open>The timer\<close>

definition is_stale :: "time \<Rightarrow> request \<Rightarrow> exn + bool" where
  "is_stale t r = (case rq_alive_at r of
       None \<Rightarrow> Inl TypeError
     | Some a \<Rightarrow> Inr (seconds (TICK_PERIOD * 3) < t - a))"

fun stale_jobs :: "time \<Rightarrow> (string, request) dict \<Rightarrow> string list \<Rightarrow> exn + string list" where
  "stale_jobs t heap [] = Inr []"
| "stale_jobs t heap (rid # rids) =
     (case item heap rid rid of
        Inl e \<Rightarrow> Inl e
      | Inr r \<Rightarrow> (case is_stale t r of
          Inl e \<Rightarrow> Inl e
        | Inr b \<Rightarrow> (case stale_jobs t heap rids of
            Inl e \<Rightarrow> Inl e
          | Inr xs \<Rightarrow> Inr (if b then List.insert rid xs else xs))))"

definition minions_in_flight :: "'z hub_scheme \<Rightarrow> string option list" where
  "minions_in_flight w =
     remdups (map (\<lambda>rid. case map_of (by_request_id w) rid of
       None \<Rightarrow> None | Some r \<Rightarrow> rq_minion_id r) (vals (by_jid w)))"

definition tick :: "time \<Rightarrow> ('z, unit) hub_py" where
  "tick t =
     bnd get_state (\<lambda>w.
     guarded (by_jid w \<noteq> [])
       (bnd (lift_exn (stale_jobs t (by_request_id w) (vals (by_jid w)))) (\<lambda>stale.
        bnd (for_each (\<lambda>rid. update_index rid
               (on_request rid (bnd (set_error ''Lost contact'') (\<lambda>_.
                  bnd drop_jid (\<lambda>_. complete t))))) stale) (\<lambda>_.
        bnd get_state (\<lambda>w'.
        guarded (minions_in_flight w' \<noteq> [])
          (modify (\<lambda>x. x\<lparr>jobs := jobs x @ [Running (minions_in_flight w')]\<rparr>)))))))"

definition on_tick_response :: "time \<Rightarrow> string list \<Rightarrow> ('z, unit) hub_py" where
  "on_tick_response t jids =
     for_each (\<lambda>j. bnd get_state (\<lambda>w. case map_of (by_jid w) j of
         None \<Rightarrow> ret ()
       | Some rid \<Rightarrow> on_request rid (upd (\<lambda>r. r\<lparr>rq_alive_at := Some t\<rparr>)))) jids"

section \<open>Cluster maps\<close>

definition deliver ::
  "(nat \<Rightarrow> string option) \<Rightarrow> time \<Rightarrow> sync_type \<Rightarrow> sync_object \<Rightarrow> string \<Rightarrow> ('z, unit) hub_py" where
  "deliver pub t ty obj rid =
     bnd (get_request rid) (\<lambda>r.
     for_each (\<lambda>awaited. guarded (awaited = ty)
         (update_index rid (on_request rid (UserRequests.on_map pub t ty obj))))
       (keys (awaiting_versions r)))"

text \<open>The source compares the request's cluster with the map's and then does nothing.\<close>

definition pass_stmt :: "('z, unit) hub_py" where
  "pass_stmt = ret ()"

definition on_map ::
  "(nat \<Rightarrow> string option) \<Rightarrow> time \<Rightarrow> string \<Rightarrow> sync_type \<Rightarrow> sync_object \<Rightarrow> ('z, unit) hub_py" where
  "on_map pub t fsid ty obj =
     bnd get_state (\<lambda>w.
     for_each (\<lambda>rid.
         bnd (get_request rid) (\<lambda>r.
         bnd (guarded (rq_fsid r \<noteq> Some fsid) pass_stmt) (\<lambda>_.
         bnd (try_except (deliver pub t ty obj rid)
               (\<lambda>e. on_request rid (abandon t (''Internal error '' @ exn_str e)))) (\<lambda>_.
         report_if_complete t rid))))
       (request_ids_in Submitted w))"

section \<open>Job returns\<close>

record completion =
  co_minion :: string
  co_jid :: string
  co_fun :: string
  co_success :: bool
  co_return :: job_return

definition notify_awaited :: "time \<Rightarrow> string \<Rightarrow> string \<Rightarrow> (sync_type, int option) dict \<Rightarrow> ('z, unit) hub_py" where
  "notify_awaited t minion fsid awaited =
     for_each (\<lambda>(ty, v). case v of
         None \<Rightarrow> ret ()
       | Some n \<Rightarrow> on_cluster_sync fsid (on_version t (Some minion) ty (VInt n))) awaited"

definition offer_current ::
  "(nat \<Rightarrow> string option) \<Rightarrow> time \<Rightarrow> string \<Rightarrow> string \<Rightarrow> (sync_type, int option) dict \<Rightarrow> ('z, unit) hub_py" where
  "offer_current pub t fsid rid awaited =
     for_each (\<lambda>(ty, want).
         bnd (on_cluster_sync fsid (gets (\<lambda>(s, _). objects s ty))) (\<lambda>obj.
         guarded (truthy_version want \<and> 0 \<le> sync_cmp ty (so_version obj) (VInt (the want)))
           (on_request rid (UserRequests.on_map pub t ty obj)))) awaited"

definition complete_rados ::
  "(nat \<Rightarrow> string option) \<Rightarrow> time \<Rightarrow> string \<Rightarrow> string \<Rightarrow> job_return \<Rightarrow> ('z, unit) hub_py" where
  "complete_rados pub t minion rid result =
     bnd (get_request rid) (\<lambda>r.
     bnd (on_request rid (complete_jid t result)) (\<lambda>_.
     bnd (get_request rid) (\<lambda>r1.
     bnd (assert_that (rq_jid r1 \<noteq> rq_jid r)) (\<lambda>_.
     guarded (awaiting_versions r1 \<noteq> [])
       (case rq_fsid r1 of
          None \<Rightarrow> raise AssertionError
        | Some fsid \<Rightarrow>
            bnd (assert_that (fsid \<noteq> [])) (\<lambda>_.
            bnd (on_cluster_sync fsid (ret ())) (\<lambda>_.
            bnd (notify_awaited t minion fsid (awaiting_versions r1)) (\<lambda>_.
            offer_current pub t fsid rid (awaiting_versions r1)))))))))"

definition on_rados_completion ::
  "(nat \<Rightarrow> string option) \<Rightarrow> time \<Rightarrow> string \<Rightarrow> string \<Rightarrow> job_return \<Rightarrow> ('z, unit) hub_py" where
  "on_rados_completion pub t minion rid result =
     bnd (get_request rid) (\<lambda>r.
     guarded (rq_state r = Submitted)
       (case result of
          RetText _ \<Rightarrow> raise TypeError
        | RetDict d \<Rightarrow>
            (if ret_error d then
               bnd (on_request rid drop_jid) (\<lambda>_.
               case ret_error_status d of
                 None \<Rightarrow> raise (KeyError ''error_status'')
               | Some m \<Rightarrow> on_request rid (bnd (set_error m) (\<lambda>_. complete t)))
             else
               try_except (update_index rid (complete_rados pub t minion rid result))
                 (\<lambda>e. on_request rid (abandon t (''Internal error '' @ exn_str e))))))"

definition fail_remote :: "time \<Rightarrow> string \<Rightarrow> job_return \<Rightarrow> ('z, unit) hub_py" where
  "fail_remote t rid result =
     update_index rid
       (bnd (on_request rid drop_jid) (\<lambda>_.
        bnd (case result of
               RetText m \<Rightarrow> on_request rid (set_error m)
             | RetDict d \<Rightarrow> (case ret_error_status d of
                 None \<Rightarrow> raise (KeyError ''error_status'')
               | Some m \<Rightarrow> on_request rid (set_error m))) (\<lambda>_.
        on_request rid (complete t))))"

definition on_completion :: "(nat \<Rightarrow> string option) \<Rightarrow> time \<Rightarrow> completion \<Rightarrow> ('z, unit) hub_py" where
  "on_completion pub t data =
     bnd get_state (\<lambda>w. case map_of (by_jid w) (co_jid data) of
         None \<Rightarrow> ret ()
       | Some rid \<Rightarrow>
           bnd (if \<not> co_success data then fail_remote t rid (co_return data)
                else if co_fun data = ''ceph.rados_commands''
                then on_rados_completion pub t (co_minion data) rid (co_return data)
                else update_index rid (on_request rid (complete_jid t (co_return data)))) (\<lambda>_.
           report_if_complete t rid))"

section \<open>What an operation on one request may change\<close>

text \<open>
  \<open>rq_touch pub fresh\<close>: the request's job id stays, is dropped or, where \<open>fresh\<close>,
  becomes the reply to a publication made in between. Requests keep their id.
\<close>

definition new_jid :: "(nat \<Rightarrow> string option) \<Rightarrow> bool \<Rightarrow> nat \<Rightarrow> nat \<Rightarrow> string option \<Rightarrow> string option \<Rightarrow> bool" where
  "new_jid pub fresh k k' j j' \<longleftrightarrow> k \<le> k' \<and>
     (j' = j \<or> j' = None \<or> (fresh \<and> (\<exists>n \<ge> k. n < k' \<and> j' = pub n)))"

definition rq_touch ::
  "(nat \<Rightarrow> string option) \<Rightarrow> bool \<Rightarrow> request \<times> salt_job list \<Rightarrow> request \<times> salt_job list \<Rightarrow> bool" where
  "rq_touch pub fresh x y \<longleftrightarrow>
     new_jid pub fresh (length (snd x)) (length (snd y)) (rq_jid (fst x)) (rq_jid (fst y))"

lemma new_jid_refl [simp]: "new_jid pub fresh k k j j"
  by (simp add: new_jid_def)

lemma new_jid_trans:
  "new_jid pub fresh k1 k2 j1 j2 \<Longrightarrow> new_jid pub fresh k2 k3 j2 j3 \<Longrightarrow> new_jid pub fresh k1 k3 j1 j3"
  unfolding new_jid_def by (metis le_trans order_less_le_trans)

interpretation rt: step_contract "rq_touch pub fresh"
  by unfold_locales (auto simp: rq_touch_def intro: new_jid_trans)

lemma rt_upd:
  "(\<And>r. rq_jid (f r) = rq_jid r \<or> rq_jid (f r) = None) \<Longrightarrow> obeys (rq_touch pub fresh) (upd f)"
  by (simp add: upd_def modify_def obeys_def rq_touch_def new_jid_def split_beta) metis

lemma rt_self [intro]: "obeys (rq_touch pub fresh) self"
  unfolding self_def by blast

lemma rt_set_error [intro]: "obeys (rq_touch pub fresh) (set_error m)"
  unfolding set_error_def by (rule rt_upd) simp

lemma rt_drop_jid [intro]: "obeys (rq_touch pub fresh) drop_jid"
  unfolding drop_jid_def by (rule rt_upd) simp

lemma rt_set_cg [intro]: "obeys (rq_touch pub fresh) (set_cg cg)"
  unfolding set_cg_def by (rule rt_upd) simp

lemma rt_set_pc [intro]: "obeys (rq_touch pub fresh) (set_pc pc)"
  unfolding set_pc_def by (rule rt_upd) simp

lemma rt_complete [intro]: "obeys (rq_touch pub fresh) (complete t)"
  unfolding complete_def by (intro rt.obeys_bnd rt.obeys_assert rt_self rt_upd) simp

lemma rt_rados_submit [intro]: "obeys (rq_touch pub True) (rados_submit pub t cmds)"
proof -
  have "rq_touch pub True (r, js) (snd (rados_submit pub t cmds (r, js)))" for r js
    by (cases "pub (length js)")
      (auto simp: rados_submit_def published_def py_simps rq_touch_def new_jid_def)
  then show ?thesis by (simp add: obeys_def)
qed

lemmas rt_intros = rt.obeys_bnd rt.obeys_guarded rt.obeys_lift rt.obeys_assert
  rt.obeys_raise rt.obeys_ret rt.obeys_if rt_self rt_complete rt_set_error
  rt_set_cg rt_set_pc rt_rados_submit rt_drop_jid

lemma rt_abandon [intro]: "obeys (rq_touch pub fresh) (abandon t m)"
  unfolding abandon_def by (intro rt_intros)

lemma rt_complete_jid [intro]: "obeys (rq_touch pub fresh) (complete_jid t result)"
proof -
  have base: "obeys (rq_touch pub fresh) (base_complete_jid t result)"
    unfolding base_complete_jid_def by (intro rt_intros rt_upd) simp
  have osd: "obeys (rq_touch pub fresh) (osd_complete_jid result)"
    unfolding osd_complete_jid_def by (intro rt_intros rt_upd) simp_all
  have pg: "obeys (rq_touch pub fresh) (pg_complete_jid cg result)" for cg
    unfolding pg_complete_jid_def by (intro rt_intros osd)
  show ?thesis
    unfolding complete_jid_def
    by (intro rt.obeys_bnd rt_self) (auto intro: base osd pg split: request_kind.splits)
qed

lemma rt_on_map [intro]: "obeys (rq_touch pub True) (UserRequests.on_map pub t ty obj)"
proof -
  have osd: "obeys (rq_touch pub True) (osd_on_map t ty obj)"
    unfolding osd_on_map_def
    by (intro rt_intros) (auto split: option.splits intro!: rt_intros)
  have pool: "obeys (rq_touch pub True) (pool_on_map t pc ty obj)" for pc
    unfolding pool_on_map_def Let_def by (intro rt_intros)
  have summary: "obeys (rq_touch pub True) (pg_on_summary pub t cg obj)" for cg
    unfolding pg_on_summary_def Let_def by (auto split: option.splits intro!: rt_intros)
  have check_map: "obeys (rq_touch pub True) (pg_check_map t cg obj)" for cg
    unfolding pg_check_map_def by (intro rt_intros)
  have await: "obeys (rq_touch pub True) (pg_await_map t cg obj)" for cg
    unfolding pg_await_map_def by (intro rt_intros)
  have pg: "obeys (rq_touch pub True) (pg_on_map pub t cg ty obj)" for cg
    unfolding pg_on_map_def
    by (auto split: pg_phase.splits intro: summary check_map await rt_intros)
  show ?thesis
    unfolding UserRequests.on_map_def
    by (intro rt.obeys_bnd rt_self)
      (auto split: request_kind.splits intro: osd pool pg rt_intros)
qed

text \<open>The same for a whole operation: nothing but one request, and no index entry, changes.\<close>

definition touches ::
  "(nat \<Rightarrow> string option) \<Rightarrow> bool \<Rightarrow> string \<Rightarrow> 'z hub_scheme \<Rightarrow> 'z hub_scheme \<Rightarrow> bool" where
  "touches pub fresh rid w w' \<longleftrightarrow> by_jid w' = by_jid w
     \<and> (distinct (keys (by_request_id w)) \<longrightarrow> distinct (keys (by_request_id w')))
     \<and> length (jobs w) \<le> length (jobs w')
     \<and> (\<forall>i. i \<noteq> rid \<longrightarrow> map_of (by_request_id w') i = map_of (by_request_id w) i)
     \<and> (case map_of (by_request_id w) rid of
          None \<Rightarrow> map_of (by_request_id w') rid = None
        | Some r \<Rightarrow> \<exists>r'. map_of (by_request_id w') rid = Some r'
            \<and> new_jid pub fresh (length (jobs w)) (length (jobs w')) (rq_jid r) (rq_jid r'))"

lemma touches_trans: "touches pub fresh rid u v \<Longrightarrow> touches pub fresh rid v w \<Longrightarrow> touches pub fresh rid u w"
  unfolding touches_def
  by (cases "map_of (by_request_id u) rid"; cases "map_of (by_request_id v) rid")
    (auto intro: new_jid_trans)

interpretation tc: step_contract "touches pub fresh rid :: 'z hub_scheme \<Rightarrow> 'z hub_scheme \<Rightarrow> bool"
proof unfold_locales
  fix s t u :: "'z hub_scheme"
  show "touches pub fresh rid s s"
    by (cases "map_of (by_request_id s) rid") (auto simp: touches_def)
  show "touches pub fresh rid s t \<Longrightarrow> touches pub fresh rid t u \<Longrightarrow> touches pub fresh rid s u"
    by (rule touches_trans)
qed

lemma touches_weaken: "touches pub False rid w w' \<Longrightarrow> touches pub fresh rid w w'"
  by (cases "map_of (by_request_id w) rid") (auto simp: touches_def new_jid_def)

lemma touches_on_request [intro]:
  assumes "obeys (rq_touch pub fresh) m"
  shows "obeys (touches pub fresh rid :: 'z hub_scheme \<Rightarrow> _) (on_request rid m)"
proof -
  have "touches pub fresh rid w (snd (on_request rid m w))" for w :: "'z hub_scheme"
  proof (cases "map_of (by_request_id w) rid")
    case None
    then show ?thesis by (simp add: on_request_def tc.step_refl)
  next
    case (Some r)
    obtain x r' js' where m: "m (r, jobs w) = (x, (r', js'))" by (metis prod.collapse)
    from obeysD [OF assms m] have "new_jid pub fresh (length (jobs w)) (length js') (rq_jid r) (rq_jid r')"
      by (simp add: rq_touch_def)
    moreover from this have "length (jobs w) \<le> length js'" by (simp add: new_jid_def)
    ultimately show ?thesis using Some m by (simp add: on_request_def touches_def)
  qed
  then show ?thesis by (simp add: obeys_def)
qed

lemma touches_same:
  "by_jid w' = by_jid w \<Longrightarrow> by_request_id w' = by_request_id w \<Longrightarrow>
   length (jobs w) \<le> length (jobs w') \<Longrightarrow> touches pub fresh rid w w'"
  by (cases "map_of (by_request_id w) rid") (auto simp: touches_def new_jid_def)

lemma touches_modify:
  "(\<And>w. by_jid (f w) = by_jid w \<and> by_request_id (f w) = by_request_id w \<and>
     length (jobs w) \<le> length (jobs (f w))) \<Longrightarrow> obeys (touches pub fresh rid) (modify f)"
  by (simp add: modify_def obeys_def touches_same)

lemma touches_on_cluster_sync [intro]:
  assumes "obeys newer m"
  shows "obeys (touches pub fresh rid :: 'z hub_scheme \<Rightarrow> _) (on_cluster_sync fsid m)"
proof -
  have "touches pub fresh rid w (snd (on_cluster_sync fsid m w))" for w :: "'z hub_scheme"
  proof (cases "map_of (clusters w) fsid")
    case None
    then show ?thesis by (simp add: on_cluster_sync_def tc.step_refl)
  next
    case (Some c)
    obtain x s' js' where m: "m (cl_sync c, jobs w) = (x, (s', js'))" by (metis prod.collapse)
    from obeysD [OF assms m] have "length (jobs w) \<le> length js'" by (auto simp: newer_def)
    with Some m show ?thesis by (simp add: on_cluster_sync_def touches_same)
  qed
  then show ?thesis by (simp add: obeys_def)
qed

lemma touches_on_events [intro]: "obeys (touches pub fresh rid) (on_events m)"
  by (simp add: on_events_def obeys_def snd_zoom touches_same)

lemma touches_get_request [intro]: "obeys (touches pub fresh rid) (get_request i)"
  unfolding get_request_def by blast

lemmas tc_intros = tc.obeys_bnd tc.obeys_guarded tc.obeys_lift tc.obeys_assert
  tc.obeys_raise tc.obeys_ret tc.obeys_if tc.obeys_get tc.obeys_for_each touches_get_request
  touches_on_request touches_on_cluster_sync touches_on_events

lemma touches_complete_rados [intro]: "obeys (touches pub True rid) (complete_rados pub t minion rid result)"
proof -
  have notify: "obeys (touches pub True rid) (notify_awaited t minion fsid awaited)" for fsid awaited
    unfolding notify_awaited_def
    by (auto split: option.splits intro!: tc_intros)
  have offer: "obeys (touches pub True rid) (offer_current pub t fsid rid awaited)" for fsid awaited
    unfolding offer_current_def
    by (auto split: prod.splits intro!: tc_intros so.obeys_gets rt_on_map)
  show ?thesis
    unfolding complete_rados_def
    by (intro tc_intros rt_complete_jid)
      (auto split: option.splits intro!: tc_intros notify offer so.obeys_ret)
qed

section \<open>The job index\<close>

text \<open>
  Salt never gives the same job id twice. Under that, whenever a request waits for a job,
  the index finds the request by that job's id, and whatever the index holds is a request
  of the collection under the id of a job that was published.
\<close>

definition fresh_ids :: "(nat \<Rightarrow> string option) \<Rightarrow> bool" where
  "fresh_ids pub \<longleftrightarrow> (\<forall>n m j. pub n = Some j \<longrightarrow> pub m = Some j \<longrightarrow> n = m)"

definition indexed :: "(nat \<Rightarrow> string option) \<Rightarrow> 'z hub_scheme \<Rightarrow> bool" where
  "indexed pub w \<longleftrightarrow> distinct (keys (by_request_id w)) \<and> distinct (keys (by_jid w))
     \<and> (\<forall>rid r j. map_of (by_request_id w) rid = Some r \<longrightarrow> rq_jid r = Some j \<longrightarrow>
        map_of (by_jid w) j = Some rid)
     \<and> (\<forall>j rid. map_of (by_jid w) j = Some rid \<longrightarrow>
        has_key (by_request_id w) rid \<and> (\<exists>n < length (jobs w). pub n = Some j))"

definition keeps :: "(nat \<Rightarrow> string option) \<Rightarrow> 'z hub_scheme \<Rightarrow> 'z hub_scheme \<Rightarrow> bool" where
  "keeps pub w w' \<longleftrightarrow> (indexed pub w \<longrightarrow> indexed pub w')"

interpretation ix: step_contract "keeps pub :: 'z hub_scheme \<Rightarrow> 'z hub_scheme \<Rightarrow> bool"
  by unfold_locales (auto simp: keeps_def)

lemma indexed_touch:
  assumes "indexed pub w" and "touches pub fresh rid w w'"
    and "\<And>r r'. map_of (by_request_id w) rid = Some r \<Longrightarrow> map_of (by_request_id w') rid = Some r' \<Longrightarrow>
       rq_jid r' = rq_jid r \<or> rq_jid r' = None"
  shows "indexed pub w'"
proof -
  have other: "i \<noteq> rid \<Longrightarrow> map_of (by_request_id w') i = map_of (by_request_id w) i" for i
    using assms(2) by (simp add: touches_def)
  have same: "by_jid w' = by_jid w" and len: "length (jobs w) \<le> length (jobs w')"
    using assms(2) by (auto simp: touches_def)
  have hk: "has_key (by_request_id w') i \<longleftrightarrow> has_key (by_request_id w) i" for i
    using assms(2) other by (cases "i = rid")
      (auto simp: has_key_def touches_def split: option.splits)
  have "map_of (by_jid w') j = Some i"
    if "map_of (by_request_id w') i = Some r'" "rq_jid r' = Some j" for i r' j
  proof (cases "i = rid")
    case False
    with that other same assms(1) show ?thesis by (simp add: indexed_def)
  next
    case True
    with hk that obtain r where "map_of (by_request_id w) rid = Some r"
      by (auto simp: has_key_def)
    with assms(1,3) that True same show ?thesis by (fastforce simp: indexed_def)
  qed
  moreover have "has_key (by_request_id w') i \<and> (\<exists>n < length (jobs w'). pub n = Some j)"
    if "map_of (by_jid w') j = Some i" for i j
    using that same hk len assms(1) unfolding indexed_def by (metis order_less_le_trans)
  moreover have "distinct (keys (by_request_id w'))" "distinct (keys (by_jid w'))"
    using assms(1,2) by (auto simp: indexed_def touches_def)
  ultimately show ?thesis by (simp add: indexed_def)
qed

lemma keeps_touch [intro]:
  fixes m :: "('z, 'a) hub_py"
  assumes "obeys (touches pub False rid) m"
  shows "obeys (keeps pub) m"
proof -
  have "indexed pub (snd (m w))" if "indexed pub w" for w
  proof (rule indexed_touch [OF that])
    show t: "touches pub False rid w (snd (m w))"
      using assms by (simp add: obeys_def)
    show "rq_jid r' = rq_jid r \<or> rq_jid r' = None"
      if "map_of (by_request_id w) rid = Some r" "map_of (by_request_id (snd (m w))) rid = Some r'"
      for r r'
      using t that by (simp add: touches_def new_jid_def)
  qed
  then show ?thesis by (simp add: obeys_def keeps_def)
qed

lemma get_request_eq: "get_request rid w = (item (by_request_id w) rid rid, w)"
  by (simp add: get_request_def py_simps)

text \<open>After a body that returned, the index is repaired, and repairing cannot fail.\<close>

lemma reindex_ok:
  assumes "fresh_ids pub" and "indexed pub w" and "touches pub True rid w w1"
    and r: "map_of (by_request_id w) rid = Some r"
  shows "\<exists>w2. reindex rid (rq_jid r) w1 = (Inr (), w2) \<and> indexed pub w2
     \<and> by_request_id w2 = by_request_id w1 \<and> jobs w2 = jobs w1"
proof -
  obtain r1 where r1: "map_of (by_request_id w1) rid = Some r1"
    and new: "new_jid pub True (length (jobs w)) (length (jobs w1)) (rq_jid r) (rq_jid r1)"
    and same: "by_jid w1 = by_jid w" and len: "length (jobs w) \<le> length (jobs w1)"
    and other: "\<And>i. i \<noteq> rid \<Longrightarrow> map_of (by_request_id w1) i = map_of (by_request_id w) i"
    using assms(3) r by (auto simp: touches_def)
  show ?thesis
  proof (cases "rq_jid r1 = rq_jid r")
    case True
    have "indexed pub w1"
      using assms(2,3) r1 r True by (rule_tac indexed_touch) auto
    with True r1 show ?thesis
      by (simp add: reindex_def get_request_eq bnd_def guarded_def ret_def)
  next
    case False
    let ?del = "\<lambda>m. case rq_jid r of None \<Rightarrow> m | Some j \<Rightarrow> AList.delete j m"
    let ?ins = "\<lambda>m. case rq_jid r1 of None \<Rightarrow> m | Some j \<Rightarrow> AList.update j rid m"
    let ?w2 = "w1\<lparr>by_jid := ?ins (?del (by_jid w))\<rparr>"
    have old: "map_of (by_jid w) j = Some rid" if "rq_jid r = Some j" for j
      using assms(2) r that by (simp add: indexed_def)
    have run: "reindex rid (rq_jid r) w1 = (Inr (), ?w2)"
      using False r1 old same
      by (cases "rq_jid r"; cases "rq_jid r1")
        (simp_all add: reindex_def get_request_eq get_by_jid_def py_simps)
    have issued: "\<exists>n < length (jobs w). pub n = Some j" if "map_of (by_jid w) j = Some i" for i j
      using assms(2) that by (auto simp: indexed_def)
    have fresh: "map_of (by_jid w) j = None \<and> (\<exists>n < length (jobs w1). pub n = Some j)"
      if j: "rq_jid r1 = Some j" for j
    proof -
      from new False j obtain n where n: "n \<ge> length (jobs w)" "n < length (jobs w1)" "pub n = Some j"
        by (auto simp: new_jid_def)
      have "map_of (by_jid w) j = None"
      proof (rule ccontr)
        assume "map_of (by_jid w) j \<noteq> None"
        then obtain i m where "m < length (jobs w)" "pub m = Some j" using issued by blast
        with n assms(1) show False unfolding fresh_ids_def by (metis linorder_not_less)
      qed
      with n show ?thesis by blast
    qed
    have ix: "map_of (by_jid ?w2) j = (if rq_jid r1 = Some j then Some rid
        else if rq_jid r = Some j then None else map_of (by_jid w) j)" for j
      by (cases "rq_jid r"; cases "rq_jid r1") auto
    have "map_of (by_jid ?w2) j = Some i"
      if "map_of (by_request_id ?w2) i = Some x" "rq_jid x = Some j" for i x j
    proof (cases "i = rid")
      case True
      with that r1 show ?thesis by (simp add: ix)
    next
      case False
      with that other have "map_of (by_request_id w) i = Some x" by simp
      with that(2) assms(2) have "map_of (by_jid w) j = Some i" by (simp add: indexed_def)
      with False old fresh show ?thesis unfolding ix by fastforce
    qed
    moreover have "has_key (by_request_id ?w2) i \<and> (\<exists>n < length (jobs ?w2). pub n = Some j)"
      if "map_of (by_jid ?w2) j = Some i" for i j
    proof (cases "rq_jid r1 = Some j")
      case True
      with that have "i = rid" unfolding ix by simp
      with True fresh r1 show ?thesis by (simp add: has_key_def)
    next
      case False
      with that have "map_of (by_jid w) j = Some i" unfolding ix by (simp split: if_splits)
      with assms(2) have hk: "has_key (by_request_id w) i" and "\<exists>n < length (jobs w). pub n = Some j"
        by (auto simp: indexed_def)
      with len have "\<exists>n < length (jobs w1). pub n = Some j" by (meson order_less_le_trans)
      moreover have "has_key (by_request_id w1) i"
        using hk other r1 by (cases "i = rid") (auto simp: has_key_def)
      ultimately show ?thesis by simp
    qed
    moreover have "distinct (keys (by_request_id ?w2))"
      using assms(2,3) by (simp add: indexed_def touches_def)
    moreover have "distinct (keys (by_jid ?w2))"
      using assms(2) by (auto simp: indexed_def split: option.splits)
    ultimately have "indexed pub ?w2" unfolding indexed_def by blast
    with run show ?thesis by (intro exI [of _ ?w2]) simp
  qed
qed

lemma update_index_run:
  assumes "fresh_ids pub" and "indexed pub w" and "obeys (touches pub True rid) body"
  shows "(\<exists>x w1 w2. body w = (Inr x, w1) \<and> update_index rid body w = (Inr x, w2) \<and> indexed pub w2
       \<and> by_request_id w2 = by_request_id w1 \<and> jobs w2 = jobs w1)
    \<or> (\<exists>e w1. update_index rid body w = (Inl e, w1) \<and> touches pub True rid w w1 \<and>
         (body w = (Inl e, w1) \<or> w1 = w))"
proof (cases "map_of (by_request_id w) rid")
  case None
  then show ?thesis
    by (simp add: update_index_def get_request_eq bnd_def tc.step_refl)
next
  case (Some r)
  obtain y w1 where b: "body w = (y, w1)" by fastforce
  from obeysD [OF assms(3) b] have t: "touches pub True rid w w1" .
  show ?thesis
  proof (cases y)
    case (Inl e)
    with Some b t show ?thesis by (simp add: update_index_def get_request_eq bnd_def)
  next
    case (Inr x)
    from reindex_ok [OF assms(1,2) t Some] Inr Some b show ?thesis
      by (auto simp: update_index_def get_request_eq bnd_def ret_def)
  qed
qed

lemma keeps_update_index:
  fixes body :: "('z, 'a) hub_py"
  assumes "fresh_ids pub" and "obeys (touches pub False rid) body"
  shows "obeys (keeps pub) (update_index rid body)"
proof -
  have weak: "obeys (touches pub True rid) body"
    using assms(2) by (auto simp: obeys_def intro: touches_weaken)
  have "indexed pub (snd (update_index rid body w))" if w: "indexed pub w" for w
    using update_index_run [OF assms(1) w weak] keeps_touch [OF assms(2)] w
    by (auto simp: obeys_def keeps_def)
  then show ?thesis by (simp add: obeys_def keeps_def)
qed

text \<open>A body that may start jobs keeps the index if the handler drops the job on an exception.\<close>

lemma abandon_drops:
  assumes "map_of (by_request_id w) rid = Some r"
  shows "\<exists>r'. map_of (by_request_id (snd (on_request rid (abandon t m) w))) rid = Some r'
    \<and> rq_jid r' = None"
  using assms
  by (auto simp: on_request_def abandon_def drop_jid_def set_error_def complete_def py_simps
      split: prod.splits)

lemma keeps_try_update_index:
  fixes body :: "('z, unit) hub_py"
  assumes "fresh_ids pub" and "obeys (touches pub True rid) body"
  shows "obeys (keeps pub)
     (try_except (update_index rid body) (\<lambda>e. on_request rid (abandon t (m e))))"
proof -
  have "indexed pub (snd (try_except (update_index rid body) (\<lambda>e. on_request rid (abandon t (m e))) w))"
    if w: "indexed pub w" for w
  proof -
    consider (returned) x w2 where "update_index rid body w = (Inr x, w2)" "indexed pub w2"
      | (raised) e w1 where "update_index rid body w = (Inl e, w1)" "touches pub True rid w w1"
      using update_index_run [OF assms(1) w assms(2)] by blast
    then show ?thesis
    proof cases
      case returned
      then show ?thesis by (simp add: try_except_def)
    next
      case (raised e w1)
      note e = raised(1) and t = raised(2)
    let ?w2 = "snd (on_request rid (abandon t (m e)) w1)"
    have ab: "obeys (touches pub True rid :: 'z hub_scheme \<Rightarrow> _) (on_request rid (abandon t (m e)))"
      by blast
    then have "touches pub True rid w1 ?w2" by (simp add: obeys_def)
    with t have t2: "touches pub True rid w ?w2" by (rule touches_trans)
    have "indexed pub ?w2"
    proof (rule indexed_touch [OF w t2])
      fix r r' assume r: "map_of (by_request_id w) rid = Some r"
        and r': "map_of (by_request_id ?w2) rid = Some r'"
      from t r obtain r1 where "map_of (by_request_id w1) rid = Some r1"
        by (auto simp: touches_def)
      from abandon_drops [OF this, of t "m e"] r' show "rq_jid r' = rq_jid r \<or> rq_jid r' = None" by auto
    qed
    with e show ?thesis by (simp add: try_except_def)
    qed
  qed
  then show ?thesis by (simp add: obeys_def keeps_def)
qed

lemma bnd_unit_ret [simp]: "bnd m (\<lambda>_. ret ()) = m"
  by (auto simp: bnd_def ret_def fun_eq_iff split: prod.splits sum.splits)

lemma bnd_ret_right [simp]: "bnd m ret = m"
  by (auto simp: bnd_def ret_def fun_eq_iff split: prod.splits sum.splits)

lemma for_each_none: "a \<notin> set xs \<Longrightarrow> for_each (\<lambda>x. guarded (x = a) m) xs = ret ()"
  by (induction xs) (auto simp: guarded_def)

lemma for_each_single:
  "distinct xs \<Longrightarrow> for_each (\<lambda>x. guarded (x = a) m) xs = (if a \<in> set xs then m else ret ())"
  by (induction xs) (auto simp: guarded_def for_each_none)

lemma distinct_awaiting: "distinct (keys (awaiting_versions r))"
  by (auto simp: awaiting_versions_def split: request_kind.splits pg_phase.splits)

lemma deliver_eq:
  "deliver pub t ty obj rid = bnd (get_request rid) (\<lambda>r.
     if ty \<in> set (keys (awaiting_versions r))
     then update_index rid (on_request rid (UserRequests.on_map pub t ty obj)) else ret ())"
  unfolding deliver_def by (simp only: for_each_single [OF distinct_awaiting])

lemma keeps_same:
  "(\<And>w. by_jid (f w) = by_jid w \<and> by_request_id (f w) = by_request_id w \<and>
     length (jobs w) \<le> length (jobs (f w))) \<Longrightarrow> obeys (keeps pub) (modify f)"
  by (rule keeps_touch, rule touches_modify)

lemma keeps_get_request [intro]: "obeys (keeps pub) (get_request i)"
  unfolding get_request_def by blast

lemma keeps_report [intro]: "obeys (keeps pub) (report_if_complete t rid)"
  unfolding report_if_complete_def
  by (intro ix.obeys_bnd keeps_get_request ix.obeys_guarded) blast

lemma keeps_cancel: "fresh_ids pub \<Longrightarrow> obeys (keeps pub) (cancel t rid)"
  unfolding cancel_def
  by (auto split: option.splits intro!: ix.obeys_bnd keeps_get_request ix.obeys_guarded
      keeps_update_index tc_intros touches_modify)

lemma keeps_fail_all: "fresh_ids pub \<Longrightarrow> obeys (keeps pub) (fail_all t m)"
  unfolding fail_all_def
  by (intro ix.obeys_bnd ix.obeys_get ix.obeys_for_each keeps_update_index touches_on_request
      rt_intros)

lemma keeps_tick: "fresh_ids pub \<Longrightarrow> obeys (keeps pub) (tick t)"
  unfolding tick_def
  by (intro ix.obeys_bnd ix.obeys_get ix.obeys_for_each ix.obeys_lift ix.obeys_guarded
      keeps_update_index touches_on_request rt_intros keeps_same) simp_all

lemma keeps_tick_response: "obeys (keeps pub) (on_tick_response t js)"
  unfolding on_tick_response_def
  by (intro ix.obeys_for_each ix.obeys_bnd ix.obeys_get)
    (auto split: option.splits intro!: keeps_touch touches_on_request rt_upd)

lemma keeps_deliver_try:
  assumes "fresh_ids pub"
  shows "obeys (keeps pub :: 'z hub_scheme \<Rightarrow> _) (try_except (deliver pub t ty obj rid)
           (\<lambda>e. on_request rid (abandon t (''Internal error '' @ exn_str e))))"
proof -
  let ?h = "\<lambda>e. on_request rid (abandon t (''Internal error '' @ exn_str e)) :: ('z, unit) hub_py"
  let ?u = "update_index rid (on_request rid (UserRequests.on_map pub t ty obj)) :: ('z, unit) hub_py"
  have try_u: "obeys (keeps pub) (try_except ?u ?h)"
    by (intro keeps_try_update_index assms touches_on_request rt_on_map)
  have h: "obeys (keeps pub) (?h e)" for e
    by (rule keeps_touch [where rid = rid]) blast
  have "keeps pub w (snd (try_except (deliver pub t ty obj rid) ?h w))" for w :: "'z hub_scheme"
  proof (cases "map_of (by_request_id w) rid")
    case None
    then have "try_except (deliver pub t ty obj rid) ?h w = ?h (KeyError rid) w"
      by (simp add: deliver_eq get_request_eq try_except_def bnd_def)
    with h [of "KeyError rid"] show ?thesis by (simp add: obeys_def)
  next
    case (Some r)
    show ?thesis
    proof (cases "ty \<in> set (keys (awaiting_versions r))")
      case True
      with Some have "deliver pub t ty obj rid w = ?u w"
        by (simp add: deliver_eq get_request_eq bnd_def)
      then have "try_except (deliver pub t ty obj rid) ?h w = try_except ?u ?h w"
        by (simp add: try_except_def)
      with try_u show ?thesis by (simp add: obeys_def)
    next
      case False
      with Some have "try_except (deliver pub t ty obj rid) ?h w = (Inr (), w)"
        by (simp add: deliver_eq get_request_eq bnd_def ret_def try_except_def)
      then show ?thesis by (simp add: keeps_def)
    qed
  qed
  then show ?thesis by (simp add: obeys_def)
qed

lemma keeps_on_map: "fresh_ids pub \<Longrightarrow> obeys (keeps pub) (on_map pub t fsid ty obj)"
  unfolding on_map_def
  by (intro ix.obeys_bnd ix.obeys_get ix.obeys_for_each keeps_deliver_try keeps_report
      ix.obeys_guarded keeps_get_request) (auto simp: pass_stmt_def)

lemma keeps_on_request [intro]: "obeys (rq_touch pub False) m \<Longrightarrow> obeys (keeps pub) (on_request rid m)"
  by (rule keeps_touch) blast

lemma keeps_on_rados_completion:
  "fresh_ids pub \<Longrightarrow> obeys (keeps pub) (on_rados_completion pub t minion rid result)"
  unfolding on_rados_completion_def
  by (auto split: job_return.splits option.splits intro!: ix.obeys_bnd keeps_get_request
      ix.obeys_guarded ix.obeys_raise keeps_try_update_index touches_complete_rados
      keeps_on_request rt_intros)

lemma keeps_fail_remote: "fresh_ids pub \<Longrightarrow> obeys (keeps pub) (fail_remote t rid result)"
  unfolding fail_remote_def
  by (auto split: job_return.splits option.splits intro!: keeps_update_index tc_intros rt_intros)

lemma keeps_on_completion: "fresh_ids pub \<Longrightarrow> obeys (keeps pub) (on_completion pub t data)"
  unfolding on_completion_def
  by (auto split: option.splits intro!: ix.obeys_bnd ix.obeys_get ix.obeys_ret ix.obeys_if
      keeps_report keeps_fail_remote keeps_on_rados_completion keeps_update_index
      touches_on_request rt_complete_jid)

lemma keeps_submit_request:
  fixes minion :: string
  assumes "fresh_ids pub"
  shows "obeys (keeps pub :: 'z hub_scheme \<Rightarrow> _) (submit_request pub t r minion)"
proof -
  have "indexed pub (snd (submit_request pub t r minion w))" if w: "indexed pub w"
    for w :: "'z hub_scheme"
  proof -
    obtain x r' js where Pair: "submit pub t minion (r, jobs w) = (x, (r', js))"
      by (metis prod.collapse)
    obtain s where s: "s = (r', js)" by simp
    have grow: "length (jobs w) \<le> length js"
      using obeysD [OF moves_on_submit, of pub t minion] Pair s by (fastforce simp: moves_on_def)
    show ?thesis
    proof (cases x)
      case (Inl e)
      have "touches pub False (rq_id r) w (w\<lparr>jobs := js\<rparr>)"
        using grow by (simp add: touches_same)
      then have "indexed pub (w\<lparr>jobs := js\<rparr>)"
        using w by (rule_tac indexed_touch) auto
      with Inl Pair s show ?thesis by (simp add: submit_request_def)
    next
      case (Inr u)
      have out: "js = jobs w @ [last js]" "rq_jid r' = pub (length (jobs w))" "rq_jid r' \<noteq> None"
        using Pair s Inr by (auto simp: submit_char Let_def split: if_splits option.splits)
      then obtain j where j: "rq_jid r' = Some j" "pub (length (jobs w)) = Some j" by auto
      have new: "map_of (by_jid w) j = None"
      proof (rule ccontr)
        assume "map_of (by_jid w) j \<noteq> None"
        then obtain i where "map_of (by_jid w) j = Some i" by blast
        then obtain n where "n < length (jobs w)" "pub n = Some j"
          using w unfolding indexed_def by blast
        with j assms show False unfolding fresh_ids_def by (metis less_irrefl)
      qed
      have len: "length js = Suc (length (jobs w))" using out(1) by (metis length_append_singleton)
      let ?w1 = "w\<lparr>jobs := js, by_request_id := AList.update (rq_id r') r' (by_request_id w),
              by_jid := AList.update j (rq_id r') (by_jid w)\<rparr>"
      have "indexed pub ?w1"
        using w j new len unfolding indexed_def
        by (auto simp: less_Suc_eq) blast+
      moreover have "snd (submit_request pub t r minion w) =
          ?w1\<lparr>event_log := snd (on_user_request_begin t r' (event_log w))\<rparr>"
        using Pair s Inr j by (simp add: submit_request_def on_events_def snd_zoom)
      ultimately show ?thesis by (simp add: indexed_def)
    qed
  qed
  then show ?thesis by (simp add: obeys_def keeps_def)
qed

section \<open>Every history of the collection\<close>

datatype rc_input =
    InSubmit time request string
  | InCancel time string
  | InFailAll time string
  | InTick time
  | InTickResponse time "string list"
  | InMap time string sync_type sync_object
  | InCompletion time completion

fun rc_step :: "(nat \<Rightarrow> string option) \<Rightarrow> rc_input \<Rightarrow> ('z, unit) hub_py" where
  "rc_step pub (InSubmit t r m) = submit_request pub t r m"
| "rc_step pub (InCancel t rid) = cancel t rid"
| "rc_step pub (InFailAll t m) = fail_all t m"
| "rc_step pub (InTick t) = tick t"
| "rc_step pub (InTickResponse t js) = on_tick_response t js"
| "rc_step pub (InMap t fsid ty obj) = on_map pub t fsid ty obj"
| "rc_step pub (InCompletion t data) = on_completion pub t data"

text \<open>A call that raises leaves the state it reached; the event loops go on.\<close>

fun rc_run :: "(nat \<Rightarrow> string option) \<Rightarrow> rc_input list \<Rightarrow> 'z hub_scheme \<Rightarrow> 'z hub_scheme" where
  "rc_run pub [] w = w"
| "rc_run pub (i # is) w = rc_run pub is (snd (rc_step pub i w))"

definition empty_hub :: "(string, cluster) dict \<Rightarrow> hub" where
  "empty_hub cs = \<lparr>jobs = [], event_log = \<lparr>ev_pending = [], ev_saved = []\<rparr>, clusters = cs,
     by_request_id = [], by_jid = []\<rparr>"

lemma keeps_rc_step: "fresh_ids pub \<Longrightarrow> obeys (keeps pub) (rc_step pub i)"
  by (cases i) (simp_all add: keeps_submit_request keeps_cancel keeps_fail_all keeps_tick
      keeps_tick_response keeps_on_map keeps_on_completion)

lemma indexed_rc_step:
  "fresh_ids pub \<Longrightarrow> indexed pub w \<Longrightarrow> indexed pub (snd (rc_step pub i w))"
  using keeps_rc_step [unfolded obeys_def keeps_def] by blast

lemma indexed_rc_run: "fresh_ids pub \<Longrightarrow> indexed pub w \<Longrightarrow> indexed pub (rc_run pub is w)"
  by (induction "is" arbitrary: w) (simp_all add: indexed_rc_step)

lemma indexed_empty: "indexed pub (empty_hub cs)"
  by (simp add: indexed_def empty_hub_def)

section \<open>Failing a request that is under way\<close>

definition failed :: "time \<Rightarrow> string \<Rightarrow> request \<Rightarrow> request" where
  "failed t msg r = r\<lparr>rq_error := True, rq_error_message := msg, rq_jid := None,
     rq_state := Complete, rq_completed_at := Some t\<rparr>"

lemma fail_one_request:
  "rq_state r \<noteq> Complete \<Longrightarrow>
     bnd (set_error msg) (\<lambda>_. bnd drop_jid (\<lambda>_. complete t)) (r, js) = (Inr (), (failed t msg r, js))"
  by (simp add: set_error_def drop_jid_def complete_def py_simps failed_def)

lemma abandon_one_request:
  "rq_state r \<noteq> Complete \<Longrightarrow> abandon t msg (r, js) = (Inr (), (failed t msg r, js))"
  by (simp add: abandon_def set_error_def drop_jid_def complete_def py_simps failed_def)

lemma update_index_ok:
  assumes "fresh_ids pub" and "indexed pub w" and "obeys (touches pub True rid) body"
    and "has_key (by_request_id w) rid" and "body w = (Inr x, w1)"
  shows "\<exists>w2. update_index rid body w = (Inr x, w2) \<and> indexed pub w2
       \<and> by_request_id w2 = by_request_id w1 \<and> jobs w2 = jobs w1"
proof -
  from assms(4) obtain r where r: "map_of (by_request_id w) rid = Some r" by (auto simp: has_key_def)
  from obeysD [OF assms(3,5)] have t: "touches pub True rid w w1" .
  from reindex_ok [OF assms(1,2) t r] r assms(5) show ?thesis
    by (auto simp: update_index_def get_request_eq bnd_def ret_def)
qed

lemma fail_one:
  fixes w :: "'z hub_scheme"
  assumes "fresh_ids pub" and "indexed pub w" and "map_of (by_request_id w) rid = Some r"
    and "rq_state r \<noteq> Complete"
  shows "\<exists>w2. update_index rid (on_request rid
       (bnd (set_error msg) (\<lambda>_. bnd drop_jid (\<lambda>_. complete t)))) w = (Inr (), w2)
     \<and> indexed pub w2 \<and> jobs w2 = jobs w
     \<and> by_request_id w2 = AList.update rid (failed t msg r) (by_request_id w)"
proof -
  let ?body = "on_request rid (bnd (set_error msg) (\<lambda>_. bnd drop_jid (\<lambda>_. complete t)))"
  have "?body w = (Inr (), w\<lparr>by_request_id := AList.update rid (failed t msg r) (by_request_id w)\<rparr>)"
    using assms(3,4) by (simp add: on_request_def fail_one_request)
  moreover have "obeys (touches pub True rid :: 'z hub_scheme \<Rightarrow> _) ?body"
    by (intro touches_on_request rt_intros)
  ultimately show ?thesis
    using update_index_ok [OF assms(1,2), where body = ?body and rid = rid] assms(3)
    by (fastforce simp: has_key_def)
qed

lemma fail_many:
  assumes "fresh_ids pub" and "indexed pub w" and "distinct rids"
    and "\<And>rid. rid \<in> set rids \<Longrightarrow> \<exists>r. map_of (by_request_id w) rid = Some r \<and> rq_state r \<noteq> Complete"
  shows "\<exists>w2. for_each (\<lambda>rid. update_index rid (on_request rid
       (bnd (set_error msg) (\<lambda>_. bnd drop_jid (\<lambda>_. complete t))))) rids w = (Inr (), w2)
     \<and> indexed pub w2 \<and> jobs w2 = jobs w
     \<and> (\<forall>i. map_of (by_request_id w2) i = (if i \<in> set rids
            then map_option (failed t msg) (map_of (by_request_id w) i)
            else map_of (by_request_id w) i))"
  using assms
proof (induction rids arbitrary: w)
  case Nil
  then show ?case by (simp add: ret_def)
next
  case (Cons rid rids)
  let ?f = "\<lambda>rid. update_index rid (on_request rid
       (bnd (set_error msg) (\<lambda>_. bnd drop_jid (\<lambda>_. complete t))))"
  obtain r where r: "map_of (by_request_id w) rid = Some r" "rq_state r \<noteq> Complete"
    using Cons.prems(4) [of rid] by auto
  from fail_one [OF Cons.prems(1,2) r, of msg t] obtain w1
    where w1: "?f rid w = (Inr (), w1)" "indexed pub w1" "jobs w1 = jobs w"
      "by_request_id w1 = AList.update rid (failed t msg r) (by_request_id w)" by blast
  have "\<exists>r. map_of (by_request_id w1) i = Some r \<and> rq_state r \<noteq> Complete" if "i \<in> set rids" for i
    using Cons.prems(3,4) that w1(4) by auto
  from Cons.IH [OF Cons.prems(1) w1(2) _ this] Cons.prems(3) obtain w2
    where w2: "for_each ?f rids w1 = (Inr (), w2)" "indexed pub w2" "jobs w2 = jobs w1"
      "\<And>i. map_of (by_request_id w2) i = (if i \<in> set rids
            then map_option (failed t msg) (map_of (by_request_id w1) i)
            else map_of (by_request_id w1) i)" by auto
  have "map_of (by_request_id w2) i = (if i \<in> set (rid # rids)
            then map_option (failed t msg) (map_of (by_request_id w) i)
            else map_of (by_request_id w) i)" for i
    using w2(4) [of i] w1(4) r(1) Cons.prems(3) by auto
  with w1 w2 show ?case by (simp add: bnd_def)
qed

lemma request_ids_in_iff:
  assumes "distinct (keys (by_request_id w))"
  shows "i \<in> set (request_ids_in st w) \<longleftrightarrow> (\<exists>r. map_of (by_request_id w) i = Some r \<and> rq_state r = st)"
  using assms by (force simp: request_ids_in_def map_of_eq_Some_iff)

lemma distinct_request_ids_in:
  "distinct (keys (by_request_id w)) \<Longrightarrow> distinct (request_ids_in st w)"
  by (simp add: request_ids_in_def distinct_map_filter)

section \<open>What operations on requests leave alone\<close>

text \<open>
  Only a job's return reaches out to the cluster monitors, through \<open>on_version\<close>; no
  operation touches what the process keeps besides the hub.
\<close>

definition same_rest :: "'z hub_scheme \<Rightarrow> 'z hub_scheme \<Rightarrow> bool" where
  "same_rest w w' \<longleftrightarrow> clusters w' = clusters w \<and> hub.more w' = hub.more w"

interpretation sr: step_contract "same_rest :: 'z hub_scheme \<Rightarrow> 'z hub_scheme \<Rightarrow> bool"
  by unfold_locales (auto simp: same_rest_def)

lemma same_rest_on_request [intro]: "obeys same_rest (on_request rid m)"
  by (auto simp: obeys_def on_request_def same_rest_def split: option.splits prod.splits)

lemma same_rest_on_events [intro]: "obeys same_rest (on_events m)"
  by (auto simp: obeys_def on_events_def snd_zoom same_rest_def)

lemma same_rest_get_request [intro]: "obeys same_rest (get_request rid)"
  by (simp add: obeys_def get_request_eq same_rest_def)

lemma same_rest_modify [intro]:
  "(\<And>w. clusters (f w) = clusters w \<and> hub.more (f w) = hub.more w) \<Longrightarrow> obeys same_rest (modify f)"
  by (simp add: obeys_def modify_def same_rest_def)

lemma same_rest_reindex [intro]: "obeys same_rest (reindex rid j)"
  unfolding reindex_def get_by_jid_def
  by (intro sr.obeys_bnd sr.obeys_guarded same_rest_get_request; (cases j)?)
    (auto intro!: sr.obeys_bnd sr.obeys_modify sr.obeys_get sr.obeys_lift simp: same_rest_def
      split: option.splits)

lemma same_rest_update_index [intro]:
  "obeys same_rest m \<Longrightarrow> obeys same_rest (update_index rid m)"
  unfolding update_index_def by blast

lemma same_rest_fail_all: "obeys same_rest (fail_all t minion)"
  unfolding fail_all_def by (intro sr.obeys_bnd sr.obeys_for_each) auto

lemma same_rest_cancel: "obeys same_rest (cancel t rid)"
  unfolding cancel_def
  by (intro sr.obeys_bnd sr.obeys_guarded same_rest_update_index) (auto split: option.splits)

lemma same_rest_tick: "obeys same_rest (tick t)"
  unfolding tick_def by (intro sr.obeys_bnd sr.obeys_guarded sr.obeys_for_each) auto

lemma same_rest_tick_response: "obeys same_rest (on_tick_response t js)"
  unfolding on_tick_response_def
  by (intro sr.obeys_bnd sr.obeys_for_each) (auto split: option.splits)

lemma same_rest_report [intro]: "obeys same_rest (report_if_complete t rid)"
  unfolding report_if_complete_def by blast

lemma same_rest_deliver [intro]: "obeys same_rest (deliver pub t ty obj rid)"
  unfolding deliver_def by (intro sr.obeys_bnd sr.obeys_for_each sr.obeys_guarded) auto

lemma same_rest_on_map: "obeys same_rest (on_map pub t fsid ty obj)"
  unfolding on_map_def pass_stmt_def
  by (intro sr.obeys_bnd sr.obeys_for_each sr.obeys_guarded sr.obeys_try) auto

lemma same_rest_submit:
  "obeys (same_rest :: 'z hub_scheme \<Rightarrow> _) (submit_request pub t r minion)"
proof -
  have "same_rest w (snd (submit_request pub t r minion w))" for w :: "'z hub_scheme"
    by (auto simp: submit_request_def same_rest_def on_events_def snd_zoom split: prod.splits sum.splits)
  then show ?thesis by (simp add: obeys_def)
qed

lemma fail_all_run:
  fixes w :: "'z hub_scheme"
  assumes "fresh_ids pub" and "indexed pub w"
  shows "\<exists>w'. fail_all t minion w = (Inr (), w') \<and> jobs w' = jobs w
    \<and> (\<forall>i. map_of (by_request_id w') i = map_option (\<lambda>r. if rq_state r = Submitted
          then failed t (''Lost contact with server '' @ minion) r else r) (map_of (by_request_id w) i))
    \<and> get_all (Some Submitted) w' = [] \<and> indexed pub w' \<and> same_rest w w'"
proof -
  have d: "distinct (keys (by_request_id w))" using assms(2) by (simp add: indexed_def)
  let ?ids = "request_ids_in Submitted w"
  have sub: "\<exists>r. map_of (by_request_id w) rid = Some r \<and> rq_state r \<noteq> Complete"
    if "rid \<in> set ?ids" for rid
    using that request_ids_in_iff [OF d, of rid Submitted] by auto
  obtain w' where w': "fail_all t minion w = (Inr (), w')" "indexed pub w'" "jobs w' = jobs w"
    and m: "\<And>i. map_of (by_request_id w') i = (if i \<in> set ?ids
            then map_option (failed t (''Lost contact with server '' @ minion)) (map_of (by_request_id w) i)
            else map_of (by_request_id w) i)"
    using fail_many [OF assms distinct_request_ids_in [OF d] sub,
        where msg = "''Lost contact with server '' @ minion" and t = t]
    by (auto simp: fail_all_def bnd_def get_state_def)
  have all: "map_of (by_request_id w') i = map_option (\<lambda>r. if rq_state r = Submitted
          then failed t (''Lost contact with server '' @ minion) r else r) (map_of (by_request_id w) i)" for i
    using m [of i] request_ids_in_iff [OF d, of i Submitted]
    by (cases "map_of (by_request_id w) i") auto
  have "rq_state r \<noteq> Submitted" if "r \<in> set (vals (by_request_id w'))" for r
  proof -
    from that obtain i where "(i, r) \<in> set (by_request_id w')" by auto
    with w'(2) have "map_of (by_request_id w') i = Some r" by (simp add: indexed_def)
    with all [of i] show ?thesis
      by (cases "map_of (by_request_id w) i") (auto simp: failed_def)
  qed
  then have "get_all (Some Submitted) w' = []" by (simp add: get_all_def filter_empty_conv)
  moreover have "same_rest w w'"
    using same_rest_fail_all [of t minion] w'(1) by (rule obeysD)
  ultimately show ?thesis using w' all by blast
qed

section \<open>Properties\<close>

text \<open>
  C2. After any sequence of submissions, job returns, maps, timer ticks, cancellations and
  failovers, and whichever of those calls raised on the way: each request that waits for
  a job is found under that job's id, no two entries of a dictionary share a key, and
  everything in the job index is a request of the collection under the id of a job that
  was really published. So a job's return always reaches the request that waits for it.
\<close>

theorem job_index_invariant:
  assumes "fresh_ids pub" and "w = rc_run pub is (empty_hub cs)"
  shows "distinct (keys (by_request_id w)) \<and> distinct (keys (by_jid w))
    \<and> (\<forall>rid r j. (rid, r) \<in> set (by_request_id w) \<longrightarrow> rq_jid r = Some j \<longrightarrow>
         map_of (by_jid w) j = Some rid)
    \<and> (\<forall>j rid. (j, rid) \<in> set (by_jid w) \<longrightarrow>
         has_key (by_request_id w) rid \<and> (\<exists>n < length (jobs w). pub n = Some j))"
  using indexed_rc_run [OF assms(1) indexed_empty, of "is" cs] assms(2)
  unfolding indexed_def by auto

definition demo_request :: "string \<Rightarrow> request" where
  "demo_request i = new_request i 0 OsdMapModifyingRequest ''Deleting pool'' (Some ''f'') (Some ''ceph'')
     [(''osd pool delete'', [(''pool'', JStr ''rbd'')])]"

definition demo_pub :: "nat \<Rightarrow> string option" where
  "demo_pub n = Some (str_int (int n))"

lemma fresh_demo: "fresh_ids demo_pub"
  by (auto simp: fresh_ids_def demo_pub_def)

theorem job_index_invariant_witness:
  "map_of (by_jid (rc_run demo_pub [InSubmit 5 (demo_request ''a'') ''mon0''] (empty_hub []))) (str_int 0)
     = Some ''a''"
proof -
  define w where "w = rc_run demo_pub [InSubmit 5 (demo_request ''a'') ''mon0''] (empty_hub [])"
  have "\<exists>r. (''a'', r) \<in> set (by_request_id w) \<and> rq_jid r = Some (str_int 0)"
    by (simp add: w_def submit_request_def submit_char demo_request_def new_request_def empty_hub_def
        demo_pub_def Let_def on_events_def snd_zoom)
  with job_index_invariant [OF fresh_demo w_def] show ?thesis
    unfolding w_def [symmetric] by blast
qed

text \<open>
  Giving up the minion in use fails every request that is under way, with the minion in the
  message, so that nothing waits for an answer that will not come. It never raises,
  publishes nothing and leaves all other requests alone.
\<close>

theorem fail_all_fails_every_submitted:
  fixes w :: "'z hub_scheme"
  assumes "fresh_ids pub" and "indexed pub w"
  shows "\<exists>w'. fail_all t minion w = (Inr (), w') \<and> jobs w' = jobs w
    \<and> (\<forall>i. map_of (by_request_id w') i = map_option (\<lambda>r. if rq_state r = Submitted
          then failed t (''Lost contact with server '' @ minion) r else r) (map_of (by_request_id w) i))
    \<and> get_all (Some Submitted) w' = [] \<and> indexed pub w'"
  using fail_all_run [OF assms] by blast

theorem fail_all_fails_every_submitted_witness:
  "\<exists>w'. fail_all 9 ''mon0'' (rc_run demo_pub [InSubmit 5 (demo_request ''a'') ''mon0''] (empty_hub []))
      = (Inr (), w') \<and> get_all (Some Submitted) w' = []"
  using fail_all_fails_every_submitted [OF fresh_demo indexed_rc_run [OF fresh_demo indexed_empty],
      of 9 "''mon0''" "[InSubmit 5 (demo_request ''a'') ''mon0'']" "[]"] by blast

text \<open>
  Cancelling a request that is not complete completes it with the error Cancelled and asks
  salt to kill the job it was running, if any. Cancelling a complete request, a second
  time for instance, does nothing at all.
\<close>

theorem cancel_is_idempotent:
  fixes w :: "'z hub_scheme"
  assumes "fresh_ids pub" and "indexed pub w" and "map_of (by_request_id w) rid = Some r"
  shows "\<exists>w'. cancel t rid w = (Inr (), w') \<and> cancel t' rid w' = (Inr (), w')
    \<and> map_of (by_request_id w') rid
        = Some (if rq_state r = Complete then r else failed t ''Cancelled'' r)
    \<and> jobs w' = jobs w @ (if rq_state r = Complete then []
        else case rq_jid r of None \<Rightarrow> [] | Some j \<Rightarrow> [KillJob (rq_minion_id r) j])"
proof (cases "rq_state r = Complete")
  case True
  with assms(3) show ?thesis
    by (simp add: cancel_def get_request_eq bnd_def guarded_def ret_def)
next
  case False
  let ?kill = "case rq_jid r of
            None \<Rightarrow> ret ()
          | Some j \<Rightarrow> modify (\<lambda>w. w\<lparr>jobs := jobs w @ [KillJob (rq_minion_id r) j]\<rparr>)"
  let ?body = "bnd (on_request rid (abandon t ''Cancelled'')) (\<lambda>_. ?kill) :: ('z, unit) hub_py"
  let ?js = "jobs w @ (case rq_jid r of None \<Rightarrow> [] | Some j \<Rightarrow> [KillJob (rq_minion_id r) j])"
  have run: "?body w = (Inr (), w\<lparr>by_request_id :=
      AList.update rid (failed t ''Cancelled'' r) (by_request_id w), jobs := ?js\<rparr>)"
    using assms(3) False
    by (cases "rq_jid r") (simp_all add: bnd_def on_request_def abandon_one_request ret_def modify_def)
  have "obeys (touches pub True rid) ?body"
    by (auto split: option.splits intro!: tc_intros touches_modify)
  from update_index_ok [OF assms(1,2) this _ run] assms(3)
  obtain w' where u: "update_index rid ?body w = (Inr (), w')" and j: "jobs w' = ?js"
    and h: "map_of (by_request_id w') rid = Some (failed t ''Cancelled'' r)"
    by (auto simp: has_key_def)
  have c: "cancel t rid w = (Inr (), w')"
    using u assms(3) False by (simp add: cancel_def get_request_eq bnd_def guarded_def)
  moreover have "cancel t' rid w' = (Inr (), w')"
    using h by (simp add: cancel_def get_request_eq bnd_def guarded_def ret_def failed_def)
  ultimately show ?thesis using h j False by simp
qed

theorem cancel_is_idempotent_witness:
  "\<exists>w'. cancel 9 ''a'' (rc_run demo_pub [InSubmit 5 (demo_request ''a'') ''mon0''] (empty_hub []))
      = (Inr (), w') \<and> cancel 12 ''a'' w' = (Inr (), w')"
proof -
  let ?w = "rc_run demo_pub [InSubmit 5 (demo_request ''a'') ''mon0''] (empty_hub [])"
  have "\<exists>r. map_of (by_request_id ?w) ''a'' = Some r"
    by (simp add: submit_request_def submit_char demo_request_def new_request_def empty_hub_def
        demo_pub_def Let_def on_events_def snd_zoom)
  with cancel_is_idempotent [OF fresh_demo indexed_rc_run [OF fresh_demo indexed_empty],
      where rid = "''a''" and t = 9 and t' = 12] show ?thesis by blast
qed

section \<open>The timer and the maps\<close>

lemma minions_in_flight_jobs [simp]: "minions_in_flight (w\<lparr>jobs := js\<rparr>) = minions_in_flight w"
  by (simp add: minions_in_flight_def)

definition silent :: "time \<Rightarrow> request \<Rightarrow> bool" where
  "silent t r = (case rq_alive_at r of None \<Rightarrow> False | Some a \<Rightarrow> seconds 60 < t - a)"

lemma stale_jobs_ok:
  assumes "\<And>rid. rid \<in> set rids \<Longrightarrow> \<exists>r. map_of heap rid = Some r \<and> rq_alive_at r \<noteq> None"
  shows "\<exists>xs. stale_jobs t heap rids = Inr xs \<and> distinct xs
     \<and> (\<forall>i. i \<in> set xs \<longleftrightarrow> i \<in> set rids \<and> (\<exists>r. map_of heap i = Some r \<and> silent t r))"
  using assms
proof (induction rids)
  case (Cons rid rids)
  obtain xs where xs: "stale_jobs t heap rids = Inr xs" "distinct xs"
    "\<And>i. i \<in> set xs \<longleftrightarrow> i \<in> set rids \<and> (\<exists>r. map_of heap i = Some r \<and> silent t r)"
    using Cons by auto
  obtain r a where r: "map_of heap rid = Some r" "rq_alive_at r = Some a"
    using Cons.prems [of rid] by auto
  have st: "is_stale t r = Inr (silent t r)"
    using r(2) by (simp add: is_stale_def silent_def TICK_PERIOD_def)
  have "stale_jobs t heap (rid # rids) = Inr (if silent t r then List.insert rid xs else xs)"
    using xs(1) r(1) st by simp
  moreover have "distinct (if silent t r then List.insert rid xs else xs)"
    using xs(2) by simp
  moreover have "i \<in> set (if silent t r then List.insert rid xs else xs) \<longleftrightarrow>
      i \<in> set (rid # rids) \<and> (\<exists>r. map_of heap i = Some r \<and> silent t r)" for i
    using xs(3) [of i] r(1) by auto
  ultimately show ?case by blast
qed simp

text \<open>
  The timer fails exactly the running requests whose minion has not confirmed their job for
  more than 60 seconds, and then asks the minions of the requests that still run to
  confirm theirs.
\<close>

theorem tick_fails_the_silent:
  fixes w :: "'z hub_scheme"
  assumes "fresh_ids pub" and "indexed pub w" and "by_jid w \<noteq> []"
    and "\<forall>j rid. map_of (by_jid w) j = Some rid \<longrightarrow>
       (\<exists>r. map_of (by_request_id w) rid = Some r \<and> rq_state r = Submitted \<and> rq_alive_at r \<noteq> None)"
  shows "\<exists>w'. tick t w = (Inr (), w') \<and> indexed pub w'
    \<and> (\<forall>i. map_of (by_request_id w') i = map_option (\<lambda>r. if i \<in> set (vals (by_jid w)) \<and> silent t r
          then failed t ''Lost contact'' r else r) (map_of (by_request_id w) i))
    \<and> jobs w' = jobs w @ (if by_jid w' = [] then [] else [Running (minions_in_flight w')])"
proof -
  have listed: "\<exists>r. map_of (by_request_id w) rid = Some r \<and> rq_state r = Submitted \<and> rq_alive_at r \<noteq> None"
    if "rid \<in> set (vals (by_jid w))" for rid
  proof -
    from that obtain j where "(j, rid) \<in> set (by_jid w)" by auto
    with assms(2) have "map_of (by_jid w) j = Some rid" by (simp add: indexed_def)
    with assms(4) show ?thesis by blast
  qed
  obtain xs where xs: "stale_jobs t (by_request_id w) (vals (by_jid w)) = Inr xs" "distinct xs"
    "\<And>i. i \<in> set xs \<longleftrightarrow> i \<in> set (vals (by_jid w)) \<and>
        (\<exists>r. map_of (by_request_id w) i = Some r \<and> silent t r)"
    using stale_jobs_ok [of "vals (by_jid w)" "by_request_id w" t] listed by blast
  have live: "\<exists>r. map_of (by_request_id w) i = Some r \<and> rq_state r \<noteq> Complete" if "i \<in> set xs" for i
    using that xs(3) listed by fastforce
  obtain w1 where w1: "for_each (\<lambda>rid. update_index rid (on_request rid
       (bnd (set_error ''Lost contact'') (\<lambda>_. bnd drop_jid (\<lambda>_. complete t))))) xs w = (Inr (), w1)"
    "indexed pub w1" "jobs w1 = jobs w"
    and m: "\<And>i. map_of (by_request_id w1) i = (if i \<in> set xs
            then map_option (failed t ''Lost contact'') (map_of (by_request_id w) i)
            else map_of (by_request_id w) i)"
    using fail_many [OF assms(1,2) xs(2) live, of "''Lost contact''" t] by blast
  let ?run = "if by_jid w1 = [] then [] else [Running (minions_in_flight w1)]"
  let ?w2 = "w1\<lparr>jobs := jobs w1 @ ?run\<rparr>"
  have mif: "minions_in_flight w1 = [] \<longleftrightarrow> by_jid w1 = []"
    by (simp add: minions_in_flight_def)
  have t: "tick t w = (Inr (), ?w2)"
    using assms(3) xs(1) w1(1) mif by (simp add: tick_def py_simps)
  have "touches pub False '''' w1 ?w2" by (simp add: touches_same)
  then have "indexed pub ?w2"
    using w1(2) by (rule_tac indexed_touch) auto
  moreover have "map_of (by_request_id ?w2) i = map_option (\<lambda>r. if i \<in> set (vals (by_jid w)) \<and> silent t r
          then failed t ''Lost contact'' r else r) (map_of (by_request_id w) i)" for i
    using m [of i] xs(3) [of i] by (cases "map_of (by_request_id w) i") auto
  ultimately show ?thesis using t w1(3) by (intro exI [of _ ?w2]) simp
qed

definition one_running :: hub where
  "one_running = rc_run demo_pub [InSubmit 5 (demo_request ''a'') ''mon0''] (empty_hub [])"

lemma one_running_eq:
  "by_jid one_running = [(str_int 0, ''a'')] \<and> (\<exists>r. by_request_id one_running = [(''a'', r)]
     \<and> rq_state r = Submitted \<and> rq_alive_at r = Some 5 \<and> rq_jid r = Some (str_int 0)
     \<and> rq_kind r = OsdMapModifyingRequest \<and> rq_fsid r = Some ''f'')"
  by (simp add: one_running_def submit_request_def submit_char demo_request_def new_request_def
      empty_hub_def demo_pub_def Let_def on_events_def zoom_def split: prod.splits)

lemma indexed_one_running: "indexed demo_pub one_running"
  unfolding one_running_def by (rule indexed_rc_run [OF fresh_demo indexed_empty])

theorem tick_fails_the_silent_witness:
  "\<exists>w' r. tick (seconds 70) one_running = (Inr (), w')
     \<and> map_of (by_request_id w') ''a'' = Some r \<and> rq_state r = Complete \<and> rq_error r"
proof -
  obtain r where r: "by_jid one_running = [(str_int 0, ''a'')]" "by_request_id one_running = [(''a'', r)]"
    "rq_state r = Submitted" "rq_alive_at r = Some 5"
    using one_running_eq by blast
  then have "\<forall>j rid. map_of (by_jid one_running) j = Some rid \<longrightarrow>
      (\<exists>x. map_of (by_request_id one_running) rid = Some x \<and> rq_state x = Submitted \<and> rq_alive_at x \<noteq> None)"
    by auto
  from tick_fails_the_silent [OF fresh_demo indexed_one_running _ this, of "seconds 70"] r show ?thesis
    by (auto simp: silent_def seconds_def failed_def)
qed

text \<open>
  When a RADOS command reports an error, its request completes with that error, but the job
  index keeps the entry of the finished job. As soon as the request's last sign of life is
  more than 60 seconds old, every tick of the timer stops on the assertion in
  \<open>complete\<close>, before it has looked after any other request.
\<close>

theorem rados_error_leaves_stale_job:
  assumes "by_jid w = [(j, rid)]" and "map_of (by_request_id w) rid = Some r"
    and "rq_state r = Submitted" and "rq_alive_at r = Some a"
    and "ret_error d" and "ret_error_status d = Some m" and "seconds 60 < t' - a"
    and "data = \<lparr>co_minion = minion, co_jid = j, co_fun = ''ceph.rados_commands'',
       co_success = True, co_return = RetDict d\<rparr>"
  shows "\<exists>w'. on_completion pub t data w = (Inr (), w')
    \<and> map_of (by_request_id w') rid = Some (failed t m r) \<and> by_jid w' = [(j, rid)]
    \<and> fst (tick t' w') = Inl AssertionError"
proof -
  let ?h1 = "AList.update rid (r\<lparr>rq_jid := None\<rparr>) (by_request_id w)"
  let ?h = "AList.update rid (failed t m r) ?h1"
  let ?w1 = "w\<lparr>by_request_id := ?h\<rparr>"
  let ?w2 = "?w1\<lparr>event_log := snd (on_user_request_complete t (failed t m r) (event_log w))\<rparr>"
  have rados: "on_rados_completion pub t minion rid (RetDict d) w = (Inr (), ?w1)"
    using assms(2,3,5,6)
    by (cases r) (simp add: on_rados_completion_def get_request_eq py_simps on_request_def
        drop_jid_def set_error_def complete_def failed_def)
  have "on_completion pub t data w = (Inr (), ?w2)"
    using assms(1,8) rados
    by (simp add: on_completion_def bnd_def get_state_def report_if_complete_def get_request_eq
        guarded_def on_events_def zoom_def failed_def split: prod.splits)
      (metis complete_event_ok fst_conv)
  moreover have "fst (tick t' ?w2) = Inl AssertionError"
    using assms(1,4,7)
    by (simp add: tick_def py_simps is_stale_def TICK_PERIOD_def failed_def update_index_def
        get_request_eq on_request_def set_error_def drop_jid_def complete_def)
  ultimately show ?thesis using assms(1) by (intro exI [of _ ?w2]) simp
qed

theorem rados_error_leaves_stale_job_witness:
  "\<exists>w'. on_completion demo_pub 9 \<lparr>co_minion = ''mon0'', co_jid = str_int 0,
       co_fun = ''ceph.rados_commands'', co_success = True, co_return = RetDict \<lparr>ret_error = True,
       ret_error_status = Some ''EINVAL'', ret_osd_version = None, ret_fsid = Some ''f''\<rparr>\<rparr> one_running
       = (Inr (), w') \<and> fst (tick (seconds 70) w') = Inl AssertionError"
proof -
  obtain r where r: "by_jid one_running = [(str_int 0, ''a'')]" "by_request_id one_running = [(''a'', r)]"
    "rq_state r = Submitted" "rq_alive_at r = Some 5"
    using one_running_eq by blast
  then have "map_of (by_request_id one_running) ''a'' = Some r" by simp
  from rados_error_leaves_stale_job [OF r(1) this r(3,4) _ _ _ refl, where t' = "seconds 70"
      and m = "''EINVAL''" and d = "\<lparr>ret_error = True, ret_error_status = Some ''EINVAL'',
        ret_osd_version = None, ret_fsid = Some ''f''\<rparr>"] show ?thesis
    by (fastforce simp: seconds_def)
qed

lemma report_ok:
  assumes "map_of (by_request_id w) rid = Some r"
  shows "\<exists>l. report_if_complete t rid w = (Inr (), w\<lparr>event_log := l\<rparr>)"
proof (cases "rq_state r = Complete")
  case True
  have "on_events (on_user_request_complete t r) w =
      (Inr (), w\<lparr>event_log := snd (on_user_request_complete t r (event_log w))\<rparr>)"
    by (simp add: on_events_def prod_eq_iff fst_zoom snd_zoom)
  with True assms show ?thesis
    by (auto simp: report_if_complete_def get_request_eq bnd_def guarded_def)
next
  case False
  with assms have "report_if_complete t rid w = (Inr (), w\<lparr>event_log := event_log w\<rparr>)"
    by (simp add: report_if_complete_def get_request_eq bnd_def guarded_def ret_def)
  then show ?thesis by blast
qed

text \<open>
  The check of the cluster in \<open>on_map\<close> has an empty branch, so a request that waits for an
  epoch of its own cluster's OSD map is completed, successfully, by the map of any other
  cluster whose epoch is high enough.
\<close>

theorem foreign_map_completes_request:
  fixes w :: "'z hub_scheme"
  assumes "fresh_ids pub" and "indexed pub w" and "by_request_id w = [(rid, r)]"
    and "rq_kind r = OsdMapModifyingRequest" and "rq_state r = Submitted" and "rq_jid r = None"
    and "rq_fsid r = Some fsid" and "fsid \<noteq> other"
    and "rq_await_version r = Some v" and "v \<noteq> 0" and "VInt v \<le> so_version obj"
  shows "\<exists>w'. on_map pub t other OsdMap obj w = (Inr (), w') \<and>
     by_request_id w' = [(rid, r\<lparr>rq_state := Complete, rq_completed_at := Some t\<rparr>)]"
proof -
  let ?r' = "r\<lparr>rq_state := Complete, rq_completed_at := Some t\<rparr>"
  let ?body = "on_request rid (UserRequests.on_map pub t OsdMap obj) :: ('z, unit) hub_py"
  have ids: "request_ids_in Submitted w = [rid]"
    using assms(3,5) by (simp add: request_ids_in_def)
  have run: "?body w = (Inr (), w\<lparr>by_request_id := [(rid, ?r')]\<rparr>)"
    using assms(3,4,5,6,9,11)
    by (simp add: on_request_def UserRequests.on_map_def osd_on_map_def py_simps complete_def)
  have "obeys (touches pub True rid) ?body" by blast
  from update_index_ok [OF assms(1,2) this _ run] assms(3)
  obtain w2 where w2: "update_index rid ?body w = (Inr (), w2)" "by_request_id w2 = [(rid, ?r')]"
    by (auto simp: has_key_def)
  have "awaiting_versions r = [(OsdMap, Some v)]"
    using assms(4,5,9,10) by (simp add: awaiting_versions_def truthy_version_def)
  then have "deliver pub t OsdMap obj rid w = (Inr (), w2)"
    using w2(1) assms(3) by (simp add: deliver_eq get_request_eq bnd_def)
  then have tried: "try_except (deliver pub t OsdMap obj rid)
      (\<lambda>e. on_request rid (abandon t (''Internal error '' @ exn_str e))) w = (Inr (), w2)"
    by (simp add: try_except_def)
  from w2(2) have "map_of (by_request_id w2) rid = Some ?r'" by simp
  from report_ok [OF this, of t] obtain l where
    l: "report_if_complete t rid w2 = (Inr (), w2\<lparr>event_log := l\<rparr>)" by blast
  have "on_map pub t other OsdMap obj w = (Inr (), w2\<lparr>event_log := l\<rparr>)"
    using assms(3,7,8) ids tried l
    by (simp add: on_map_def bnd_def get_state_def get_request_eq guarded_def pass_stmt_def ret_def)
  with w2(2) show ?thesis by simp
qed

lemma osd_map_modifying_done:
  fixes w :: "'z hub_scheme"
  assumes "fresh_ids pub" and "indexed pub w" and r: "map_of (by_request_id w) rid = Some r"
    and kind: "rq_kind r = OsdMapModifyingRequest" and st: "rq_state r = Submitted"
    and jid: "rq_jid r = Some j" and f: "rq_fsid r = Some fsid" "fsid \<noteq> []"
    and c: "map_of (clusters w) fsid = Some c" and v: "v \<noteq> 0"
    and res: "ret_osd_version d = Some v" "\<not> ret_error d"
  shows "\<exists>w' c'. on_rados_completion pub t minion rid (RetDict d) w = (Inr (), w')
     \<and> map_of (by_request_id w') rid = Some (r\<lparr>rq_jid := None, rq_result := Some (RetDict d),
          rq_await_version := Some v\<rparr> \<lparr>rq_state := (if VInt v \<le> get_version (cl_sync c) OsdMap
            then Complete else Submitted),
          rq_completed_at := (if VInt v \<le> get_version (cl_sync c) OsdMap
            then Some t else rq_completed_at r)\<rparr>)
     \<and> map_of (clusters w') fsid = Some c'
     \<and> cl_sync c' = fst (snd (on_version t (Some minion) OsdMap (VInt v) (cl_sync c, jobs w)))
     \<and> indexed pub w'"
proof -
  let ?s = "on_version t (Some minion) OsdMap (VInt v) (cl_sync c, jobs w)"
  obtain s' js' where s: "?s = (Inr (), (s', js'))"
    by (metis on_version_returns prod.collapse)
  let ?r1 = "r\<lparr>rq_jid := None, rq_result := Some (RetDict d), rq_await_version := Some v\<rparr>"
  let ?r2 = "?r1 \<lparr>rq_state := (if VInt v \<le> get_version (cl_sync c) OsdMap then Complete else Submitted),
          rq_completed_at := (if VInt v \<le> get_version (cl_sync c) OsdMap
            then Some t else rq_completed_at r)\<rparr>"
  let ?c' = "c\<lparr>cl_sync := s'\<rparr>"
  have obj: "objects s' OsdMap = objects (cl_sync c) OsdMap"
    using s by (auto simp: on_version_effect Let_def fetch_effect split: if_splits)
  have aw: "awaiting_versions ?r1 = [(OsdMap, Some v)]"
    using kind st v by (simp add: awaiting_versions_def truthy_version_def)
  have cmp: "0 \<le> sync_cmp OsdMap x (VInt v) \<longleftrightarrow> VInt v \<le> x" for x
    by (auto simp: sync_cmp_def)
  have ver: "so_version (objects (cl_sync c) OsdMap) = get_version (cl_sync c) OsdMap"
    by (simp add: get_version_def)
  define w1 where "w1 = w\<lparr>by_request_id := AList.update rid ?r1 (by_request_id w)\<rparr>"
  define w2 where "w2 = w1\<lparr>clusters := AList.update fsid ?c' (AList.update fsid c (clusters w)), jobs := js'\<rparr>"
  have job: "on_request rid (complete_jid t (RetDict d)) w = (Inr (), w1)"
    using r kind res
    by (cases r) (simp add: on_request_def complete_jid_def osd_complete_jid_def osd_version_of_def
        py_simps w1_def)
  have g1: "get_request rid w1 = (Inr ?r1, w1)" by (simp add: get_request_eq w1_def)
  have nt: "bnd (on_cluster_sync fsid (ret ())) (\<lambda>_. notify_awaited t minion fsid [(OsdMap, Some v)]) w1
      = (Inr (), w2)"
    using c s by (simp add: on_cluster_sync_def notify_awaited_def bnd_def ret_def w1_def w2_def)
  have off: "\<exists>w3. offer_current pub t fsid rid [(OsdMap, Some v)] w2 = (Inr (), w3)
      \<and> map_of (by_request_id w3) rid = Some ?r2 \<and> map_of (clusters w3) fsid = Some ?c'"
    using kind st v obj
    by (cases r) (auto simp: offer_current_def on_cluster_sync_def gets_def bnd_def w1_def w2_def
        truthy_version_def cmp ver guarded_def ret_def on_request_def UserRequests.on_map_def
        osd_on_map_def py_simps complete_def)
  then obtain w3 where w3: "offer_current pub t fsid rid [(OsdMap, Some v)] w2 = (Inr (), w3)"
      "map_of (by_request_id w3) rid = Some ?r2" "map_of (clusters w3) fsid = Some ?c'" by blast
  have body: "complete_rados pub t minion rid (RetDict d) w = (Inr (), w3)"
  proof -
    have "complete_rados pub t minion rid (RetDict d) w =
      bnd (bnd (on_cluster_sync fsid (ret ())) (\<lambda>_. notify_awaited t minion fsid [(OsdMap, Some v)]))
        (\<lambda>_. offer_current pub t fsid rid [(OsdMap, Some v)]) w1"
      using r job g1 jid f aw
      by (simp add: complete_rados_def get_request_eq bnd_def assert_that_def guarded_def ret_def
          split: prod.splits sum.splits)
    also have "\<dots> = (Inr (), w3)"
      using nt w3(1) by (simp add: bnd_def)
    finally show ?thesis .
  qed
  have "obeys (touches pub True rid :: 'z hub_scheme \<Rightarrow> _) (complete_rados pub t minion rid (RetDict d))"
    by blast
  from reindex_ok [OF assms(1,2) obeysD [OF this body] r]
  obtain w4 where w4: "reindex rid (rq_jid r) w3 = (Inr (), w4)" "indexed pub w4"
      "by_request_id w4 = by_request_id w3" by blast
  have cl: "clusters w4 = clusters w3"
    using w4(1) by (auto simp: reindex_def get_request_eq get_by_jid_def py_simps
        split: sum.splits option.splits if_splits prod.splits)
  have "on_rados_completion pub t minion rid (RetDict d) w = (Inr (), w4)"
    using r st res(2) body w4(1)
    by (simp add: on_rados_completion_def get_request_eq bnd_def guarded_def try_except_def
        update_index_def ret_def)
  with w3 w4 cl s show ?thesis by (intro exI [of _ w4] exI [of _ ?c']) simp
qed

theorem foreign_map_completes_request_witness:
  "\<exists>w' r'. on_map demo_pub 30 ''other'' OsdMap (grown_map 8)
      (snd (on_request ''a'' (complete_jid 9 (job_ok 6)) one_running)) = (Inr (), w')
     \<and> by_request_id w' = [(''a'', r')] \<and> rq_state r' = Complete \<and> \<not> rq_error r'"
proof -
  obtain r where r: "by_request_id one_running = [(''a'', r)]"
    "rq_state r = Submitted" "rq_kind r = OsdMapModifyingRequest" "rq_fsid r = Some ''f''"
    using one_running_eq by blast
  have e: "\<not> rq_error r"
    using r(1) by (auto simp: one_running_def submit_request_def submit_char demo_request_def
        new_request_def empty_hub_def demo_pub_def Let_def on_events_def zoom_def split: prod.splits)
  let ?w = "snd (on_request ''a'' (complete_jid 9 (job_ok 6)) one_running)"
  let ?r = "r\<lparr>rq_jid := None, rq_result := Some (job_ok 6), rq_await_version := Some 6\<rparr>"
  have w: "by_request_id ?w = [(''a'', ?r)]"
    using r by (simp add: on_request_def complete_jid_def osd_complete_jid_def osd_version_of_def
        py_simps job_ok_def)
  have ix: "indexed demo_pub ?w"
    using keeps_on_request [OF rt_complete_jid, of demo_pub "''a''" 9 "job_ok 6"] indexed_one_running
    by (auto simp: obeys_def keeps_def)
  show ?thesis
    using foreign_map_completes_request [OF fresh_demo ix w, where fsid = "''f''" and other = "''other''"
        and v = 6 and obj = "grown_map 8" and t = 30] r e
    by (auto simp: grown_map_def)
qed

text \<open>
  C15. When the job of a request that modifies the OSD map succeeds, the request asks its cluster
  monitor for the epoch the job reported. If the stored map is already that new, the
  request completes at once; otherwise it goes on waiting for exactly that epoch, and the
  monitor knows of it and has a fetch under way.
\<close>

theorem osd_map_modifying_job_done:
  fixes w :: "'z hub_scheme"
  assumes "fresh_ids pub" and "indexed pub w"
    and "map_of (by_jid w) j = Some rid" and r: "map_of (by_request_id w) rid = Some r"
    and "rq_kind r = OsdMapModifyingRequest" and "rq_state r = Submitted" and "rq_jid r = Some j"
    and "rq_fsid r = Some fsid" and "fsid \<noteq> []" and "map_of (clusters w) fsid = Some c"
    and "ret_osd_version d = Some v" and "v \<noteq> 0" and "\<not> ret_error d"
    and data: "data = \<lparr>co_minion = minion, co_jid = j, co_fun = ''ceph.rados_commands'',
       co_success = True, co_return = RetDict d\<rparr>"
  shows "\<exists>w' c' r'. on_completion pub t data w = (Inr (), w')
     \<and> map_of (by_request_id w') rid = Some r' \<and> map_of (clusters w') fsid = Some c'
     \<and> (if VInt v \<le> get_version (cl_sync c) OsdMap
        then rq_state r' = Complete \<and> rq_error r' = rq_error r
        else rq_state r' = Submitted \<and> awaiting_versions r' = [(OsdMap, Some v)]
          \<and> VInt v \<le> known_versions (cl_sync c') OsdMap \<and> fetching_at (cl_sync c') OsdMap \<noteq> None)"
proof -
  from osd_map_modifying_done [OF assms(1,2) r assms(5,6,7,8,9,10,12,11,13), of t minion]
  obtain w1 c' where w1: "on_rados_completion pub t minion rid (RetDict d) w = (Inr (), w1)"
    and r1: "map_of (by_request_id w1) rid = Some (r\<lparr>rq_jid := None, rq_result := Some (RetDict d),
          rq_await_version := Some v\<rparr> \<lparr>rq_state := (if VInt v \<le> get_version (cl_sync c) OsdMap
            then Complete else Submitted),
          rq_completed_at := (if VInt v \<le> get_version (cl_sync c) OsdMap
            then Some t else rq_completed_at r)\<rparr>)"
    and c1: "map_of (clusters w1) fsid = Some c'"
    and s1: "cl_sync c' = fst (snd (on_version t (Some minion) OsdMap (VInt v) (cl_sync c, jobs w)))"
    by blast
  have known: "VInt v \<le> known_versions (cl_sync c') OsdMap \<and> fetching_at (cl_sync c') OsdMap \<noteq> None"
    if "\<not> VInt v \<le> get_version (cl_sync c) OsdMap"
    using that unfolding s1
    by (auto simp: on_version_effect Let_def fetch_effect sync_cmp_versioned_pos latest_versioned
        fetch_due_def split: option.splits)
  obtain w2 where w2: "report_if_complete t rid w1 = (Inr (), w2)" "by_request_id w2 = by_request_id w1"
      "clusters w2 = clusters w1"
    using report_ok [OF r1, of t] by auto
  have "on_completion pub t data w = (Inr (), w2)"
    using assms(3) data w1 w2(1) by (simp add: on_completion_def bnd_def get_state_def)
  with w2 r1 c1 known assms(5,12) show ?thesis
    by (auto simp: awaiting_versions_def truthy_version_def)
qed

definition demo_cluster :: cluster where
  "demo_cluster = \<lparr>cl_fsid = ''f'', cl_name = ''ceph'', cl_update_time = 0, cl_favorite = Some ''mon0'',
     cl_last_heartbeat = [], cl_sync = init_sync_objects ''ceph''\<rparr>"

theorem osd_map_modifying_job_done_witness:
  "\<exists>w' r'. on_completion demo_pub 9 \<lparr>co_minion = ''mon0'', co_jid = str_int 0,
       co_fun = ''ceph.rados_commands'', co_success = True, co_return = job_ok 6\<rparr>
       (one_running\<lparr>clusters := [(''f'', demo_cluster)]\<rparr>) = (Inr (), w')
     \<and> map_of (by_request_id w') ''a'' = Some r' \<and> awaiting_versions r' = [(OsdMap, Some 6)]"
proof -
  let ?w = "one_running\<lparr>clusters := [(''f'', demo_cluster)]\<rparr>"
  obtain r where r: "by_jid one_running = [(str_int 0, ''a'')]" "by_request_id one_running = [(''a'', r)]"
    "rq_state r = Submitted" "rq_jid r = Some (str_int 0)" "rq_kind r = OsdMapModifyingRequest"
    "rq_fsid r = Some ''f''"
    using one_running_eq by blast
  have ix: "indexed demo_pub ?w" using indexed_one_running by (simp add: indexed_def)
  have facts: "map_of (by_jid ?w) (str_int 0) = Some ''a''" "map_of (by_request_id ?w) ''a'' = Some r"
    "map_of (clusters ?w) ''f'' = Some demo_cluster" "(''f'' :: string) \<noteq> []" "(6::int) \<noteq> 0"
    "\<not> VInt 6 \<le> get_version (cl_sync demo_cluster) OsdMap"
    using r by (simp_all add: demo_cluster_def init_sync_objects_def get_version_def mk_sync_object_def)
  from osd_map_modifying_job_done [OF fresh_demo ix facts(1,2) r(5,3,4,6) facts(4,3) _ facts(5) _ refl,
      where t = 9 and minion = "''mon0''" and d = "\<lparr>ret_error = False, ret_error_status = Some '''',
        ret_osd_version = Some 6, ret_fsid = None\<rparr>"] facts(6)
  show ?thesis
    unfolding job_ok_def by auto
qed

end
