(* ===== verification/Eventer.thy ===== *)
theory Eventer
  imports ServerMonitor RequestCollection
begin

text \<open>
  Eventer (cthulhu/manager/eventer.py): the events it derives from what it observes. It
  complains about servers and clusters that have not reported for too long, once each,
  and compares an old with a new cluster map.

  Eventer asks the Manager for its servers and clusters, so its state is the state of the
  whole process: what RequestCollection works on, the ServerMonitor and the two sets of
  those it has complained about.
\<close>

section \<open>State\<close>

record manager = hub +
  servers :: server_monitor
  servers_complained :: "string list"
  clusters_complained :: "string list"

type_synonym 'a mg_py = "(manager, 'a) py"

text \<open>The defaults of calamari.conf, which config.py reads.\<close>

definition CONTACT_THRESHOLD_FACTOR :: int where
  "CONTACT_THRESHOLD_FACTOR = 3"

definition CLUSTER_CONTACT_THRESHOLD :: int where
  "CLUSTER_CONTACT_THRESHOLD = 60"

text \<open>A method of the ServerMonitor, which also writes to the event log.\<close>

definition on_servers :: "'a sm_py \<Rightarrow> 'a mg_py" where
  "on_servers m = zoom (\<lambda>w. (servers w, event_log w))
     (\<lambda>(s, l) w. w\<lparr>servers := s, event_log := l\<rparr>) m"

definition mg_emit :: "time \<Rightarrow> severity \<Rightarrow> string \<Rightarrow> assoc \<Rightarrow> unit mg_py" where
  "mg_emit t sev msg a = on_events (emit t sev msg a)"

definition the_cluster :: "string \<Rightarrow> cluster mg_py" where
  "the_cluster fsid = bnd get_state (\<lambda>w. lift_exn (item (clusters w) fsid fsid))"

section \<open>Who is late\<close>

text \<open>\<open>self.<set>.add(x)\<close> and \<open>discard(x)\<close>.\<close>

definition complain_server :: "string \<Rightarrow> unit mg_py" where
  "complain_server x = modify (\<lambda>w. w\<lparr>servers_complained := List.insert x (servers_complained w)\<rparr>)"

definition forgive_server :: "string \<Rightarrow> unit mg_py" where
  "forgive_server x = modify (\<lambda>w. w\<lparr>servers_complained := removeAll x (servers_complained w)\<rparr>)"

definition complain_cluster :: "string \<Rightarrow> unit mg_py" where
  "complain_cluster x = modify (\<lambda>w. w\<lparr>clusters_complained := List.insert x (clusters_complained w)\<rparr>)"

definition forgive_cluster :: "string \<Rightarrow> unit mg_py" where
  "forgive_cluster x = modify (\<lambda>w. w\<lparr>clusters_complained := removeAll x (clusters_complained w)\<rparr>)"

definition check_server :: "(string \<Rightarrow> int option) \<Rightarrow> time \<Rightarrow> string \<Rightarrow> address \<Rightarrow> unit mg_py" where
  "check_server pillar t fqdn a =
     bnd (on_servers (server_at a)) (\<lambda>s.
     guarded (ss_managed s)
       (let asc = no_assoc\<lparr>as_fqdn := Some fqdn, as_fsid := server_fsid s\<rparr>
        in bnd (on_servers (get_contact_period pillar fqdn)) (\<lambda>p.
           bnd get_state (\<lambda>w. case ss_last_contact s of
             None \<Rightarrow> raise TypeError
           | Some last_contact \<Rightarrow>
               (if seconds (CONTACT_THRESHOLD_FACTOR * p) < t - last_contact then
                  guarded (fqdn \<notin> set (servers_complained w))
                    (bnd (mg_emit t WARNING (''Server '' @ fqdn @ '' is late reporting in, last report at ''
                            @ str_time last_contact) asc) (\<lambda>_. complain_server fqdn))
                else
                  guarded (fqdn \<in> set (servers_complained w))
                    (bnd (mg_emit t RECOVERY (''Server '' @ fqdn @ '' regained contact'') asc) (\<lambda>_.
                     forgive_server fqdn)))))))"

definition check_cluster :: "time \<Rightarrow> string \<Rightarrow> cluster \<Rightarrow> unit mg_py" where
  "check_cluster t fsid c =
     bnd get_state (\<lambda>w.
     let asc = no_assoc\<lparr>as_fsid := Some fsid\<rparr>
     in if seconds CLUSTER_CONTACT_THRESHOLD < t - cl_update_time c then
          guarded (fsid \<notin> set (clusters_complained w))
            (bnd (complain_cluster fsid) (\<lambda>_.
             mg_emit t WARNING (''Cluster '' @ quote @ cl_name c @ quote @ '' is late reporting in'') asc))
        else
          guarded (fsid \<in> set (clusters_complained w))
            (bnd (mg_emit t RECOVERY (''Cluster '' @ quote @ cl_name c @ quote @ '' regained contact'') asc) (\<lambda>_.
             forgive_cluster fsid)))"

definition eventer_tick :: "(string \<Rightarrow> int option) \<Rightarrow> time \<Rightarrow> unit mg_py" where
  "eventer_tick pillar t =
     bnd get_state (\<lambda>w.
     bnd (for_each (\<lambda>(fqdn, a). check_server pillar t fqdn a) (sm_servers (servers w))) (\<lambda>_.
     bnd (for_each (\<lambda>(fsid, c). check_cluster t fsid c) (clusters w)) (\<lambda>_.
     on_events flush)))"

section \<open>Comparing cluster maps\<close>

definition get_fqdn :: "manager \<Rightarrow> string \<Rightarrow> string \<Rightarrow> string \<Rightarrow> string option" where
  "get_fqdn w fsid ty i = map_option ss_fqdn (get_by_service (servers w) (ServiceId fsid ty i))"

definition get_on_server :: "manager \<Rightarrow> string \<Rightarrow> string \<Rightarrow> string \<Rightarrow> string" where
  "get_on_server w fsid ty i = (case get_fqdn w fsid ty i of
       None \<Rightarrow> []
     | Some fqdn \<Rightarrow> (if fqdn = [] then [] else '' (on '' @ fqdn @ '')''))"

text \<open>\<open>msg\<close> makes the message from the cluster's name, the id and the server.\<close>

definition osd_event ::
  "time \<Rightarrow> string \<Rightarrow> severity \<Rightarrow> (string \<Rightarrow> string \<Rightarrow> string \<Rightarrow> string) \<Rightarrow> int \<Rightarrow> unit mg_py" where
  "osd_event t fsid sev msg i =
     bnd (the_cluster fsid) (\<lambda>c.
     bnd get_state (\<lambda>w.
     mg_emit t sev (msg (cl_name c) (str_int i) (get_on_server w fsid ''osd'' (str_int i)))
       \<lparr>as_fsid = Some fsid, as_fqdn = get_fqdn w fsid ''osd'' (str_int i),
        as_service_type = Some ''osd'', as_service_id = Some (str_int i)\<rparr>))"

definition osd_removed :: "string \<Rightarrow> string \<Rightarrow> string \<Rightarrow> string" where
  "osd_removed name i on_srv = ''OSD '' @ name @ ''.'' @ i @ on_srv @ '' removed from the cluster map''"

definition osd_added :: "string \<Rightarrow> string \<Rightarrow> string \<Rightarrow> string" where
  "osd_added name i on_srv = ''OSD '' @ name @ ''.'' @ i @ on_srv @ '' added to the cluster map''"

definition osd_came_up :: "string \<Rightarrow> string \<Rightarrow> string \<Rightarrow> string" where
  "osd_came_up name i on_srv = ''OSD '' @ name @ ''.'' @ i @ '' came up'' @ on_srv"

definition osd_went_down :: "string \<Rightarrow> string \<Rightarrow> string \<Rightarrow> string" where
  "osd_went_down name i on_srv = ''OSD '' @ name @ ''.'' @ i @ '' went down'' @ on_srv"

definition osd_changed :: "time \<Rightarrow> string \<Rightarrow> osd_map_data \<Rightarrow> osd_map_data \<Rightarrow> int \<Rightarrow> unit mg_py" where
  "osd_changed t fsid new old i =
     bnd (lift_exn (item (osds_by_id (Some old)) i (str_int i))) (\<lambda>old_osd.
     bnd (lift_exn (item (osds_by_id (Some new)) i (str_int i))) (\<lambda>new_osd.
     guarded (osd_up old_osd \<noteq> osd_up new_osd)
       (if osd_up new_osd \<noteq> 0 then osd_event t fsid RECOVERY osd_came_up i
        else osd_event t fsid WARNING osd_went_down i)))"

definition osd_ids :: "osd_map_data \<Rightarrow> int list" where
  "osd_ids d = remdups (map osd (om_osds d))"

definition events_of_osd_map :: "time \<Rightarrow> string \<Rightarrow> osd_map_data \<Rightarrow> osd_map_data \<Rightarrow> unit mg_py" where
  "events_of_osd_map t fsid new old =
     bnd (for_each (osd_event t fsid INFO osd_removed) (filter (\<lambda>i. i \<notin> set (osd_ids new)) (osd_ids old))) (\<lambda>_.
     bnd (for_each (osd_event t fsid INFO osd_added) (filter (\<lambda>i. i \<notin> set (osd_ids old)) (osd_ids new))) (\<lambda>_.
     for_each (osd_changed t fsid new old) (filter (\<lambda>i. i \<in> set (osd_ids new)) (osd_ids old))))"

definition mons_by_rank :: "mon_status_data \<Rightarrow> (int, mon_entry) dict" where
  "mons_by_rank d = dict_of (map (\<lambda>m. (mon_rank m, m)) (ms_mons d))"

definition mon_event ::
  "time \<Rightarrow> string \<Rightarrow> mon_status_data \<Rightarrow> severity \<Rightarrow> string \<Rightarrow> int \<Rightarrow> unit mg_py" where
  "mon_event t fsid new sev verb rank =
     bnd (lift_exn (item (mons_by_rank new) rank (str_int rank))) (\<lambda>m.
     bnd (the_cluster fsid) (\<lambda>c.
     bnd get_state (\<lambda>w.
     mg_emit t sev
       (''Mon '' @ quote @ cl_name c @ ''.'' @ mon_name m @ quote @ '' '' @ verb @ '' quorum''
        @ get_on_server w fsid ''mon'' (mon_name m))
       (no_assoc\<lparr>as_fsid := Some fsid, as_fqdn := get_fqdn w fsid ''mon'' (mon_name m)\<rparr>))))"

definition events_of_mon_status :: "time \<Rightarrow> string \<Rightarrow> mon_status_data \<Rightarrow> mon_status_data \<Rightarrow> unit mg_py" where
  "events_of_mon_status t fsid new old =
     (let old_quorum = remdups (ms_quorum old); new_quorum = remdups (ms_quorum new)
      in bnd (for_each (mon_event t fsid new RECOVERY ''joined'')
                (filter (\<lambda>r. r \<notin> set old_quorum) new_quorum)) (\<lambda>_.
         for_each (mon_event t fsid new WARNING ''left'')
                (filter (\<lambda>r. r \<notin> set new_quorum) old_quorum)))"

definition health_severity :: "string \<Rightarrow> exn + severity" where
  "health_severity st =
     item [(''HEALTH_OK'', INFO), (''HEALTH_WARN'', WARNING), (''HEALTH_ERR'', ERROR)] st st"

text \<open>A health object is modelled by its overall status.\<close>

definition events_of_health :: "time \<Rightarrow> string \<Rightarrow> string \<Rightarrow> string \<Rightarrow> unit mg_py" where
  "events_of_health t fsid new_status old_status =
     guarded (old_status \<noteq> new_status)
       (bnd (lift_exn (health_severity new_status)) (\<lambda>new_sev.
        bnd (lift_exn (health_severity old_status)) (\<lambda>old_sev.
        bnd (the_cluster fsid) (\<lambda>c.
        let msg = (\<lambda>verb. ''Health of cluster '' @ quote @ cl_name c @ quote @ '' '' @ verb @ '' from ''
              @ old_status @ '' to '' @ new_status);
            asc = no_assoc\<lparr>as_fsid := Some fsid\<rparr>
        in if severity_value new_sev < severity_value old_sev
           then mg_emit t new_sev (msg ''degraded'') asc
           else mg_emit t RECOVERY (msg ''recovered'') asc))))"

definition eventer_on_sync_object ::
  "time \<Rightarrow> string \<Rightarrow> sync_type \<Rightarrow> sync_object \<Rightarrow> sync_object \<Rightarrow> unit mg_py" where
  "eventer_on_sync_object t fsid ty new old = (case so_data old of
       None \<Rightarrow> ret ()
     | Some od \<Rightarrow>
         bnd (if ty = OsdMap then (case (so_data new, od) of
                (Some (DOsd n), DOsd o') \<Rightarrow> events_of_osd_map t fsid n o' | _ \<Rightarrow> raise TypeError)
              else if ty = Health then (case (so_data new, od) of
                (Some (DHealth n), DHealth o') \<Rightarrow> events_of_health t fsid n o' | _ \<Rightarrow> raise TypeError)
              else if ty = MonStatus then (case (so_data new, od) of
                (Some (DMonStatus n), DMonStatus o') \<Rightarrow> events_of_mon_status t fsid n o' | _ \<Rightarrow> raise TypeError)
              else ret ()) (\<lambda>_.
         on_events flush))"

section \<open>One tick in closed form\<close>

lemma on_servers_read:
  "m (servers w, event_log w) = (r, (servers w, event_log w)) \<Longrightarrow> on_servers m w = (r, w)"
  by (simp add: on_servers_def zoom_def)

lemma on_servers_run:
  "m (servers w, event_log w) = (r, (s', l')) \<Longrightarrow>
     on_servers m w = (r, w\<lparr>servers := s', event_log := l'\<rparr>)"
  by (simp add: on_servers_def zoom_def)

lemma server_at_run: "map_of (sm_heap m) a = Some s \<Longrightarrow> server_at a (m, l) = (Inr s, (m, l))"
  by (simp add: server_at_def py_simps)

lemma on_events_run: "m (event_log w) = (r, l') \<Longrightarrow> on_events m w = (r, w\<lparr>event_log := l'\<rparr>)"
  by (simp add: on_events_def zoom_def)

definition period_of :: "(string \<Rightarrow> int option) \<Rightarrow> server_monitor \<Rightarrow> string \<Rightarrow> int" where
  "period_of pillar m fqdn = get_default (sm_contact_period_cache m) fqdn (pillar_contact_period pillar fqdn)"

definition period_cached :: "(string \<Rightarrow> int option) \<Rightarrow> string \<Rightarrow> server_monitor \<Rightarrow> server_monitor" where
  "period_cached pillar fqdn m =
     (if has_key (sm_contact_period_cache m) fqdn then m
      else m\<lparr>sm_contact_period_cache :=
        AList.update fqdn (pillar_contact_period pillar fqdn) (sm_contact_period_cache m)\<rparr>)"

lemma get_contact_period_run:
  "get_contact_period pillar fqdn (m, l) = (Inr (period_of pillar m fqdn), (period_cached pillar fqdn m, l))"
  by (cases "map_of (sm_contact_period_cache m) fqdn")
    (simp_all add: get_contact_period_def py_simps period_of_def period_cached_def get_default_def
      has_key_def Let_def)

lemma on_servers_contact_period:
  "on_servers (get_contact_period pillar fqdn) w = (Inr (period_of pillar (servers w) fqdn),
     w\<lparr>servers := period_cached pillar fqdn (servers w)\<rparr>)"
  by (simp add: on_servers_def zoom_def get_contact_period_run)

lemma on_servers_server_at:
  "map_of (sm_heap (servers w)) a = Some s \<Longrightarrow> on_servers (server_at a) w = (Inr s, w)"
  by (simp add: on_servers_def zoom_def server_at_run)

lemma mg_emit_run: "mg_emit t sev msg a w = (Inr (), w\<lparr>event_log := (event_log w)\<lparr>ev_pending :=
     ev_pending (event_log w) @ [\<lparr>ev_when = t, ev_severity = sev, ev_message = msg, ev_assoc = a\<rparr>]\<rparr>\<rparr>)"
  by (simp add: mg_emit_def on_events_def zoom_def)

lemma period_cached_simps [simp]:
  "sm_heap (period_cached pillar f m) = sm_heap m"
  "sm_servers (period_cached pillar f m) = sm_servers m"
  "sm_services (period_cached pillar f m) = sm_services m"
  "period_of pillar (period_cached pillar f m) g = period_of pillar m g"
  "has_key (sm_contact_period_cache (period_cached pillar f m)) g
     \<longleftrightarrow> g = f \<or> has_key (sm_contact_period_cache m) g"
  by (auto simp: period_cached_def period_of_def get_default_def has_key_def)

lemma period_cached_id: "has_key (sm_contact_period_cache m) f \<Longrightarrow> period_cached pillar f m = m"
  by (simp add: period_cached_def)

definition overdue :: "int \<Rightarrow> time \<Rightarrow> time \<Rightarrow> bool" where
  "overdue period t last_contact \<longleftrightarrow> seconds (CONTACT_THRESHOLD_FACTOR * period) < t - last_contact"

definition server_is_late :: "(string \<Rightarrow> int option) \<Rightarrow> time \<Rightarrow> server_monitor \<Rightarrow> string \<Rightarrow> server_state \<Rightarrow> bool" where
  "server_is_late pillar t m fqdn s \<longleftrightarrow> (case ss_last_contact s of
       None \<Rightarrow> False | Some last_contact \<Rightarrow> overdue (period_of pillar m fqdn) t last_contact)"

definition cluster_is_late :: "time \<Rightarrow> cluster \<Rightarrow> bool" where
  "cluster_is_late t c \<longleftrightarrow> seconds CLUSTER_CONTACT_THRESHOLD < t - cl_update_time c"

definition set_flag :: "bool \<Rightarrow> string \<Rightarrow> string list \<Rightarrow> string list" where
  "set_flag b x xs = (if b then List.insert x xs else removeAll x xs)"

lemma in_set_flag [simp]: "y \<in> set (set_flag b x xs) \<longleftrightarrow> (if y = x then b else y \<in> set xs)"
  by (auto simp: set_flag_def)

lemma set_flag_same: "b = (x \<in> set xs) \<Longrightarrow> set_flag b x xs = xs"
  by (simp add: set_flag_def removeAll_id)

definition log_one :: "event option \<Rightarrow> event_log \<Rightarrow> event_log" where
  "log_one e l = (case e of None \<Rightarrow> l | Some x \<Rightarrow> l\<lparr>ev_pending := ev_pending l @ [x]\<rparr>)"

definition server_news ::
  "(string \<Rightarrow> int option) \<Rightarrow> time \<Rightarrow> string \<Rightarrow> server_state \<Rightarrow> manager \<Rightarrow> event option" where
  "server_news pillar t fqdn s w =
     (if server_is_late pillar t (servers w) fqdn s = (fqdn \<in> set (servers_complained w)) then None
      else Some \<lparr>ev_when = t,
        ev_severity = (if server_is_late pillar t (servers w) fqdn s then WARNING else RECOVERY),
        ev_message = (if server_is_late pillar t (servers w) fqdn s
          then ''Server '' @ fqdn @ '' is late reporting in, last report at '' @ str_time (the (ss_last_contact s))
          else ''Server '' @ fqdn @ '' regained contact''),
        ev_assoc = no_assoc\<lparr>as_fqdn := Some fqdn, as_fsid := server_fsid s\<rparr>\<rparr>)"

definition server_checked ::
  "(string \<Rightarrow> int option) \<Rightarrow> time \<Rightarrow> (address, server_state) dict \<Rightarrow> string \<times> address \<Rightarrow> manager \<Rightarrow> manager" where
  "server_checked pillar t h = (\<lambda>(fqdn, a) w. case map_of h a of
       None \<Rightarrow> w
     | Some s \<Rightarrow> (if \<not> ss_managed s then w else w\<lparr>servers := period_cached pillar fqdn (servers w),
         event_log := log_one (server_news pillar t fqdn s w) (event_log w),
         servers_complained := set_flag (server_is_late pillar t (servers w) fqdn s) fqdn
           (servers_complained w)\<rparr>))"

lemma check_server_run:
  assumes "sm_heap (servers w) = h" and "map_of h a = Some s"
    and "ss_managed s \<longrightarrow> ss_last_contact s \<noteq> None"
  shows "check_server pillar t fqdn a w = (Inr (), server_checked pillar t h (fqdn, a) w)"
proof (cases "ss_managed s")
  case True
  with assms obtain last_contact where l: "ss_last_contact s = Some last_contact" by auto
  show ?thesis
    using True l assms
    by (simp add: check_server_def bnd_def on_servers_server_at on_servers_contact_period guarded_def
        get_state_def mg_emit_run complain_server_def forgive_server_def modify_def ret_def raise_def
        server_checked_def server_news_def server_is_late_def overdue_def log_one_def set_flag_def
        removeAll_id Let_def)
next
  case False
  with assms show ?thesis
    by (simp add: check_server_def bnd_def on_servers_server_at guarded_def ret_def server_checked_def)
qed

definition cluster_news :: "time \<Rightarrow> string \<Rightarrow> cluster \<Rightarrow> manager \<Rightarrow> event option" where
  "cluster_news t fsid c w =
     (if cluster_is_late t c = (fsid \<in> set (clusters_complained w)) then None
      else Some \<lparr>ev_when = t, ev_severity = (if cluster_is_late t c then WARNING else RECOVERY),
        ev_message = ''Cluster '' @ quote @ cl_name c @ quote
          @ (if cluster_is_late t c then '' is late reporting in'' else '' regained contact''),
        ev_assoc = no_assoc\<lparr>as_fsid := Some fsid\<rparr>\<rparr>)"

definition cluster_checked :: "time \<Rightarrow> string \<times> cluster \<Rightarrow> manager \<Rightarrow> manager" where
  "cluster_checked t = (\<lambda>(fsid, c) w. w\<lparr>event_log := log_one (cluster_news t fsid c w) (event_log w),
     clusters_complained := set_flag (cluster_is_late t c) fsid (clusters_complained w)\<rparr>)"

lemma check_cluster_run: "check_cluster t fsid c w = (Inr (), cluster_checked t (fsid, c) w)"
  by (simp add: check_cluster_def bnd_def get_state_def mg_emit_run
      complain_cluster_def forgive_cluster_def modify_def ret_def guarded_def Let_def
      cluster_checked_def cluster_news_def cluster_is_late_def log_one_def set_flag_def removeAll_id)

lemma server_is_late_cached [simp]:
  "server_is_late pillar t (period_cached pillar f m) g s = server_is_late pillar t m g s"
  by (simp add: server_is_late_def split: option.splits)

lemma server_checked_frame:
  "sm_heap (servers (server_checked pillar t h x w)) = sm_heap (servers w)"
  "sm_servers (servers (server_checked pillar t h x w)) = sm_servers (servers w)"
  "server_is_late pillar t (servers (server_checked pillar t h x w)) g s = server_is_late pillar t (servers w) g s"
  "clusters (server_checked pillar t h x w) = clusters w"
  "clusters_complained (server_checked pillar t h x w) = clusters_complained w"
  "ev_saved (event_log (server_checked pillar t h x w)) = ev_saved (event_log w)"
  by (auto simp: server_checked_def log_one_def split: option.splits prod.splits)

lemma servers_checked_frame:
  "sm_heap (servers (fold (server_checked pillar t h) ps w)) = sm_heap (servers w)"
  "sm_servers (servers (fold (server_checked pillar t h) ps w)) = sm_servers (servers w)"
  "server_is_late pillar t (servers (fold (server_checked pillar t h) ps w)) g s
     = server_is_late pillar t (servers w) g s"
  "clusters (fold (server_checked pillar t h) ps w) = clusters w"
  "clusters_complained (fold (server_checked pillar t h) ps w) = clusters_complained w"
  "ev_saved (event_log (fold (server_checked pillar t h) ps w)) = ev_saved (event_log w)"
  by (induction ps arbitrary: w) (simp_all add: server_checked_frame)

text \<open>Whether Eventer should be complaining about a server; unmanaged ones stay as they are.\<close>

definition server_flag ::
  "(string \<Rightarrow> int option) \<Rightarrow> time \<Rightarrow> (address, server_state) dict \<Rightarrow> manager \<Rightarrow> string \<times> address \<Rightarrow> bool" where
  "server_flag pillar t h w = (\<lambda>(fqdn, a). case map_of h a of
       Some s \<Rightarrow> (if ss_managed s then server_is_late pillar t (servers w) fqdn s
                  else fqdn \<in> set (servers_complained w))
     | None \<Rightarrow> fqdn \<in> set (servers_complained w))"

lemma server_checked_flag:
  "y \<in> set (servers_complained (server_checked pillar t h (x, a) w)) \<longleftrightarrow>
     (if y = x then server_flag pillar t h w (x, a) else y \<in> set (servers_complained w))"
  by (auto simp: server_checked_def server_flag_def split: option.splits)

lemma server_checked_pending:
  "length (ev_pending (event_log (server_checked pillar t h (x, a) w))) =
     length (ev_pending (event_log w))
     + (if server_flag pillar t h w (x, a) = (x \<in> set (servers_complained w)) then 0 else 1)"
  by (auto simp: server_checked_def server_flag_def server_news_def log_one_def split: option.splits)

lemma server_flag_step:
  "y \<noteq> x \<Longrightarrow> server_flag pillar t h (server_checked pillar t h (x, a) w) (y, b) = server_flag pillar t h w (y, b)"
  by (simp add: server_flag_def server_checked_flag server_checked_frame split: option.splits)

lemma servers_checked_flags:
  assumes "distinct (keys ps)"
  shows "y \<in> set (servers_complained (fold (server_checked pillar t h) ps w)) \<longleftrightarrow>
     (case map_of ps y of Some a \<Rightarrow> server_flag pillar t h w (y, a) | None \<Rightarrow> y \<in> set (servers_complained w))"
  using assms
proof (induction ps arbitrary: w)
  case (Cons p ps)
  obtain x a where p: "p = (x, a)" by fastforce
  have "map_of ps x = None"
    using Cons.prems p by (simp add: map_of_eq_None_iff)
  with Cons p show ?case
    by (cases "y = x"; cases "map_of ps y") (simp_all add: server_checked_flag server_flag_step)
qed simp

lemma servers_checked_pending:
  assumes "distinct (keys ps)"
  shows "length (ev_pending (event_log (fold (server_checked pillar t h) ps w))) =
     length (ev_pending (event_log w))
     + length (filter (\<lambda>(x, a). server_flag pillar t h w (x, a) \<noteq> (x \<in> set (servers_complained w))) ps)"
  using assms
proof (induction ps arbitrary: w)
  case (Cons p ps)
  obtain x a where p: "p = (x, a)" by fastforce
  let ?w1 = "server_checked pillar t h (x, a) w"
  have "filter (\<lambda>(y, b). server_flag pillar t h ?w1 (y, b) \<noteq> (y \<in> set (servers_complained ?w1))) ps
      = filter (\<lambda>(y, b). server_flag pillar t h w (y, b) \<noteq> (y \<in> set (servers_complained w))) ps"
  proof (rule filter_cong [OF refl])
    fix q
    assume "q \<in> set ps"
    with Cons.prems p have "fst q \<noteq> x" by (auto simp: rev_image_eqI)
    then show "(case q of (y, b) \<Rightarrow> server_flag pillar t h ?w1 (y, b) \<noteq> (y \<in> set (servers_complained ?w1)))
      = (case q of (y, b) \<Rightarrow> server_flag pillar t h w (y, b) \<noteq> (y \<in> set (servers_complained w)))"
      by (cases q) (simp add: server_flag_step server_checked_flag)
  qed
  with Cons p show ?case by (simp add: server_checked_pending)
qed simp

lemma servers_checked_cached:
  assumes "(x, a) \<in> set ps" and "map_of h a = Some s" and "ss_managed s"
  shows "has_key (sm_contact_period_cache (servers (fold (server_checked pillar t h) ps w))) x"
proof -
  have mono: "has_key (sm_contact_period_cache (servers v)) x \<Longrightarrow>
      has_key (sm_contact_period_cache (servers (fold (server_checked pillar t h) qs v))) x" for qs v
    by (induction qs arbitrary: v) (auto simp: server_checked_def split: option.splits)
  from assms(1) show ?thesis
  proof (induction ps arbitrary: w)
    case (Cons p ps)
    show ?case
    proof (cases "p = (x, a)")
      case True
      have "has_key (sm_contact_period_cache (servers (server_checked pillar t h (x, a) w))) x"
        using assms(2,3) by (simp add: server_checked_def)
      with True mono show ?thesis by simp
    next
      case False
      with Cons show ?thesis by auto
    qed
  qed simp
qed

lemma server_checked_id:
  assumes "server_flag pillar t h w (x, a) = (x \<in> set (servers_complained w))"
    and "\<And>s. map_of h a = Some s \<Longrightarrow> ss_managed s \<Longrightarrow> has_key (sm_contact_period_cache (servers w)) x"
  shows "server_checked pillar t h (x, a) w = w"
  using assms
  by (auto simp: server_checked_def server_flag_def server_news_def log_one_def period_cached_id
      set_flag_same split: option.splits if_splits)

lemma cluster_checked_frame:
  "servers (cluster_checked t x w) = servers w" "clusters (cluster_checked t x w) = clusters w"
  "servers_complained (cluster_checked t x w) = servers_complained w"
  "ev_saved (event_log (cluster_checked t x w)) = ev_saved (event_log w)"
  by (auto simp: cluster_checked_def log_one_def split: prod.splits option.splits)

lemma clusters_checked_frame:
  "servers (fold (cluster_checked t) cs w) = servers w" "clusters (fold (cluster_checked t) cs w) = clusters w"
  "servers_complained (fold (cluster_checked t) cs w) = servers_complained w"
  "ev_saved (event_log (fold (cluster_checked t) cs w)) = ev_saved (event_log w)"
  by (induction cs arbitrary: w) (simp_all add: cluster_checked_frame)

lemma clusters_checked_flags:
  assumes "distinct (keys cs)"
  shows "y \<in> set (clusters_complained (fold (cluster_checked t) cs w)) \<longleftrightarrow>
     (case map_of cs y of Some c \<Rightarrow> cluster_is_late t c | None \<Rightarrow> y \<in> set (clusters_complained w))"
  using assms
proof (induction cs arbitrary: w)
  case (Cons p cs)
  obtain x c where p: "p = (x, c)" by fastforce
  have "map_of cs x = None"
    using Cons.prems p by (simp add: map_of_eq_None_iff)
  with Cons p show ?case
    by (cases "y = x"; cases "map_of cs y") (simp_all add: cluster_checked_def)
qed simp

lemma clusters_checked_pending:
  assumes "distinct (keys cs)"
  shows "length (ev_pending (event_log (fold (cluster_checked t) cs w))) =
     length (ev_pending (event_log w))
     + length (filter (\<lambda>(x, c). cluster_is_late t c \<noteq> (x \<in> set (clusters_complained w))) cs)"
  using assms
proof (induction cs arbitrary: w)
  case (Cons p cs)
  obtain x c where p: "p = (x, c)" by fastforce
  let ?w1 = "cluster_checked t (x, c) w"
  have "filter (\<lambda>(y, c). cluster_is_late t c \<noteq> (y \<in> set (clusters_complained ?w1))) cs
      = filter (\<lambda>(y, c). cluster_is_late t c \<noteq> (y \<in> set (clusters_complained w))) cs"
  proof (rule filter_cong [OF refl])
    fix q
    assume "q \<in> set cs"
    with Cons.prems p have "fst q \<noteq> x" by (auto simp: rev_image_eqI)
    then show "(case q of (y, c) \<Rightarrow> cluster_is_late t c \<noteq> (y \<in> set (clusters_complained ?w1)))
      = (case q of (y, c) \<Rightarrow> cluster_is_late t c \<noteq> (y \<in> set (clusters_complained w)))"
      by (cases q) (simp add: cluster_checked_def)
  qed
  with Cons p show ?case
    by (auto simp: cluster_checked_def cluster_news_def log_one_def)
qed simp

lemma cluster_checked_id:
  "cluster_is_late t c = (x \<in> set (clusters_complained w)) \<Longrightarrow> cluster_checked t (x, c) w = w"
  by (simp add: cluster_checked_def cluster_news_def log_one_def set_flag_same)

text \<open>Every entry of the table of servers has its object, with a last contact if it is managed.\<close>

definition contactable :: "server_monitor \<Rightarrow> bool" where
  "contactable m \<longleftrightarrow> distinct (keys (sm_servers m))
     \<and> (\<forall>(x, a) \<in> set (sm_servers m). \<exists>s. map_of (sm_heap m) a = Some s
          \<and> (ss_managed s \<longrightarrow> ss_last_contact s \<noteq> None))"

lemma eventer_tick_run:
  assumes "contactable (servers w)"
  shows "eventer_tick pillar t w =
    (Inr (), (let w2 = fold (cluster_checked t) (clusters w)
        (fold (server_checked pillar t (sm_heap (servers w))) (sm_servers (servers w)) w)
      in w2\<lparr>event_log := \<lparr>ev_pending = [], ev_saved = full_log (event_log w2)\<rparr>\<rparr>))"
proof -
  let ?h = "sm_heap (servers w)" and ?ps = "sm_servers (servers w)"
  have 1: "for_each (\<lambda>(x, a). check_server pillar t x a) ?ps w
      = (Inr (), fold (server_checked pillar t ?h) ?ps w)
      \<and> sm_heap (servers (fold (server_checked pillar t ?h) ?ps w)) = ?h"
  proof (rule for_each_fold)
    fix p and v :: manager
    assume p: "p \<in> set ?ps" and h: "sm_heap (servers v) = ?h"
    obtain x a where xa: "p = (x, a)" by fastforce
    with p assms obtain s where "map_of ?h a = Some s" "ss_managed s \<longrightarrow> ss_last_contact s \<noteq> None"
      by (fastforce simp: contactable_def)
    with xa h show "(case p of (x, a) \<Rightarrow> check_server pillar t x a) v = (Inr (), server_checked pillar t ?h p v)
        \<and> sm_heap (servers (server_checked pillar t ?h p v)) = ?h"
      by (simp add: check_server_run server_checked_frame)
  qed simp
  have 2: "for_each (\<lambda>(x, c). check_cluster t x c) (clusters w) v
      = (Inr (), fold (cluster_checked t) (clusters w) v) \<and> True" for v
    by (rule for_each_fold) (auto simp: check_cluster_run)
  show ?thesis
    by (simp add: eventer_tick_def bnd_def get_state_def 1 2 on_events_run [OF flush_ok] Let_def)
qed

section \<open>Properties\<close>

text \<open>After a tick Eventer is complaining about exactly the managed servers that have been
  silent for more than three contact periods and the clusters not updated for more than a
  minute. It has logged one event for each complaint that began or ended with this tick,
  and nothing else, so that a second tick at the same time changes nothing at all.\<close>

theorem tick_complains_once:
  assumes "contactable (servers w)" and "distinct (keys (clusters w))"
  shows "\<exists>w'. eventer_tick pillar t w = (Inr (), w') \<and> eventer_tick pillar t w' = (Inr (), w')
    \<and> (\<forall>x a s last_contact. map_of (sm_servers (servers w)) x = Some a \<longrightarrow>
         map_of (sm_heap (servers w)) a = Some s \<longrightarrow> ss_managed s \<longrightarrow> ss_last_contact s = Some last_contact \<longrightarrow>
         (x \<in> set (servers_complained w')
           \<longleftrightarrow> seconds (3 * period_of pillar (servers w) x) < t - last_contact))
    \<and> (\<forall>x c. map_of (clusters w) x = Some c \<longrightarrow>
         (x \<in> set (clusters_complained w') \<longleftrightarrow> seconds 60 < t - cl_update_time c))
    \<and> ev_pending (event_log w') = []
    \<and> length (ev_saved (event_log w')) = length (full_log (event_log w))
        + length (filter (\<lambda>x. (x \<in> set (servers_complained w)) \<noteq> (x \<in> set (servers_complained w')))
            (keys (sm_servers (servers w))))
        + length (filter (\<lambda>x. (x \<in> set (clusters_complained w)) \<noteq> (x \<in> set (clusters_complained w')))
            (keys (clusters w)))"
proof -
  let ?h = "sm_heap (servers w)" and ?ps = "sm_servers (servers w)"
  define w1 where "w1 = fold (server_checked pillar t ?h) ?ps w"
  define w2 where "w2 = fold (cluster_checked t) (clusters w) w1"
  define w' where "w' = w2\<lparr>event_log := \<lparr>ev_pending = [], ev_saved = full_log (event_log w2)\<rparr>\<rparr>"
  have d: "distinct (keys ?ps)" using assms(1) by (simp add: contactable_def)
  have run: "eventer_tick pillar t w = (Inr (), w')"
    by (simp add: eventer_tick_run [OF assms(1)] w1_def w2_def w'_def Let_def)
  have sw: "servers w' = servers w1"
    by (simp add: w'_def w2_def clusters_checked_frame)
  have sv: "sm_heap (servers w') = ?h" "sm_servers (servers w') = ?ps"
      "clusters w' = clusters w" "servers_complained w' = servers_complained w1"
    by (simp_all add: w'_def w2_def w1_def clusters_checked_frame servers_checked_frame)
  have flag: "x \<in> set (servers_complained w') \<longleftrightarrow> server_flag pillar t ?h w (x, a)"
    if "map_of ?ps x = Some a" for x a
    using servers_checked_flags [OF d, of x pillar t ?h w] that by (simp add: sv w1_def)
  have cflag: "x \<in> set (clusters_complained w') \<longleftrightarrow> cluster_is_late t c"
    if "map_of (clusters w) x = Some c" for x c
    using clusters_checked_flags [OF assms(2), of x t w1] that by (simp add: w'_def w2_def)
  have len: "length (ev_saved (event_log w')) = length (full_log (event_log w))
      + length (filter (\<lambda>(x, a). server_flag pillar t ?h w (x, a) \<noteq> (x \<in> set (servers_complained w))) ?ps)
      + length (filter (\<lambda>(x, c). cluster_is_late t c \<noteq> (x \<in> set (clusters_complained w))) (clusters w))"
    using servers_checked_pending [OF d, of pillar t ?h w] clusters_checked_pending [OF assms(2), of t w1]
    by (simp add: w'_def w2_def full_log_def clusters_checked_frame)
      (simp add: w1_def servers_checked_frame)
  have f1: "filter (\<lambda>(x, a). server_flag pillar t ?h w (x, a) \<noteq> (x \<in> set (servers_complained w))) ?ps
      = filter (\<lambda>p. (fst p \<in> set (servers_complained w)) \<noteq> (fst p \<in> set (servers_complained w'))) ?ps"
    using d flag by (intro filter_cong) (auto simp: map_of_eq_Some_iff)
  have f2: "filter (\<lambda>(x, c). cluster_is_late t c \<noteq> (x \<in> set (clusters_complained w))) (clusters w)
      = filter (\<lambda>p. (fst p \<in> set (clusters_complained w)) \<noteq> (fst p \<in> set (clusters_complained w'))) (clusters w)"
    using assms(2) cflag by (intro filter_cong) (auto simp: map_of_eq_Some_iff)
  have late: "server_is_late pillar t (servers w') g s = server_is_late pillar t (servers w) g s" for g s
    by (simp add: sw w1_def servers_checked_frame)
  have idem: "eventer_tick pillar t w' = (Inr (), w')"
  proof -
    have c': "contactable (servers w')" using assms(1) by (simp add: contactable_def sv)
    have s1: "server_checked pillar t ?h (x, a) w' = w'" if "(x, a) \<in> set ?ps" for x a
    proof (rule server_checked_id)
      from that d have "map_of ?ps x = Some a" by simp
      from flag [OF this] show "server_flag pillar t ?h w' (x, a) = (x \<in> set (servers_complained w'))"
        by (auto simp: server_flag_def late split: option.splits)
      show "has_key (sm_contact_period_cache (servers w')) x" if "map_of ?h a = Some s" "ss_managed s" for s
        using servers_checked_cached [OF \<open>(x, a) \<in> set ?ps\<close> that, of pillar t w] by (simp add: sw w1_def)
    qed
    have "fold (server_checked pillar t ?h) qs w' = w'" if "set qs \<subseteq> set ?ps" for qs
      using that by (induction qs) (auto simp: s1)
    moreover have "fold (cluster_checked t) cs w' = w'" if "set cs \<subseteq> set (clusters w)" for cs
      using that assms(2) cflag by (induction cs) (auto simp: cluster_checked_id)
    ultimately show ?thesis
      by (simp add: eventer_tick_run [OF c'] sv) (simp add: w'_def full_log_def)
  qed
  have "length (ev_saved (event_log w')) = length (full_log (event_log w))
        + length (filter (\<lambda>x. (x \<in> set (servers_complained w)) \<noteq> (x \<in> set (servers_complained w'))) (keys ?ps))
        + length (filter (\<lambda>x. (x \<in> set (clusters_complained w)) \<noteq> (x \<in> set (clusters_complained w')))
            (keys (clusters w)))"
    using len unfolding f1 f2 by (simp add: filter_map comp_def)
  moreover have "x \<in> set (servers_complained w') \<longleftrightarrow> seconds (3 * period_of pillar (servers w) x) < t - last_contact"
    if "map_of ?ps x = Some a" "map_of ?h a = Some s" "ss_managed s" "ss_last_contact s = Some last_contact"
    for x a s last_contact
    using flag [OF that(1)] that
    by (simp add: server_flag_def server_is_late_def overdue_def CONTACT_THRESHOLD_FACTOR_def)
  moreover have "x \<in> set (clusters_complained w') \<longleftrightarrow> seconds 60 < t - cl_update_time c"
    if "map_of (clusters w) x = Some c" for x c
    using cflag [OF that] by (simp add: cluster_is_late_def CLUSTER_CONTACT_THRESHOLD_def)
  moreover have "ev_pending (event_log w') = []" by (simp add: w'_def)
  ultimately show ?thesis using run idem by blast
qed

definition late_manager :: manager where
  "late_manager = \<lparr>jobs = [], event_log = \<lparr>ev_pending = [], ev_saved = []\<rparr>,
     clusters = [(''f'', demo_cluster)], by_request_id = [], by_jid = [],
     servers = one_server\<lparr>sm_heap := [(0, \<lparr>ss_fqdn = ''n1'', ss_hostname = ''n1'', ss_managed = True,
       ss_services = [], ss_last_contact = Some 0, ss_boot_time = None, ss_ceph_version = None\<rparr>)]\<rparr>,
     servers_complained = [], clusters_complained = []\<rparr>"

theorem tick_complains_once_witness:
  "\<exists>w'. eventer_tick (\<lambda>_. None) (seconds 181) late_manager = (Inr (), w')
     \<and> ''n1'' \<in> set (servers_complained w') \<and> ''f'' \<in> set (clusters_complained w')"
proof -
  have c: "contactable (servers late_manager)" and d: "distinct (keys (clusters late_manager))"
    by (simp_all add: contactable_def late_manager_def one_server_def init_server_monitor_def)
  obtain w' where w': "eventer_tick (\<lambda>_. None) (seconds 181) late_manager = (Inr (), w')"
    and s: "\<forall>x a s last_contact. map_of (sm_servers (servers late_manager)) x = Some a \<longrightarrow>
         map_of (sm_heap (servers late_manager)) a = Some s \<longrightarrow> ss_managed s \<longrightarrow>
         ss_last_contact s = Some last_contact \<longrightarrow> (x \<in> set (servers_complained w')
           \<longleftrightarrow> seconds (3 * period_of (\<lambda>_. None) (servers late_manager) x) < seconds 181 - last_contact)"
    and k: "\<forall>x c. map_of (clusters late_manager) x = Some c \<longrightarrow>
         (x \<in> set (clusters_complained w') \<longleftrightarrow> seconds 60 < seconds 181 - cl_update_time c)"
    using tick_complains_once [OF c d, of "\<lambda>_. None" "seconds 181"] by blast
  from s [rule_format, of "''n1''" 0] k [rule_format, of "''f''"]
  have "''n1'' \<in> set (servers_complained w') \<and> ''f'' \<in> set (clusters_complained w')"
    by (simp add: late_manager_def one_server_def init_server_monitor_def demo_cluster_def
        seconds_def period_of_def pillar_contact_period_def get_default_def)
  with w' show ?thesis by blast
qed

section \<open>The events of a cluster map\<close>

definition add_events :: "event list \<Rightarrow> manager \<Rightarrow> manager" where
  "add_events es w = w\<lparr>event_log := (event_log w)\<lparr>ev_pending := ev_pending (event_log w) @ es\<rparr>\<rparr>"

lemma add_events_simps [simp]:
  "servers (add_events es w) = servers w" "clusters (add_events es w) = clusters w"
  "add_events [] w = w" "add_events es (add_events fs w) = add_events (fs @ es) w"
  by (simp_all add: add_events_def)

lemma for_each_events:
  assumes "\<And>x v. x \<in> set xs \<Longrightarrow> servers v = servers w \<Longrightarrow> clusters v = clusters w \<Longrightarrow>
     f x v = (Inr (), add_events (g x) v)"
  shows "for_each f xs w = (Inr (), add_events (concat (map g xs)) w)"
  using assms
proof (induction xs arbitrary: w)
  case (Cons x xs)
  then have "for_each f xs (add_events (g x) w) = (Inr (), add_events (concat (map g xs)) (add_events (g x) w))"
    by (metis add_events_simps(1,2) list.set_intros(2))
  with Cons.prems [of x w] show ?case by (simp add: bnd_def)
qed (simp add: ret_def)

definition an_osd_event ::
  "time \<Rightarrow> string \<Rightarrow> manager \<Rightarrow> string \<Rightarrow> severity \<Rightarrow> (string \<Rightarrow> string \<Rightarrow> string \<Rightarrow> string) \<Rightarrow> int \<Rightarrow> event" where
  "an_osd_event t fsid w name sev msg i =
     \<lparr>ev_when = t, ev_severity = sev,
      ev_message = msg name (str_int i) (get_on_server w fsid ''osd'' (str_int i)),
      ev_assoc = \<lparr>as_fsid = Some fsid, as_fqdn = get_fqdn w fsid ''osd'' (str_int i),
        as_service_type = Some ''osd'', as_service_id = Some (str_int i)\<rparr>\<rparr>"

lemma get_fqdn_cong: "servers v = servers w \<Longrightarrow> get_fqdn v = get_fqdn w"
  "servers v = servers w \<Longrightarrow> get_on_server v = get_on_server w"
  by (auto simp: get_fqdn_def get_on_server_def fun_eq_iff)

lemma osd_event_run:
  assumes "map_of (clusters w) fsid = Some c" and "servers v = servers w" and "clusters v = clusters w"
  shows "osd_event t fsid sev msg i v = (Inr (), add_events [an_osd_event t fsid w (cl_name c) sev msg i] v)"
  using assms
  by (simp add: osd_event_def the_cluster_def bnd_def get_state_def lift_exn_def mg_emit_run
      add_events_def an_osd_event_def get_fqdn_cong [OF assms(2)])

lemma has_osd_iff: "i \<in> set (osd_ids d) \<longleftrightarrow> (\<exists>x. map_of (osds_by_id (Some d)) i = Some x)"
proof -
  have "has_key (osds_by_id (Some d)) i \<longleftrightarrow> i \<in> osd ` set (om_osds d)"
    by (simp add: osds_by_id_def has_key_iff image_image)
  then show ?thesis by (auto simp: osd_ids_def has_key_def)
qed

text \<open>What should be said of an OSD, given its entry in the old and in the new map.\<close>

fun osd_verdict :: "osd_entry option \<Rightarrow> osd_entry option \<Rightarrow> severity list" where
  "osd_verdict None None = []"
| "osd_verdict (Some a) None = [INFO]"
| "osd_verdict None (Some b) = [INFO]"
| "osd_verdict (Some a) (Some b) =
     (if osd_up a = osd_up b then [] else if osd_up b \<noteq> 0 then [RECOVERY] else [WARNING])"

lemma osd_changed_run:
  assumes "map_of (clusters w) fsid = Some c" and "servers v = servers w" and "clusters v = clusters w"
    and "map_of (osds_by_id (Some old)) i = Some a" and "map_of (osds_by_id (Some new)) i = Some b"
  shows "osd_changed t fsid new old i v = (Inr (), add_events
     (map (\<lambda>sev. an_osd_event t fsid w (cl_name c) sev
        (if sev = RECOVERY then osd_came_up else osd_went_down) i) (osd_verdict (Some a) (Some b))) v)"
  using assms
  by (simp add: osd_changed_def bnd_def lift_exn_def guarded_def ret_def osd_event_run)

lemma about_osd:
  assumes "distinct xs" and "\<And>x e. e \<in> set (g x) \<Longrightarrow> as_service_id (ev_assoc e) = Some (str_int x)"
  shows "filter (\<lambda>e. as_service_id (ev_assoc e) = Some (str_int i)) (concat (map g xs))
     = (if i \<in> set xs then g i else [])"
proof -
  have one: "filter (\<lambda>e. as_service_id (ev_assoc e) = Some (str_int i)) (g x) = (if x = i then g i else [])" for x
    using assms(2) [of _ x] by (auto intro!: filter_True filter_False)
  from assms(1) show ?thesis by (induction xs) (auto simp: one)
qed

text \<open>C31. When a new OSD map arrives, exactly one event is logged for each OSD that appeared,
  disappeared, came up or went down between the two maps, with the severity that goes with
  it, and none for any other; nothing else changes.\<close>

theorem osd_map_events:
  assumes "map_of (clusters w) fsid = Some c"
  shows "\<exists>es. events_of_osd_map t fsid new old w = (Inr (), add_events es w)
    \<and> (\<forall>i. map ev_severity (filter (\<lambda>e. as_service_id (ev_assoc e) = Some (str_int i)) es)
         = osd_verdict (map_of (osds_by_id (Some old)) i) (map_of (osds_by_id (Some new)) i))
    \<and> (\<forall>e \<in> set es. as_fsid (ev_assoc e) = Some fsid \<and> as_service_type (ev_assoc e) = Some ''osd'')"
proof -
  let ?ev = "an_osd_event t fsid w (cl_name c)"
  let ?gone = "filter (\<lambda>i. i \<notin> set (osd_ids new)) (osd_ids old)"
  let ?come = "filter (\<lambda>i. i \<notin> set (osd_ids old)) (osd_ids new)"
  let ?both = "filter (\<lambda>i. i \<in> set (osd_ids new)) (osd_ids old)"
  let ?moved = "\<lambda>i. map (\<lambda>sev. ?ev sev (if sev = RECOVERY then osd_came_up else osd_went_down) i)
      (osd_verdict (map_of (osds_by_id (Some old)) i) (map_of (osds_by_id (Some new)) i))"
  let ?es = "concat (map (\<lambda>i. [?ev INFO osd_removed i]) ?gone) @ concat (map (\<lambda>i. [?ev INFO osd_added i]) ?come)
      @ concat (map ?moved ?both)"
  have 1: "for_each (osd_event t fsid INFO msg) xs v
      = (Inr (), add_events (concat (map (\<lambda>i. [?ev INFO msg i]) xs)) v)"
    if "servers v = servers w" "clusters v = clusters w" for v msg xs
    using that by (intro for_each_events osd_event_run [OF assms]) simp_all
  have 2: "for_each (osd_changed t fsid new old) ?both v = (Inr (), add_events (concat (map ?moved ?both)) v)"
    if "servers v = servers w" "clusters v = clusters w" for v
    using that by (intro for_each_events)
      (auto simp: has_osd_iff osd_changed_run [OF assms] simp del: osd_verdict.simps(4))
  have run: "events_of_osd_map t fsid new old w = (Inr (), add_events ?es w)"
    by (simp add: events_of_osd_map_def bnd_def 1 2)
  have d: "distinct (osd_ids x)" for x by (simp add: osd_ids_def)
  have "map ev_severity (filter (\<lambda>e. as_service_id (ev_assoc e) = Some (str_int i)) ?es)
      = osd_verdict (map_of (osds_by_id (Some old)) i) (map_of (osds_by_id (Some new)) i)" for i
  proof -
    have "filter (\<lambda>e. as_service_id (ev_assoc e) = Some (str_int i)) ?es =
        (if i \<in> set ?gone then [?ev INFO osd_removed i] else [])
        @ (if i \<in> set ?come then [?ev INFO osd_added i] else [])
        @ (if i \<in> set ?both then ?moved i else [])"
      unfolding filter_append
      by (intro arg_cong2 [where f = "(@)"] about_osd)
        (auto simp: d an_osd_event_def split: if_splits)
    then show ?thesis
      by (cases "map_of (osds_by_id (Some old)) i"; cases "map_of (osds_by_id (Some new)) i")
        (auto simp: has_osd_iff an_osd_event_def comp_def)
  qed
  moreover have "\<forall>e \<in> set ?es. as_fsid (ev_assoc e) = Some fsid \<and> as_service_type (ev_assoc e) = Some ''osd''"
    by (auto simp: an_osd_event_def)
  ultimately show ?thesis using run by blast
qed

theorem osd_map_events_witness:
  "\<exists>es. events_of_osd_map 5 ''f'' (one_rule_map\<lparr>om_osds := []\<rparr>) one_rule_map late_manager
     = (Inr (), add_events es late_manager)
    \<and> map ev_severity (filter (\<lambda>e. as_service_id (ev_assoc e) = Some (str_int 0)) es) = [INFO]"
  using osd_map_events [of late_manager "''f''" demo_cluster 5 "one_rule_map\<lparr>om_osds := []\<rparr>" one_rule_map]
  by (force simp: late_manager_def one_rule_map_def osds_by_id_def)

end
