(* ===== verification/Factories.thy ===== *)
theory Factories
  imports UserRequests
begin

text \<open>
  The request factories (cthulhu/manager/*_request_factory.py): from a REST operation on
  an OSD, a pool, the OSD map's flags or the CRUSH map to the user request with the Ceph
  commands that carry it out. \<open>None\<close> says that there is nothing to do.

  Attributes are dictionaries of JSON values. Numbers are exact: a fractional weight is
  the decimal number the client wrote.
\<close>

section \<open>Values and how they print\<close>

fun truthy :: "jval \<Rightarrow> bool" where
  "truthy JNull = False"
| "truthy (JBool b) = b"
| "truthy (JInt i) = (i \<noteq> 0)"
| "truthy (JNum q) = (q \<noteq> 0)"
| "truthy (JStr s) = (s \<noteq> [])"
| "truthy (JList xs) = (xs \<noteq> [])"
| "truthy (JText m) = True"

text \<open>The number a value is in a comparison or in arithmetic; \<open>True\<close> is 1.\<close>

fun number_of :: "jval \<Rightarrow> rat option" where
  "number_of (JBool b) = Some (if b then 1 else 0)"
| "number_of (JInt i) = Some (of_int i)"
| "number_of (JNum q) = Some q"
| "number_of _ = None"

fun int_of :: "jval \<Rightarrow> exn + int" where
  "int_of (JInt i) = Inr i"
| "int_of (JBool b) = Inr (if b then 1 else 0)"
| "int_of _ = Inl TypeError"

fun decimals :: "nat \<Rightarrow> rat \<Rightarrow> string" where
  "decimals 0 q = []"
| "decimals (Suc k) q =
     (if q = 0 then [] else digit (nat \<lfloor>10 * q\<rfloor>) # decimals k (10 * q - of_int \<lfloor>10 * q\<rfloor>))"

definition str_num :: "rat \<Rightarrow> string" where
  "str_num q = (let a = \<bar>q\<bar>; f = decimals 16 (a - of_int \<lfloor>a\<rfloor>)
     in (if q < 0 then ''-'' else []) @ str_int \<lfloor>a\<rfloor> @ ''.'' @ (if f = [] then ''0'' else f))"

text \<open>\<open>"{0:.1f}".format(q)\<close>: one decimal, rounded half to even.\<close>

definition round_even :: "rat \<Rightarrow> int" where
  "round_even q = (let f = \<lfloor>q\<rfloor>; d = q - of_int f
     in if d < 1 / 2 then f else if d > 1 / 2 then f + 1 else if even f then f else f + 1)"

definition str_num1 :: "rat \<Rightarrow> string" where
  "str_num1 q = (let n = round_even (10 * \<bar>q\<bar>)
     in (if q < 0 then ''-'' else []) @ str_int (n div 10) @ ''.'' @ str_int (n mod 10))"

fun str_jval :: "jval \<Rightarrow> string" and repr_jval :: "jval \<Rightarrow> string" where
  "str_jval (JStr s) = s"
| "str_jval JNull = ''None''"
| "str_jval (JBool b) = (if b then ''True'' else ''False'')"
| "str_jval (JInt i) = str_int i"
| "str_jval (JNum q) = str_num q"
| "str_jval (JList xs) = ''['' @ join '', '' (map repr_jval xs) @ '']''"
| "str_jval (JText m) = ''json''"
| "repr_jval (JStr s) = quote @ s @ quote"
| "repr_jval JNull = ''None''"
| "repr_jval (JBool b) = (if b then ''True'' else ''False'')"
| "repr_jval (JInt i) = str_int i"
| "repr_jval (JNum q) = str_num q"
| "repr_jval (JList xs) = ''['' @ join '', '' (map repr_jval xs) @ '']''"
| "repr_jval (JText m) = ''json''"

definition attrs_str :: "(string, jval) dict \<Rightarrow> string" where
  "attrs_str a = join '', '' (map (\<lambda>(k, v). k @ ''='' @ str_jval v) a)"

definition attrs_repr :: "(string, jval) dict \<Rightarrow> string" where
  "attrs_repr a = ''{'' @ join '', '' (map (\<lambda>(k, v). quote @ k @ quote @ '': '' @ repr_jval v) a) @ ''}''"

section \<open>The cluster a factory works on\<close>

text \<open>
  What a factory reads of its ClusterMonitor: the cluster's names, its OSD map and its
  configuration, and the id and creation time the new request gets.
\<close>

record factory_ctx =
  fc_fsid :: string
  fc_name :: string
  fc_osd_map :: sync_object
  fc_config :: "(string, string) dict option"
  fc_request_id :: string
  fc_now :: time

type_synonym attributes = "(string, jval) dict"

definition the_osd_map :: "factory_ctx \<Rightarrow> osd_map_data option" where
  "the_osd_map c = osd_map_of (fc_osd_map c)"

definition osd_map_request :: "factory_ctx \<Rightarrow> string \<Rightarrow> command list \<Rightarrow> request" where
  "osd_map_request c msg cmds =
     new_request (fc_request_id c) (fc_now c) OsdMapModifyingRequest msg (Some (fc_fsid c))
       (Some (fc_name c)) cmds"

definition rados_request :: "factory_ctx \<Rightarrow> string \<Rightarrow> command list \<Rightarrow> request" where
  "rados_request c msg cmds =
     new_request (fc_request_id c) (fc_now c) RadosRequest msg (Some (fc_fsid c))
       (Some (fc_name c)) cmds"

definition then_do :: "exn + 'a \<Rightarrow> ('a \<Rightarrow> exn + 'b) \<Rightarrow> exn + 'b" where
  [py_simps]: "then_do r f = (case r of Inl e \<Rightarrow> Inl e | Inr a \<Rightarrow> f a)"

lemma then_do_Inr [simp]: "then_do (Inr a) f = f a"
  by (simp add: then_do_def)

lemma then_do_Inl [simp]: "then_do (Inl e) f = Inl e"
  by (simp add: then_do_def)

lemma then_do_eq_Inr: "then_do r f = Inr b \<longleftrightarrow> (\<exists>a. r = Inr a \<and> f a = Inr b)"
  by (cases r) auto

section \<open>OSDs\<close>

text \<open>\<open>bool(attributes[k]) != bool(osd[...])\<close>, where the attribute is present.\<close>

definition osd_in_commands :: "factory_ctx \<Rightarrow> int \<Rightarrow> attributes \<Rightarrow> exn + command list" where
  "osd_in_commands c osd_id a = (case map_of a ''in'' of
       None \<Rightarrow> Inr []
     | Some v \<Rightarrow>
         then_do (item (osds_by_id (the_osd_map c)) osd_id (str_int osd_id)) (\<lambda>o'.
         if truthy v \<noteq> (osd_in o' \<noteq> 0) then
           then_do (item a ''id'' ''id'') (\<lambda>i.
           Inr [(if truthy v then ''osd in'' else ''osd out'', [(''ids'', JList [JStr (str_jval i)])])])
         else Inr []))"

definition osd_up_commands :: "factory_ctx \<Rightarrow> int \<Rightarrow> attributes \<Rightarrow> exn + command list" where
  "osd_up_commands c osd_id a = (case map_of a ''up'' of
       None \<Rightarrow> Inr []
     | Some v \<Rightarrow>
         then_do (item (osds_by_id (the_osd_map c)) osd_id (str_int osd_id)) (\<lambda>o'.
         if truthy v \<noteq> (osd_up o' \<noteq> 0) then
           (if \<not> truthy v then
              then_do (item a ''id'' ''id'') (\<lambda>i.
              Inr [(''osd down'', [(''ids'', JList [JStr (str_jval i)])])])
            else Inl (RuntimeError ''It is not valid to set a down OSD to be up''))
         else Inr []))"

definition osd_reweight_commands :: "factory_ctx \<Rightarrow> int \<Rightarrow> attributes \<Rightarrow> exn + command list" where
  "osd_reweight_commands c osd_id a = (case map_of a ''reweight'' of
       None \<Rightarrow> Inr []
     | Some v \<Rightarrow>
         then_do (item (osd_tree_node_by_id (the_osd_map c)) osd_id (str_int osd_id)) (\<lambda>n.
         case node_reweight n of
           None \<Rightarrow> Inl (KeyError ''reweight'')
         | Some w \<Rightarrow>
             (if number_of v \<noteq> Some w
              then Inr [(''osd reweight'', [(''id'', JInt osd_id), (''weight'', v)])]
              else Inr [])))"

definition osd_update_message :: "factory_ctx \<Rightarrow> int \<Rightarrow> attributes \<Rightarrow> exn + string" where
  "osd_update_message c osd_id m =
     (let osd_name = fc_name c @ ''-osd.'' @ str_int osd_id
      in if keys m = [''in''] then
           Inr (''Marking '' @ osd_name @ '' '' @ (if truthy (the (map_of m ''in'')) then ''in'' else ''out''))
         else if keys m = [''up''] then Inr (''Marking '' @ osd_name @ '' down'')
         else if keys m = [''reweight''] then
           (case number_of (the (map_of m ''reweight'')) of
              None \<Rightarrow> Inl TypeError
            | Some q \<Rightarrow> Inr (''Re-weighting '' @ osd_name @ '' to '' @ str_num1 (q * 100) @ ''%''))
         else Inr (''Modifying '' @ osd_name @ '' ('' @ attrs_str m @ '')''))"

definition osd_update :: "factory_ctx \<Rightarrow> int \<Rightarrow> attributes \<Rightarrow> exn + request option" where
  "osd_update c osd_id a =
     then_do (osd_in_commands c osd_id a) (\<lambda>cmds1.
     then_do (osd_up_commands c osd_id a) (\<lambda>cmds2.
     then_do (osd_reweight_commands c osd_id a) (\<lambda>cmds3.
     let commands = cmds1 @ cmds2 @ cmds3
     in if commands = [] then Inr None
        else then_do (item a ''id'' ''id'') (\<lambda>_.
             then_do (osd_update_message c osd_id (AList.delete ''id'' a)) (\<lambda>msg.
             Inr (Some (osd_map_request c msg commands)))))))"

definition osd_scrub :: "factory_ctx \<Rightarrow> int \<Rightarrow> request" where
  "osd_scrub c i = rados_request c (''Initiating scrub on '' @ fc_name c @ ''-osd.'' @ str_int i)
     [(''osd scrub'', [(''who'', JStr (str_int i))])]"

definition osd_deep_scrub :: "factory_ctx \<Rightarrow> int \<Rightarrow> request" where
  "osd_deep_scrub c i =
     rados_request c (''Initiating deep-scrub on '' @ fc_name c @ ''-osd.'' @ str_int i)
       [(''osd deep-scrub'', [(''who'', JStr (str_int i))])]"

definition osd_repair :: "factory_ctx \<Rightarrow> int \<Rightarrow> request" where
  "osd_repair c i = rados_request c (''Initiating repair on '' @ fc_name c @ ''-osd.'' @ str_int i)
     [(''osd repair'', [(''who'', JStr (str_int i))])]"

fun osd_valid_commands :: "factory_ctx \<Rightarrow> int list \<Rightarrow> exn + (int, string list) dict" where
  "osd_valid_commands c [] = Inr []"
| "osd_valid_commands c (i # is) =
     then_do (item (osds_by_id (the_osd_map c)) i (str_int i)) (\<lambda>o'.
     then_do (osd_valid_commands c is) (\<lambda>rest.
     Inr (if has_key rest i then rest
          else (i, if osd_up o' \<noteq> 0 then OSD_IMPLEMENTED_COMMANDS else []) # rest)))"

definition commands_to_set_flags :: "(string, bool) dict \<Rightarrow> attributes \<Rightarrow> exn + command list" where
  "commands_to_set_flags flags a =
     (let bad = filter (\<lambda>k. k \<notin> set OSD_FLAGS) (keys a);
          to_set = keys (filter (\<lambda>(k, v). truthy v) a);
          to_unset = keys (filter (\<lambda>(k, v). \<not> truthy v) a);
          are_set = keys (filter (\<lambda>(k, v). v) flags)
      in if bad \<noteq> [] then
           Inl (RuntimeError (str_jval (JList (map JStr bad)) @ '' not valid to set/unset''))
         else Inr (map (\<lambda>x. (''osd set'', [(''key'', JStr x)])) (filter (\<lambda>x. x \<notin> set are_set) to_set)
           @ map (\<lambda>x. (''osd unset'', [(''key'', JStr x)])) (filter (\<lambda>x. x \<in> set to_unset) are_set)))"

definition osd_update_config :: "factory_ctx \<Rightarrow> attributes \<Rightarrow> exn + request option" where
  "osd_update_config c a =
     then_do (commands_to_set_flags (osd_map_flags (the_osd_map c)) a) (\<lambda>commands.
     if commands \<noteq> [] then
       Inr (Some (osd_map_request c
         (''Modifying OSD config '' @ fc_name c @ '' ('' @ attrs_str a @ '')'') commands))
     else Inr None)"

section \<open>Pools\<close>

definition POOL_PROPERTIES :: "string list" where
  "POOL_PROPERTIES = [''size'', ''min_size'', ''crash_replay_interval'', ''pg_num'', ''pgp_num'',
     ''crush_ruleset'', ''hashpspool'']"

definition LEGACY_MON_OSD_MAX_SPLIT_COUNT :: string where
  "LEGACY_MON_OSD_MAX_SPLIT_COUNT = ''32''"

text \<open>\<open>int(s, 0)\<close>: the prefix of the literal gives its base, as in Python 2.\<close>

definition base_digit :: "nat \<Rightarrow> char \<Rightarrow> nat option" where
  "base_digit b c = (case map_of (zip ''0123456789abcdefABCDEF''
       ([0..<16] @ [10..<16])) c of
     None \<Rightarrow> None | Some d \<Rightarrow> if d < b then Some d else None)"

fun read_base :: "nat \<Rightarrow> nat \<Rightarrow> string \<Rightarrow> nat option" where
  "read_base b acc [] = Some acc"
| "read_base b acc (c # cs) =
     (case base_digit b c of None \<Rightarrow> None | Some d \<Rightarrow> read_base b (b * acc + d) cs)"

definition read_literal :: "string \<Rightarrow> nat option" where
  "read_literal s = (case s of
       [] \<Rightarrow> None
     | c # cs \<Rightarrow>
         (if c \<noteq> CHR ''0'' then read_base 10 0 s
          else case cs of
              [] \<Rightarrow> Some 0
            | p # ds \<Rightarrow>
                (if p \<in> set ''xX'' then (if ds = [] then None else read_base 16 0 ds)
                 else if p \<in> set ''bB'' then (if ds = [] then None else read_base 2 0 ds)
                 else if p \<in> set ''oO'' then (if ds = [] then None else read_base 8 0 ds)
                 else read_base 8 0 cs)))"

definition int_base0 :: "string option \<Rightarrow> exn + int" where
  "int_base0 o' = (case o' of
       None \<Rightarrow> Inl TypeError
     | Some s \<Rightarrow>
         (case (if startswith s ''-'' then map_option (\<lambda>n. - int n) (read_literal (tl s))
                else map_option int (read_literal s)) of
            None \<Rightarrow> Inl (ValueError (''invalid literal for int() with base 0: '' @ quote @ s @ quote))
          | Some i \<Rightarrow> Inr i))"

definition resolve_pool :: "factory_ctx \<Rightarrow> int \<Rightarrow> exn + pool" where
  "resolve_pool c pid = item (pools_by_id (the_osd_map c)) pid (str_int pid)"

definition pool_set_commands :: "string \<Rightarrow> attributes \<Rightarrow> command list" where
  "pool_set_commands name a =
     concat (map (\<lambda>var. case map_of a var of
         None \<Rightarrow> []
       | Some val \<Rightarrow> [(''osd pool set'', [(''pool'', JStr name), (''var'', JStr var),
           (''val'', (case val of JBool b \<Rightarrow> JInt (if b then 1 else 0) | _ \<Rightarrow> val))])]) POOL_PROPERTIES)"

definition pool_quota_commands :: "string \<Rightarrow> attributes \<Rightarrow> command list" where
  "pool_quota_commands name a =
     concat (map (\<lambda>(attr_name, set_name). case map_of a attr_name of
         None \<Rightarrow> []
       | Some val \<Rightarrow> [(''osd pool set-quota'', [(''pool'', JStr name), (''field'', JStr set_name),
           (''val'', JStr (str_jval val))])])
       [(''quota_max_bytes'', ''max_bytes''), (''quota_max_objects'', ''max_objects'')])"

definition pool_rename_commands :: "string \<Rightarrow> attributes \<Rightarrow> command list" where
  "pool_rename_commands name a = (case map_of a ''name'' of
       None \<Rightarrow> []
     | Some val \<Rightarrow> [(''osd pool rename'', [(''srcpool'', JStr name), (''destpool'', val)])])"

definition pool_attribute_commands :: "string \<Rightarrow> attributes \<Rightarrow> command list" where
  "pool_attribute_commands name a =
     pool_set_commands name a @ pool_quota_commands name a @ pool_rename_commands name a"

definition pool_delete :: "factory_ctx \<Rightarrow> int \<Rightarrow> exn + request" where
  "pool_delete c pid =
     then_do (resolve_pool c pid) (\<lambda>p.
     Inr (osd_map_request c (''Deleting pool '' @ quote @ pool_name p @ quote)
       [(''osd pool delete'', [(''pool'', JStr (pool_name p)), (''pool2'', JStr (pool_name p)),
          (''sure'', JStr ''--yes-i-really-really-mean-it'')])]))"

text \<open>\<open>v or default\<close>, where the default is only computed when it is needed.\<close>

definition or_default :: "jval \<Rightarrow> exn + int \<Rightarrow> exn + int" where
  "or_default v d = (if truthy v then int_of v else d)"

definition pool_min_size_of :: "factory_ctx \<Rightarrow> jval \<Rightarrow> jval \<Rightarrow> exn + int" where
  "pool_min_size_of c req_size req_min_size = (case fc_config c of
       None \<Rightarrow> (if truthy req_size \<and> truthy req_min_size
         then then_do (int_of req_size) (\<lambda>s. then_do (int_of req_min_size) (\<lambda>m. Inr (min m s)))
         else Inl AttributeError)
     | Some conf \<Rightarrow>
         then_do (or_default req_size (int_base0 (map_of conf ''osd_pool_default_size''))) (\<lambda>sz.
         then_do (or_default req_min_size (int_base0 (map_of conf ''osd_pool_default_min_size''))) (\<lambda>ms.
         Inr (if ms \<noteq> 0 then min ms sz else sz - sz div 2))))"

definition clamp_min_size :: "factory_ctx \<Rightarrow> pool \<Rightarrow> attributes \<Rightarrow> exn + attributes" where
  "clamp_min_size c p a =
     (if has_key a ''size'' \<or> has_key a ''min_size'' then
        then_do (pool_min_size_of c (get_default a ''size'' (JInt (pool_size p)))
                   (get_default a ''min_size'' (JInt (pool_min_size p)))) (\<lambda>m.
        Inr (AList.update ''min_size'' (JInt m) a))
      else Inr a)"

definition max_split_count :: "factory_ctx \<Rightarrow> exn + int" where
  "max_split_count c = (case fc_config c of
       None \<Rightarrow> Inl AttributeError
     | Some conf \<Rightarrow>
         (let s = get_default conf ''mon_osd_max_split_count'' LEGACY_MON_OSD_MAX_SPLIT_COUNT
          in case read_int s of
               None \<Rightarrow> Inl (ValueError (''invalid literal for int() with base 10: '' @ quote @ s @ quote))
             | Some i \<Rightarrow> Inr i))"

definition grow_pool :: "factory_ctx \<Rightarrow> int \<Rightarrow> pool \<Rightarrow> attributes \<Rightarrow> jval \<Rightarrow> exn + request" where
  "grow_pool c pid p a pg =
     then_do (int_of pg) (\<lambda>final_pg_count.
     then_do (int_of (get_default a ''pgp_num'' pg)) (\<lambda>pgp_num.
     let a' = AList.delete ''pg_num'' (AList.delete ''pgp_num'' a);
         pre = pool_attribute_commands (pool_name p) a'
     in then_do (max_split_count c) (\<lambda>split.
        let n_osds = min (pg_num p) (int (length (osds_by_id (the_osd_map c))));
            block = split * n_osds
        in new_pg_creating (fc_request_id c) (fc_now c)
             (''Growing pool '' @ quote @ pool_name p @ quote @ '' to '' @ str_int final_pg_count @ '' PGs'')
             (Some (fc_fsid c)) (Some (fc_name c)) pre pid (pool_name p) pgp_num
             (pg_num p) final_pg_count block)))"

definition pool_update :: "factory_ctx \<Rightarrow> int \<Rightarrow> attributes \<Rightarrow> exn + request" where
  "pool_update c pid attrs =
     then_do (resolve_pool c pid) (\<lambda>p.
     then_do (clamp_min_size c p attrs) (\<lambda>a.
     case map_of a ''pg_num'' of
       Some pg \<Rightarrow> grow_pool c pid p a pg
     | None \<Rightarrow>
         (let commands = pool_attribute_commands (pool_name p) a
          in if commands = [] then Inl (NotImplementedError (attrs_repr a))
             else Inr (osd_map_request c (''Modifying pool '' @ quote @ pool_name p @ quote @ '' ('' @
                    attrs_str (AList.delete ''id'' a) @ '')'') commands))))"

definition pool_create :: "factory_ctx \<Rightarrow> attributes \<Rightarrow> exn + request" where
  "pool_create c a =
     then_do (item a ''name'' ''name'') (\<lambda>name.
     then_do (item a ''pg_num'' ''pg_num'') (\<lambda>pg.
     then_do (pool_min_size_of c (get_default a ''size'' (JInt 0)) (get_default a ''min_size'' (JInt 0))) (\<lambda>m.
     let post = AList.delete ''pgp_num'' (AList.delete ''pg_num'' (AList.delete ''name''
           (AList.update ''min_size'' (JInt m) a)));
         commands = (''osd pool create'', [(''pool'', name), (''pg_num'', pg)])
           # pool_attribute_commands (str_jval name) post
     in Inr (new_pool_creating (fc_request_id c) (fc_now c)
          (''Creating pool '' @ quote @ str_jval name @ quote) (Some (fc_fsid c)) (Some (fc_name c))
          (str_jval name) commands))))"

section \<open>The CRUSH map\<close>

definition crush_update :: "factory_ctx \<Rightarrow> string \<Rightarrow> request" where
  "crush_update c new_map =
     osd_map_request c (''Replacing CRUSH map in '' @ fc_name c)
       [(''osd setcrushmap'', [(''data'', JStr new_map)])]"

definition add_bucket :: "string \<Rightarrow> string \<Rightarrow> command" where
  "add_bucket name typ = (''osd crush add-bucket'', [(''name'', JStr name), (''type'', JStr typ)])"

definition remove_bucket :: "string \<Rightarrow> crush_bucket option \<Rightarrow> exn + command" where
  "remove_bucket name node =
     (if (case node of None \<Rightarrow> False | Some b \<Rightarrow> bucket_items b \<noteq> [])
      then Inl (BucketNotEmptyError ''Cannot delete a bucket that still contains items'')
      else Inr (''osd crush remove'', [(''name'', JStr name)]))"

definition reweight_osd :: "string \<Rightarrow> rat \<Rightarrow> command" where
  "reweight_osd name w = (''osd crush reweight'', [(''name'', JStr name), (''weight'', JNum w)])"

definition move_osd :: "string \<Rightarrow> int \<Rightarrow> string \<Rightarrow> string \<Rightarrow> command list" where
  "move_osd hostname osd_id parent_name parent_type =
     [(''osd crush add'', [(''args'', JList [JStr (parent_type @ ''='' @ parent_name)]),
         (''id'', JInt osd_id), (''weight'', JNum 0)]),
      (''config-key put'', [(''key'', JStr (''daemon-private/osd.'' @ str_int osd_id
            @ ''/v1/calamari/osd_crush_location'')),
         (''val'', JText [(''parent_type'', parent_type), (''parent_name'', parent_name),
            (''hostname'', hostname)])])]"

definition move_bucket :: "string \<Rightarrow> string \<Rightarrow> string \<Rightarrow> command" where
  "move_bucket name parent_name parent_type =
     (''osd crush move'', [(''name'', JStr name), (''args'', JList [JStr (parent_type @ ''='' @ parent_name)])])"

fun concat_exn :: "(exn + 'a list) list \<Rightarrow> exn + 'a list" where
  "concat_exn [] = Inr []"
| "concat_exn (r # rs) = then_do r (\<lambda>xs. then_do (concat_exn rs) (\<lambda>ys. Inr (xs @ ys)))"

definition osd_child :: "int \<Rightarrow> string" where
  "osd_child i = ''osd.'' @ str_int i"

definition remove_item :: "factory_ctx \<Rightarrow> crush_item \<Rightarrow> exn + command list" where
  "remove_item c x =
     (if item_id x < 0 then
        then_do (get_tree_node (the_osd_map c) (item_id x)) (\<lambda>b.
        then_do (remove_bucket (bucket_name b) (Some b)) (\<lambda>cmd. Inr [cmd]))
      else
        then_do (remove_bucket (osd_child (item_id x)) None) (\<lambda>cmd.
        Inr [reweight_osd (osd_child (item_id x)) 0, cmd]))"

text \<open>\<open>host_of\<close> is the ServerMonitor's answer to where an OSD runs.\<close>

definition add_item ::
  "factory_ctx \<Rightarrow> (int \<Rightarrow> exn + string) \<Rightarrow> string \<Rightarrow> string \<Rightarrow> crush_item \<Rightarrow> exn + command list" where
  "add_item c host_of name typ x =
     (if item_id x < 0 then
        then_do (get_tree_node (the_osd_map c) (item_id x)) (\<lambda>b.
        Inr [move_bucket (bucket_name b) name typ])
      else
        then_do (host_of (item_id x)) (\<lambda>hostname.
        then_do (remove_bucket (osd_child (item_id x)) None) (\<lambda>cmd.
        Inr ([reweight_osd (osd_child (item_id x)) 0, cmd] @ move_osd hostname (item_id x) name typ
             @ [reweight_osd (osd_child (item_id x)) (item_weight x)]))))"

definition remove_items :: "factory_ctx \<Rightarrow> crush_item list \<Rightarrow> exn + command list" where
  "remove_items c xs = concat_exn (map (remove_item c) xs)"

definition add_items ::
  "factory_ctx \<Rightarrow> (int \<Rightarrow> exn + string) \<Rightarrow> string \<Rightarrow> string \<Rightarrow> crush_item list \<Rightarrow> exn + command list" where
  "add_items c host_of name typ xs = concat_exn (map (add_item c host_of name typ) xs)"

record crush_node_attrs =
  cn_name :: "string option"
  cn_type :: "string option"
  cn_items :: "crush_item list option"

definition attr :: "'a option \<Rightarrow> string \<Rightarrow> exn + 'a" where
  "attr v k = (case v of None \<Rightarrow> Inl (KeyError k) | Some x \<Rightarrow> Inr x)"

text \<open>
  The parents map holds a list of parent nodes for each node; \<open>parent['name']\<close> indexes
  that list with a string, which raises.
\<close>

definition move_to_parent :: "string \<Rightarrow> tree_node list option \<Rightarrow> exn + command list" where
  "move_to_parent name parent = (case parent of None \<Rightarrow> Inr [] | Some _ \<Rightarrow> Inl TypeError)"

definition crush_node_update ::
  "factory_ctx \<Rightarrow> (int \<Rightarrow> exn + string) \<Rightarrow> int \<Rightarrow> crush_node_attrs \<Rightarrow> exn + request" where
  "crush_node_update c host_of nid a =
     then_do (get_tree_node (the_osd_map c) nid) (\<lambda>current.
     let parent = map_of (parent_bucket_by_node_id (the_osd_map c)) nid
     in then_do (attr (cn_name a) ''name'') (\<lambda>name.
        then_do (attr (cn_type a) ''bucket_type'') (\<lambda>typ.
        then_do (attr (cn_items a) ''items'') (\<lambda>items.
        let replaced = name \<noteq> bucket_name current \<or> typ \<noteq> bucket_type current;
            to_remove = filter (\<lambda>x. x \<notin> set items) (bucket_items current)
        in then_do (if replaced
                    then then_do (move_to_parent name parent) (\<lambda>mv. Inr (add_bucket name typ # mv))
                    else Inr []) (\<lambda>pre.
           then_do (remove_items c to_remove) (\<lambda>rem.
           then_do (add_items c host_of name typ items) (\<lambda>add.
           then_do (if replaced
                    then then_do (remove_bucket (bucket_name current) None) (\<lambda>cmd. Inr [cmd])
                    else Inr []) (\<lambda>post.
           Inr (osd_map_request c (''Updating CRUSH node in '' @ fc_name c)
             (pre @ rem @ add @ post))))))))))"

definition crush_node_create ::
  "factory_ctx \<Rightarrow> (int \<Rightarrow> exn + string) \<Rightarrow> crush_node_attrs \<Rightarrow> exn + request" where
  "crush_node_create c host_of a =
     then_do (attr (cn_name a) ''name'') (\<lambda>name.
     then_do (attr (cn_type a) ''bucket_type'') (\<lambda>typ.
     then_do (attr (cn_items a) ''items'') (\<lambda>items.
     then_do (add_items c host_of name typ items) (\<lambda>add.
     Inr (osd_map_request c (''Creating CRUSH node in '' @ fc_name c) (add_bucket name typ # add))))))"

definition crush_node_delete :: "factory_ctx \<Rightarrow> int \<Rightarrow> exn + request" where
  "crush_node_delete c nid =
     then_do (get_tree_node (the_osd_map c) nid) (\<lambda>current.
     then_do (remove_bucket (bucket_name current) (Some current)) (\<lambda>cmd.
     Inr (osd_map_request c (''Removing CRUSH node in '' @ fc_name c) [cmd])))"

section \<open>What the commands do to the cluster\<close>

text \<open>The documented effect of the two flag commands on the cluster's flags.\<close>

definition run_flag :: "command \<Rightarrow> (string \<Rightarrow> bool) \<Rightarrow> string \<Rightarrow> bool" where
  "run_flag cmd f = (case map_of (snd cmd) ''key'' of
       Some (JStr k) \<Rightarrow> (if fst cmd = ''osd set'' then f(k := True)
                         else if fst cmd = ''osd unset'' then f(k := False) else f)
     | _ \<Rightarrow> f)"

lemma run_set: "fold run_flag (map (\<lambda>x. (''osd set'', [(''key'', JStr x)])) xs) f k = (k \<in> set xs \<or> f k)"
  by (induction xs arbitrary: f) (auto simp: run_flag_def)

lemma run_unset:
  "fold run_flag (map (\<lambda>x. (''osd unset'', [(''key'', JStr x)])) xs) f k = (k \<notin> set xs \<and> f k)"
  by (induction xs arbitrary: f) (auto simp: run_flag_def)

lemma mem_keys_filter:
  "distinct (keys d) \<Longrightarrow> k \<in> set (keys (filter (\<lambda>(k, v). P v) d)) \<longleftrightarrow> (\<exists>v. map_of d k = Some v \<and> P v)"
  by (force simp: map_of_eq_Some_iff)

lemma flag_commands_effect:
  assumes "commands_to_set_flags flags a = Inr cmds" and "distinct (keys a)" and "distinct (keys flags)"
  shows "fold run_flag cmds (\<lambda>k. map_of flags k = Some True) k
    = (case map_of a k of Some v \<Rightarrow> truthy v | None \<Rightarrow> map_of flags k = Some True)"
proof -
  let ?set = "filter (\<lambda>x. x \<notin> set (keys (filter (\<lambda>(k, v). v) flags))) (keys (filter (\<lambda>(k, v). truthy v) a))"
  let ?unset = "filter (\<lambda>x. x \<in> set (keys (filter (\<lambda>(k, v). \<not> truthy v) a))) (keys (filter (\<lambda>(k, v). v) flags))"
  have cmds: "cmds = map (\<lambda>x. (''osd set'', [(''key'', JStr x)])) ?set
      @ map (\<lambda>x. (''osd unset'', [(''key'', JStr x)])) ?unset"
    using assms(1) by (simp add: commands_to_set_flags_def Let_def split: if_splits)
  have "fold run_flag cmds (\<lambda>k. map_of flags k = Some True) k
      = (k \<notin> set ?unset \<and> (k \<in> set ?set \<or> map_of flags k = Some True))"
    unfolding cmds fold_append comp_def run_unset run_set ..
  also have "\<dots> = (case map_of a k of Some v \<Rightarrow> truthy v | None \<Rightarrow> map_of flags k = Some True)"
    using mem_keys_filter [OF assms(2), of k truthy] mem_keys_filter [OF assms(2), of k "\<lambda>v. \<not> truthy v"]
      mem_keys_filter [OF assms(3), of k "\<lambda>v. v"]
    by (cases "map_of a k") (auto simp del: set_map)
  finally show ?thesis .
qed

lemma flag_commands_none:
  assumes "commands_to_set_flags flags a = Inr []" and "distinct (keys a)" and "distinct (keys flags)"
    and "map_of a k = Some v"
  shows "truthy v \<longleftrightarrow> map_of flags k = Some True"
  using flag_commands_effect [OF assms(1-3), of k] assms(4) by simp

section \<open>Properties\<close>


definition empty_ctx :: factory_ctx where
  "empty_ctx = \<lparr>fc_fsid = ''f'', fc_name = ''ceph'', fc_osd_map = \<lparr>so_version = VNone, so_data = None\<rparr>,
     fc_config = Some [(''osd_pool_default_size'', ''3''), (''osd_pool_default_min_size'', ''0'')],
     fc_request_id = ''u'', fc_now = 0\<rparr>"




text \<open>
  In the commands for a pool's attributes every command names the pool as it is called
  before the request; a rename is there exactly if a new name was asked for, and it is
  the last command, so none of the others misses the pool.
\<close>

theorem pool_rename_comes_last:
  "\<exists>front. pool_attribute_commands name a = front @ pool_rename_commands name a
     \<and> (\<forall>cmd \<in> set front. fst cmd \<noteq> ''osd pool rename'' \<and> map_of (snd cmd) ''pool'' = Some (JStr name))
     \<and> (map_of a ''name'' = Some new \<longrightarrow>
          last (pool_attribute_commands name a) = (''osd pool rename'', [(''srcpool'', JStr name), (''destpool'', new)]))"
  by (rule exI [of _ "pool_set_commands name a @ pool_quota_commands name a"])
    (auto simp: pool_attribute_commands_def pool_set_commands_def pool_quota_commands_def
      pool_rename_commands_def split: option.splits)

theorem pool_rename_comes_last_witness:
  "last (pool_attribute_commands ''old'' [(''name'', JStr ''new''), (''size'', JInt 2)])
     = (''osd pool rename'', [(''srcpool'', JStr ''old''), (''destpool'', JStr ''new'')])"
  using pool_rename_comes_last [of "''old''" "[(''name'', JStr ''new''), (''size'', JInt 2)]" "JStr ''new''"]
  by auto

text \<open>
  An update of an OSD's in and up state sends a command only for what differs from the OSD
  map, in that order; when nothing differs there is no request at all, and bringing up an
  OSD that is down is refused whatever else is asked for.
\<close>

theorem osd_update_in_up:
  assumes "map_of (osds_by_id (the_osd_map c)) i = Some o'" and "map_of a ''id'' = Some (JInt i)"
    and "map_of a ''in'' = Some (JBool bin)" and "map_of a ''up'' = Some (JBool bup)"
    and "map_of a ''reweight'' = None"
  shows "case osd_update c i a of
     Inl e \<Rightarrow> bup \<and> osd_up o' = 0 \<and> e = RuntimeError ''It is not valid to set a down OSD to be up''
   | Inr None \<Rightarrow> bin = (osd_in o' \<noteq> 0) \<and> bup = (osd_up o' \<noteq> 0)
   | Inr (Some r) \<Rightarrow> \<not> (bup \<and> osd_up o' = 0) \<and> rq_kind r = OsdMapModifyingRequest \<and> rq_commands r
       = (if bin = (osd_in o' \<noteq> 0) then []
          else [(if bin then ''osd in'' else ''osd out'', [(''ids'', JList [JStr (str_int i)])])])
         @ (if bup = (osd_up o' \<noteq> 0) then [] else [(''osd down'', [(''ids'', JList [JStr (str_int i)])])])"
proof -
  have "keys (AList.delete ''id'' a) \<noteq> [x]" for x
  proof
    assume "keys (AList.delete ''id'' a) = [x]"
    then have one: "set (keys (AList.delete ''id'' a)) = {x}" by simp
    have "k \<in> set (keys (AList.delete ''id'' a))" if "has_key a k" "k \<noteq> ''id''" for k
      using that has_key_delete [of "''id''" a k] by (simp add: has_key_iff)
    with one have "k = x" if "has_key a k" "k \<noteq> ''id''" for k
      using that by blast
    from this [of "''in''"] this [of "''up''"] assms(3,4) show False
      by (simp add: has_key_def)
  qed
  then have msg: "\<exists>m. osd_update_message c i (AList.delete ''id'' a) = Inr m"
    by (simp add: osd_update_message_def Let_def)
  then obtain m where m: "osd_update_message c i (AList.delete ''id'' a) = Inr m" ..
  show ?thesis
    using assms m
    by (auto simp: osd_update_def osd_in_commands_def osd_up_commands_def osd_reweight_commands_def
        Let_def osd_map_request_def new_request_def)
qed

definition one_osd_ctx :: factory_ctx where
  "one_osd_ctx = empty_ctx\<lparr>fc_osd_map := \<lparr>so_version = VInt 7, so_data = Some (DOsd ((one_pool_map [])
     \<lparr>om_osds := [\<lparr>osd = 4, osd_up = 0, osd_in = 1, public_addr = '''', cluster_addr = ''''\<rparr>]\<rparr>))\<rparr>\<rparr>"

theorem osd_update_in_up_witness:
  "osd_update one_osd_ctx 4 [(''id'', JInt 4), (''in'', JBool False), (''up'', JBool True)]
     = Inl (RuntimeError ''It is not valid to set a down OSD to be up'')"
  using osd_update_in_up [where c = one_osd_ctx and i = 4 and a = "[(''id'', JInt 4), (''in'', JBool False), (''up'', JBool True)]"
      and bin = False and bup = True]
  by (simp add: one_osd_ctx_def the_osd_map_def osd_map_of_def osds_by_id_def dict_of_def
      empty_ctx_def one_pool_map_def split: sum.splits option.splits)


definition crush_ctx :: factory_ctx where
  "crush_ctx = empty_ctx\<lparr>fc_osd_map := \<lparr>so_version = VInt 7, so_data = Some (DOsd ((one_pool_map [])
     \<lparr>om_tree := [\<lparr>node_id = -1, node_name = ''default'', node_type = ''root'',
         node_children = Some [-2], node_reweight = None\<rparr>],
      om_buckets := [\<lparr>bucket_id = -2, bucket_name = ''host0'', bucket_type = ''host'',
         bucket_weight = 1, bucket_items = []\<rparr>]\<rparr>))\<rparr>\<rparr>"


end
