(* ===== verification/ClusterMonitor.thy ===== *)
theory ClusterMonitor
  imports Eventer Factories
begin

text \<open>
  ClusterMonitor (cthulhu/manager/cluster_monitor.py): one per cluster. It follows the
  heartbeats of one favourite mon, keeps the cluster maps current through SyncObjects,
  hands new maps to the ServerMonitor, the Eventer, the requests and the database, and
  turns REST operations into user requests.

  A monitor is the entry of its cluster in the Manager's dictionary.
\<close>

section \<open>Messages\<close>

record cluster_data =
  hb_fsid :: string
  hb_name :: string
  hb_versions :: "(string, version) dict"

text \<open>What ceph.get_cluster_object returns.\<close>

record cluster_object =
  ob_fsid :: string
  ob_type :: string
  ob_version :: version
  ob_data :: "sync_data option"

definition FAVORITE_TIMEOUT_FACTOR :: int where
  "FAVORITE_TIMEOUT_FACTOR = 3"

definition init_cluster_monitor :: "time \<Rightarrow> string \<Rightarrow> string \<Rightarrow> cluster" where
  "init_cluster_monitor t fsid name =
     \<lparr>cl_fsid = fsid, cl_name = name, cl_update_time = t, cl_favorite = None,
      cl_last_heartbeat = [], cl_sync = init_sync_objects name\<rparr>"

definition upd_cluster :: "string \<Rightarrow> (cluster \<Rightarrow> cluster) \<Rightarrow> unit mg_py" where
  "upd_cluster fsid f = bnd (the_cluster fsid) (\<lambda>c.
     modify (\<lambda>w. w\<lparr>clusters := AList.update fsid (f c) (clusters w)\<rparr>))"

section \<open>The favourite mon\<close>

definition set_favorite :: "time \<Rightarrow> string \<Rightarrow> string \<Rightarrow> unit mg_py" where
  "set_favorite t fsid minion =
     bnd (the_cluster fsid) (\<lambda>c.
     bnd (assert_that (cl_favorite c \<noteq> Some minion)) (\<lambda>_.
     bnd (fail_all t minion) (\<lambda>_.
     upd_cluster fsid (\<lambda>c. c\<lparr>cl_favorite := Some minion\<rparr>))))"

definition is_favorite :: "(string \<Rightarrow> int option) \<Rightarrow> time \<Rightarrow> string \<Rightarrow> string \<Rightarrow> bool mg_py" where
  "is_favorite pillar t fsid minion =
     bnd (upd_cluster fsid (\<lambda>c. c\<lparr>cl_last_heartbeat := AList.update minion t (cl_last_heartbeat c)\<rparr>)) (\<lambda>_.
     bnd (the_cluster fsid) (\<lambda>c. case cl_favorite c of
         None \<Rightarrow> bnd (set_favorite t fsid minion) (\<lambda>_. ret True)
       | Some fav \<Rightarrow>
           bnd (guarded (minion \<noteq> fav)
             (bnd (lift_exn (item (cl_last_heartbeat c) fav fav)) (\<lambda>last.
              bnd (on_servers (get_contact_period pillar fav)) (\<lambda>p.
              guarded (seconds (p * FAVORITE_TIMEOUT_FACTOR) < t - last) (set_favorite t fsid minion))))) (\<lambda>_.
           bnd (the_cluster fsid) (\<lambda>c'. ret (Some minion = cl_favorite c')))))"

section \<open>Heartbeats and cluster maps\<close>

definition cm_on_version :: "time \<Rightarrow> string \<Rightarrow> string \<Rightarrow> sync_type \<Rightarrow> version \<Rightarrow> unit mg_py" where
  "cm_on_version t fsid minion ty v = on_cluster_sync fsid (on_version t (Some minion) ty v)"

definition on_heartbeat ::
  "(string \<Rightarrow> int option) \<Rightarrow> time \<Rightarrow> string \<Rightarrow> string \<Rightarrow> cluster_data \<Rightarrow> unit mg_py" where
  "on_heartbeat pillar t fsid minion d =
     bnd (is_favorite pillar t fsid minion) (\<lambda>fav.
     guarded fav
       (bnd (upd_cluster fsid (\<lambda>c. c\<lparr>cl_update_time := t\<rparr>)) (\<lambda>_.
        for_each (\<lambda>ty.
            bnd (lift_exn (item (hb_versions d) (sync_str ty) (sync_str ty))) (\<lambda>v.
            cm_on_version t fsid minion ty v)) SYNC_OBJECT_TYPES)))"

definition get_sync_object :: "string \<Rightarrow> sync_type \<Rightarrow> sync_object mg_py" where
  "get_sync_object fsid ty = on_cluster_sync fsid (gets (\<lambda>(s, js). objects s ty))"

text \<open>\<open>k\<close> is the recursion depth left for walking the CRUSH tree.\<close>

definition tell_servers :: "nat \<Rightarrow> string \<Rightarrow> sync_type \<Rightarrow> sync_data option \<Rightarrow> unit mg_py" where
  "tell_servers k fsid ty d =
     (if ty = OsdMap then (case d of Some (DOsd m) \<Rightarrow> on_servers (on_osd_map k m) | _ \<Rightarrow> raise TypeError)
      else if ty = MonMap then (case d of Some (DMon m) \<Rightarrow> on_servers (on_mon_map m) | _ \<Rightarrow> raise TypeError)
      else if ty = MdsMap then (case d of Some (DMds m) \<Rightarrow> on_servers (on_mds_map fsid m) | _ \<Rightarrow> raise TypeError)
      else ret ())"

definition inject_sync_object ::
  "nat \<Rightarrow> time \<Rightarrow> string \<Rightarrow> string option \<Rightarrow> string \<Rightarrow> version \<Rightarrow> sync_data option \<Rightarrow> sync_object option mg_py" where
  "inject_sync_object k t fsid minion type_str v d =
     bnd (lift_exn (item SYNC_OBJECT_STR_TYPE type_str type_str)) (\<lambda>ty.
     bnd (get_sync_object fsid ty) (\<lambda>old_object.
     bnd (on_cluster_sync fsid (on_fetch_complete t minion ty v d)) (\<lambda>new_object. case new_object of
         None \<Rightarrow> ret None
       | Some obj \<Rightarrow>
           bnd (tell_servers k fsid ty d) (\<lambda>_.
           bnd (eventer_on_sync_object t fsid ty obj old_object) (\<lambda>_.
           ret (Some obj))))))"

definition int_version :: "version \<Rightarrow> int option" where
  "int_version v = (case v of VInt i \<Rightarrow> Some i | _ \<Rightarrow> None)"

text \<open>
  The object that arrived is the one the constructor of OsdMap has written to, so what is
  persisted is the data of the new sync object. A map of a mon that is not the favourite
  is only logged, not ignored.
\<close>

definition cm_on_sync_object ::
  "(nat \<Rightarrow> string option) \<Rightarrow> nat \<Rightarrow> time \<Rightarrow> string \<Rightarrow> string \<Rightarrow> cluster_object \<Rightarrow> unit mg_py" where
  "cm_on_sync_object pub k t fsid minion d =
     bnd (the_cluster fsid) (\<lambda>c.
     bnd (assert_that (ob_fsid d = fsid)) (\<lambda>_.
     bnd (lift_exn (item SYNC_OBJECT_STR_TYPE (ob_type d) (ob_type d))) (\<lambda>ty.
     bnd (inject_sync_object k t fsid (Some minion) (ob_type d) (ob_version d) (ob_data d)) (\<lambda>new_object.
     case new_object of
       None \<Rightarrow> ret ()
     | Some obj \<Rightarrow>
         bnd (RequestCollection.on_map pub t fsid ty obj) (\<lambda>_.
         on_servers (persist (UpdateSyncObject fsid (cl_name c) (sync_str ty)
            (int_version (so_version obj)) t (so_data obj))))))))"

section \<open>User requests\<close>

text \<open>
  The object types and methods the RPC interface uses. The factory methods a type does
  not override raise NotImplementedError; \<open>apply\<close> calls the method named by the
  command with the object's id alone.
\<close>

datatype obj_type = CRUSH_MAP | CRUSH_NODE | OSD | POOL | OtherType string

fun obj_type_str :: "obj_type \<Rightarrow> string" where
  "obj_type_str CRUSH_MAP = ''crush_map''"
| "obj_type_str CRUSH_NODE = ''crush_node''"
| "obj_type_str OSD = ''osd''"
| "obj_type_str POOL = ''pool''"
| "obj_type_str (OtherType s) = s"

datatype obj_attributes = Attrs attributes | CrushText string | NodeAttrs crush_node_attrs

datatype factory_call =
    Delete int
  | Create obj_attributes
  | Update int obj_attributes
  | UpdateConfig obj_attributes
  | Apply string int

definition known_type :: "obj_type \<Rightarrow> bool" where
  "known_type ty \<longleftrightarrow> ty \<in> {CRUSH_MAP, CRUSH_NODE, OSD, POOL}"

definition get_request_factory :: "obj_type \<Rightarrow> exn + obj_type" where
  "get_request_factory ty =
     (if known_type ty then Inr ty
      else Inl (ValueError (obj_type_str ty @ '' is not one of [crush_map, crush_node, osd, pool]'')))"

definition not_implemented :: exn where
  "not_implemented = NotImplementedError []"

definition osd_apply :: "factory_ctx \<Rightarrow> string \<Rightarrow> int \<Rightarrow> exn + request option" where
  "osd_apply c cmd i =
     (if cmd = ''scrub'' then Inr (Some (osd_scrub c i))
      else if cmd = ''deep_scrub'' then Inr (Some (osd_deep_scrub c i))
      else if cmd = ''repair'' then Inr (Some (osd_repair c i))
      else if cmd \<in> set [''delete'', ''create''] then Inl not_implemented
      else if cmd \<in> set [''update'', ''update_config'', ''get_valid_commands'', ''_commands_to_set_flags'']
      then Inl TypeError
      else Inl AttributeError)"

fun call_factory ::
  "factory_ctx \<Rightarrow> (int \<Rightarrow> exn + string) \<Rightarrow> obj_type \<Rightarrow> factory_call \<Rightarrow> exn + request option" where
  "call_factory c host_of OSD (Update i (Attrs a)) = osd_update c i a"
| "call_factory c host_of OSD (UpdateConfig (Attrs a)) = osd_update_config c a"
| "call_factory c host_of OSD (Apply cmd i) = osd_apply c cmd i"
| "call_factory c host_of POOL (Delete i) = then_do (pool_delete c i) (\<lambda>r. Inr (Some r))"
| "call_factory c host_of POOL (Create (Attrs a)) = then_do (pool_create c a) (\<lambda>r. Inr (Some r))"
| "call_factory c host_of POOL (Update i (Attrs a)) = then_do (pool_update c i a) (\<lambda>r. Inr (Some r))"
| "call_factory c host_of CRUSH_MAP (Update i (CrushText s)) = Inr (Some (crush_update c s))"
| "call_factory c host_of CRUSH_NODE (Delete i) = then_do (crush_node_delete c i) (\<lambda>r. Inr (Some r))"
| "call_factory c host_of CRUSH_NODE (Create (NodeAttrs a)) =
     then_do (crush_node_create c host_of a) (\<lambda>r. Inr (Some r))"
| "call_factory c host_of CRUSH_NODE (Update i (NodeAttrs a)) =
     then_do (crush_node_update c host_of i a) (\<lambda>r. Inr (Some r))"
| "call_factory c host_of POOL (Create a) = Inl TypeError"
| "call_factory c host_of CRUSH_NODE (Create a) = Inl TypeError"
| "call_factory c host_of OSD (UpdateConfig a) = Inl TypeError"
| "call_factory c host_of ty (Update i a) = Inl TypeError"
| "call_factory c host_of ty (UpdateConfig a) = Inl AttributeError"
| "call_factory c host_of ty (Apply cmd i) = Inl AttributeError"
| "call_factory c host_of ty (Delete i) = Inl not_implemented"
| "call_factory c host_of ty (Create a) = Inl not_implemented"

definition context_of :: "string \<Rightarrow> time \<Rightarrow> cluster \<Rightarrow> factory_ctx" where
  "context_of rid t c =
     \<lparr>fc_fsid = cl_fsid c, fc_name = cl_name c, fc_osd_map = objects (cl_sync c) OsdMap,
      fc_config = (case get_data (cl_sync c) Config of Some (DConfig d) \<Rightarrow> Some d | _ \<Rightarrow> None),
      fc_request_id = rid, fc_now = t\<rparr>"

definition hostname_of_osd :: "manager \<Rightarrow> string \<Rightarrow> int \<Rightarrow> exn + string" where
  "hostname_of_osd w fsid i = (case get_by_service (servers w) (ServiceId fsid ''osd'' (str_int i)) of
       None \<Rightarrow> Inl AttributeError
     | Some s \<Rightarrow> Inr (ss_hostname s))"

text \<open>\<open>rid\<close> is the uuid the new request draws. The answer is the request's id, if there is one.\<close>

definition cluster_request ::
  "(nat \<Rightarrow> string option) \<Rightarrow> string \<Rightarrow> time \<Rightarrow> string \<Rightarrow> obj_type \<Rightarrow> factory_call \<Rightarrow> string option mg_py" where
  "cluster_request pub rid t fsid ty call =
     bnd (the_cluster fsid) (\<lambda>c.
     bnd (lift_exn (get_request_factory ty)) (\<lambda>_. case cl_favorite c of
         None \<Rightarrow> raise (ClusterUnavailable ''Ceph cluster is currently unavailable for commands'')
       | Some fav \<Rightarrow>
           bnd get_state (\<lambda>w.
           bnd (lift_exn (call_factory (context_of rid t c) (hostname_of_osd w (cl_fsid c)) ty call)) (\<lambda>request.
           case request of
             None \<Rightarrow> ret None
           | Some r \<Rightarrow> bnd (submit_request pub t r fav) (\<lambda>_. ret (Some (rq_id r)))))))"

definition cluster_valid_commands ::
  "string \<Rightarrow> obj_type \<Rightarrow> int list \<Rightarrow> (int, string list) dict mg_py" where
  "cluster_valid_commands fsid ty ids =
     bnd (the_cluster fsid) (\<lambda>c.
     bnd (lift_exn (get_request_factory ty)) (\<lambda>_.
     if ty = OSD then lift_exn (osd_valid_commands (context_of [] 0 c) ids) else ret []))"

section \<open>The favourite in closed form\<close>

lemma the_cluster_run:
  "map_of (clusters w) fsid = Some c \<Longrightarrow> the_cluster fsid w = (Inr c, w)"
  by (simp add: the_cluster_def py_simps)

lemma upd_cluster_run:
  "map_of (clusters w) fsid = Some c \<Longrightarrow>
     upd_cluster fsid f w = (Inr (), w\<lparr>clusters := AList.update fsid (f c) (clusters w)\<rparr>)"
  by (simp add: upd_cluster_def bnd_def the_cluster_run modify_def)

text \<open>What the requests look like after every running one has been given up.\<close>

definition given_up :: "time \<Rightarrow> string \<Rightarrow> request option \<Rightarrow> request option" where
  "given_up t minion = map_option (\<lambda>r. if rq_state r = Submitted
     then failed t (''Lost contact with server '' @ minion) r else r)"

lemma indexed_other:
  "by_request_id w' = by_request_id w \<Longrightarrow> by_jid w' = by_jid w \<Longrightarrow> jobs w' = jobs w \<Longrightarrow>
     indexed pub w' = indexed pub w"
  by (simp add: indexed_def)

lemma set_favorite_run:
  assumes "fresh_ids pub" and "indexed pub w" and c: "map_of (clusters w) fsid = Some c"
    and "cl_favorite c \<noteq> Some minion"
  shows "\<exists>w'. set_favorite t fsid minion w = (Inr (), w') \<and> indexed pub w' \<and> jobs w' = jobs w
     \<and> clusters w' = AList.update fsid (c\<lparr>cl_favorite := Some minion\<rparr>) (clusters w)
     \<and> servers w' = servers w
     \<and> (\<forall>i. map_of (by_request_id w') i = given_up t minion (map_of (by_request_id w) i))"
proof -
  obtain w1 where w1: "fail_all t minion w = (Inr (), w1)" "jobs w1 = jobs w" "indexed pub w1" "same_rest w w1"
    and m: "\<And>i. map_of (by_request_id w1) i = given_up t minion (map_of (by_request_id w) i)"
    using fail_all_run [OF assms(1,2), of t minion] by (auto simp: given_up_def)
  from w1(4) have same: "clusters w1 = clusters w" "servers w1 = servers w"
    by (cases w1; cases w; simp add: same_rest_def)+
  let ?w' = "w1\<lparr>clusters := AList.update fsid (c\<lparr>cl_favorite := Some minion\<rparr>) (clusters w)\<rparr>"
  have "set_favorite t fsid minion w = (Inr (), ?w')"
    using assms same by (simp add: set_favorite_def bnd_def the_cluster_run assert_that_def ret_def w1(1)
        upd_cluster_run)
  moreover have "indexed pub ?w'" using w1(3) by (simp add: indexed_def)
  ultimately show ?thesis using w1 m same by (intro exI [of _ ?w']) simp
qed

text \<open>The heartbeat's sender becomes the favourite: there is none, or it has been silent for too long.\<close>

definition takes_over :: "(string \<Rightarrow> int option) \<Rightarrow> time \<Rightarrow> server_monitor \<Rightarrow> cluster \<Rightarrow> string \<Rightarrow> bool" where
  "takes_over pillar t m c minion \<longleftrightarrow> (case cl_favorite c of
       None \<Rightarrow> True
     | Some fav \<Rightarrow> minion \<noteq> fav \<and>
         (\<exists>last. map_of (cl_last_heartbeat c) fav = Some last
            \<and> seconds (period_of pillar m fav * FAVORITE_TIMEOUT_FACTOR) < t - last))"

text \<open>The favourite's last heartbeat is on record, so looking it up cannot fail.\<close>

definition favorite_known :: "cluster \<Rightarrow> bool" where
  "favorite_known c \<longleftrightarrow> (\<forall>fav. cl_favorite c = Some fav \<longrightarrow> has_key (cl_last_heartbeat c) fav)"

lemma is_favorite_run:
  assumes "fresh_ids pub" and "indexed pub w" and c: "map_of (clusters w) fsid = Some c"
    and "favorite_known c"
  shows "\<exists>w' c'. is_favorite pillar t fsid minion w = (Inr (cl_favorite c' = Some minion), w')
     \<and> indexed pub w' \<and> jobs w' = jobs w
     \<and> clusters w' = AList.update fsid c' (clusters w)
     \<and> c' = c\<lparr>cl_last_heartbeat := AList.update minion t (cl_last_heartbeat c),
          cl_favorite := (if takes_over pillar t (servers w) c minion then Some minion else cl_favorite c)\<rparr>
     \<and> (\<forall>i. map_of (by_request_id w') i =
          (if takes_over pillar t (servers w) c minion then given_up t minion (map_of (by_request_id w) i)
           else map_of (by_request_id w) i))"
proof -
  let ?c1 = "c\<lparr>cl_last_heartbeat := AList.update minion t (cl_last_heartbeat c)\<rparr>"
  let ?w1 = "w\<lparr>clusters := AList.update fsid ?c1 (clusters w)\<rparr>"
  have i1: "indexed pub ?w1" using assms(2) by (simp add: indexed_def)
  have c1: "map_of (clusters ?w1) fsid = Some ?c1" by simp
  have start: "is_favorite pillar t fsid minion w = (case cl_favorite c of
         None \<Rightarrow> bnd (set_favorite t fsid minion) (\<lambda>_. ret True)
       | Some fav \<Rightarrow>
           bnd (guarded (minion \<noteq> fav)
             (bnd (lift_exn (item (cl_last_heartbeat ?c1) fav fav)) (\<lambda>last.
              bnd (on_servers (get_contact_period pillar fav)) (\<lambda>p.
              guarded (seconds (p * FAVORITE_TIMEOUT_FACTOR) < t - last) (set_favorite t fsid minion))))) (\<lambda>_.
           bnd (the_cluster fsid) (\<lambda>c'. ret (Some minion = cl_favorite c')))) ?w1"
    by (simp add: is_favorite_def bnd_def upd_cluster_run [OF c] the_cluster_run [OF c1] split: option.splits)
  show ?thesis
  proof (cases "cl_favorite c")
    case None
    then have "takes_over pillar t (servers w) c minion" by (simp add: takes_over_def)
    with set_favorite_run [OF assms(1) i1 c1, of minion t] None show ?thesis
      by (auto simp: start bnd_def ret_def)
  next
    case (Some fav)
    show ?thesis
    proof (cases "minion = fav")
      case True
      then have "\<not> takes_over pillar t (servers w) c minion" using Some by (simp add: takes_over_def)
      moreover have "is_favorite pillar t fsid minion w = (Inr True, ?w1)"
        unfolding start using True Some by (simp add: bnd_def guarded_def ret_def the_cluster_run)
      moreover have "?c1\<lparr>cl_favorite := cl_favorite c\<rparr> = ?c1" by (cases c) simp
      ultimately show ?thesis using True Some i1 by (intro exI [of _ ?w1] exI [of _ ?c1]) auto
    next
      case False
      from assms(4) Some obtain last where l: "map_of (cl_last_heartbeat c) fav = Some last"
        by (auto simp: favorite_known_def has_key_def)
      let ?w2 = "?w1\<lparr>servers := period_cached pillar fav (servers w)\<rparr>"
      let ?late = "seconds (period_of pillar (servers w) fav * FAVORITE_TIMEOUT_FACTOR) < t - last"
      have late: "takes_over pillar t (servers w) c minion \<longleftrightarrow> ?late"
        using Some False l by (simp add: takes_over_def)
      have i2: "indexed pub ?w2" using assms(2) by (simp add: indexed_def)
      have c2: "map_of (clusters ?w2) fsid = Some ?c1" by simp
      have step: "is_favorite pillar t fsid minion w =
          bnd (guarded ?late (set_favorite t fsid minion)) (\<lambda>_.
            bnd (the_cluster fsid) (\<lambda>c'. ret (Some minion = cl_favorite c'))) ?w2"
        using Some False l
        by (simp add: start bnd_def guarded_def lift_exn_def on_servers_contact_period)
      show ?thesis
      proof (cases ?late)
        case True
        from Some False have "cl_favorite ?c1 \<noteq> Some minion" by simp
        from set_favorite_run [OF assms(1) i2 c2 this, of t] obtain w'
          where w': "set_favorite t fsid minion ?w2 = (Inr (), w')" "indexed pub w'" "jobs w' = jobs w"
            "clusters w' = AList.update fsid (?c1\<lparr>cl_favorite := Some minion\<rparr>) (clusters w)"
            "\<And>i. map_of (by_request_id w') i = given_up t minion (map_of (by_request_id w) i)"
          by auto
        from w'(4) have "map_of (clusters w') fsid = Some (?c1\<lparr>cl_favorite := Some minion\<rparr>)" by simp
        with True w' late show ?thesis
          by (simp add: step bnd_def guarded_def the_cluster_run ret_def)
      next
        case False
        then have "is_favorite pillar t fsid minion w = (Inr False, ?w2)"
          unfolding step using Some \<open>minion \<noteq> fav\<close>
          by (simp add: bnd_def guarded_def the_cluster_run ret_def)
        moreover have "?c1\<lparr>cl_favorite := cl_favorite c\<rparr> = ?c1" by (cases c) simp
        ultimately show ?thesis using False late Some \<open>minion \<noteq> fav\<close> i2
          by (intro exI [of _ ?w2] exI [of _ ?c1]) auto
      qed
    qed
  qed
qed

section \<open>Properties\<close>

text \<open>C16. On a heartbeat, the favourite mon changes if and only if there was none or the sender is
  another mon and the favourite has been silent for more than three of its contact
  periods. Then every running request of every cluster fails, with the name of the new
  favourite in the message; otherwise no request changes. The answer tells whether the
  sender is the favourite now, and the favourite's heartbeat is always on record.\<close>

theorem favourite_handover:
  assumes "fresh_ids pub" and "indexed pub w" and "map_of (clusters w) fsid = Some c"
    and "favorite_known c"
  shows "\<exists>w' c'. is_favorite pillar t fsid minion w = (Inr (cl_favorite c' = Some minion), w')
     \<and> map_of (clusters w') fsid = Some c' \<and> favorite_known c' \<and> indexed pub w'
     \<and> (if cl_favorite c = None \<or> (\<exists>fav last. cl_favorite c = Some fav \<and> fav \<noteq> minion
            \<and> map_of (cl_last_heartbeat c) fav = Some last
            \<and> seconds (3 * period_of pillar (servers w) fav) < t - last)
        then cl_favorite c' = Some minion
          \<and> (\<forall>i. map_of (by_request_id w') i = map_option (\<lambda>r. if rq_state r = Submitted
               then failed t (''Lost contact with server '' @ minion) r else r) (map_of (by_request_id w) i))
        else cl_favorite c' = cl_favorite c
          \<and> (\<forall>i. map_of (by_request_id w') i = map_of (by_request_id w) i))"
proof -
  let ?over = "takes_over pillar t (servers w) c minion"
  have over: "?over \<longleftrightarrow> cl_favorite c = None \<or> (\<exists>fav last. cl_favorite c = Some fav \<and> fav \<noteq> minion
            \<and> map_of (cl_last_heartbeat c) fav = Some last
            \<and> seconds (3 * period_of pillar (servers w) fav) < t - last)"
    by (auto simp: takes_over_def FAVORITE_TIMEOUT_FACTOR_def mult.commute split: option.splits)
  from is_favorite_run [OF assms, of pillar t minion] obtain w' c'
    where w': "is_favorite pillar t fsid minion w = (Inr (cl_favorite c' = Some minion), w')"
      "indexed pub w'" "clusters w' = AList.update fsid c' (clusters w)"
      "\<And>i. map_of (by_request_id w') i = (if ?over
         then given_up t minion (map_of (by_request_id w) i) else map_of (by_request_id w) i)"
    and c': "c' = c\<lparr>cl_last_heartbeat := AList.update minion t (cl_last_heartbeat c),
          cl_favorite := (if ?over then Some minion else cl_favorite c)\<rparr>" by blast
  have "favorite_known c'" using assms(4) by (auto simp: c' favorite_known_def)
  moreover have "map_of (clusters w') fsid = Some c'" using w'(3) by simp
  ultimately show ?thesis
    using w'(1,2,4) c' unfolding over [symmetric]
    by (intro exI [of _ w'] exI [of _ c']) (simp add: given_up_def)
qed

definition running_manager :: manager where
  "running_manager = late_manager\<lparr>clusters := [(''f'', demo_cluster\<lparr>cl_last_heartbeat := [(''mon0'', 0)]\<rparr>)],
     by_request_id := by_request_id one_running, by_jid := by_jid one_running, jobs := jobs one_running\<rparr>"

lemma indexed_running: "indexed demo_pub running_manager"
  using indexed_one_running by (simp add: indexed_def running_manager_def)

theorem favourite_handover_witness:
  "\<exists>w' c'. is_favorite (\<lambda>_. None) (seconds 181) ''f'' ''mon1'' running_manager = (Inr True, w')
     \<and> map_of (clusters w') ''f'' = Some c' \<and> cl_favorite c' = Some ''mon1''"
proof -
  have c: "map_of (clusters running_manager) ''f'' = Some (demo_cluster\<lparr>cl_last_heartbeat := [(''mon0'', 0)]\<rparr>)"
    and k: "favorite_known (demo_cluster\<lparr>cl_last_heartbeat := [(''mon0'', 0)]\<rparr>)"
    by (simp_all add: running_manager_def favorite_known_def demo_cluster_def has_key_def)
  from favourite_handover [OF fresh_demo indexed_running c k, of "\<lambda>_. None" "seconds 181" "''mon1''"]
  show ?thesis
    by (fastforce simp: demo_cluster_def seconds_def period_of_def pillar_contact_period_def
        running_manager_def late_manager_def one_server_def init_server_monitor_def get_default_def)
qed

text \<open>The loop over the left mons stops at one that the new map does not know.\<close>

lemma for_each_raises:
  assumes "x \<in> set xs" and "\<And>v. \<exists>e v'. f x v = (Inl e, v')"
  shows "\<exists>e v'. for_each f xs w = (Inl e, v')"
  using assms(1)
proof (induction xs arbitrary: w)
  case (Cons y ys)
  obtain r v where fy: "f y w = (r, v)" by fastforce
  show ?case
  proof (cases r)
    case (Inl e)
    with fy show ?thesis by (simp add: bnd_def)
  next
    case (Inr u)
    with assms(2) [of w] fy Cons.prems have "x \<in> set ys" by auto
    with Cons.IH [OF this, of v] fy Inr show ?thesis by (simp add: bnd_def)
  qed
qed simp

lemma unknown_mon_raises:
  assumes "\<not> has_key (mons_by_rank new) rank"
  shows "\<exists>e v'. mon_event t fsid new sev verb rank v = (Inl e, v')"
  using assms by (simp add: mon_event_def bnd_def lift_exn_def has_key_def)

text \<open>Eventer's handlers only write to the event log.\<close>

definition only_logs :: "manager \<Rightarrow> manager \<Rightarrow> bool" where
  "only_logs w w' \<longleftrightarrow> (\<exists>l. w' = w\<lparr>event_log := l\<rparr>)"

interpretation ol: step_contract only_logs
proof unfold_locales
  show "only_logs s s" for s by (auto simp: only_logs_def intro!: exI [of _ "event_log s"])
  show "only_logs s t \<Longrightarrow> only_logs t u \<Longrightarrow> only_logs s u" for s t u
    by (auto simp: only_logs_def)
qed

lemma only_logs_on_events [intro]: "obeys only_logs (on_events m)"
  by (auto simp: obeys_def on_events_def snd_zoom only_logs_def)

lemma only_logs_emit [intro]: "obeys only_logs (mg_emit t sev msg a)"
  unfolding mg_emit_def by blast

lemma only_logs_the_cluster [intro]: "obeys only_logs (the_cluster fsid)"
  unfolding the_cluster_def by blast

lemma only_logs_mon_event [intro]: "obeys only_logs (mon_event t fsid new sev verb rank)"
  unfolding mon_event_def by blast

lemma only_logs_osd_event [intro]: "obeys only_logs (osd_event t fsid sev msg i)"
  unfolding osd_event_def by blast

lemma only_logs_osd_changed [intro]: "obeys only_logs (osd_changed t fsid new old i)"
  unfolding osd_changed_def
  by (intro ol.obeys_bnd ol.obeys_guarded ol.obeys_if ol.obeys_lift only_logs_osd_event)

lemma only_logs_eventer: "obeys only_logs (eventer_on_sync_object t fsid ty new old)"
proof -
  have "obeys only_logs (events_of_osd_map t fsid n o')" for n o'
    unfolding events_of_osd_map_def
    by (intro ol.obeys_bnd ol.obeys_for_each only_logs_osd_event only_logs_osd_changed)
  moreover have "obeys only_logs (events_of_mon_status t fsid n o')" for n o'
    unfolding events_of_mon_status_def Let_def
    by (intro ol.obeys_bnd ol.obeys_for_each only_logs_mon_event)
  moreover have "obeys only_logs (events_of_health t fsid n o')" for n o'
    unfolding events_of_health_def Let_def
    by (intro ol.obeys_guarded ol.obeys_bnd ol.obeys_lift ol.obeys_if only_logs_emit only_logs_the_cluster)
  ultimately show ?thesis
    unfolding eventer_on_sync_object_def
    by (auto intro!: ol.obeys_bnd split: option.split sync_data.split)
qed

lemma left_mon_raises:
  assumes "rank \<in> set (ms_quorum old)" and "rank \<notin> set (ms_quorum new)"
    and "\<not> has_key (mons_by_rank new) rank"
  shows "\<exists>e w'. events_of_mon_status t fsid new old w = (Inl e, w')"
proof -
  let ?left = "filter (\<lambda>r. r \<notin> set (remdups (ms_quorum new))) (remdups (ms_quorum old))"
  have "rank \<in> set ?left" using assms by simp
  then have "\<exists>e v'. for_each (mon_event t fsid new WARNING ''left'') ?left v = (Inl e, v')" for v
    using unknown_mon_raises [OF assms(3)] by (rule for_each_raises)
  moreover obtain r v where "for_each (mon_event t fsid new RECOVERY ''joined'')
      (filter (\<lambda>r. r \<notin> set (remdups (ms_quorum old))) (remdups (ms_quorum new))) w = (r, v)"
    by fastforce
  ultimately show ?thesis
    by (cases r) (auto simp: events_of_mon_status_def Let_def bnd_def)
qed

lemma fetched_new:
  assumes "versioned ty" and "get_version s ty < v"
  shows "\<exists>s' js'. on_fetch_complete t m ty v d (s, js) = (Inr (Some (mk_sync_object v d)), (s', js'))
     \<and> objects s' = (objects s)(ty := mk_sync_object v d)"
  using assms
  by (cases m) (auto simp: on_fetch_complete_effect Let_def fetch_effect sync_cmp_versioned_pos)

lemma fetched_stale:
  assumes "versioned ty" and "v \<le> get_version s ty"
  shows "\<exists>s' js'. on_fetch_complete t m ty v d (s, js) = (Inr None, (s', js')) \<and> objects s' = objects s"
  using assms
  by (cases m) (auto simp: on_fetch_complete_effect Let_def fetch_effect sync_cmp_versioned_pos)

lemma on_cluster_sync_run:
  "map_of (clusters w) fsid = Some c \<Longrightarrow> m (cl_sync c, jobs w) = (x, (s', js')) \<Longrightarrow>
     on_cluster_sync fsid m w =
       (x, w\<lparr>clusters := AList.update fsid (c\<lparr>cl_sync := s'\<rparr>) (clusters w), jobs := js'\<rparr>)"
  by (simp add: on_cluster_sync_def)

lemma update_same: "map_of d k = Some v \<Longrightarrow> AList.update k v d = d"
  by (induction d) auto

lemma get_sync_object_run:
  "map_of (clusters w) fsid = Some c \<Longrightarrow> get_sync_object fsid ty w = (Inr (objects (cl_sync c) ty), w)"
  by (simp add: get_sync_object_def on_cluster_sync_run [where s' = "cl_sync c" and js' = "jobs w"]
      gets_def update_same)

lemma sync_str_type [simp]: "map_of SYNC_OBJECT_STR_TYPE (sync_str ty) = Some ty"
  by (cases ty) (simp_all add: SYNC_OBJECT_STR_TYPE_def SYNC_OBJECT_TYPES_def)

text \<open>When a mon that was in the quorum is gone from the next status altogether, as happens
  when it is removed from the cluster, telling Eventer raises. The new status is stored,
  but it is neither shown to the requests nor written to the database, and as it is no
  longer new a second delivery of the same status does not make up for it.\<close>

theorem removed_mon_status_never_saved:
  assumes "map_of (clusters w) fsid = Some c"
    and "so_data (objects (cl_sync c) MonStatus) = Some (DMonStatus old)"
    and "d = \<lparr>ob_fsid = fsid, ob_type = ''mon_status'', ob_version = v, ob_data = Some (DMonStatus new)\<rparr>"
    and "get_version (cl_sync c) MonStatus < v"
    and "rank \<in> set (ms_quorum old)" and "rank \<notin> set (ms_quorum new)"
    and "rank \<notin> mon_rank ` set (ms_mons new)"
  shows "\<exists>e w1 w2 c1. cm_on_sync_object pub k t fsid minion d w = (Inl e, w1)
     \<and> map_of (clusters w1) fsid = Some c1 \<and> get_version (cl_sync c1) MonStatus = v
     \<and> cm_on_sync_object pub k t' fsid minion d w1 = (Inr (), w2)
     \<and> by_request_id w2 = by_request_id w \<and> sm_db (servers w2) = sm_db (servers w)"
proof -
  have ty: "item SYNC_OBJECT_STR_TYPE ''mon_status'' ''mon_status'' = Inr MonStatus"
    using sync_str_type [of MonStatus] by simp
  let ?obj = "mk_sync_object v (Some (DMonStatus new))"
  have nk: "\<not> has_key (mons_by_rank new) rank"
    using assms(7) by (simp add: mons_by_rank_def has_key_iff image_image)
  obtain s' js' where s': "on_fetch_complete t (Some minion) MonStatus v (Some (DMonStatus new)) (cl_sync c, jobs w)
      = (Inr (Some ?obj), (s', js'))" "objects s' = (objects (cl_sync c))(MonStatus := ?obj)"
    using fetched_new [of MonStatus "cl_sync c" v t "Some minion" "Some (DMonStatus new)" "jobs w"] assms(4) by auto
  let ?c1 = "c\<lparr>cl_sync := s'\<rparr>"
  let ?w0 = "w\<lparr>clusters := AList.update fsid ?c1 (clusters w), jobs := js'\<rparr>"
  have sync1: "on_cluster_sync fsid (on_fetch_complete t (Some minion) MonStatus v (Some (DMonStatus new))) w
      = (Inr (Some ?obj), ?w0)"
    by (rule on_cluster_sync_run) (simp_all add: assms(1) s'(1))
  obtain e w1 where ev: "eventer_on_sync_object t fsid MonStatus ?obj (objects (cl_sync c) MonStatus) ?w0 = (Inl e, w1)"
    using left_mon_raises [OF assms(5,6) nk, of t fsid ?w0] assms(2)
    by (auto simp: eventer_on_sync_object_def mk_sync_object_def bnd_def)
  obtain l where w1: "w1 = ?w0\<lparr>event_log := l\<rparr>"
    using only_logs_eventer ev unfolding only_logs_def [symmetric]
    by (metis obeysD only_logs_def)
  have first: "cm_on_sync_object pub k t fsid minion d w = (Inl e, w1)"
    using ev by (simp add: cm_on_sync_object_def bnd_def the_cluster_run [OF assms(1)] assms(3) assert_that_def
        ret_def lift_exn_def ty inject_sync_object_def get_sync_object_run [OF assms(1)]
        sync1 tell_servers_def)
  have c1: "map_of (clusters w1) fsid = Some ?c1" by (simp add: w1)
  have v1: "get_version (cl_sync ?c1) MonStatus = v"
    using s'(2) by (simp add: get_version_def mk_sync_object_def)
  obtain s2 js2 where s2: "on_fetch_complete t' (Some minion) MonStatus v (Some (DMonStatus new)) (cl_sync ?c1, jobs w1)
      = (Inr None, (s2, js2))"
    using fetched_stale [of MonStatus v "cl_sync ?c1" t' "Some minion" "Some (DMonStatus new)" "jobs w1"] v1 by auto
  have sync2: "on_cluster_sync fsid (on_fetch_complete t' (Some minion) MonStatus v (Some (DMonStatus new))) w1
      = (Inr None, w1\<lparr>clusters := AList.update fsid (?c1\<lparr>cl_sync := s2\<rparr>) (clusters w1), jobs := js2\<rparr>)"
    by (rule on_cluster_sync_run) (simp_all only: c1 s2)
  have "\<exists>w2. cm_on_sync_object pub k t' fsid minion d w1 = (Inr (), w2)
      \<and> by_request_id w2 = by_request_id w \<and> sm_db (servers w2) = sm_db (servers w)"
    by (simp add: cm_on_sync_object_def bnd_def the_cluster_run [OF c1] assms(3) assert_that_def
        ret_def lift_exn_def ty inject_sync_object_def get_sync_object_run [OF c1]
        sync2) (simp add: w1)
  with first c1 v1 show ?thesis by blast
qed

definition two_mons :: mon_status_data where
  "two_mons = \<lparr>ms_mons = [\<lparr>mon_rank = 0, mon_name = ''a'', mon_addr = ''''\<rparr>,
       \<lparr>mon_rank = 1, mon_name = ''b'', mon_addr = ''''\<rparr>], ms_quorum = [0, 1], ms_election_epoch = 4, ms_rank = 0\<rparr>"

definition two_mons_manager :: manager where
  "two_mons_manager = late_manager\<lparr>clusters := [(''f'', demo_cluster\<lparr>cl_sync :=
     (init_sync_objects ''ceph'')\<lparr>objects := (\<lambda>_. mk_sync_object (VInt 4) (Some (DMonStatus two_mons)))\<rparr>\<rparr>)]\<rparr>"

theorem removed_mon_status_never_saved_witness:
  "\<exists>e w1. cm_on_sync_object demo_pub 9 5 ''f'' ''mon0'' \<lparr>ob_fsid = ''f'', ob_type = ''mon_status'', ob_version = VInt 5,
      ob_data = Some (DMonStatus (two_mons\<lparr>ms_mons := [hd (ms_mons two_mons)], ms_quorum := [0]\<rparr>))\<rparr> two_mons_manager
    = (Inl e, w1)"
  using removed_mon_status_never_saved [where w = two_mons_manager and fsid = "''f''" and rank = 1 and v = "VInt 5"
      and old = two_mons and new = "two_mons\<lparr>ms_mons := [hd (ms_mons two_mons)], ms_quorum := [0]\<rparr>"
      and c = "snd (hd (clusters two_mons_manager))" and pub = demo_pub and k = 9 and t = 5 and minion = "''mon0''",
      OF _ _ refl]
  by (fastforce simp: two_mons_manager_def two_mons_def mk_sync_object_def get_version_def)

end
