(* ===== verification/Manager.thy ===== *)
theory Manager
  imports ClusterMonitor
begin

text \<open>
  Manager (cthulhu/manager/manager.py): the process as a whole. Salt's event bus delivers
  every event to all listeners: TopLevelEvents, the ServerMonitor and each
  ClusterMonitor. Each has its event loop here, as the handling of one event; an exception
  is logged and the loop goes on. Recovery rebuilds the state from the database before
  the loops start.
\<close>

section \<open>Salt events\<close>

datatype event_return =
    RunningJobs "string list"
  | ObjectReturn cluster_object
  | JobReturn job_return

datatype event_data =
    ClusterBeacon cluster_data
  | ServerBeacon heartbeat
  | JobData string string bool event_return
  | OtherData

record salt_event =
  ev_tag :: string
  ev_id :: string
  ev_data :: event_data

text \<open>\<open>JobData jid fun success return\<close>. The tag pattern is \<open>^salt/job/\d+/ret/[^/]+$\<close>.\<close>

definition is_job_return_tag :: "string \<Rightarrow> bool" where
  "is_job_return_tag s = (case split_on (CHR ''/'') s of
       [a, b, jid, c, m] \<Rightarrow> a = ''salt'' \<and> b = ''job'' \<and> jid \<noteq> []
         \<and> list_all (\<lambda>x. digit_val x \<noteq> None) jid \<and> c = ''ret'' \<and> m \<noteq> []
     | _ \<Rightarrow> False)"

definition return_fsid :: "event_return \<Rightarrow> string option" where
  "return_fsid r = (case r of
       ObjectReturn ob \<Rightarrow> Some (ob_fsid ob)
     | JobReturn (RetDict d) \<Rightarrow> ret_fsid d
     | _ \<Rightarrow> None)"

definition is_dict_return :: "event_return \<Rightarrow> bool" where
  "is_dict_return r = (case r of
       ObjectReturn _ \<Rightarrow> True | JobReturn (RetDict _) \<Rightarrow> True | _ \<Rightarrow> False)"

text \<open>Iterating over something that is not a list of jobs raises, unless it is empty.\<close>

definition tick_response :: "time \<Rightarrow> event_return \<Rightarrow> unit mg_py" where
  "tick_response t r = (case r of
       RunningJobs js \<Rightarrow> on_tick_response t js
     | JobReturn (RetText s) \<Rightarrow> (if s = [] then ret () else raise TypeError)
     | _ \<Rightarrow> raise TypeError)"

text \<open>The keys of a return value that a user request's job reads.\<close>

definition as_job_return :: "event_return \<Rightarrow> job_return" where
  "as_job_return r = (case r of
       JobReturn x \<Rightarrow> x
     | ObjectReturn ob \<Rightarrow> RetDict \<lparr>ret_error = False, ret_error_status = None,
         ret_osd_version = None, ret_fsid = Some (ob_fsid ob)\<rparr>
     | RunningJobs _ \<Rightarrow> RetText [])"

section \<open>Event loops\<close>

definition swallow :: "unit mg_py \<Rightarrow> unit mg_py" where
  "swallow m = try_except m (\<lambda>_. ret ())"

definition on_discovery :: "(string \<Rightarrow> int option) \<Rightarrow> time \<Rightarrow> string \<Rightarrow> cluster_data \<Rightarrow> unit mg_py" where
  "on_discovery pillar t minion d =
     bnd (modify (\<lambda>w. w\<lparr>clusters := AList.update (hb_fsid d)
            (init_cluster_monitor t (hb_fsid d) (hb_name d)) (clusters w)\<rparr>)) (\<lambda>_.
     on_heartbeat pillar t (hb_fsid d) minion d)"

definition top_level_event ::
  "(nat \<Rightarrow> string option) \<Rightarrow> (string \<Rightarrow> int option) \<Rightarrow> time \<Rightarrow> salt_event \<Rightarrow> unit mg_py" where
  "top_level_event pub pillar t ev = swallow
     (if startswith (ev_tag ev) ''ceph/cluster/'' then
        (case ev_data ev of
           ClusterBeacon d \<Rightarrow> bnd get_state (\<lambda>w.
             guarded (\<not> has_key (clusters w) (hb_fsid d)) (on_discovery pillar t (ev_id ev) d))
         | _ \<Rightarrow> raise (KeyError ''data''))
      else if is_job_return_tag (ev_tag ev) then
        (case ev_data ev of
           JobData jid fn success r \<Rightarrow>
             (if fn = ''saltutil.running'' then tick_response t r
              else on_completion pub t \<lparr>co_minion = ev_id ev, co_jid = jid, co_fun = fn,
                co_success = success, co_return = as_job_return r\<rparr>)
         | _ \<Rightarrow> raise (KeyError ''fun''))
      else ret ())"

definition cluster_event ::
  "(nat \<Rightarrow> string option) \<Rightarrow> (string \<Rightarrow> int option) \<Rightarrow> nat \<Rightarrow> time \<Rightarrow> string \<Rightarrow> salt_event \<Rightarrow> unit mg_py" where
  "cluster_event pub pillar k t fsid ev = swallow
     (if startswith (ev_tag ev) (''ceph/cluster/'' @ fsid) then
        (case ev_data ev of
           ClusterBeacon d \<Rightarrow> on_heartbeat pillar t fsid (ev_id ev) d
         | _ \<Rightarrow> raise (KeyError ''data''))
      else if is_job_return_tag (ev_tag ev) then
        (case ev_data ev of
           JobData jid fn success r \<Rightarrow>
             bnd (guarded (fn = ''saltutil.running'') (tick_response t r)) (\<lambda>_.
             guarded (is_dict_return r \<and> return_fsid r = Some fsid \<and> fn = ''ceph.get_cluster_object'' \<and> success)
               (case r of
                  ObjectReturn ob \<Rightarrow> cm_on_sync_object pub k t fsid (ev_id ev) ob
                | _ \<Rightarrow> raise (KeyError ''data'')))
         | _ \<Rightarrow> raise (KeyError ''fun''))
      else ret ())"

definition server_event :: "(string \<Rightarrow> exn + string) \<Rightarrow> time \<Rightarrow> salt_event \<Rightarrow> unit mg_py" where
  "server_event grains t ev =
     guarded (startswith (ev_tag ev) ''ceph/server'')
       (case ev_data ev of
          ServerBeacon hb \<Rightarrow> swallow (on_servers (on_server_heartbeat grains t (ev_id ev) hb))
        | _ \<Rightarrow> ret ())"

section \<open>Deleting a cluster\<close>

text \<open>The rows of its maps are deleted at once, past the persister's queue.\<close>

definition manager_delete_cluster :: "string \<Rightarrow> unit mg_py" where
  "manager_delete_cluster fsid =
     bnd (the_cluster fsid) (\<lambda>_.
     bnd (modify (\<lambda>w. w\<lparr>clusters := AList.delete fsid (clusters w)\<rparr>)) (\<lambda>_.
     on_servers (persist (ExpungeSyncObjects fsid))))"

section \<open>Recovery\<close>

text \<open>
  The rows of the database: servers, services with the row of their server, and for each
  cluster and type the latest map. A service whose row names no server is injected under
  the name \<open>None\<close>, which no server has. \<open>digest\<close> is the md5 of the stored
  bytes, used where no counter was stored.
\<close>

record service_row =
  sr_id :: service_id
  sr_server :: "string option"

record object_row =
  or_type :: string
  or_version :: "int option"
  or_when :: time
  or_data :: "sync_data option"

record cluster_rows =
  cr_fsid :: string
  cr_name :: string
  cr_objects :: "object_row list"

definition recover_server :: "server_state \<Rightarrow> unit mg_py" where
  "recover_server s = on_servers (bnd (new_server (s\<lparr>ss_services := []\<rparr>)) inject_server)"

definition recover_service :: "service_row \<Rightarrow> unit mg_py" where
  "recover_service r = (case sr_server r of
       Some fqdn \<Rightarrow> on_servers (inject_service (sr_id r) fqdn)
     | None \<Rightarrow> raise (KeyError ''None''))"

definition recover_object ::
  "(sync_data option \<Rightarrow> string) \<Rightarrow> nat \<Rightarrow> time \<Rightarrow> string \<Rightarrow> object_row \<Rightarrow> unit mg_py" where
  "recover_object digest k t fsid r =
     bnd (the_cluster fsid) (\<lambda>c.
     bnd (guarded (cl_update_time c < or_when r)
            (upd_cluster fsid (\<lambda>c. c\<lparr>cl_update_time := or_when r\<rparr>))) (\<lambda>_.
     bnd (inject_sync_object k t fsid None (or_type r)
            (if truthy_version (or_version r) then VInt (the (or_version r)) else VStr (digest (or_data r)))
            (or_data r)) (\<lambda>_. ret ())))"

definition recover_cluster ::
  "(sync_data option \<Rightarrow> string) \<Rightarrow> nat \<Rightarrow> time \<Rightarrow> cluster_rows \<Rightarrow> unit mg_py" where
  "recover_cluster digest k t r =
     bnd (modify (\<lambda>w. w\<lparr>clusters := AList.update (cr_fsid r)
            (init_cluster_monitor t (cr_fsid r) (cr_name r)) (clusters w)\<rparr>)) (\<lambda>_.
     for_each (recover_object digest k t (cr_fsid r)) (cr_objects r))"

definition recover ::
  "(sync_data option \<Rightarrow> string) \<Rightarrow> nat \<Rightarrow> time \<Rightarrow> server_state list \<Rightarrow> service_row list \<Rightarrow>
   cluster_rows list \<Rightarrow> unit mg_py" where
  "recover digest k t svs srs crs =
     bnd (for_each recover_server svs) (\<lambda>_.
     bnd (for_each recover_service srs) (\<lambda>_.
     for_each (recover_cluster digest k t) crs))"

definition init_manager :: manager where
  "init_manager = \<lparr>jobs = [], event_log = \<lparr>ev_pending = [], ev_saved = []\<rparr>, clusters = [],
     by_request_id = [], by_jid = [], servers = init_server_monitor,
     servers_complained = [], clusters_complained = []\<rparr>"

section \<open>What handlers leave alone\<close>

definition same_requests :: "manager \<Rightarrow> manager \<Rightarrow> bool" where
  "same_requests w w' \<longleftrightarrow> by_request_id w' = by_request_id w"

interpretation sq: step_contract same_requests
  by unfold_locales (auto simp: same_requests_def)

lemma same_requests_the_cluster [intro]: "obeys same_requests (the_cluster fsid)"
  unfolding the_cluster_def by blast

lemma same_requests_upd_cluster [intro]: "obeys same_requests (upd_cluster fsid f)"
  unfolding upd_cluster_def
  by (intro sq.obeys_bnd sq.obeys_modify same_requests_the_cluster) (simp add: same_requests_def)

lemma same_requests_on_cluster_sync [intro]: "obeys same_requests (on_cluster_sync fsid m)"
  by (auto simp: obeys_def on_cluster_sync_def same_requests_def split: option.splits prod.splits)

definition same_clusters :: "manager \<Rightarrow> manager \<Rightarrow> bool" where
  "same_clusters w w' \<longleftrightarrow> clusters w' = clusters w"

interpretation sc: step_contract same_clusters
  by unfold_locales (auto simp: same_clusters_def)

lemma same_clusters_on_servers [intro]: "obeys same_clusters (on_servers m)"
  by (auto simp: obeys_def on_servers_def zoom_def same_clusters_def split: prod.splits)

lemma same_clusters_tell_servers [intro]: "obeys same_clusters (tell_servers k fsid ty d)"
  unfolding tell_servers_def
  by (auto intro!: sc.obeys_if sc.obeys_ret split: option.split sync_data.split)

lemma same_clusters_eventer [intro]: "obeys same_clusters (eventer_on_sync_object t fsid ty new old)"
  using only_logs_eventer [of t fsid ty new old]
  unfolding obeys_def only_logs_def same_clusters_def
  by (metis (no_types, lifting) hub.select_convs(3) hub.surjective hub.update_convs(2))

definition favorite_stays :: "string \<Rightarrow> manager \<Rightarrow> manager \<Rightarrow> bool" where
  "favorite_stays fsid w w' \<longleftrightarrow>
     map_option cl_favorite (map_of (clusters w') fsid) = map_option cl_favorite (map_of (clusters w) fsid)"

interpretation fs: step_contract "favorite_stays fsid"
  by unfold_locales (auto simp: favorite_stays_def)

lemma favorite_stays_the_cluster [intro]: "obeys (favorite_stays fsid) (the_cluster f)"
  unfolding the_cluster_def by blast

lemma favorite_stays_upd_cluster:
  assumes "\<And>c. cl_favorite (g c) = cl_favorite c"
  shows "obeys (favorite_stays fsid) (upd_cluster f g)"
proof -
  have "favorite_stays fsid w (snd (upd_cluster f g w))" for w
    using assms by (cases "map_of (clusters w) f")
      (auto simp: upd_cluster_def the_cluster_def py_simps favorite_stays_def)
  then show ?thesis by (simp add: obeys_def)
qed

lemma favorite_stays_on_cluster_sync [intro]: "obeys (favorite_stays fsid) (on_cluster_sync f m)"
  by (auto simp: obeys_def on_cluster_sync_def favorite_stays_def split: option.splits prod.splits)

lemma inject_stores:
  assumes "map_of (clusters w) fsid = Some c" and "versioned ty" and "get_version (cl_sync c) ty < v"
  shows "\<exists>c'. map_of (clusters (snd (inject_sync_object k t fsid m (sync_str ty) v d w))) fsid = Some c'
     \<and> objects (cl_sync c') ty = mk_sync_object v d
     \<and> (\<forall>x. fst (inject_sync_object k t fsid m (sync_str ty) v d w) = Inr x \<longrightarrow> x = Some (mk_sync_object v d))"
proof -
  obtain s' js' where s': "on_fetch_complete t m ty v d (cl_sync c, jobs w)
      = (Inr (Some (mk_sync_object v d)), (s', js'))" "objects s' = (objects (cl_sync c))(ty := mk_sync_object v d)"
    using fetched_new [OF assms(2,3)] by blast
  let ?w0 = "w\<lparr>clusters := AList.update fsid (c\<lparr>cl_sync := s'\<rparr>) (clusters w), jobs := js'\<rparr>"
  let ?tail = "bnd (tell_servers k fsid ty d) (\<lambda>_.
       bnd (eventer_on_sync_object t fsid ty (mk_sync_object v d) (objects (cl_sync c) ty)) (\<lambda>_.
       ret (Some (mk_sync_object v d))))"
  have sync: "on_cluster_sync fsid (on_fetch_complete t m ty v d) w = (Inr (Some (mk_sync_object v d)), ?w0)"
    by (rule on_cluster_sync_run) (simp_all add: assms(1) s'(1))
  have run: "inject_sync_object k t fsid m (sync_str ty) v d w = ?tail ?w0"
    by (simp add: inject_sync_object_def bnd_def lift_exn_def get_sync_object_run [OF assms(1)] sync)
  have "obeys same_clusters ?tail" by blast
  then have "clusters (snd (?tail ?w0)) = clusters ?w0" by (simp add: obeys_def same_clusters_def)
  moreover have "fst (?tail ?w0) = Inr x \<longrightarrow> x = Some (mk_sync_object v d)" for x
    by (auto simp: bnd_def ret_def split: prod.splits sum.splits)
  ultimately show ?thesis using s'(2) by (simp add: run)
qed

section \<open>Properties\<close>

text \<open>C32. The first heartbeat of a cluster that is not known yet fails every running request of
  all other clusters, because the new monitor choosing its first favourite gives up the
  requests of the whole process. The message blames the mon that has just appeared.\<close>

theorem discovery_fails_running_requests:
  assumes "fresh_ids pub" and "indexed pub w" and "\<not> has_key (clusters w) (hb_fsid d)"
    and "map_of (by_request_id w) i = Some r" and "rq_state r = Submitted"
  shows "\<exists>x w'. on_discovery pillar t minion d w = (x, w')
     \<and> map_of (by_request_id w') i = Some (failed t (''Lost contact with server '' @ minion) r)
     \<and> (\<exists>c. map_of (clusters w') (hb_fsid d) = Some c \<and> cl_favorite c = Some minion)"
proof -
  let ?f = "hb_fsid d"
  let ?c0 = "init_cluster_monitor t ?f (hb_name d)"
  let ?w0 = "w\<lparr>clusters := AList.update ?f ?c0 (clusters w)\<rparr>"
  have i0: "indexed pub ?w0" using assms(2) by (simp add: indexed_def)
  have c0: "map_of (clusters ?w0) ?f = Some ?c0" by simp
  have none: "cl_favorite ?c0 = None" by (simp add: init_cluster_monitor_def)
  then have "favorite_known ?c0" "takes_over pillar t (servers ?w0) ?c0 minion"
    by (simp_all add: favorite_known_def takes_over_def)
  with is_favorite_run [OF assms(1) i0 c0, of pillar t minion] obtain w1 c1
    where w1: "is_favorite pillar t ?f minion ?w0 = (Inr True, w1)"
      "map_of (clusters w1) ?f = Some c1" "cl_favorite c1 = Some minion"
      "map_of (by_request_id w1) i = given_up t minion (map_of (by_request_id w) i)"
    by auto
  let ?rest = "bnd (upd_cluster ?f (\<lambda>c. c\<lparr>cl_update_time := t\<rparr>)) (\<lambda>_.
      for_each (\<lambda>ty. bnd (lift_exn (item (hb_versions d) (sync_str ty) (sync_str ty))) (\<lambda>v.
          cm_on_version t ?f minion ty v)) SYNC_OBJECT_TYPES)"
  have run: "on_discovery pillar t minion d w = ?rest w1"
    by (simp add: on_discovery_def bnd_def modify_def on_heartbeat_def w1(1) guarded_def)
  have "obeys same_requests ?rest"
    unfolding cm_on_version_def by blast
  then have "by_request_id (snd (?rest w1)) = by_request_id w1"
    by (simp add: obeys_def same_requests_def)
  moreover have "obeys (favorite_stays ?f) ?rest"
    unfolding cm_on_version_def
    by (intro fs.obeys_bnd fs.obeys_for_each fs.obeys_lift favorite_stays_upd_cluster
        favorite_stays_on_cluster_sync) simp
  then have "map_option cl_favorite (map_of (clusters (snd (?rest w1))) ?f) = Some (Some minion)"
    using w1(2,3) by (simp add: obeys_def favorite_stays_def)
  ultimately show ?thesis
    using w1(4) assms(4,5) run by (cases "?rest w1") (auto simp: given_up_def)
qed

definition new_cluster_data :: cluster_data where
  "new_cluster_data = \<lparr>hb_fsid = ''g'', hb_name = ''lab'',
     hb_versions = map (\<lambda>ty. (sync_str ty, VInt 1)) SYNC_OBJECT_TYPES\<rparr>"

theorem discovery_fails_running_requests_witness:
  "\<exists>x w' r. on_discovery (\<lambda>_. None) 5 ''labmon'' new_cluster_data running_manager = (x, w')
     \<and> map_of (by_request_id w') ''a'' = Some r \<and> rq_fsid r = Some ''f'' \<and> rq_error r"
proof -
  have n: "\<not> has_key (clusters running_manager) (hb_fsid new_cluster_data)"
    by (simp add: running_manager_def new_cluster_data_def has_key_def)
  obtain r where r: "map_of (by_request_id running_manager) ''a'' = Some r"
      "rq_state r = Submitted" "rq_fsid r = Some ''f''"
    using one_running_eq by (auto simp: running_manager_def)
  from discovery_fails_running_requests [OF fresh_demo indexed_running n r(1,2), of "\<lambda>_. None" 5 "''labmon''"]
    r(3) show ?thesis by (fastforce simp: failed_def)
qed

text \<open>Constructing an OsdMap object divides the CRUSH weights by 65536 in the JSON object it
  is given, and it is that object which is written to the database. So a map that is read
  back when the server restarts has its weights divided by 65536 once more than the map
  that was in use before.\<close>

theorem recovery_scales_weights_again:
  assumes "cm_on_sync_object pub k t fsid minion d w = (Inr (), w1)"
    and "d = \<lparr>ob_fsid = fsid, ob_type = ''osd_map'', ob_version = v, ob_data = Some (DOsd m)\<rparr>"
    and "map_of (clusters w) fsid = Some c" and "get_version (cl_sync c) OsdMap < v"
    and "last (sm_db (servers w1)) = UpdateSyncObject fsid name type_str n t' saved"
    and "map_of (clusters w2) fsid = Some (init_cluster_monitor t0 fsid name)"
    and "w3 = snd (recover_object digest k' t1 fsid
           \<lparr>or_type = type_str, or_version = n, or_when = t', or_data = saved\<rparr> w2)"
  shows "\<exists>c1 c3 m1 m3.
      map_of (clusters w1) fsid = Some c1 \<and> so_data (objects (cl_sync c1) OsdMap) = Some (DOsd m1)
    \<and> map_of (clusters w3) fsid = Some c3 \<and> so_data (objects (cl_sync c3) OsdMap) = Some (DOsd m3)
    \<and> map bucket_weight (om_buckets m1) = map (\<lambda>b. bucket_weight b / 65536) (om_buckets m)
    \<and> map bucket_weight (om_buckets m3) = map (\<lambda>b. bucket_weight b / 65536 / 65536) (om_buckets m)"
proof -
  let ?obj = "mk_sync_object v (Some (DOsd m))"
  have ty: "item SYNC_OBJECT_STR_TYPE ''osd_map'' ''osd_map'' = Inr OsdMap"
    using sync_str_type [of OsdMap] by simp
  obtain r w' where inj: "inject_sync_object k t fsid (Some minion) ''osd_map'' v (Some (DOsd m)) w = (r, w')"
    by fastforce
  from inject_stores [OF assms(3) _ assms(4), of k t "Some minion" "Some (DOsd m)"] inj obtain c1
    where c1: "map_of (clusters w') fsid = Some c1" "objects (cl_sync c1) OsdMap = ?obj"
      and r: "\<And>x. r = Inr x \<Longrightarrow> x = Some ?obj" by auto
  have "cm_on_sync_object pub k t fsid minion d w = (case r of Inl e \<Rightarrow> (Inl e, w') | Inr _ \<Rightarrow>
      bnd (RequestCollection.on_map pub t fsid OsdMap ?obj) (\<lambda>_.
         on_servers (persist (UpdateSyncObject fsid (cl_name c) ''osd_map''
            (int_version v) t (so_data ?obj)))) w')"
    using r by (cases r) (simp_all add: cm_on_sync_object_def assms(2) bnd_def the_cluster_run [OF assms(3)]
        assert_that_def ret_def lift_exn_def ty inj mk_sync_object_def)
  with assms(1) obtain wm where m: "RequestCollection.on_map pub t fsid OsdMap ?obj w' = (Inr (), wm)"
    and w1: "on_servers (persist (UpdateSyncObject fsid (cl_name c) ''osd_map''
            (int_version v) t (so_data ?obj))) wm = (Inr (), w1)"
    by (auto simp: bnd_def split: sum.splits prod.splits)
  have cl: "clusters w1 = clusters w'"
    using obeysD [OF same_rest_on_map m] w1
    by (auto simp: same_rest_def on_servers_def zoom_def persist_def py_simps)
  have "last (sm_db (servers w1)) = UpdateSyncObject fsid (cl_name c) ''osd_map'' (int_version v) t (so_data ?obj)"
    using w1 by (auto simp: on_servers_def zoom_def persist_def py_simps)
  with assms(5) have row: "type_str = ''osd_map''" "saved = so_data ?obj" by simp_all
  have s: "so_data ?obj = Some (DOsd (init_osd_map m))" by (simp add: mk_sync_object_def)
  let ?c0 = "init_cluster_monitor t0 fsid name"
  let ?v = "if truthy_version n then VInt (the n) else VStr (digest saved)"
  obtain w2' c2 where w2': "bnd (the_cluster fsid) (\<lambda>c. guarded (cl_update_time c < t')
            (upd_cluster fsid (\<lambda>c. c\<lparr>cl_update_time := t'\<rparr>))) w2 = (Inr (), w2')"
      "map_of (clusters w2') fsid = Some c2" "cl_sync c2 = init_sync_objects name"
    by (cases "t0 < t'") (auto simp: bnd_def the_cluster_run [OF assms(6)] guarded_def ret_def
        upd_cluster_run [OF assms(6)] init_cluster_monitor_def assms(6))
  have "get_version (cl_sync c2) OsdMap < ?v"
    by (simp add: w2'(3) init_sync_objects_def get_version_def mk_sync_object_def less_version_def)
  from inject_stores [OF w2'(2) _ this, of k' t1 None saved] obtain c3
    where c3: "map_of (clusters (snd (inject_sync_object k' t1 fsid None ''osd_map'' ?v saved w2'))) fsid = Some c3"
      "objects (cl_sync c3) OsdMap = mk_sync_object ?v saved" by auto
  have "w3 = snd (bnd (inject_sync_object k' t1 fsid None ''osd_map'' ?v saved) (\<lambda>_. ret ()) w2')"
    using w2'(1) by (simp add: assms(7) recover_object_def row(1) bnd_def the_cluster_run [OF assms(6)]
        split: prod.splits sum.splits)
  then have "clusters w3 = clusters (snd (inject_sync_object k' t1 fsid None ''osd_map'' ?v saved w2'))"
    by (auto simp: bnd_def ret_def split: prod.splits sum.splits)
  with c3 row(2) s have "map_of (clusters w3) fsid = Some c3"
    "so_data (objects (cl_sync c3) OsdMap) = Some (DOsd (init_osd_map (init_osd_map m)))"
    by (simp_all add: mk_sync_object_def)
  then show ?thesis
    using c1 cl s
    by (intro exI [of _ c1] exI [of _ c3] exI [of _ "init_osd_map m"] exI [of _ "init_osd_map (init_osd_map m)"])
      (simp add: init_osd_map_def filter_crush_nodes_def filter_crush_node_def Let_def comp_def)
qed

definition weighted_map :: osd_map_data where
  "weighted_map = \<lparr>om_fsid = ''f'', om_epoch = 7, om_osds = [], om_pools = [], om_tree = [],
     om_buckets = [\<lparr>bucket_id = -1, bucket_name = ''default'', bucket_type = ''root'', bucket_weight = 131072,
       bucket_items = []\<rparr>],
     om_rules = [], om_types = [], om_metadata = [], om_flags = None\<rparr>"

definition weighted_object :: cluster_object where
  "weighted_object = \<lparr>ob_fsid = ''f'', ob_type = ''osd_map'', ob_version = VInt 7, ob_data = Some (DOsd weighted_map)\<rparr>"

lemma weighted_run:
  "fst (cm_on_sync_object demo_pub 9 5 ''f'' ''mon0'' weighted_object late_manager) = Inr ()"
  by code_simp

lemma weighted_row:
  "last (sm_db (servers (snd (cm_on_sync_object demo_pub 9 5 ''f'' ''mon0'' weighted_object late_manager))))
     = UpdateSyncObject ''f'' ''ceph'' ''osd_map'' (Some 7) 5 (Some (DOsd (init_osd_map weighted_map)))"
  by code_simp

theorem recovery_scales_weights_again_witness:
  "\<exists>w1 (w3 :: manager) c1 c3 m1 m3. cm_on_sync_object demo_pub 9 5 ''f'' ''mon0'' weighted_object late_manager = (Inr (), w1)
     \<and> map_of (clusters w1) ''f'' = Some c1 \<and> so_data (objects (cl_sync c1) OsdMap) = Some (DOsd m1)
     \<and> map_of (clusters w3) ''f'' = Some c3 \<and> so_data (objects (cl_sync c3) OsdMap) = Some (DOsd m3)
     \<and> map bucket_weight (om_buckets m1) = [2] \<and> map bucket_weight (om_buckets m3) = [1 / 32768]"
proof -
  obtain w1 where w1: "cm_on_sync_object demo_pub 9 5 ''f'' ''mon0'' weighted_object late_manager = (Inr (), w1)"
    using weighted_run by (metis prod.collapse)
  have row: "last (sm_db (servers w1)) =
      UpdateSyncObject ''f'' ''ceph'' ''osd_map'' (Some 7) 5 (Some (DOsd (init_osd_map weighted_map)))"
    using weighted_row w1 by simp
  let ?w2 = "init_manager\<lparr>clusters := [(''f'', init_cluster_monitor 90 ''f'' ''ceph'')]\<rparr>"
  have c: "map_of (clusters late_manager) ''f'' = Some demo_cluster"
      "get_version (cl_sync demo_cluster) OsdMap < VInt 7"
      "map_of (clusters ?w2) ''f'' = Some (init_cluster_monitor 90 ''f'' ''ceph'')"
    by (simp_all add: late_manager_def demo_cluster_def init_sync_objects_def get_version_def
        mk_sync_object_def less_version_def)
  have weights: "map (\<lambda>b. bucket_weight b / 65536) (om_buckets weighted_map) = [2]"
    "map (\<lambda>b. bucket_weight b / 65536 / 65536) (om_buckets weighted_map) = [1 / 32768]"
    by (simp_all add: weighted_map_def)
  let ?w3 = "snd (recover_object (\<lambda>_. '''') 9 95 ''f'' \<lparr>or_type = ''osd_map'', or_version = Some 7,
      or_when = 5, or_data = Some (DOsd (init_osd_map weighted_map))\<rparr> ?w2)"
  from recovery_scales_weights_again [OF w1 weighted_object_def c(1,2) row c(3) refl, where digest = "\<lambda>_. ''''"
      and k' = 9 and ?t1.0 = 95]
  obtain c1 c3 m1 m3 where "map_of (clusters w1) ''f'' = Some c1" "so_data (objects (cl_sync c1) OsdMap) = Some (DOsd m1)"
    "map_of (clusters ?w3) ''f'' = Some c3" "so_data (objects (cl_sync c3) OsdMap) = Some (DOsd m3)"
    "map bucket_weight (om_buckets m1) = [2]" "map bucket_weight (om_buckets m3) = [1 / 32768]"
    unfolding weights by auto
  with w1 show ?thesis
    by (intro exI [of _ w1] exI [of _ ?w3] exI [of _ c1] exI [of _ c3] exI [of _ m1] exI [of _ m3]) simp
qed

end
