(* ===== verification/Rpc.thy ===== *)
theory Rpc
  imports Manager
begin

text \<open>
  The RPC interface (cthulhu/manager/rpc.py) through which the REST API reads the state
  of the process and changes the clusters. Each method has the type of its result; the
  error values are the exceptions that reach the caller.
\<close>

section \<open>Resolving names\<close>

text \<open>\<open>try: ... except KeyError: raise e\<close>.\<close>

definition key_error_as :: "exn \<Rightarrow> ('s, 'a) py \<Rightarrow> ('s, 'a) py" where
  "key_error_as e m = try_except m (\<lambda>x. case x of KeyError _ \<Rightarrow> raise e | _ \<Rightarrow> raise x)"

definition fs_resolve :: "string \<Rightarrow> cluster mg_py" where
  "fs_resolve fsid = key_error_as (NotFound ''cluster'' fsid) (the_cluster fsid)"

definition server_resolve :: "string \<Rightarrow> server_state mg_py" where
  "server_resolve fqdn =
     bnd (key_error_as (NotFound ''server'' fqdn) (on_servers (get_one fqdn))) (\<lambda>a.
     on_servers (server_at a))"

definition cluster_osd_map :: "cluster \<Rightarrow> osd_map_data option" where
  "cluster_osd_map c = osd_map_of (objects (cl_sync c) OsdMap)"

definition osd_resolve :: "cluster \<Rightarrow> int \<Rightarrow> osd_entry mg_py" where
  "osd_resolve c i = key_error_as (NotFound ''osd'' (str_int i))
     (lift_exn (item (osds_by_id (cluster_osd_map c)) i (str_int i)))"

definition pool_resolve :: "cluster \<Rightarrow> int \<Rightarrow> pool mg_py" where
  "pool_resolve c i = key_error_as (NotFound ''pool'' (str_int i))
     (lift_exn (item (pools_by_id (cluster_osd_map c)) i (str_int i)))"

section \<open>Clusters\<close>

record cluster_dump =
  cd_id :: string
  cd_name :: string
  cd_update_time :: string

definition rpc_get_cluster :: "manager \<Rightarrow> string \<Rightarrow> cluster_dump option" where
  "rpc_get_cluster w fsid = (case map_of (clusters w) fsid of
       None \<Rightarrow> None
     | Some c \<Rightarrow> Some \<lparr>cd_id = cl_fsid c, cd_name = cl_name c, cd_update_time = isoformat (cl_update_time c)\<rparr>)"

definition rpc_list_clusters :: "manager \<Rightarrow> cluster_dump option list" where
  "rpc_list_clusters w = map (rpc_get_cluster w) (keys (clusters w))"

definition rpc_delete_cluster :: "string \<Rightarrow> unit mg_py" where
  "rpc_delete_cluster fsid =
     bnd (on_servers (delete_cluster_services fsid)) (\<lambda>_. manager_delete_cluster fsid)"

text \<open>Without a path into the object.\<close>

definition rpc_get_sync_object :: "string \<Rightarrow> string \<Rightarrow> sync_data option mg_py" where
  "rpc_get_sync_object fsid type_str =
     bnd (fs_resolve fsid) (\<lambda>c.
     bnd (lift_exn (item SYNC_OBJECT_STR_TYPE type_str type_str)) (\<lambda>ty.
     ret (get_data (cl_sync c) ty)))"

section \<open>Operations on the objects of a cluster\<close>

definition OSD_MAP :: obj_type where "OSD_MAP = OtherType ''osd_map''"

definition CRUSH_RULE :: obj_type where "CRUSH_RULE = OtherType ''crush_rule''"

definition CRUSH_TYPE :: obj_type where "CRUSH_TYPE = OtherType ''crush_type''"

definition with_id :: "int \<Rightarrow> obj_attributes \<Rightarrow> obj_attributes" where
  "with_id i as = (case as of
       Attrs a \<Rightarrow> Attrs (if has_key a ''id'' then a else AList.update ''id'' (JInt i) a)
     | _ \<Rightarrow> as)"

definition unsupported :: "obj_type \<Rightarrow> 'a mg_py" where
  "unsupported ty = raise (NotImplementedError (obj_type_str ty))"

definition rpc_update ::
  "(nat \<Rightarrow> string option) \<Rightarrow> string \<Rightarrow> time \<Rightarrow> string \<Rightarrow> obj_type \<Rightarrow> int \<Rightarrow> obj_attributes \<Rightarrow> string option mg_py" where
  "rpc_update pub rid t fsid ty i as =
     bnd (fs_resolve fsid) (\<lambda>c.
     if ty = OSD then
       bnd (osd_resolve c i) (\<lambda>_. cluster_request pub rid t fsid OSD (Update i (with_id i as)))
     else if ty = POOL then
       bnd (pool_resolve c i) (\<lambda>_. cluster_request pub rid t fsid POOL (Update i (with_id i as)))
     else if ty = OSD_MAP then cluster_request pub rid t fsid OSD (UpdateConfig as)
     else if ty = CRUSH_MAP then cluster_request pub rid t fsid CRUSH_MAP (Update i as)
     else if ty = CRUSH_NODE then cluster_request pub rid t fsid CRUSH_NODE (Update i as)
     else unsupported ty)"

definition rpc_apply ::
  "(nat \<Rightarrow> string option) \<Rightarrow> string \<Rightarrow> time \<Rightarrow> string \<Rightarrow> obj_type \<Rightarrow> int \<Rightarrow> string \<Rightarrow> string option mg_py" where
  "rpc_apply pub rid t fsid ty i cmd =
     bnd (fs_resolve fsid) (\<lambda>c.
     if ty = OSD then
       bnd (osd_resolve c i) (\<lambda>_. cluster_request pub rid t fsid OSD (Apply cmd i))
     else unsupported ty)"

definition rpc_get_valid_commands ::
  "string \<Rightarrow> obj_type \<Rightarrow> int list \<Rightarrow> (int, string list) dict mg_py" where
  "rpc_get_valid_commands fsid ty ids =
     (if ty \<noteq> OSD then unsupported ty
      else bnd (fs_resolve fsid) (\<lambda>c.
        try_except (cluster_valid_commands fsid ty ids)
          (\<lambda>e. case e of KeyError k \<Rightarrow> raise (NotFound (obj_type_str ty) k) | _ \<Rightarrow> raise e)))"

definition rpc_create ::
  "(nat \<Rightarrow> string option) \<Rightarrow> string \<Rightarrow> time \<Rightarrow> string \<Rightarrow> obj_type \<Rightarrow> obj_attributes \<Rightarrow> string option mg_py" where
  "rpc_create pub rid t fsid ty as =
     bnd (fs_resolve fsid) (\<lambda>_.
     if ty = POOL then cluster_request pub rid t fsid POOL (Create as)
     else if ty = CRUSH_NODE then cluster_request pub rid t fsid CRUSH_NODE (Create as)
     else unsupported ty)"

definition rpc_delete ::
  "(nat \<Rightarrow> string option) \<Rightarrow> string \<Rightarrow> time \<Rightarrow> string \<Rightarrow> obj_type \<Rightarrow> int \<Rightarrow> string option mg_py" where
  "rpc_delete pub rid t fsid ty i =
     bnd (fs_resolve fsid) (\<lambda>_.
     if ty = POOL then cluster_request pub rid t fsid POOL (Delete i)
     else if ty = CRUSH_NODE then cluster_request pub rid t fsid CRUSH_NODE (Delete i)
     else unsupported ty)"

datatype rpc_object =
    OneOsd osd_entry
  | OnePool pool
  | OneNode crush_bucket
  | OneType crush_type

definition rpc_get :: "string \<Rightarrow> obj_type \<Rightarrow> int \<Rightarrow> rpc_object mg_py" where
  "rpc_get fsid ty i =
     bnd (fs_resolve fsid) (\<lambda>c.
     if ty = OSD then bnd (osd_resolve c i) (\<lambda>x. ret (OneOsd x))
     else if ty = POOL then bnd (pool_resolve c i) (\<lambda>x. ret (OnePool x))
     else if ty = CRUSH_NODE then
       bnd (key_error_as (NotFound ''crush_node'' (str_int i))
              (lift_exn (item (crush_node_by_id (cluster_osd_map c)) i (str_int i)))) (\<lambda>x. ret (OneNode x))
     else if ty = CRUSH_TYPE then
       bnd (key_error_as (NotFound ''crush_type'' (str_int i))
              (lift_exn (then_do (crush_type_by_id (cluster_osd_map c)) (\<lambda>d. item d i (str_int i)))))
         (\<lambda>x. ret (OneType x))
     else unsupported ty)"

datatype rpc_list =
    Osds "osd_entry list"
  | Pools "pool list"
  | Rules "crush_rule list"
  | Buckets "crush_bucket list"
  | CrushTypes "crush_type list"
  | NoObjects

record list_filter =
  lf_id_in :: "int list option"
  lf_pool :: "int option"

text \<open>The error for an unknown pool is built with one argument too few.\<close>

definition filter_osds :: "nat \<Rightarrow> osd_map_data \<Rightarrow> list_filter \<Rightarrow> exn + osd_entry list" where
  "filter_osds k d f =
     (let result = (case lf_id_in f of None \<Rightarrow> om_osds d | Some is \<Rightarrow> filter (\<lambda>x. osd x \<in> set is) (om_osds d))
      in case lf_pool f of
           None \<Rightarrow> Inr result
         | Some p \<Rightarrow> (case then_do (osds_by_pool k d) (\<lambda>m. item m p (str_int p)) of
               Inl (KeyError _) \<Rightarrow> Inl TypeError
             | Inl e \<Rightarrow> Inl e
             | Inr osds_in_pool \<Rightarrow> Inr (filter (\<lambda>x. osd x \<in> set osds_in_pool) result)))"

definition rpc_list :: "nat \<Rightarrow> string \<Rightarrow> obj_type \<Rightarrow> list_filter \<Rightarrow> rpc_list mg_py" where
  "rpc_list k fsid ty f =
     bnd (fs_resolve fsid) (\<lambda>c. case cluster_osd_map c of
         None \<Rightarrow> ret NoObjects
       | Some d \<Rightarrow>
           (if ty = OSD then bnd (lift_exn (filter_osds k d f)) (\<lambda>xs. ret (Osds xs))
            else if ty = POOL then ret (Pools (om_pools d))
            else if ty = CRUSH_RULE then ret (Rules (om_rules d))
            else if ty = CRUSH_NODE then ret (Buckets (om_buckets d))
            else if ty = CRUSH_TYPE then ret (CrushTypes (om_types d))
            else unsupported ty))"

section \<open>Requests\<close>

record request_dump =
  rd_id :: string
  rd_state :: string
  rd_error :: bool
  rd_error_message :: string
  rd_status :: string
  rd_headline :: string
  rd_requested_at :: string
  rd_completed_at :: "string option"

fun state_str :: "request_state \<Rightarrow> string" where
  "state_str New = ''new''"
| "state_str Submitted = ''submitted''"
| "state_str Complete = ''complete''"

definition dump_request :: "request \<Rightarrow> request_dump" where
  "dump_request r =
     \<lparr>rd_id = rq_id r, rd_state = state_str (rq_state r), rd_error = rq_error r,
      rd_error_message = rq_error_message r, rd_status = status r, rd_headline = rq_headline r,
      rd_requested_at = isoformat (rq_requested_at r),
      rd_completed_at = map_option isoformat (rq_completed_at r)\<rparr>"

definition rpc_get_request :: "string \<Rightarrow> request_dump mg_py" where
  "rpc_get_request rid =
     key_error_as (NotFound ''request'' rid) (bnd (get_request rid) (\<lambda>r. ret (dump_request r)))"

definition rpc_cancel_request :: "time \<Rightarrow> string \<Rightarrow> request_dump mg_py" where
  "rpc_cancel_request t rid =
     key_error_as (NotFound ''request'' rid) (bnd (cancel t rid) (\<lambda>_. rpc_get_request rid))"

text \<open>\<open>sorted\<close> with the arguments of \<open>cmp\<close> swapped: newest first, ties in order.\<close>

definition rpc_list_requests :: "string option \<Rightarrow> string option \<Rightarrow> manager \<Rightarrow> request_dump list" where
  "rpc_list_requests st fsid w =
     rev (sort_key rd_requested_at (rev (map dump_request
       (filter (\<lambda>r. (st = None \<or> st = Some (state_str (rq_state r))) \<and> (fsid = None \<or> rq_fsid r = fsid))
         (RequestCollection.get_all None w)))))"

definition rpc_debug_job ::
  "(nat \<Rightarrow> string option) \<Rightarrow> string \<Rightarrow> time \<Rightarrow> string \<Rightarrow> string \<Rightarrow> jval list \<Rightarrow> string mg_py" where
  "rpc_debug_job pub rid t minion cmd args =
     (let r = new_request rid t (SaltRequest cmd args) (''salt: '' @ cmd @ '': '' @ str_jval (JList args)) None None []
      in bnd (submit_request pub t r minion) (\<lambda>_. ret rid))"

section \<open>Minions\<close>

text \<open>The key lists and the operations on keys are salt's.\<close>

record key_lists =
  minions_pre :: "string list"
  minions_rejected :: "string list"
  minions :: "string list"

definition minion_status :: "key_lists \<Rightarrow> string option \<Rightarrow> (string \<times> string) list" where
  "minion_status ks f =
     filter (\<lambda>(m, st). (case f of None \<Rightarrow> True | Some x \<Rightarrow> x = [] \<or> st = x))
       (map (\<lambda>m. (m, ''pre'')) (minions_pre ks) @ map (\<lambda>m. (m, ''rejected'')) (minions_rejected ks)
        @ map (\<lambda>m. (m, ''accepted'')) (minions ks))"

definition minion_get :: "(string \<Rightarrow> (string, string list) dict) \<Rightarrow> string \<Rightarrow> exn + string \<times> string" where
  "minion_get name_match m =
     (let result = name_match m
      in if result = [] then Inl (NotFound ''server'' m)
         else if has_key result ''minions'' then Inr (m, ''accepted'')
         else if has_key result ''minions_pre'' then Inr (m, ''pre'')
         else if has_key result ''minions_rejected'' then Inr (m, ''rejected'')
         else Inl (ValueError (join '', '' (keys result))))"

definition minion_change ::
  "(string \<Rightarrow> (string, string list) dict) \<Rightarrow> (string \<Rightarrow> 'a) \<Rightarrow> string \<Rightarrow> exn + 'a" where
  "minion_change name_match change m = then_do (minion_get name_match m) (\<lambda>_. Inr (change m))"

section \<open>Servers\<close>

definition rpc_server_get :: "string \<Rightarrow> server_dump mg_py" where
  "rpc_server_get fqdn =
     bnd (server_resolve fqdn) (\<lambda>s. bnd get_state (\<lambda>w. ret (dump (servers w) s)))"

definition servers_at :: "manager \<Rightarrow> address list \<Rightarrow> server_state list" where
  "servers_at w as = map the (map (map_of (sm_heap (servers w))) as)"

definition rpc_server_list :: "manager \<Rightarrow> server_dump list" where
  "rpc_server_list w = map (dump (servers w)) (servers_at w (get_all_servers (servers w)))"

definition dump_in_cluster :: "cluster \<Rightarrow> server_state \<Rightarrow> server_dump mg_py" where
  "dump_in_cluster c s =
     bnd get_state (\<lambda>w. lift_exn (dump_cluster (servers w) s (cl_fsid c)
       (case get_data (cl_sync c) MonMap of Some (DMon d) \<Rightarrow> Some d | _ \<Rightarrow> None) (cluster_osd_map c)))"

definition rpc_server_get_cluster :: "string \<Rightarrow> string \<Rightarrow> server_dump mg_py" where
  "rpc_server_get_cluster fqdn fsid =
     bnd (server_resolve fqdn) (\<lambda>s. bnd (fs_resolve fsid) (\<lambda>c. dump_in_cluster c s))"

fun map_py :: "('a \<Rightarrow> ('s, 'b) py) \<Rightarrow> 'a list \<Rightarrow> ('s, 'b list) py" where
  "map_py f [] = ret []"
| "map_py f (x # xs) = bnd (f x) (\<lambda>y. bnd (map_py f xs) (\<lambda>ys. ret (y # ys)))"

text \<open>The cluster is looked up for each server of the list.\<close>

definition rpc_server_list_cluster :: "string \<Rightarrow> server_dump list mg_py" where
  "rpc_server_list_cluster fsid =
     bnd (on_servers (get_all_cluster fsid)) (\<lambda>as.
     map_py (\<lambda>a. bnd (the_cluster fsid) (\<lambda>c. bnd (on_servers (server_at a)) (\<lambda>s. dump_in_cluster c s))) as)"

definition rpc_server_by_service :: "manager \<Rightarrow> service_id list \<Rightarrow> (service_id \<times> string option) list" where
  "rpc_server_by_service w ss = list_by_service (servers w) ss"

definition rpc_server_delete :: "string \<Rightarrow> unit mg_py" where
  "rpc_server_delete fqdn = on_servers (delete_server fqdn)"

definition rpc_status_by_service ::
  "service_id list \<Rightarrow> (bool \<times> string \<times> string option) option list mg_py" where
  "rpc_status_by_service ss =
     bnd get_state (\<lambda>w.
     map_py (\<lambda>v. case v of
         None \<Rightarrow> ret None
       | Some x \<Rightarrow> (case sv_server x of
           None \<Rightarrow> raise AttributeError
         | Some a \<Rightarrow> bnd (on_servers (server_at a)) (\<lambda>s. ret (Some (sv_running x, ss_fqdn s, sv_status x)))))
       (get_services (servers w) ss))"

end
