(* ===== verification/System.thy ===== *)
theory System
  imports Rpc
begin

text \<open>
  The process as a whole: what reaches it from salt, from its timers and from the REST
  API, the states such inputs lead to after recovery, and what holds in all of them.
\<close>

section \<open>Inputs\<close>

text \<open>
  What the process relies on: salt's publisher, the pillar, the grains of the minions, the
  digest of stored objects and the depth of recursion Python allows.
\<close>

record environment =
  env_pub :: "nat \<Rightarrow> string option"
  env_pillar :: "string \<Rightarrow> int option"
  env_grains :: "string \<Rightarrow> exn + string"
  env_digest :: "sync_data option \<Rightarrow> string"
  env_depth :: nat

datatype mg_input =
    TopLevelEvent time salt_event
  | ClusterEvent time string salt_event
  | ServerEvent time salt_event
  | RequestTick time
  | EventTick time
  | RpcUpdate string time string obj_type int obj_attributes
  | RpcApply string time string obj_type int string
  | RpcCreate string time string obj_type obj_attributes
  | RpcDelete string time string obj_type int
  | RpcCancel time string
  | RpcDebugJob string time string string "jval list"
  | RpcDeleteCluster string
  | RpcDeleteServer string

definition ignore_result :: "'a mg_py \<Rightarrow> unit mg_py" where
  "ignore_result m = bnd m (\<lambda>_. ret ())"

text \<open>A cluster's event loop runs only while the cluster is in the Manager's dictionary.\<close>

fun mg_step :: "environment \<Rightarrow> mg_input \<Rightarrow> unit mg_py" where
  "mg_step e (TopLevelEvent t ev) = top_level_event (env_pub e) (env_pillar e) t ev"
| "mg_step e (ClusterEvent t fsid ev) = bnd get_state (\<lambda>w. guarded (has_key (clusters w) fsid)
     (cluster_event (env_pub e) (env_pillar e) (env_depth e) t fsid ev))"
| "mg_step e (ServerEvent t ev) = server_event (env_grains e) t ev"
| "mg_step e (RequestTick t) = tick t"
| "mg_step e (EventTick t) = eventer_tick (env_pillar e) t"
| "mg_step e (RpcUpdate rid t fsid ty i as) = ignore_result (rpc_update (env_pub e) rid t fsid ty i as)"
| "mg_step e (RpcApply rid t fsid ty i cmd) = ignore_result (rpc_apply (env_pub e) rid t fsid ty i cmd)"
| "mg_step e (RpcCreate rid t fsid ty as) = ignore_result (rpc_create (env_pub e) rid t fsid ty as)"
| "mg_step e (RpcDelete rid t fsid ty i) = ignore_result (rpc_delete (env_pub e) rid t fsid ty i)"
| "mg_step e (RpcCancel t rid) = ignore_result (rpc_cancel_request t rid)"
| "mg_step e (RpcDebugJob rid t minion cmd args) = ignore_result (rpc_debug_job (env_pub e) rid t minion cmd args)"
| "mg_step e (RpcDeleteCluster fsid) = rpc_delete_cluster fsid"
| "mg_step e (RpcDeleteServer fqdn) = rpc_server_delete fqdn"

text \<open>
  If recovery fails the process exits. Afterwards an input whose handling raises leaves the
  state it reached: the loops and the RPC server go on.
\<close>

inductive reachable :: "environment \<Rightarrow> manager \<Rightarrow> bool" for e where
  started: "recover (env_digest e) (env_depth e) t svs srs crs init_manager = (Inr (), w) \<Longrightarrow> reachable e w"
| stepped: "reachable e w \<Longrightarrow> mg_step e i w = (x, w') \<Longrightarrow> reachable e w'"

section \<open>What holds of every cluster\<close>

text \<open>
  \<open>P\<close> is a property of the copies of the cluster maps: \<open>settled\<close> during recovery,
  when no fetch can be under way, and \<open>all_tracked\<close> from then on.
\<close>

definition cluster_sound :: "(sync_objects \<Rightarrow> bool) \<Rightarrow> string \<Rightarrow> cluster \<Rightarrow> bool" where
  "cluster_sound P fsid c \<longleftrightarrow> cl_fsid c = fsid \<and> favorite_known c
     \<and> so_cluster_name (cl_sync c) = cl_name c \<and> P (cl_sync c)"

definition clusters_sound :: "(sync_objects \<Rightarrow> bool) \<Rightarrow> 'z hub_scheme \<Rightarrow> bool" where
  "clusters_sound P w \<longleftrightarrow> distinct (keys (clusters w))
     \<and> (\<forall>fsid c. map_of (clusters w) fsid = Some c \<longrightarrow> cluster_sound P fsid c)"

definition all_tracked :: "sync_objects \<Rightarrow> bool" where
  "all_tracked s \<longleftrightarrow> (\<forall>ty. versioned ty \<longrightarrow> tracked s ty)"

definition settled :: "sync_objects \<Rightarrow> bool" where
  "settled s \<longleftrightarrow> (\<forall>ty. versioned ty \<longrightarrow> known_versions s ty = get_version s ty)"

lemma settled_tracked: "settled s \<Longrightarrow> all_tracked s"
  by (simp add: settled_def all_tracked_def tracked_def)

lemma settled_init: "settled (init_sync_objects name)"
  by (simp add: settled_def init_sync_objects_def get_version_def mk_sync_object_def)

definition keeps_sync :: "(sync_objects \<Rightarrow> bool) \<Rightarrow> sync_objects \<times> salt_job list \<Rightarrow> sync_objects \<times> salt_job list \<Rightarrow> bool" where
  "keeps_sync P x y \<longleftrightarrow> newer x y \<and> (P (fst x) \<longrightarrow> P (fst y))"

interpretation ks: step_contract "keeps_sync P"
proof unfold_locales
  show "keeps_sync P s s" for s by (simp add: keeps_sync_def so.step_refl)
  show "keeps_sync P s t \<Longrightarrow> keeps_sync P t u \<Longrightarrow> keeps_sync P s u" for s t u
    using so.step_trans by (fastforce simp: keeps_sync_def)
qed

lemma keeps_sync_newer: "obeys (keeps_sync P) m \<Longrightarrow> obeys newer m"
  by (simp add: obeys_def keeps_sync_def)

lemma tracked_versions [intro]: "obeys (keeps_sync all_tracked) (on_version t (Some m) ty v)"
  using newer_on_version [of t "Some m" ty v] tracked_on_version [of _ _ t m ty v]
  by (auto simp: obeys_def keeps_sync_def all_tracked_def)

lemma tracked_fetches [intro]: "obeys (keeps_sync all_tracked) (on_fetch_complete t (Some m) ty v d)"
  using newer_on_fetch_complete [of t "Some m" ty v d] tracked_on_fetch_complete [of _ _ t m ty v d]
  by (auto simp: obeys_def keeps_sync_def all_tracked_def)

lemma settled_fetches [intro]: "obeys (keeps_sync settled) (on_fetch_complete t None ty v d)"
proof -
  have "settled (fst (snd (on_fetch_complete t None ty v d (s, js))))" if "settled s" for s js
    using that by (auto simp: on_fetch_complete_effect Let_def fetch_effect settled_def get_version_def
        latest_versioned sync_cmp_versioned_pos mk_sync_object_def max_def)
  then show ?thesis
    using newer_on_fetch_complete [of t None ty v d] by (auto simp: obeys_def keeps_sync_def)
qed

text \<open>Operations on clusters, as far as the cluster dictionary goes.\<close>

definition keeps_clusters :: "(sync_objects \<Rightarrow> bool) \<Rightarrow> 'z hub_scheme \<Rightarrow> 'z hub_scheme \<Rightarrow> bool" where
  "keeps_clusters P w w' \<longleftrightarrow> (clusters_sound P w \<longrightarrow> clusters_sound P w')"

interpretation kc: step_contract "keeps_clusters P :: 'z hub_scheme \<Rightarrow> 'z hub_scheme \<Rightarrow> bool"
  by unfold_locales (auto simp: keeps_clusters_def)

lemma clusters_sound_update:
  "clusters_sound P w \<Longrightarrow> cluster_sound P fsid c \<Longrightarrow> clusters w' = AList.update fsid c (clusters w) \<Longrightarrow>
     clusters_sound P w'"
  by (auto simp: clusters_sound_def distinct_update)

lemma kc_same_rest: "obeys same_rest m \<Longrightarrow> obeys (keeps_clusters P) m"
  by (simp add: obeys_def same_rest_def keeps_clusters_def clusters_sound_def)

lemma kc_on_cluster_sync [intro]:
  assumes "obeys (keeps_sync P) m"
  shows "obeys (keeps_clusters P :: 'z hub_scheme \<Rightarrow> _) (on_cluster_sync fsid m)"
proof -
  have "clusters_sound P (snd (on_cluster_sync fsid m w))" if s: "clusters_sound P w" for w :: "'z hub_scheme"
  proof (cases "map_of (clusters w) fsid")
    case None
    with s show ?thesis by (simp add: on_cluster_sync_def)
  next
    case (Some c)
    obtain x s' js' where m: "m (cl_sync c, jobs w) = (x, (s', js'))" by (metis prod.collapse)
    have c: "cluster_sound P fsid c" using s Some by (simp add: clusters_sound_def)
    then have "cluster_sound P fsid (c\<lparr>cl_sync := s'\<rparr>)"
      using obeysD [OF assms m] by (simp add: cluster_sound_def favorite_known_def keeps_sync_def newer_def)
    with s show ?thesis
      by (rule clusters_sound_update) (simp add: on_cluster_sync_def Some m)
  qed
  then show ?thesis by (simp add: obeys_def keeps_clusters_def)
qed

lemma kc_on_request [intro]: "obeys (keeps_clusters P) (on_request rid m)"
  by (rule kc_same_rest) blast

lemma kc_get_request [intro]: "obeys (keeps_clusters P) (get_request rid)"
  by (rule kc_same_rest) blast

lemma kc_update_index [intro]: "obeys (keeps_clusters P) m \<Longrightarrow> obeys (keeps_clusters P) (update_index rid m)"
  using kc_same_rest [OF same_rest_reindex] unfolding update_index_def by blast

lemma kc_notify: "obeys (keeps_clusters all_tracked) (notify_awaited t minion fsid awaited)"
  unfolding notify_awaited_def
  by (auto split: option.splits intro!: kc.obeys_for_each kc_on_cluster_sync)

lemma kc_offer: "obeys (keeps_clusters P) (offer_current pub t fsid rid awaited)"
  unfolding offer_current_def
  by (auto split: prod.splits intro!: kc.obeys_for_each kc.obeys_bnd kc.obeys_guarded)

lemma kc_on_completion: "obeys (keeps_clusters all_tracked) (on_completion pub t data)"
proof -
  have rados: "obeys (keeps_clusters all_tracked) (complete_rados pub t minion rid result)" for minion rid result
    unfolding complete_rados_def
    by (intro kc.obeys_bnd kc.obeys_guarded kc.obeys_assert kc_get_request kc_on_request)
      (auto split: option.splits intro!: kc.obeys_bnd kc_notify kc_offer)
  have ok: "obeys (keeps_clusters all_tracked) (on_rados_completion pub t minion rid result)" for minion rid result
    unfolding on_rados_completion_def
    by (auto split: job_return.splits option.splits intro!: kc.obeys_bnd kc.obeys_guarded kc.obeys_try rados)
  have bad: "obeys (keeps_clusters all_tracked) (fail_remote t rid result)" for rid result
    unfolding fail_remote_def
    by (auto split: job_return.splits option.splits intro!: kc_update_index kc.obeys_bnd)
  show ?thesis
    unfolding on_completion_def
    by (auto split: option.splits intro!: kc.obeys_bnd kc.obeys_if ok bad kc_update_index
        kc_same_rest [OF same_rest_report])
qed

section \<open>What holds of the whole state\<close>

definition sound :: "(sync_objects \<Rightarrow> bool) \<Rightarrow> (nat \<Rightarrow> string option) \<Rightarrow> manager \<Rightarrow> bool" where
  "sound P pub w \<longleftrightarrow> indexed pub w \<and> clusters_sound P w"

definition keeps_sound :: "(sync_objects \<Rightarrow> bool) \<Rightarrow> (nat \<Rightarrow> string option) \<Rightarrow> manager \<Rightarrow> manager \<Rightarrow> bool" where
  "keeps_sound P pub w w' \<longleftrightarrow> (sound P pub w \<longrightarrow> sound P pub w')"

interpretation sd: step_contract "keeps_sound P pub"
  by unfold_locales (auto simp: keeps_sound_def)

lemma sd_both:
  "obeys (keeps pub) m \<Longrightarrow> obeys (keeps_clusters P) m \<Longrightarrow> obeys (keeps_sound P pub) m"
  by (simp add: obeys_def keeps_def keeps_clusters_def keeps_sound_def sound_def)

lemma sd_requests: "obeys (keeps pub) m \<Longrightarrow> obeys same_rest m \<Longrightarrow> obeys (keeps_sound P pub) m"
  by (intro sd_both kc_same_rest)

lemma sound_other:
  "by_request_id w' = by_request_id w \<Longrightarrow> by_jid w' = by_jid w \<Longrightarrow> jobs w' = jobs w \<Longrightarrow>
     clusters w' = clusters w \<Longrightarrow> sound P pub w' = sound P pub w"
  by (simp add: sound_def indexed_def clusters_sound_def)

lemma sd_on_servers [intro]: "obeys (keeps_sound P pub) (on_servers m)"
proof -
  have "sound P pub (snd (on_servers m w)) = sound P pub w" for w
    by (rule sound_other) (simp_all add: on_servers_def snd_zoom split: prod.split)
  then show ?thesis by (simp add: obeys_def keeps_sound_def)
qed

lemma sd_only_logs: "obeys only_logs m \<Longrightarrow> obeys (keeps_sound P pub) m"
  unfolding obeys_def only_logs_def keeps_sound_def
  by (metis (no_types, lifting) hub.select_convs(1,3-5) hub.surjective hub.update_convs(2) sound_other)

lemma sd_on_cluster_sync [intro]:
  assumes "obeys (keeps_sync P) m"
  shows "obeys (keeps_sound P pub) (on_cluster_sync fsid m)"
proof (rule sd_both)
  show "obeys (keeps pub) (on_cluster_sync fsid m)"
    by (rule keeps_touch, rule touches_on_cluster_sync, rule keeps_sync_newer [OF assms])
  show "obeys (keeps_clusters P) (on_cluster_sync fsid m)" using assms by blast
qed

lemma sd_the_cluster [intro]: "obeys (keeps_sound P pub) (the_cluster fsid)"
  unfolding the_cluster_def by blast

lemma sd_upd_cluster:
  assumes "\<And>c. cluster_sound P fsid c \<Longrightarrow> cluster_sound P fsid (f c)"
  shows "obeys (keeps_sound P pub) (upd_cluster fsid f)"
proof -
  have "sound P pub (snd (upd_cluster fsid f w))" if s: "sound P pub w" for w
  proof (cases "map_of (clusters w) fsid")
    case None
    with s show ?thesis by (simp add: upd_cluster_def the_cluster_def py_simps)
  next
    case (Some c)
    let ?w' = "w\<lparr>clusters := AList.update fsid (f c) (clusters w)\<rparr>"
    have "cluster_sound P fsid c" and cs: "clusters_sound P w" and i: "indexed pub ?w'"
      using s Some by (auto simp: sound_def clusters_sound_def indexed_def)
    with assms have "cluster_sound P fsid (f c)" by blast
    from clusters_sound_update [OF cs this, of ?w'] i show ?thesis
      by (simp add: upd_cluster_run [OF Some] sound_def)
  qed
  then show ?thesis by (simp add: obeys_def keeps_sound_def)
qed

lemma sd_new_cluster:
  assumes "P (init_sync_objects name)"
  shows "obeys (keeps_sound P pub)
    (modify (\<lambda>w. w\<lparr>clusters := AList.update fsid (init_cluster_monitor t fsid name) (clusters w)\<rparr>))"
proof (rule sd.obeys_modify)
  fix w
  have "cluster_sound P fsid (init_cluster_monitor t fsid name)"
    using assms by (simp add: cluster_sound_def init_cluster_monitor_def favorite_known_def init_sync_objects_def)
  then show "keeps_sound P pub w (w\<lparr>clusters := AList.update fsid (init_cluster_monitor t fsid name) (clusters w)\<rparr>)"
    by (simp add: keeps_sound_def sound_def indexed_def clusters_sound_update [of P w fsid])
qed

lemma sd_is_favorite:
  assumes "fresh_ids pub"
  shows "obeys (keeps_sound P pub) (is_favorite pillar t fsid minion)"
proof -
  have "sound P pub (snd (is_favorite pillar t fsid minion w))" if s: "sound P pub w" for w
  proof (cases "map_of (clusters w) fsid")
    case None
    with s show ?thesis by (simp add: is_favorite_def upd_cluster_def the_cluster_def py_simps)
  next
    case (Some c)
    have i: "indexed pub w" and cs: "clusters_sound P w" and c: "cluster_sound P fsid c"
      using s Some by (auto simp: sound_def clusters_sound_def)
    then have "favorite_known c" by (simp add: cluster_sound_def)
    from is_favorite_run [OF assms i Some this, of pillar t minion] obtain x w' c'
      where w': "is_favorite pillar t fsid minion w = (x, w')" "indexed pub w'"
        "clusters w' = AList.update fsid c' (clusters w)"
      and c': "c' = c\<lparr>cl_last_heartbeat := AList.update minion t (cl_last_heartbeat c),
          cl_favorite := (if takes_over pillar t (servers w) c minion then Some minion else cl_favorite c)\<rparr>"
      by blast
    have "cluster_sound P fsid c'" using c by (auto simp: c' cluster_sound_def favorite_known_def)
    from clusters_sound_update [OF cs this w'(3)] w'(1,2) show ?thesis by (simp add: sound_def)
  qed
  then show ?thesis by (simp add: obeys_def keeps_sound_def)
qed

lemma sd_on_heartbeat:
  assumes "fresh_ids pub"
  shows "obeys (keeps_sound all_tracked pub) (on_heartbeat pillar t fsid minion d)"
  unfolding on_heartbeat_def cm_on_version_def
  by (intro sd.obeys_bnd sd.obeys_guarded sd.obeys_for_each sd.obeys_lift sd_is_favorite assms
      sd_upd_cluster sd_on_cluster_sync tracked_versions)
    (simp add: cluster_sound_def favorite_known_def)

lemma sd_tell_servers [intro]: "obeys (keeps_sound P pub) (tell_servers k fsid ty d)"
  unfolding tell_servers_def
  by (auto split: option.splits sync_data.splits)

lemma sd_inject:
  assumes "\<And>ty. obeys (keeps_sync P) (on_fetch_complete t minion ty v d)"
  shows "obeys (keeps_sound P pub) (inject_sync_object k t fsid minion type_str v d)"
  unfolding inject_sync_object_def get_sync_object_def
  by (auto intro!: sd.obeys_bnd sd_on_cluster_sync assms sd_only_logs [OF only_logs_eventer]
      split: option.splits)

lemma sd_on_sync_object:
  assumes "fresh_ids pub"
  shows "obeys (keeps_sound all_tracked pub) (cm_on_sync_object pub k t fsid minion d)"
  unfolding cm_on_sync_object_def
  by (auto intro!: sd.obeys_bnd sd_inject sd_requests [OF keeps_on_map [OF assms] same_rest_on_map]
      split: option.splits)

lemma sd_tick_response [intro]: "obeys (keeps_sound P pub) (tick_response t r)"
  unfolding tick_response_def
  by (auto intro!: sd_requests [OF keeps_tick_response same_rest_tick_response]
      split: event_return.splits job_return.splits)

lemma sd_swallow [intro]: "obeys (keeps_sound P pub) m \<Longrightarrow> obeys (keeps_sound P pub) (swallow m)"
  unfolding swallow_def by blast

lemma sd_on_discovery:
  assumes "fresh_ids pub"
  shows "obeys (keeps_sound all_tracked pub) (on_discovery pillar t minion d)"
  unfolding on_discovery_def
  by (intro sd.obeys_bnd sd_on_heartbeat assms sd_new_cluster settled_tracked settled_init)

lemma sd_top_level_event:
  assumes "fresh_ids pub"
  shows "obeys (keeps_sound all_tracked pub) (top_level_event pub pillar t ev)"
  unfolding top_level_event_def
  by (auto intro!: sd_swallow sd.obeys_if sd.obeys_bnd sd_on_discovery
      sd_both [OF keeps_on_completion kc_on_completion] assms split: event_data.splits)

lemma sd_cluster_event:
  assumes "fresh_ids pub"
  shows "obeys (keeps_sound all_tracked pub) (cluster_event pub pillar k t fsid ev)"
  unfolding cluster_event_def
  by (auto intro!: sd_swallow sd.obeys_if sd.obeys_bnd sd_on_heartbeat sd_on_sync_object assms
      split: event_data.splits event_return.splits)

lemma sd_server_event: "obeys (keeps_sound P pub) (server_event grains t ev)"
  unfolding server_event_def by (auto split: event_data.splits)

lemma sd_modify_other:
  assumes "\<And>w. by_request_id (f w) = by_request_id w \<and> by_jid (f w) = by_jid w \<and> jobs (f w) = jobs w
      \<and> clusters (f w) = clusters w"
  shows "obeys (keeps_sound P pub) (modify f)"
proof -
  have "sound P pub (f w) = sound P pub w" for w
    by (rule sound_other) (simp_all add: assms)
  then show ?thesis by (simp add: obeys_def modify_def keeps_sound_def)
qed

lemma sd_eventer_tick: "obeys (keeps_sound P pub) (eventer_tick pillar t)"
proof -
  have emit: "obeys (keeps_sound P pub) (mg_emit t sev msg a)" for sev msg a
    by (rule sd_only_logs) blast
  have events: "obeys (keeps_sound P pub) (on_events m)" for m :: "(event_log, unit) py"
    by (rule sd_only_logs) blast
  have flags: "obeys (keeps_sound P pub) (complain_server x)" "obeys (keeps_sound P pub) (forgive_server x)"
    "obeys (keeps_sound P pub) (complain_cluster x)" "obeys (keeps_sound P pub) (forgive_cluster x)" for x
    unfolding complain_server_def forgive_server_def complain_cluster_def forgive_cluster_def
    by (rule sd_modify_other, simp)+
  have "obeys (keeps_sound P pub) (check_server pillar t x a)" for x a
    unfolding check_server_def Let_def
    by (auto intro!: sd.obeys_bnd sd.obeys_guarded sd.obeys_if emit flags split: option.splits)
  moreover have "obeys (keeps_sound P pub) (check_cluster t x c)" for x c
    unfolding check_cluster_def Let_def
    by (auto intro!: sd.obeys_bnd sd.obeys_guarded sd.obeys_if emit flags)
  ultimately show ?thesis
    unfolding eventer_tick_def
    by (auto intro!: sd.obeys_bnd sd.obeys_for_each events split: prod.splits)
qed

lemma sd_cluster_request:
  assumes "fresh_ids pub"
  shows "obeys (keeps_sound P pub) (cluster_request pub rid t fsid ty call)"
  unfolding cluster_request_def
  by (auto intro!: sd.obeys_bnd sd.obeys_ret sd.obeys_raise sd.obeys_get sd.obeys_lift
      sd_requests [OF keeps_submit_request [OF assms] same_rest_submit] split: option.splits)

lemma sd_resolve [intro]:
  "obeys (keeps_sound P pub) (fs_resolve fsid)"
  "obeys (keeps_sound P pub) (osd_resolve c i)"
  "obeys (keeps_sound P pub) (pool_resolve c i)"
  by (auto simp: fs_resolve_def osd_resolve_def pool_resolve_def key_error_as_def intro!: sd.obeys_try
      split: exn.splits)

lemma sd_unsupported [intro]: "obeys (keeps_sound P pub) (unsupported ty)"
  unfolding unsupported_def by blast

lemma sd_rpc:
  assumes "fresh_ids pub"
  shows "obeys (keeps_sound P pub) (rpc_update pub rid t fsid ty i as)"
    and "obeys (keeps_sound P pub) (rpc_apply pub rid t fsid ty i cmd)"
    and "obeys (keeps_sound P pub) (rpc_create pub rid t fsid ty as)"
    and "obeys (keeps_sound P pub) (rpc_delete pub rid t fsid ty i)"
    and "obeys (keeps_sound P pub) (rpc_debug_job pub rid t minion fn args)"
    and "obeys (keeps_sound P pub) (rpc_cancel_request t rid)"
proof -
  note req = sd_cluster_request [OF assms]
  show "obeys (keeps_sound P pub) (rpc_update pub rid t fsid ty i as)"
    unfolding rpc_update_def by (intro sd.obeys_bnd sd.obeys_if sd_resolve sd_unsupported req)
  show "obeys (keeps_sound P pub) (rpc_apply pub rid t fsid ty i cmd)"
    unfolding rpc_apply_def by (intro sd.obeys_bnd sd.obeys_if sd_resolve sd_unsupported req)
  show "obeys (keeps_sound P pub) (rpc_create pub rid t fsid ty as)"
    unfolding rpc_create_def by (intro sd.obeys_bnd sd.obeys_if sd_resolve sd_unsupported req)
  show "obeys (keeps_sound P pub) (rpc_delete pub rid t fsid ty i)"
    unfolding rpc_delete_def by (intro sd.obeys_bnd sd.obeys_if sd_resolve sd_unsupported req)
  show "obeys (keeps_sound P pub) (rpc_debug_job pub rid t minion fn args)"
    unfolding rpc_debug_job_def Let_def
    by (intro sd.obeys_bnd sd.obeys_ret sd_requests [OF keeps_submit_request [OF assms] same_rest_submit])
  have get: "obeys (keeps_sound P pub) (rpc_get_request rid)"
    unfolding rpc_get_request_def key_error_as_def
    by (auto intro!: sd.obeys_try sd.obeys_bnd sd_requests [OF keeps_get_request same_rest_get_request]
        split: exn.splits)
  show "obeys (keeps_sound P pub) (rpc_cancel_request t rid)"
    unfolding rpc_cancel_request_def key_error_as_def
    by (auto intro!: sd.obeys_try sd.obeys_bnd get sd_requests [OF keeps_cancel [OF assms] same_rest_cancel]
        split: exn.splits)
qed

lemma sd_delete_cluster: "obeys (keeps_sound P pub) (rpc_delete_cluster fsid)"
proof -
  have "keeps_sound P pub w (w\<lparr>clusters := AList.delete fsid (clusters w)\<rparr>)" for w
    by (auto simp: keeps_sound_def sound_def indexed_def clusters_sound_def distinct_delete map_of_delete
        split: if_splits)
  then have "obeys (keeps_sound P pub) (modify (\<lambda>w. w\<lparr>clusters := AList.delete fsid (clusters w)\<rparr>))"
    by (rule sd.obeys_modify)
  then show ?thesis
    unfolding rpc_delete_cluster_def manager_delete_cluster_def by (intro sd.obeys_bnd sd_on_servers sd_the_cluster)
qed

lemma sd_step:
  assumes "fresh_ids (env_pub e)"
  shows "obeys (keeps_sound all_tracked (env_pub e)) (mg_step e i)"
  by (cases i) (auto simp: ignore_result_def rpc_server_delete_def
      intro!: sd_top_level_event sd_cluster_event sd_server_event sd_eventer_tick sd_rpc sd_delete_cluster
        sd.obeys_bnd sd.obeys_guarded sd_requests [OF keeps_tick same_rest_tick] assms)

section \<open>Recovery\<close>

lemma sd_recover: "obeys (keeps_sound settled pub) (recover digest k t svs srs crs)"
proof -
  have servers: "obeys (keeps_sound settled pub) (recover_server s)" for s
    unfolding recover_server_def by blast
  have services: "obeys (keeps_sound settled pub) (recover_service r)" for r
    unfolding recover_service_def by (auto split: option.splits)
  have objects: "obeys (keeps_sound settled pub) (recover_object digest k t fsid r)" for fsid r
    unfolding recover_object_def
    by (intro sd.obeys_bnd sd.obeys_guarded sd_the_cluster sd_upd_cluster sd_inject settled_fetches sd.obeys_ret)
      (simp add: cluster_sound_def favorite_known_def)
  have "obeys (keeps_sound settled pub) (recover_cluster digest k t r)" for r
    unfolding recover_cluster_def
    by (intro sd.obeys_bnd sd.obeys_for_each sd_new_cluster settled_init objects)
  then show ?thesis
    unfolding recover_def by (intro sd.obeys_bnd sd.obeys_for_each servers services)
qed

lemma sound_mono: "sound P pub w \<Longrightarrow> (\<And>s. P s \<Longrightarrow> Q s) \<Longrightarrow> sound Q pub w"
  by (fastforce simp: sound_def clusters_sound_def cluster_sound_def)

lemma reachable_sound:
  assumes "fresh_ids (env_pub e)" and "reachable e w"
  shows "sound all_tracked (env_pub e) w"
  using assms(2)
proof (induction rule: reachable.induct)
  case (started t svs srs crs w)
  have "sound settled (env_pub e) init_manager"
    by (simp add: sound_def init_manager_def indexed_def clusters_sound_def)
  with obeysD [OF sd_recover started] have "sound settled (env_pub e) w"
    by (simp add: keeps_sound_def)
  then show ?case by (rule sound_mono) (rule settled_tracked)
next
  case (stepped w i x w')
  with obeysD [OF sd_step [OF assms(1)] stepped.hyps(2)] show ?case by (simp add: keeps_sound_def)
qed

section \<open>A request from the RPC interface\<close>

definition new_for :: "factory_ctx \<Rightarrow> request \<Rightarrow> bool" where
  "new_for c r \<longleftrightarrow> rq_id r = fc_request_id c \<and> rq_state r = New \<and> rq_fsid r = Some (fc_fsid c) \<and> \<not> rq_error r"

lemma new_for_requests [simp]:
  "new_for c (osd_map_request c msg cmds)"
  "new_for c (rados_request c msg cmds)"
  by (simp_all add: new_for_def osd_map_request_def rados_request_def new_request_def)

lemma new_for_pg_creating:
  "new_pg_creating (fc_request_id c) t h (Some (fc_fsid c)) cl cmds pid name pgp i f b = Inr r \<Longrightarrow> new_for c r"
  by (auto simp: new_pg_creating_def new_for_def new_request_def Let_def split: sum.splits)

lemma new_for_pool_creating:
  "new_for c (new_pool_creating (fc_request_id c) t h (Some (fc_fsid c)) cl name cmds)"
  by (simp add: new_pool_creating_def new_for_def new_request_def)

lemma factory_requests:
  assumes "call_factory c host_of ty call = Inr (Some r)"
  shows "new_for c r"
  using assms
  by (cases "(c, host_of, ty, call)" rule: call_factory.cases)
    (auto simp: then_do_eq_Inr grow_pool_def osd_update_def osd_update_config_def osd_apply_def osd_scrub_def
      osd_deep_scrub_def osd_repair_def pool_delete_def pool_create_def pool_update_def crush_update_def
      crush_node_delete_def crush_node_create_def crush_node_update_def Let_def new_for_pool_creating
      dest: new_for_pg_creating split: if_splits option.splits prod.splits)

definition submitted_for :: "(nat \<Rightarrow> string option) \<Rightarrow> manager \<Rightarrow> cluster \<Rightarrow> string \<Rightarrow> manager \<Rightarrow> bool" where
  "submitted_for pub w c rid w' \<longleftrightarrow> (\<exists>q fav j job. cl_favorite c = Some fav
     \<and> map_of (by_request_id w') rid = Some q \<and> rq_state q = Submitted \<and> rq_fsid q = Some (cl_fsid c)
     \<and> rq_minion_id q = Some fav \<and> rq_jid q = Some j
     \<and> (\<forall>i. i \<noteq> rid \<longrightarrow> map_of (by_request_id w') i = map_of (by_request_id w) i)
     \<and> map_of (by_jid w') j = Some rid \<and> jobs w' = jobs w @ [job] \<and> pub (length (jobs w)) = Some j)"

lemma begin_returns: "on_user_request_begin t q l = (r, l') \<Longrightarrow> r = Inr ()"
  using begin_ok [of t q l] by simp

lemma submit_new:
  assumes "new_for c q" and "submit_request pub t q fav w = (r, w')"
  shows "(\<exists>e. r = Inl e \<and> by_request_id w' = by_request_id w \<and> by_jid w' = by_jid w)
    \<or> (r = Inr () \<and> (\<exists>q' j job. map_of (by_request_id w') (fc_request_id c) = Some q' \<and> rq_state q' = Submitted
         \<and> rq_fsid q' = Some (fc_fsid c) \<and> rq_minion_id q' = Some fav \<and> rq_jid q' = Some j
         \<and> (\<forall>i. i \<noteq> fc_request_id c \<longrightarrow> map_of (by_request_id w') i = map_of (by_request_id w) i)
         \<and> map_of (by_jid w') j = Some (fc_request_id c) \<and> jobs w' = jobs w @ [job]
         \<and> pub (length (jobs w)) = Some j))"
  using assms
  by (cases "pub (length (jobs w))")
    (auto simp: new_for_def submit_request_def submit_char Let_def on_events_def zoom_def
      dest: begin_returns split: prod.splits)

lemma cluster_request_cases:
  assumes c: "map_of (clusters w) fsid = Some c"
    and "cluster_request pub rid t fsid ty call w = (r, w')"
  shows "(\<exists>e. r = Inl e \<and> by_request_id w' = by_request_id w \<and> by_jid w' = by_jid w)
    \<or> (r = Inr None \<and> w' = w) \<or> (r = Inr (Some rid) \<and> submitted_for pub w c rid w')"
proof -
  let ?ctx = "context_of rid t c"
  let ?made = "call_factory ?ctx (hostname_of_osd w (cl_fsid c)) ty call"
  have factory: "get_request_factory ty = Inr ty \<or> (\<exists>e. get_request_factory ty = Inl e)"
    by (simp add: get_request_factory_def)
  consider (bad) e where "get_request_factory ty = Inl e"
    | (lonely) "get_request_factory ty = Inr ty" "cl_favorite c = None"
    | (refused) fav e where "get_request_factory ty = Inr ty" "cl_favorite c = Some fav" "?made = Inl e"
    | (nothing) fav where "get_request_factory ty = Inr ty" "cl_favorite c = Some fav" "?made = Inr None"
    | (made) fav q where "get_request_factory ty = Inr ty" "cl_favorite c = Some fav" "?made = Inr (Some q)"
    using factory by (metis option.exhaust sum.exhaust)
  then show ?thesis
  proof cases
    case made
    obtain x w1 where s: "submit_request pub t q fav w = (x, w1)" by fastforce
    have new: "new_for ?ctx q" by (rule factory_requests [OF made(3)])
    have "(r, w') = (case x of Inl e \<Rightarrow> (Inl e, w1) | Inr _ \<Rightarrow> (Inr (Some (rq_id q)), w1))"
      using assms(2) made s
      by (cases x) (simp_all add: cluster_request_def bnd_def the_cluster_run [OF c] lift_exn_def get_state_def ret_def)
    with submit_new [OF new s] new made(2) show ?thesis
      by (auto simp: submitted_for_def new_for_def context_of_def)
  qed (use assms(2) in \<open>auto simp: cluster_request_def bnd_def the_cluster_run [OF c] lift_exn_def
        get_state_def ret_def raise_def\<close>)
qed

text \<open>The shape of the RPC methods: some checks, then one call of \<open>_request\<close> or an error.\<close>

definition asks_or_fails ::
  "(nat \<Rightarrow> string option) \<Rightarrow> string \<Rightarrow> time \<Rightarrow> string \<Rightarrow> manager \<Rightarrow> string option mg_py \<Rightarrow> bool" where
  "asks_or_fails pub rid t fsid w m \<longleftrightarrow>
     (\<exists>ty call. m w = cluster_request pub rid t fsid ty call w) \<or> (\<exists>x. m w = (Inl x, w))"

lemma af_request: "asks_or_fails pub rid t fsid w (cluster_request pub rid t fsid ty call)"
  by (auto simp: asks_or_fails_def)

lemma af_unsupported: "asks_or_fails pub rid t fsid w (unsupported ty)"
  by (simp add: asks_or_fails_def unsupported_def raise_def)

lemma af_if:
  "asks_or_fails pub rid t fsid w m \<Longrightarrow> asks_or_fails pub rid t fsid w n \<Longrightarrow>
     asks_or_fails pub rid t fsid w (if b then m else n)"
  by simp

lemma af_check:
  assumes "m w = (Inr x, w) \<or> (\<exists>e. m w = (Inl e, w))" and "asks_or_fails pub rid t fsid w n"
  shows "asks_or_fails pub rid t fsid w (bnd m (\<lambda>_. n))"
  using assms by (auto simp: asks_or_fails_def bnd_def) blast

lemma checked_item: "\<exists>x. key_error_as e (lift_exn (item d k s)) w = (Inr x, w) \<or>
    (\<exists>e'. key_error_as e (lift_exn (item d k s)) w = (Inl e', w))"
  by (cases "item d k s") (auto simp: key_error_as_def try_except_def lift_exn_def raise_def split: exn.split)

lemma af_osd:
  "asks_or_fails pub rid t fsid w n \<Longrightarrow> asks_or_fails pub rid t fsid w (bnd (osd_resolve c i) (\<lambda>_. n))"
  using checked_item unfolding osd_resolve_def by (metis af_check)

lemma af_pool:
  "asks_or_fails pub rid t fsid w n \<Longrightarrow> asks_or_fails pub rid t fsid w (bnd (pool_resolve c i) (\<lambda>_. n))"
  using checked_item unfolding pool_resolve_def by (metis af_check)

lemma af_fs:
  "map_of (clusters w) fsid = Some c \<Longrightarrow> asks_or_fails pub rid t fsid w (f c) \<Longrightarrow>
     asks_or_fails pub rid t fsid w (bnd (fs_resolve fsid) f)"
  by (simp add: asks_or_fails_def bnd_def fs_resolve_def key_error_as_def try_except_def the_cluster_run)

section \<open>Heartbeats\<close>

lemma known_on_version:
  assumes "versioned ty" and "tracked s ty"
  shows "v \<le> known_versions (fst (snd (on_version t (Some m) ty v (s, js)))) ty"
  using assms
  by (auto simp: on_version_effect Let_def fetch_effect tracked_def sync_cmp_versioned_pos latest_versioned)

lemma all_trackedD: "all_tracked s \<Longrightarrow> versioned ty \<Longrightarrow> tracked s ty"
  by (simp add: all_tracked_def)

lemma heartbeat_versions:
  assumes "map_of (clusters w) fsid = Some c" and "all_tracked (cl_sync c)"
    and "\<forall>ty \<in> set tys. has_key vs (sync_str ty)"
  shows "\<exists>w' s'. for_each (\<lambda>ty. bnd (lift_exn (item vs (sync_str ty) (sync_str ty))) (\<lambda>v.
              cm_on_version t fsid minion ty v)) tys w = (Inr (), w')
     \<and> map_of (clusters w') fsid = Some (c\<lparr>cl_sync := s'\<rparr>)
     \<and> (\<forall>ty. versioned ty \<longrightarrow> known_versions (cl_sync c) ty \<le> known_versions s' ty)
     \<and> (\<forall>ty \<in> set tys. versioned ty \<longrightarrow> the (map_of vs (sync_str ty)) \<le> known_versions s' ty)"
  using assms
proof (induction tys arbitrary: w c)
  case Nil
  then show ?case by (intro exI [of _ w] exI [of _ "cl_sync c"]) (simp add: ret_def)
next
  case (Cons ty tys)
  from Cons.prems(3) obtain v where v: "map_of vs (sync_str ty) = Some v" by (auto simp: has_key_def)
  obtain s1 js1 where s1: "on_version t (Some minion) ty v (cl_sync c, jobs w) = (Inr (), (s1, js1))"
    using on_version_returns [of t "Some minion" ty v "(cl_sync c, jobs w)"] by (metis prod.collapse)
  let ?w1 = "w\<lparr>clusters := AList.update fsid (c\<lparr>cl_sync := s1\<rparr>) (clusters w), jobs := js1\<rparr>"
  have step: "cm_on_version t fsid minion ty v w = (Inr (), ?w1)"
    unfolding cm_on_version_def by (rule on_cluster_sync_run) (simp_all add: Cons.prems(1) s1)
  have tr: "all_tracked s1"
    using obeysD [OF tracked_versions s1] Cons.prems(2) by (simp add: keeps_sync_def)
  have up: "known_versions (cl_sync c) ty' \<le> known_versions s1 ty'" if "versioned ty'" for ty'
    using obeysD [OF newer_on_version s1] that by (simp add: newer_def newer_at_def)
  have new: "v \<le> known_versions s1 ty" if "versioned ty"
    using known_on_version [OF that all_trackedD [OF Cons.prems(2) that], of v t minion "jobs w"] s1 by simp
  have c1: "map_of (clusters ?w1) fsid = Some (c\<lparr>cl_sync := s1\<rparr>)" by simp
  from Cons.IH [OF c1] tr Cons.prems(3) obtain w' s' where
    rest: "for_each (\<lambda>ty. bnd (lift_exn (item vs (sync_str ty) (sync_str ty))) (\<lambda>v.
              cm_on_version t fsid minion ty v)) tys ?w1 = (Inr (), w')"
      "map_of (clusters w') fsid = Some (c\<lparr>cl_sync := s'\<rparr>)"
    and up': "\<forall>ty. versioned ty \<longrightarrow> known_versions s1 ty \<le> known_versions s' ty"
    and new': "\<forall>ty \<in> set tys. versioned ty \<longrightarrow> the (map_of vs (sync_str ty)) \<le> known_versions s' ty"
    by auto
  from rest(1) have "for_each (\<lambda>ty. bnd (lift_exn (item vs (sync_str ty) (sync_str ty))) (\<lambda>v.
              cm_on_version t fsid minion ty v)) (ty # tys) w = (Inr (), w')"
    by (simp add: bnd_def lift_exn_def v step)
  moreover have "\<forall>ty'. versioned ty' \<longrightarrow> known_versions (cl_sync c) ty' \<le> known_versions s' ty'"
    using up up' order_trans by blast
  moreover have "\<forall>ty' \<in> set (ty # tys). versioned ty' \<longrightarrow> the (map_of vs (sync_str ty')) \<le> known_versions s' ty'"
    using new new' up' v order_trans by fastforce
  ultimately show ?case using rest(2) by blast
qed

lemma heartbeat_run:
  assumes "fresh_ids (env_pub e)" and "reachable e w" and "map_of (clusters w) fsid = Some c"
    and "\<forall>ty \<in> set SYNC_OBJECT_TYPES. has_key (hb_versions d) (sync_str ty)"
  shows "\<exists>w' c'. on_heartbeat (env_pillar e) t fsid minion d w = (Inr (), w')
    \<and> map_of (clusters w') fsid = Some c'
    \<and> (cl_favorite c' = Some minion \<longrightarrow> cl_update_time c' = t
        \<and> (\<forall>ty. versioned ty \<longrightarrow> the (map_of (hb_versions d) (sync_str ty)) \<le> get_version (cl_sync c') ty
              \<or> fetching_at (cl_sync c') ty \<noteq> None))"
proof -
  have s: "sound all_tracked (env_pub e) w" using reachable_sound [OF assms(1,2)] .
  then have i: "indexed (env_pub e) w" and cs: "cluster_sound all_tracked fsid c"
    using assms(3) by (auto simp: sound_def clusters_sound_def)
  then have "favorite_known c" by (simp add: cluster_sound_def)
  from is_favorite_run [OF assms(1) i assms(3) this, of "env_pillar e" t minion] obtain w1 c1
    where w1: "is_favorite (env_pillar e) t fsid minion w = (Inr (cl_favorite c1 = Some minion), w1)"
      "clusters w1 = AList.update fsid c1 (clusters w)"
      "c1 = c\<lparr>cl_last_heartbeat := AList.update minion t (cl_last_heartbeat c),
          cl_favorite := (if takes_over (env_pillar e) t (servers w) c minion then Some minion else cl_favorite c)\<rparr>"
    by blast
  from w1(3) have sync: "cl_sync c1 = cl_sync c" by simp
  have c1: "map_of (clusters w1) fsid = Some c1" using w1(2) by simp
  show ?thesis
  proof (cases "cl_favorite c1 = Some minion")
    case False
    then show ?thesis using w1(1) c1
      by (intro exI [of _ w1] exI [of _ c1]) (simp add: on_heartbeat_def bnd_def guarded_def ret_def)
  next
    case True
    let ?c2 = "c1\<lparr>cl_update_time := t\<rparr>"
    let ?w2 = "w1\<lparr>clusters := AList.update fsid ?c2 (clusters w1)\<rparr>"
    have c2: "map_of (clusters ?w2) fsid = Some ?c2" by simp
    have "all_tracked (cl_sync ?c2)" using cs sync by (simp add: cluster_sound_def)
    from heartbeat_versions [OF c2 this assms(4), of t minion] obtain w' s'
      where w': "for_each (\<lambda>ty. bnd (lift_exn (item (hb_versions d) (sync_str ty) (sync_str ty))) (\<lambda>v.
              cm_on_version t fsid minion ty v)) SYNC_OBJECT_TYPES ?w2 = (Inr (), w')"
        "map_of (clusters w') fsid = Some (?c2\<lparr>cl_sync := s'\<rparr>)"
        "\<forall>ty \<in> set SYNC_OBJECT_TYPES. versioned ty \<longrightarrow>
           the (map_of (hb_versions d) (sync_str ty)) \<le> known_versions s' ty"
      by blast
    have run: "on_heartbeat (env_pillar e) t fsid minion d w = (Inr (), w')"
      using w1(1) True w'(1) by (simp add: on_heartbeat_def bnd_def guarded_def upd_cluster_run [OF c1])
    have "sound all_tracked (env_pub e) w'"
      using obeysD [OF sd_on_heartbeat [OF assms(1)] run] s by (simp add: keeps_sound_def)
    with w'(2) have tr: "all_tracked s'"
      by (fastforce simp: sound_def clusters_sound_def cluster_sound_def)
    have "the (map_of (hb_versions d) (sync_str ty)) \<le> get_version s' ty \<or> fetching_at s' ty \<noteq> None"
      if "versioned ty" for ty
    proof -
      have "ty \<in> set SYNC_OBJECT_TYPES" by (cases ty) (simp_all add: SYNC_OBJECT_TYPES_def)
      with w'(3) that have "the (map_of (hb_versions d) (sync_str ty)) \<le> known_versions s' ty" by blast
      with all_trackedD [OF tr that] show ?thesis by (auto simp: tracked_def)
    qed
    with run w'(2) show ?thesis by (intro exI [of _ w'] exI [of _ "?c2\<lparr>cl_sync := s'\<rparr>"]) simp
  qed
qed

section \<open>A small run\<close>

definition demo_env :: environment where
  "demo_env = \<lparr>env_pub = demo_pub, env_pillar = (\<lambda>_. None), env_grains = (\<lambda>_. Inl AttributeError),
     env_digest = (\<lambda>_. ''''), env_depth = 9\<rparr>"

definition demo_beacon :: salt_event where
  "demo_beacon = \<lparr>ev_tag = ''ceph/cluster/g'', ev_id = ''labmon'', ev_data = ClusterBeacon new_cluster_data\<rparr>"

definition discovered :: manager where
  "discovered = snd (mg_step demo_env (TopLevelEvent 5 demo_beacon) init_manager)"

lemma fresh_demo_env: "fresh_ids (env_pub demo_env)"
  using fresh_demo by (simp add: demo_env_def)

lemma reachable_discovered: "reachable demo_env discovered"
proof -
  have "recover (env_digest demo_env) (env_depth demo_env) 0 [] [] [] init_manager = (Inr (), init_manager)"
    by (simp add: recover_def bnd_def ret_def)
  then have "reachable demo_env init_manager" by (rule reachable.started)
  then show ?thesis
    unfolding discovered_def by (rule reachable.stepped) (rule prod.collapse [symmetric])
qed

lemma discovered_cluster: "has_key (clusters discovered) ''g''"
  unfolding discovered_def by code_simp

section \<open>Properties\<close>

text \<open>C1. In every state that inputs of any kind, in any order and with any failures in between,
  lead to after recovery: the job index finds every request that waits for a job; each
  cluster monitor is filed under its cluster's fsid; the last heartbeat of a favourite mon
  is on record; and the copy of each epoch-versioned map is up to date with what is known
  to exist, or a fetch is under way.\<close>

theorem reachable_state_sound:
  assumes "fresh_ids (env_pub e)" and "reachable e w"
  shows "(\<forall>rid r j. map_of (by_request_id w) rid = Some r \<longrightarrow> rq_jid r = Some j \<longrightarrow>
            map_of (by_jid w) j = Some rid)
    \<and> distinct (keys (by_request_id w)) \<and> distinct (keys (by_jid w)) \<and> distinct (keys (clusters w))
    \<and> (\<forall>fsid c. map_of (clusters w) fsid = Some c \<longrightarrow>
         cl_fsid c = fsid
         \<and> (\<forall>fav. cl_favorite c = Some fav \<longrightarrow> has_key (cl_last_heartbeat c) fav)
         \<and> (\<forall>ty. versioned ty \<longrightarrow> get_version (cl_sync c) ty \<le> known_versions (cl_sync c) ty
              \<and> (get_version (cl_sync c) ty < known_versions (cl_sync c) ty \<longrightarrow>
                   fetching_at (cl_sync c) ty \<noteq> None)))"
  using reachable_sound [OF assms]
  by (auto simp: sound_def indexed_def clusters_sound_def cluster_sound_def favorite_known_def
      all_tracked_def tracked_def)

theorem reachable_state_sound_witness:
  "\<exists>c. map_of (clusters discovered) ''g'' = Some c \<and> cl_fsid c = ''g''
     \<and> get_version (cl_sync c) OsdMap \<le> known_versions (cl_sync c) OsdMap"
proof -
  obtain c where "map_of (clusters discovered) ''g'' = Some c"
    using discovered_cluster by (auto simp: has_key_def)
  then show ?thesis using reachable_state_sound [OF fresh_demo_env reachable_discovered] by auto
qed

text \<open>C14. In a state the process can be in, a heartbeat that names the version of every map is
  handled without an error. If its sender is then the favourite mon, the cluster counts as
  updated and every epoch-versioned map is stored in the reported version or a later one,
  or being fetched.\<close>

theorem heartbeat_tracks_versions:
  assumes "fresh_ids (env_pub e)" and "reachable e w" and "map_of (clusters w) fsid = Some c"
    and "\<forall>ty \<in> set SYNC_OBJECT_TYPES. has_key (hb_versions d) (sync_str ty)"
  shows "\<exists>w' c'. on_heartbeat (env_pillar e) t fsid minion d w = (Inr (), w')
    \<and> map_of (clusters w') fsid = Some c'
    \<and> (cl_favorite c' = Some minion \<longrightarrow> cl_update_time c' = t
        \<and> (\<forall>ty. versioned ty \<longrightarrow> the (map_of (hb_versions d) (sync_str ty)) \<le> get_version (cl_sync c') ty
              \<or> fetching_at (cl_sync c') ty \<noteq> None))"
  by (rule heartbeat_run [OF assms])

theorem heartbeat_tracks_versions_witness:
  "\<exists>w' c'. on_heartbeat (env_pillar demo_env) 6 ''g'' ''labmon'' new_cluster_data discovered = (Inr (), w')
     \<and> map_of (clusters w') ''g'' = Some c'"
proof -
  obtain c where c: "map_of (clusters discovered) ''g'' = Some c"
    using discovered_cluster by (auto simp: has_key_def)
  have "\<forall>ty \<in> set SYNC_OBJECT_TYPES. has_key (hb_versions new_cluster_data) (sync_str ty)"
    by (simp add: new_cluster_data_def SYNC_OBJECT_TYPES_def has_key_def)
  from heartbeat_tracks_versions [OF fresh_demo_env reachable_discovered c this, of 6 "''labmon''"]
  show ?thesis by blast
qed

text \<open>C4. Creating, changing, deleting or acting on an object of a cluster either fails, leaving all
  requests as they are, or finds that there is nothing to do and changes nothing, or
  answers with the id of a request which has been submitted, as the only change to the
  requests, to the favourite mon of that cluster. For an unknown cluster it fails with
  NotFound.\<close>

theorem rpc_request_outcome:
  assumes "reachable e w" and "fresh_ids (env_pub e)"
    and "m \<in> {rpc_update (env_pub e) rid t fsid ty i as, rpc_apply (env_pub e) rid t fsid ty i cmd,
           rpc_create (env_pub e) rid t fsid ty as, rpc_delete (env_pub e) rid t fsid ty i}"
    and "m w = (r, w')"
  shows "case map_of (clusters w) fsid of
      None \<Rightarrow> r = Inl (NotFound ''cluster'' fsid) \<and> w' = w
    | Some c \<Rightarrow>
        (case r of
           Inl _ \<Rightarrow> by_request_id w' = by_request_id w \<and> by_jid w' = by_jid w
         | Inr None \<Rightarrow> w' = w
         | Inr (Some x) \<Rightarrow> x = rid \<and> (\<exists>q fav j job. cl_favorite c = Some fav
             \<and> map_of (by_request_id w') rid = Some q \<and> rq_state q = Submitted \<and> rq_fsid q = Some fsid
             \<and> rq_minion_id q = Some fav \<and> rq_jid q = Some j
             \<and> (\<forall>k. k \<noteq> rid \<longrightarrow> map_of (by_request_id w') k = map_of (by_request_id w) k)
             \<and> map_of (by_jid w') j = Some rid \<and> jobs w' = jobs w @ [job]))"
proof (cases "map_of (clusters w) fsid")
  case None
  then show ?thesis using assms(3,4)
    by (auto simp: rpc_update_def rpc_apply_def rpc_create_def rpc_delete_def fs_resolve_def
        key_error_as_def the_cluster_def py_simps)
next
  case (Some c)
  have fsid: "cl_fsid c = fsid"
    using reachable_sound [OF assms(2,1)] Some by (auto simp: sound_def clusters_sound_def cluster_sound_def)
  have "asks_or_fails (env_pub e) rid t fsid w m"
    using assms(3) unfolding rpc_update_def rpc_apply_def rpc_create_def rpc_delete_def
    by (elim insertE emptyE; hypsubst) (intro af_fs [OF Some] af_if af_osd af_pool af_request af_unsupported)+
  then consider (request) ty' call where "m w = cluster_request (env_pub e) rid t fsid ty' call w"
    | (failed) x where "m w = (Inl x, w)"
    by (auto simp: asks_or_fails_def)
  then show ?thesis
  proof cases
    case request
    with cluster_request_cases [OF Some, of "env_pub e" rid t ty' call r w'] assms(4) Some fsid
    show ?thesis by (auto simp: submitted_for_def)
  next
    case failed
    with assms(4) Some show ?thesis by auto
  qed
qed

lemma discovered_update:
  "fst (rpc_update demo_pub ''r1'' 7 ''g'' CRUSH_MAP 0 (CrushText ''# begin'') discovered) = Inr (Some ''r1'')"
  unfolding discovered_def by code_simp

theorem rpc_request_outcome_witness:
  "\<exists>w' q. rpc_update demo_pub ''r1'' 7 ''g'' CRUSH_MAP 0 (CrushText ''# begin'') discovered = (Inr (Some ''r1''), w')
     \<and> map_of (by_request_id w') ''r1'' = Some q \<and> rq_state q = Submitted \<and> rq_fsid q = Some ''g''"
proof -
  obtain w' where w': "rpc_update demo_pub ''r1'' 7 ''g'' CRUSH_MAP 0 (CrushText ''# begin'') discovered
      = (Inr (Some ''r1''), w')"
    using discovered_update by (metis prod.collapse)
  have pub: "env_pub demo_env = demo_pub" by (simp add: demo_env_def)
  obtain c where "map_of (clusters discovered) ''g'' = Some c"
    using discovered_cluster by (auto simp: has_key_def)
  with rpc_request_outcome [OF reachable_discovered fresh_demo_env, unfolded pub, OF insertI1 w'] w'
  show ?thesis by auto
qed

end
