(* ===== verification/AdminSocket.thy ===== *)
theory AdminSocket
  imports Prelude "HOL-Library.Word"
begin

text \<open>
  One request on a daemon's admin socket (\<open>do_sockio\<close> of
  salt/srv/salt/_modules/ceph.py): the reply is four bytes of length, most significant
  first, and that many bytes. A reply arrives in pieces, and the code asks for more until
  it has as many bytes as announced.
\<close>

section \<open>Receiving\<close>

text \<open>
  The pieces still to come, after which the daemon has closed the connection. \<open>recv(n)\<close>
  gives at most \<open>n\<close> bytes of the next piece, and nothing from a closed connection.
\<close>

type_synonym stream = "string list"

fun recv :: "nat \<Rightarrow> stream \<Rightarrow> string \<times> stream" where
  "recv n [] = ([], [])"
| "recv n (p # ps) = (if length p \<le> n then (p, ps) else (take n p, drop n p # ps))"

partial_function (option) recv_all :: "nat \<Rightarrow> string \<Rightarrow> stream \<Rightarrow> (string \<times> stream) option" where
  "recv_all l got s =
     (if length got < l then (case recv (l - length got) s of (b, s') \<Rightarrow> recv_all l (got @ b) s')
      else Some (got, s))"

text \<open>\<open>struct.unpack(">I", s)\<close>\<close>

definition be32 :: "string \<Rightarrow> 32 word" where
  "be32 s = fold (\<lambda>c w. w * 256 + of_nat (of_char c)) s 0"

definition do_sockio :: "stream \<Rightarrow> (exn + string) option" where
  "do_sockio s = (case recv 4 s of (len_str, s') \<Rightarrow>
     if length len_str < 4 then Some (Inl (AdminSocketError ''exception: no data returned from admin socket''))
     else map_option (\<lambda>(reply, _). Inr reply) (recv_all (unat (be32 len_str)) [] s'))"

section \<open>When it returns\<close>

text \<open>No piece is empty.\<close>

definition pieces :: "stream \<Rightarrow> bool" where
  "pieces s \<longleftrightarrow> (\<forall>p \<in> set s. p \<noteq> [])"

lemma recv_split: "recv n s = (b, s') \<Longrightarrow> concat s = b @ concat s' \<and> length b \<le> n"
  by (cases s) (auto split: if_splits)

lemma recv_pieces: "recv n s = (b, s') \<Longrightarrow> pieces s \<Longrightarrow> pieces s'"
  by (cases s) (auto simp: pieces_def split: if_splits)

lemma recv_progress: "recv n s = (b, s') \<Longrightarrow> pieces s \<Longrightarrow> concat s \<noteq> [] \<Longrightarrow> 0 < n \<Longrightarrow> b \<noteq> []"
  by (cases s) (auto simp: pieces_def split: if_splits)

lemma recv_all_returns:
  assumes "pieces s" and "length got \<le> l" and "l \<le> length got + length (concat s)"
  shows "\<exists>s'. recv_all l got s = Some (got @ take (l - length got) (concat s), s')"
  using assms
proof (induction "l - length got" arbitrary: got s rule: less_induct)
  case less
  show ?case
  proof (cases "length got < l")
    case False
    with less.prems show ?thesis by (subst recv_all.simps) simp
  next
    case True
    obtain b s' where b: "recv (l - length got) s = (b, s')" by fastforce
    from recv_split [OF b] have c: "concat s = b @ concat s'" and lb: "length b \<le> l - length got" by auto
    have "b \<noteq> []" using recv_progress [OF b less.prems(1)] True less.prems(3) by fastforce
    then have "l - length (got @ b) < l - length got" using True lb by (cases b) auto
    moreover have "length (got @ b) \<le> l" using lb True by simp
    ultimately
    have "\<exists>s''. recv_all l (got @ b) s' = Some ((got @ b) @ take (l - length (got @ b)) (concat s'), s'')"
      using less.hyps [of "got @ b" s'] recv_pieces [OF b less.prems(1)] less.prems(3) c by simp
    then
    obtain s'' where "recv_all l (got @ b) s' = Some ((got @ b) @ take (l - length (got @ b)) (concat s'), s'')"
      by auto
    with True b c lb show ?thesis by (subst recv_all.simps) auto
  qed
qed

lemma recv_all_needs:
  assumes "recv_all l got s = Some y"
  shows "l \<le> length got + length (concat s)"
proof (rule recv_all.raw_induct [OF _ assms, where P = "\<lambda>l got s y. l \<le> length got + length (concat s)"])
  fix f :: "nat \<Rightarrow> string \<Rightarrow> stream \<Rightarrow> (string \<times> stream) option" and l got s y
  assume IH: "\<And>l got s y. f l got s = Some y \<Longrightarrow> l \<le> length got + length (concat s)"
    and run: "(if length got < l then case recv (l - length got) s of (b, s') \<Rightarrow> f l (got @ b) s'
      else Some (got, s)) = Some y"
  show "l \<le> length got + length (concat s)"
  proof (cases "length got < l")
    case True
    obtain b s' where b: "recv (l - length got) s = (b, s')" by fastforce
    with run True have "f l (got @ b) s' = Some y" by simp
    from IH [OF this] recv_split [OF b] show ?thesis by simp
  qed simp
qed

text \<open>C33. A daemon's reply that has arrived in any pieces, the first of at least four bytes, is
  returned if it has as many bytes as announced, whatever follows it. If the daemon closes
  the connection before that, the request never returns: an empty read is taken for
  progress.\<close>

theorem socket_reply_outcome:
  assumes "pieces s" and "s \<noteq> []" and "4 \<le> length (hd s)"
  shows "do_sockio s =
    (let n = unat (be32 (take 4 (hd s))); sent = drop 4 (concat s)
     in if n \<le> length sent then Some (Inr (take n sent)) else None)"
proof -
  obtain b s' where b: "recv 4 s = (b, s')" by fastforce
  with assms have hd: "b = take 4 (hd s)" "length b = 4" by (cases s; auto split: if_splits)+
  from recv_split [OF b] hd(2) have rest: "concat s' = drop 4 (concat s)" by simp
  let ?n = "unat (be32 (take 4 (hd s)))"
  have run: "do_sockio s = map_option (\<lambda>(reply, _). Inr reply) (recv_all ?n [] s')"
    using b hd by (simp add: do_sockio_def)
  show ?thesis
  proof (cases "?n \<le> length (drop 4 (concat s))")
    case True
    with recv_all_returns [OF recv_pieces [OF b assms(1)], of "[]" ?n] rest run show ?thesis
      by (auto simp: Let_def)
  next
    case False
    then have "recv_all ?n [] s' = None"
      using recv_all_needs [of ?n "[]" s'] rest by (cases "recv_all ?n [] s'") auto
    with run False show ?thesis by (simp add: Let_def)
  qed
qed

theorem socket_reply_outcome_witness:
  "do_sockio [[CHR 0x00, CHR 0x00, CHR 0x00, CHR 0x02, CHR ''o''], ''k''] = Some (Inr ''ok'')
   \<and> do_sockio [[CHR 0x00, CHR 0x00, CHR 0x00, CHR 0x02, CHR ''o'']] = None"
proof -
  have n: "unat (be32 [CHR 0x00, CHR 0x00, CHR 0x00, CHR 0x02]) = 2" by (simp add: be32_def)
  show ?thesis
    using socket_reply_outcome [of "[[CHR 0x00, CHR 0x00, CHR 0x00, CHR 0x02, CHR ''o''], ''k'']"]
      socket_reply_outcome [of "[[CHR 0x00, CHR 0x00, CHR 0x00, CHR 0x02, CHR ''o'']]"] n
    by (simp add: pieces_def Let_def)
qed

end
