(* ===== verification/CephModule.thy ===== *)
theory CephModule
  imports Manager
begin

text \<open>
  The salt execution module that runs on every Ceph server
  (salt/srv/salt/_modules/ceph.py): it executes Ceph commands for the user requests,
  fetches cluster objects for the SyncObjects, and sends the heartbeats that ServerMonitor
  and ClusterMonitor live on.
\<close>

section \<open>What the module calls\<close>

text \<open>The values \<open>json.loads\<close> returns.\<close>

datatype json =
    JsNull
  | JsBool bool
  | JsInt int
  | JsText string
  | JsList "json list"
  | JsDict "(string, json) dict"

text \<open>
  librados, the admin sockets, the file system, crushtool, the package manager and the
  serialisers are not part of the program. A cluster answers a command with a return
  code, an output and an error text, and may change by it; \<open>'c\<close> is the state of all
  that. \<open>loads\<close> is \<open>None\<close> where the text is not JSON. \<open>socket_io\<close> is one
  request on an admin socket.
\<close>

record 'c calls =
  connect :: "string \<Rightarrow> 'c \<Rightarrow> (exn + unit) \<times> 'c"
  json_command :: "string \<Rightarrow> (string, jval) dict \<Rightarrow> string \<Rightarrow> 'c \<Rightarrow> (int \<times> string \<times> string) \<times> 'c"
  socket_io :: "string \<Rightarrow> string \<Rightarrow> 'c \<Rightarrow> (exn + string) \<times> 'c"
  list_sockets :: "string \<Rightarrow> 'c \<Rightarrow> string list"
  validate_command :: "string \<Rightarrow> string list \<Rightarrow> (string, json) dict"
  crushtool :: "bool \<Rightarrow> string \<Rightarrow> int \<times> string \<times> string"
  loads :: "string \<Rightarrow> json option"
  dumps :: "json \<Rightarrow> string"
  packb :: "pg_summary_data \<Rightarrow> string"
  md5 :: "string \<Rightarrow> string"
  rados_installed :: bool
  package_version :: string
  boot_time_of :: "'c \<Rightarrow> int"

definition JSON_FORMAT :: "string \<times> jval" where
  "JSON_FORMAT = (''format'', JStr ''json'')"

definition set_json :: "(string, jval) dict \<Rightarrow> (string, jval) dict" where
  "set_json a = AList.update (fst JSON_FORMAT) (snd JSON_FORMAT) a"

section \<open>Reading decoded JSON\<close>

text \<open>\<open>j[k]\<close>; \<open>None\<close> is a missing answer.\<close>

fun field :: "string \<Rightarrow> json \<Rightarrow> exn + json" where
  "field k (JsDict d) = item d k k"
| "field k _ = Inl TypeError"

fun path_at :: "string list \<Rightarrow> json \<Rightarrow> exn + json" where
  "path_at [] j = Inr j"
| "path_at (k # ks) j = then_do (field k j) (path_at ks)"

text \<open>The texts and numbers Ceph documents for a field.\<close>

fun as_text :: "json \<Rightarrow> exn + string" where
  "as_text (JsText s) = Inr s"
| "as_text _ = Inl TypeError"

fun as_int :: "json \<Rightarrow> exn + int" where
  "as_int (JsInt i) = Inr i"
| "as_int _ = Inl TypeError"

fun as_list :: "json \<Rightarrow> exn + json list" where
  "as_list (JsList xs) = Inr xs"
| "as_list _ = Inl TypeError"

fun map_res :: "('a \<Rightarrow> exn + 'b) \<Rightarrow> 'a list \<Rightarrow> exn + 'b list" where
  "map_res f [] = Inr []"
| "map_res f (x # xs) = then_do (f x) (\<lambda>y. then_do (map_res f xs) (\<lambda>ys. Inr (y # ys)))"

definition text_at :: "string list \<Rightarrow> json \<Rightarrow> exn + string" where
  "text_at ks j = then_do (path_at ks j) as_text"

definition int_at :: "string list \<Rightarrow> json \<Rightarrow> exn + int" where
  "int_at ks j = then_do (path_at ks j) as_int"

definition decode :: "'c calls \<Rightarrow> string \<Rightarrow> exn + json" where
  "decode e s = (case loads e s of None \<Rightarrow> Inl (ValueError ''No JSON object could be decoded'') | Some j \<Rightarrow> Inr j)"

section \<open>Summarising placement groups\<close>

record pg_brief =
  pg_id :: string
  pg_state :: string
  acting :: "int list"

definition count_up :: "string \<Rightarrow> counts \<Rightarrow> counts" where
  "count_up st c = AList.update st (get_default c st 0 + 1) c"

definition count_in :: "'k \<Rightarrow> string \<Rightarrow> ('k, counts) dict \<Rightarrow> ('k, counts) dict" where
  "count_in k st d = AList.update k (count_up st (get_default d k [])) d"

definition pool_of_pg :: "pg_brief \<Rightarrow> exn + int" where
  "pool_of_pg p = (let s = hd (split_on (CHR ''.'') (pg_id p))
     in case read_int s of
          None \<Rightarrow> Inl (ValueError (''invalid literal for int() with base 10: '' @ quote @ s @ quote))
        | Some i \<Rightarrow> Inr i)"

fun pg_summary_loop :: "pg_brief list \<Rightarrow> pg_summary_data \<Rightarrow> exn + pg_summary_data" where
  "pg_summary_loop [] acc = Inr acc"
| "pg_summary_loop (p # ps) acc =
     then_do (pool_of_pg p) (\<lambda>pool.
     pg_summary_loop ps
       \<lparr>by_osd = fold (\<lambda>o' d. count_in o' (pg_state p) d) (acting p) (by_osd acc),
        by_pool = count_in pool (pg_state p) (by_pool acc),
        all_pgs = count_up (pg_state p) (all_pgs acc)\<rparr>)"

definition pg_summary :: "pg_brief list \<Rightarrow> exn + pg_summary_data" where
  "pg_summary pgs = pg_summary_loop pgs \<lparr>by_osd = [], by_pool = [], all_pgs = []\<rparr>"

definition read_pg :: "json \<Rightarrow> exn + pg_brief" where
  "read_pg j =
     then_do (then_do (path_at [''acting''] j) as_list) (\<lambda>os.
     then_do (map_res as_int os) (\<lambda>osds.
     then_do (text_at [''state''] j) (\<lambda>st.
     then_do (text_at [''pgid''] j) (\<lambda>i.
     Inr \<lparr>pg_id = i, pg_state = st, acting = osds\<rparr>))))"

definition summary_of :: "json \<Rightarrow> exn + pg_summary_data" where
  "summary_of j = then_do (as_list j) (\<lambda>xs. then_do (map_res read_pg xs) pg_summary)"

section \<open>Commands\<close>

definition run_command ::
  "'c calls \<Rightarrow> string \<Rightarrow> (string, jval) dict \<Rightarrow> string \<Rightarrow> ('c, int \<times> string \<times> string) py" where
  "run_command e prefix args inbuf = (\<lambda>c. case json_command e prefix args inbuf c of (x, c') \<Rightarrow> (Inr x, c'))"

text \<open>With \<open>decode=False\<close>, and with decoding; an empty output decodes to \<open>None\<close>.\<close>

definition rados_raw :: "'c calls \<Rightarrow> string \<Rightarrow> (string, jval) dict \<Rightarrow> ('c, string) py" where
  "rados_raw e prefix args =
     bnd (run_command e prefix (set_json args) []) (\<lambda>(r, outbuf, outs).
     if r \<noteq> 0 then raise (RadosLibError outs) else ret outbuf)"

definition rados_command :: "'c calls \<Rightarrow> string \<Rightarrow> (string, jval) dict \<Rightarrow> ('c, json option) py" where
  "rados_command e prefix args =
     bnd (rados_raw e prefix args) (\<lambda>outbuf.
     if outbuf = [] then ret None
     else case loads e outbuf of
         None \<Rightarrow> raise (RadosError (''Invalid JSON output for command '' @ attrs_repr (set_json args)))
       | Some j \<Rightarrow> ret (Some j))"

definition answered :: "json option \<Rightarrow> exn + json" where
  "answered x = (case x of None \<Rightarrow> Inl TypeError | Some j \<Rightarrow> Inr j)"

definition transform_crushmap :: "'c calls \<Rightarrow> string \<Rightarrow> string \<Rightarrow> int \<times> string \<times> string" where
  "transform_crushmap e d operation =
     (if operation = ''set'' then crushtool e True d
      else if operation = ''get'' then crushtool e False d
      else (1, [], ''Did not specify get or set''))"

section \<open>Admin sockets\<close>

definition wrapped :: "string \<Rightarrow> ('c, 'a) py \<Rightarrow> ('c, 'a) py" where
  "wrapped msg m = try_except m (\<lambda>x. raise (AdminSocketError (msg @ exn_str x)))"

definition admin_socket :: "'c calls \<Rightarrow> string \<Rightarrow> string list \<Rightarrow> string \<Rightarrow> ('c, string) py" where
  "admin_socket e path cmd fmt =
     bnd (wrapped ''exception getting command descriptions: ''
            (socket_io e path (dumps e (JsDict [(''prefix'', JsText ''get_command_descriptions'')])))) (\<lambda>cmd_json.
     let valid_dict = validate_command e cmd_json cmd
     in if valid_dict = [] then raise (AdminSocketError ''invalid command'')
        else wrapped ''exception: ''
          (socket_io e path (dumps e (JsDict
             (if fmt \<noteq> [] then AList.update ''format'' (JsText fmt) valid_dict else valid_dict)))))"

definition get_config :: "'c calls \<Rightarrow> string \<Rightarrow> ('c, string) py" where
  "get_config e cluster_name =
     bnd (gets (list_sockets e (''/var/run/ceph/'' @ cluster_name @ ''-mon.*.asok''))) (\<lambda>socks. case socks of
         [] \<Rightarrow> raise (AdminSocketError (''Cannot find mon socket for '' @ cluster_name))
       | s # _ \<Rightarrow> admin_socket e s [''config'', ''show''] ''json'')"

section \<open>Cluster status\<close>

definition cluster_status :: "'c calls \<Rightarrow> string \<Rightarrow> ('c, cluster_data) py" where
  "cluster_status e cluster_name =
     bnd (rados_command e ''mon_status'' []) (\<lambda>mon_answer.
     bnd (rados_command e ''status'' []) (\<lambda>status_answer.
     bnd (lift_exn (answered status_answer)) (\<lambda>st.
     bnd (lift_exn (text_at [''fsid''] st)) (\<lambda>fsid.
     bnd (lift_exn (int_at [''monmap'', ''epoch''] st)) (\<lambda>mon_epoch.
     bnd (lift_exn (int_at [''osdmap'', ''osdmap'', ''epoch''] st)) (\<lambda>osd_epoch.
     bnd (lift_exn (int_at [''mdsmap'', ''epoch''] st)) (\<lambda>mds_epoch.
     bnd (rados_raw e ''health'' [(''detail'', JStr [])]) (\<lambda>health.
     bnd (rados_command e ''pg dump'' [(''dumpcontents'', JList [JStr ''pgs_brief''])]) (\<lambda>pgs.
     bnd (lift_exn (then_do (answered pgs) summary_of)) (\<lambda>summary.
     bnd (get_config e cluster_name) (\<lambda>config.
     bnd (lift_exn (then_do (answered mon_answer) (int_at [''election_epoch'']))) (\<lambda>election_epoch.
     ret \<lparr>hb_fsid = fsid, hb_name = cluster_name,
          hb_versions = [(''mon_status'', VInt election_epoch), (''mon_map'', VInt mon_epoch),
            (''osd_map'', VInt osd_epoch), (''mds_map'', VInt mds_epoch),
            (''pg_summary'', VStr (md5 e (packb e summary))), (''health'', VStr (md5 e health)),
            (''config'', VStr (md5 e config))]\<rparr>))))))))))))"

section \<open>Executing the commands of a user request\<close>

record rados_result =
  rr_error :: bool
  rr_results :: "json option list"
  rr_error_status :: string
  rr_versions :: "(string, version) dict"
  rr_fsid :: string

definition send_command :: "'c calls \<Rightarrow> command \<Rightarrow> ('c, int \<times> string \<times> string) py" where
  "send_command e cmd = (case cmd of (prefix, argdict) \<Rightarrow>
     (if prefix = ''osd setcrushmap'' then
        bnd (lift_exn (item (set_json argdict) ''data'' ''data'')) (\<lambda>d.
        case transform_crushmap e (str_jval d) ''set'' of (r, stdout, outs) \<Rightarrow>
          if r \<noteq> 0 then raise (RuntimeError outs)
          else run_command e prefix [] stdout)
      else run_command e prefix (set_json argdict) []))"

fun rados_commands_loop ::
  "'c calls \<Rightarrow> string \<Rightarrow> string \<Rightarrow> command list \<Rightarrow> json option list \<Rightarrow> ('c, rados_result) py" where
  "rados_commands_loop e fsid name [] results =
     bnd (cluster_status e name) (\<lambda>st.
     ret \<lparr>rr_error = False, rr_results = results, rr_error_status = [], rr_versions = hb_versions st, rr_fsid = fsid\<rparr>)"
| "rados_commands_loop e fsid name (cmd # cmds) results =
     bnd (send_command e cmd) (\<lambda>(r, outbuf, outs).
     if r \<noteq> 0 then
       bnd (cluster_status e name) (\<lambda>st.
       ret \<lparr>rr_error = True, rr_results = results, rr_error_status = outs, rr_versions = hb_versions st, rr_fsid = fsid\<rparr>)
     else if outbuf \<noteq> [] then
       bnd (lift_exn (decode e outbuf)) (\<lambda>j. rados_commands_loop e fsid name cmds (results @ [Some j]))
     else rados_commands_loop e fsid name cmds (results @ [None]))"

definition rados_commands ::
  "'c calls \<Rightarrow> string \<Rightarrow> string \<Rightarrow> command list \<Rightarrow> ('c, rados_result) py" where
  "rados_commands e fsid name cmds =
     bnd (connect e name) (\<lambda>_. rados_commands_loop e fsid name cmds [])"

section \<open>Fetching a cluster object\<close>

definition SYNC_TYPES :: "string list" where
  "SYNC_TYPES = [''mon_status'', ''mon_map'', ''osd_map'', ''mds_map'', ''pg_summary'', ''health'', ''config'']"

datatype object_data = RawObject json | Summary pg_summary_data

record object_reply =
  oj_type :: string
  oj_fsid :: string
  oj_version :: version
  oj_data :: object_data

text \<open>The command that dumps an object, with its arguments.\<close>

definition dump_command :: "string \<Rightarrow> string \<times> (string, jval) dict" where
  "dump_command ty =
     (if ty = ''mon_status'' then (''mon_status'', [])
      else if ty = ''mon_map'' then (''mon dump'', [])
      else if ty = ''osd_map'' then (''osd dump'', [])
      else if ty = ''mds_map'' then (''mds dump'', [])
      else if ty = ''pg_summary'' then (''pg dump'', [(''dumpcontents'', JList [JStr ''pgs_brief''])])
      else (''health'', [(''detail'', JStr [])]))"

text \<open>The command has to succeed.\<close>

definition checked_command ::
  "'c calls \<Rightarrow> string \<Rightarrow> (string, jval) dict \<Rightarrow> ('c, string) py" where
  "checked_command e prefix args =
     bnd (run_command e prefix args []) (\<lambda>(r, raw, outs). bnd (assert_that (r = 0)) (\<lambda>_. ret raw))"

fun dict_set :: "string \<Rightarrow> json \<Rightarrow> json \<Rightarrow> exn + json" where
  "dict_set k v (JsDict d) = Inr (JsDict (AList.update k v d))"
| "dict_set k v _ = Inl TypeError"

text \<open>The metadata of each OSD of the map, in the order of the map.\<close>

fun osd_metadata_of ::
  "'c calls \<Rightarrow> (string, jval) dict \<Rightarrow> json list \<Rightarrow> json list \<Rightarrow> ('c, json list) py" where
  "osd_metadata_of e kwargs [] acc = ret acc"
| "osd_metadata_of e kwargs (o' # os) acc =
     bnd (lift_exn (int_at [''osd''] o')) (\<lambda>i.
     bnd (checked_command e ''osd metadata'' (fold (\<lambda>(k, v) d. AList.update k v d) kwargs [(''id'', JInt i)])) (\<lambda>raw.
     bnd (lift_exn (then_do (decode e raw) (dict_set ''osd'' (JsInt i)))) (\<lambda>meta.
     osd_metadata_of e kwargs os (acc @ [meta]))))"

text \<open>\<open>osd dump\<close> lacks the CRUSH tree and map and the metadata of the OSDs; they are added.\<close>

definition full_osd_map :: "'c calls \<Rightarrow> (string, jval) dict \<Rightarrow> int \<Rightarrow> json \<Rightarrow> ('c, json) py" where
  "full_osd_map e kwargs epoch d =
     bnd (checked_command e ''osd tree'' [JSON_FORMAT, (''epoch'', JInt epoch)]) (\<lambda>tree.
     bnd (lift_exn (then_do (decode e tree) (\<lambda>j. dict_set ''tree'' j d))) (\<lambda>d1.
     bnd (checked_command e ''osd crush dump'' kwargs) (\<lambda>crush.
     bnd (lift_exn (then_do (decode e crush) (\<lambda>j. dict_set ''crush'' j d1))) (\<lambda>d2.
     bnd (checked_command e ''osd getcrushmap'' [(''epoch'', JInt epoch)]) (\<lambda>raw.
     case transform_crushmap e raw ''get'' of (r, stdout, outs) \<Rightarrow>
       bnd (assert_that (r = 0)) (\<lambda>_.
       bnd (lift_exn (dict_set ''crush_map_text'' (JsText stdout) d2)) (\<lambda>d3.
       bnd (lift_exn (then_do (path_at [''osds''] d3) as_list)) (\<lambda>osds.
       bnd (osd_metadata_of e kwargs osds []) (\<lambda>metas.
       lift_exn (dict_set ''osd_metadata'' (JsList metas) d3))))))))))"

definition get_object ::
  "'c calls \<Rightarrow> string \<Rightarrow> ('c, version \<times> object_data) py" where
  "get_object e ty =
     (case dump_command ty of (prefix, args) \<Rightarrow>
      bnd (checked_command e prefix (set_json args)) (\<lambda>raw.
      if ty = ''pg_summary'' then
        bnd (lift_exn (then_do (decode e raw) summary_of)) (\<lambda>d. ret (VStr (md5 e (packb e d)), Summary d))
      else
        bnd (lift_exn (decode e raw)) (\<lambda>d.
        if ty = ''health'' then ret (VStr (md5 e raw), RawObject d)
        else if ty = ''mon_status'' then
          bnd (lift_exn (int_at [''election_epoch''] d)) (\<lambda>v. ret (VInt v, RawObject d))
        else
          bnd (lift_exn (int_at [''epoch''] d)) (\<lambda>v.
          if ty = ''osd_map'' then
            bnd (full_osd_map e (set_json args) v d) (\<lambda>d'. ret (VInt v, RawObject d'))
          else ret (VInt v, RawObject d)))))"

definition get_cluster_object :: "'c calls \<Rightarrow> string \<Rightarrow> string \<Rightarrow> ('c, object_reply) py" where
  "get_cluster_object e cluster_name ty =
     bnd (assert_that (ty \<in> set SYNC_TYPES)) (\<lambda>_.
     bnd (connect e cluster_name) (\<lambda>_.
     bnd (run_command e ''status'' [JSON_FORMAT] []) (\<lambda>(_, outbuf, _).
     bnd (lift_exn (then_do (decode e outbuf) (text_at [''fsid'']))) (\<lambda>fsid.
     bnd (if ty = ''config'' then
            bnd (get_config e cluster_name) (\<lambda>raw.
            bnd (lift_exn (decode e raw)) (\<lambda>d. ret (VStr (md5 e raw), RawObject d)))
          else get_object e ty) (\<lambda>(v, d).
     ret \<lparr>oj_type = ty, oj_fsid = fsid, oj_version = v, oj_data = d\<rparr>)))))"

section \<open>Services and heartbeats\<close>

text \<open>
  \<open>^(.+?)-(.+?)\.(.+)\.asok$\<close>: the shortest cluster name, then the shortest type, that
  let the rest match. \<open>splits_at c s\<close> are the ways to cut \<open>s\<close> at a \<open>c\<close> with
  something before it, shortest first.
\<close>

fun splits_at :: "char \<Rightarrow> string \<Rightarrow> (string \<times> string) list" where
  "splits_at c [] = []"
| "splits_at c (x # xs) =
     map (\<lambda>(a, b). (x # a, b)) ((case xs of y # ys \<Rightarrow> (if y = c then [([], ys)] else []) | [] \<Rightarrow> [])
       @ splits_at c xs)"

definition asok_id :: "string \<Rightarrow> string option" where
  "asok_id s = (if length s > 5 \<and> drop (length s - 5) s = ''.asok'' then Some (take (length s - 5) s) else None)"

definition first_match :: "('a \<Rightarrow> 'b option) \<Rightarrow> 'a list \<Rightarrow> 'b option" where
  "first_match f xs = (case List.map_filter f xs of [] \<Rightarrow> None | y # _ \<Rightarrow> Some y)"

definition parse_asok :: "string \<Rightarrow> (string \<times> string \<times> string) option" where
  "parse_asok s = first_match (\<lambda>(cluster, rest).
     first_match (\<lambda>(ty, rest'). map_option (\<lambda>i. (cluster, ty, i)) (asok_id rest')) (splits_at (CHR ''.'') rest))
     (splits_at (CHR ''-'') s)"

definition basename :: "string \<Rightarrow> string" where
  "basename path = last (split_on (CHR ''/'') path)"

record service_data =
  sd_cluster :: string
  sd_type :: string
  sd_id :: string
  sd_fsid :: string
  sd_status :: "json option"
  sd_version :: string

definition service_status :: "'c calls \<Rightarrow> string \<Rightarrow> ('c, service_data option) py" where
  "service_status e path = (case parse_asok (basename path) of
       None \<Rightarrow> ret None
     | Some (cluster_name, service_type, service_id) \<Rightarrow>
         bnd (if service_type \<noteq> ''mon'' then
                bnd (try_except
                  (bnd (admin_socket e path [''status''] ''json'') (\<lambda>raw.
                   lift_exn (then_do (decode e raw) (text_at [''cluster_fsid'']))))
                  (\<lambda>x. case x of
                      AdminSocketError _ \<Rightarrow>
                        bnd (admin_socket e path [''config'', ''get'', ''fsid''] ''json'') (\<lambda>raw.
                        lift_exn (then_do (decode e raw) (text_at [''fsid''])))
                    | _ \<Rightarrow> raise x)) (\<lambda>fsid. ret (fsid, None))
              else
                bnd (admin_socket e path [''mon_status''] ''json'') (\<lambda>raw.
                bnd (lift_exn (decode e raw)) (\<lambda>st.
                bnd (lift_exn (text_at [''monmap'', ''fsid''] st)) (\<lambda>fsid. ret (fsid, Some st))))) (\<lambda>(fsid, st).
         bnd (admin_socket e path [''version''] ''json'') (\<lambda>raw.
         bnd (lift_exn (then_do (decode e raw) (text_at [''version'']))) (\<lambda>v.
         ret (Some \<lparr>sd_cluster = cluster_name, sd_type = service_type, sd_id = service_id, sd_fsid = fsid,
           sd_status = st, sd_version = v\<rparr>)))))"

text \<open>\<open>except (rados.Error, MonitoringError): pass\<close>\<close>

definition is_monitoring_error :: "exn \<Rightarrow> bool" where
  "is_monitoring_error x = (case x of
       RadosLibError _ \<Rightarrow> True | RadosError _ \<Rightarrow> True | AdminSocketError _ \<Rightarrow> True | _ \<Rightarrow> False)"

definition or_else_skip :: "('c, 'a) py \<Rightarrow> ('c, 'a option) py" where
  "or_else_skip m = try_except (bnd m (\<lambda>x. ret (Some x)))
     (\<lambda>x. if is_monitoring_error x then ret None else raise x)"

definition in_quorum :: "json \<Rightarrow> exn + bool" where
  "in_quorum st = then_do (path_at [''rank''] st) (\<lambda>r.
     then_do (then_do (path_at [''quorum''] st) as_list) (\<lambda>q. Inr (r \<in> set q)))"

record socket_scan =
  sc_services :: "(string, service_data) dict"
  sc_fsid_names :: "(string, string) dict"
  sc_mon_sockets :: "(string, string) dict"

fun scan_sockets :: "'c calls \<Rightarrow> string list \<Rightarrow> socket_scan \<Rightarrow> ('c, socket_scan) py" where
  "scan_sockets e [] acc = ret acc"
| "scan_sockets e (f # fs) acc =
     bnd (or_else_skip (service_status e f)) (\<lambda>x. case x of
         Some (Some d) \<Rightarrow>
           (let name = sd_cluster d @ ''-'' @ sd_type d @ ''.'' @ sd_id d;
                acc1 = acc\<lparr>sc_services := AList.update name d (sc_services acc),
                  sc_fsid_names := AList.update (sd_fsid d) (sd_cluster d) (sc_fsid_names acc)\<rparr>
            in bnd (if sd_type d = ''mon'' then lift_exn (then_do (answered (sd_status d)) in_quorum)
                    else ret False) (\<lambda>q.
               scan_sockets e fs
                 (if q then acc1\<lparr>sc_mon_sockets := AList.update (sd_fsid d) f (sc_mon_sockets acc)\<rparr> else acc1)))
       | _ \<Rightarrow> scan_sockets e fs acc)"

fun cluster_beacons :: "'c calls \<Rightarrow> (string, string) dict \<Rightarrow> string list \<Rightarrow> ('c, (string \<times> cluster_data) list) py" where
  "cluster_beacons e names [] = ret []"
| "cluster_beacons e names (fsid # fs) =
     bnd (or_else_skip (bnd (lift_exn (item names fsid fsid)) (\<lambda>name.
          bnd (connect e name) (\<lambda>_. cluster_status e name)))) (\<lambda>x.
     bnd (cluster_beacons e names fs) (\<lambda>rest. ret (case x of None \<Rightarrow> rest | Some d \<Rightarrow> (fsid, d) # rest)))"

definition beat :: "service_data \<Rightarrow> (json \<Rightarrow> string) \<Rightarrow> hb_service" where
  "beat d dumps' = \<lparr>hs_id = ServiceId (sd_fsid d) (sd_type d) (sd_id d), hs_status = map_option dumps' (sd_status d)\<rparr>"

definition get_heartbeats :: "'c calls \<Rightarrow> ('c, heartbeat \<times> (string \<times> cluster_data) list) py" where
  "get_heartbeats e =
     (if \<not> rados_installed e then
        bnd (gets (boot_time_of e)) (\<lambda>b. ret (\<lparr>hb_boot_time = b, hb_ceph_version = None, hb_services = []\<rparr>, []))
      else
        bnd (gets (list_sockets e ''/var/run/ceph/*.asok'')) (\<lambda>fs.
        bnd (scan_sockets e fs \<lparr>sc_services = [], sc_fsid_names = [], sc_mon_sockets = []\<rparr>) (\<lambda>sc.
        let version = (if package_version e = [] then None else Some (package_version e))
        in bnd (cluster_beacons e (sc_fsid_names sc) (keys (sc_mon_sockets sc))) (\<lambda>beacons.
           bnd (gets (boot_time_of e)) (\<lambda>b.
           ret (\<lparr>hb_boot_time = b, hb_ceph_version = version,
                 hb_services = map (\<lambda>d. beat d (dumps e)) (vals (sc_services sc))\<rparr>, beacons))))))"

text \<open>The events the minion \<open>minion\<close> sends: one about itself and one for each cluster.\<close>

definition fire_heartbeats :: "'c calls \<Rightarrow> string \<Rightarrow> ('c, salt_event list) py" where
  "fire_heartbeats e minion =
     bnd (get_heartbeats e) (\<lambda>(hb, beacons).
     ret (\<lparr>ev_tag = ''ceph/server'', ev_id = minion, ev_data = ServerBeacon hb\<rparr>
       # map (\<lambda>(fsid, d). \<lparr>ev_tag = ''ceph/cluster/'' @ fsid, ev_id = minion, ev_data = ClusterBeacon d\<rparr>) beacons))"

definition heartbeat :: "'c calls \<Rightarrow> string \<Rightarrow> ('c, salt_event list) py" where
  "heartbeat e minion = try_except (fire_heartbeats e minion) (\<lambda>_. ret [])"

section \<open>Counting\<close>

definition count_of :: "('k, counts) dict \<Rightarrow> 'k \<Rightarrow> string \<Rightarrow> int" where
  "count_of d k st = get_default (get_default d k []) st 0"

lemma get_default_update: "get_default (AList.update k v d) j x = (if j = k then v else get_default d j x)"
  by (simp add: get_default_def)

lemma count_of_in: "count_of (count_in k st d) j s = count_of d j s + (if j = k \<and> s = st then 1 else 0)"
  by (simp add: count_of_def count_in_def count_up_def get_default_update)

lemma count_of_osds:
  "count_of (fold (\<lambda>o' d. count_in o' st d) os d) j s = count_of d j s + (if s = st then int (count_list os j) else 0)"
  by (induction os arbitrary: d) (auto simp: count_of_in)

definition well_counted :: "('k, counts) dict \<Rightarrow> bool" where
  "well_counted d \<longleftrightarrow> (\<forall>k. distinct (keys (get_default d k [])))"

lemma total_count_up:
  "distinct (keys c) \<Longrightarrow> sum_list (vals (count_up st c)) = sum_list (vals c) + 1"
  by (simp add: count_up_def sum_list_vals_update)

lemma pg_summary_loop_counts:
  assumes "pg_summary_loop pgs acc = Inr s" and "well_counted (by_pool acc)" and "distinct (keys (all_pgs acc))"
  shows "(\<forall>j st. count_of (by_osd s) j st = count_of (by_osd acc) j st
            + (\<Sum>p \<leftarrow> pgs. if pg_state p = st then int (count_list (acting p) j) else 0))
    \<and> (\<forall>j st. count_of (by_pool s) j st = count_of (by_pool acc) j st
            + int (length (filter (\<lambda>p. pool_of_pg p = Inr j \<and> pg_state p = st) pgs)))
    \<and> (\<forall>st. get_default (all_pgs s) st 0 = get_default (all_pgs acc) st 0
            + int (length (filter (\<lambda>p. pg_state p = st) pgs)))
    \<and> (\<forall>j. sum_list (vals (get_default (by_pool s) j [])) = sum_list (vals (get_default (by_pool acc) j []))
            + int (length (filter (\<lambda>p. pool_of_pg p = Inr j) pgs)))
    \<and> sum_list (vals (all_pgs s)) = sum_list (vals (all_pgs acc)) + int (length pgs)"
  using assms
proof (induction pgs acc rule: pg_summary_loop.induct)
  case (1 acc)
  then show ?case by simp
next
  case (2 p ps acc)
  then obtain pool where pool: "pool_of_pg p = Inr pool" by (auto simp: then_do_eq_Inr)
  let ?acc = "\<lparr>by_osd = fold (\<lambda>o' d. count_in o' (pg_state p) d) (acting p) (by_osd acc),
        by_pool = count_in pool (pg_state p) (by_pool acc), all_pgs = count_up (pg_state p) (all_pgs acc)\<rparr>"
  have rest: "pg_summary_loop ps ?acc = Inr s" using 2(2) pool by simp
  have wc: "well_counted (by_pool ?acc)"
    using 2(3) by (auto simp: well_counted_def count_in_def count_up_def get_default_update)
  have da: "distinct (keys (all_pgs ?acc))" using 2(4) by (simp add: count_up_def)
  have pools: "sum_list (vals (get_default (by_pool ?acc) j [])) =
      sum_list (vals (get_default (by_pool acc) j [])) + (if j = pool then 1 else 0)" for j
    using 2(3) by (auto simp: count_in_def get_default_update well_counted_def intro: total_count_up)
  have all_st: "get_default (all_pgs ?acc) st 0 = get_default (all_pgs acc) st 0 + (if st = pg_state p then 1 else 0)" for st
    by (simp add: count_up_def get_default_update)
  from 2(1) [OF rest wc da] show ?case
    using pool 2(4) pools all_st
    by (auto simp: count_of_osds count_of_in total_count_up)
qed

text \<open>C17. The digest of the placement groups counts each of them: for every state, in all and in its
  pool, and once for every OSD that serves it. So the counts of a pool add up to its number
  of placement groups.\<close>

theorem pg_summary_counts:
  assumes "pg_summary pgs = Inr s"
  shows "get_default (get_default (by_osd s) j []) st 0 =
      (\<Sum>p \<leftarrow> pgs. if pg_state p = st then int (count_list (acting p) j) else 0)
    \<and> get_default (get_default (by_pool s) i []) st 0 =
        int (length (filter (\<lambda>p. pool_of_pg p = Inr i \<and> pg_state p = st) pgs))
    \<and> get_default (all_pgs s) st 0 = int (length (filter (\<lambda>p. pg_state p = st) pgs))
    \<and> sum_list (vals (get_default (by_pool s) i [])) = int (length (filter (\<lambda>p. pool_of_pg p = Inr i) pgs))
    \<and> sum_list (vals (all_pgs s)) = int (length pgs)"
proof -
  have "well_counted ([] :: (int, counts) dict)" by (simp add: well_counted_def get_default_def)
  from pg_summary_loop_counts [OF assms [unfolded pg_summary_def]] this show ?thesis
    by (simp add: count_of_def get_default_def)
qed

definition two_pgs :: "pg_brief list" where
  "two_pgs = [\<lparr>pg_id = ''3.0'', pg_state = ''active+clean'', acting = [0, 1]\<rparr>,
     \<lparr>pg_id = ''3.1'', pg_state = ''creating'', acting = [1]\<rparr>]"

theorem pg_summary_counts_witness:
  "\<exists>s. pg_summary two_pgs = Inr s \<and> get_default (get_default (by_osd s) 1 []) ''creating'' 0 = 1
     \<and> sum_list (vals (get_default (by_pool s) 3 [])) = 2"
proof -
  have p: "pool_of_pg p = Inr 3" if "p \<in> set two_pgs" for p
    using that by (auto simp: two_pgs_def pool_of_pg_def Let_def read_int_def digit_val_def upt_rec)
  then obtain s where s: "pg_summary two_pgs = Inr s"
    by (auto simp: pg_summary_def two_pgs_def)
  from pg_summary_counts [OF s, of 1 "''creating''" 3] p show ?thesis
    by (intro exI [of _ s] conjI s) (simp_all add: two_pgs_def)
qed

section \<open>Properties of the commands\<close>

fun after_commands :: "'c calls \<Rightarrow> command list \<Rightarrow> 'c \<Rightarrow> 'c" where
  "after_commands e [] c = c"
| "after_commands e (x # xs) c = after_commands e xs (snd (send_command e x c))"

lemma rados_commands_loop_outcome:
  assumes "rados_commands_loop e fsid name cmds results c = (Inr res, c')"
  shows "\<exists>n st. n \<le> length cmds \<and> length (rr_results res) = length results + n
     \<and> (rr_error res \<longleftrightarrow> n < length cmds) \<and> rr_fsid res = fsid
     \<and> cluster_status e name (after_commands e (take (if rr_error res then Suc n else n) cmds) c) = (Inr st, c')
     \<and> rr_versions res = hb_versions st
     \<and> (\<forall>i < n. \<exists>out err c1. send_command e (cmds ! i) (after_commands e (take i cmds) c) = (Inr (0, out, err), c1))
     \<and> (rr_error res \<longrightarrow> (\<exists>r out c1. r \<noteq> 0 \<and>
          send_command e (cmds ! n) (after_commands e (take n cmds) c) = (Inr (r, out, rr_error_status res), c1)))"
  using assms
proof (induction cmds arbitrary: results c)
  case Nil
  then show ?case by (auto simp: bnd_def ret_def split: prod.splits sum.splits)
next
  case (Cons cmd cmds)
  obtain x c1 where s: "send_command e cmd c = (x, c1)" by fastforce
  with Cons.prems obtain r out err where x: "x = Inr (r, out, err)"
    by (cases x) (auto simp: bnd_def)
  show ?case
  proof (cases "r = 0")
    case False
    with Cons.prems s x show ?thesis
      by (intro exI [of _ 0]) (auto simp: bnd_def ret_def split: prod.splits sum.splits)
  next
    case True
    then obtain y where rest: "rados_commands_loop e fsid name cmds (results @ [y]) c1 = (Inr res, c')"
      using Cons.prems s x
      by (auto simp: bnd_def lift_exn_def split: if_splits sum.splits)
    from Cons.IH [OF rest] obtain n st where n: "n \<le> length cmds" "length (rr_results res) = Suc (length results) + n"
      "rr_error res \<longleftrightarrow> n < length cmds" "rr_fsid res = fsid"
      "cluster_status e name (after_commands e (take (if rr_error res then Suc n else n) cmds) c1) = (Inr st, c')"
      "rr_versions res = hb_versions st"
      and before: "\<forall>i < n. \<exists>out err c2. send_command e (cmds ! i) (after_commands e (take i cmds) c1) = (Inr (0, out, err), c2)"
      and failing: "rr_error res \<longrightarrow> (\<exists>r out c2. r \<noteq> 0 \<and>
          send_command e (cmds ! n) (after_commands e (take n cmds) c1) = (Inr (r, out, rr_error_status res), c2))"
      by auto
    have "\<forall>i < Suc n. \<exists>out err c2. send_command e ((cmd # cmds) ! i) (after_commands e (take i (cmd # cmds)) c)
        = (Inr (0, out, err), c2)"
      using before s x True by (auto simp: less_Suc_eq_0_disj)
    with n failing s show ?thesis
      by (intro exI [of _ "Suc n"] exI [of _ st]) (simp split: if_splits)
  qed
qed

text \<open>C11. When the job of a user request returns, its commands have been executed in order, up to the
  first one that Ceph refused: every earlier one succeeded and left one result, the refused
  one gives the error text, and no later one was sent. The map versions in the answer are
  those after the last command that was sent, in either case.\<close>

theorem rados_commands_outcome:
  assumes "connect e name c = (Inr u, c0)" and "rados_commands e fsid name cmds c = (Inr res, c')"
  shows "\<exists>n st. n \<le> length cmds \<and> length (rr_results res) = n
     \<and> (rr_error res \<longleftrightarrow> n < length cmds) \<and> rr_fsid res = fsid
     \<and> cluster_status e name (after_commands e (take (if rr_error res then Suc n else n) cmds) c0) = (Inr st, c')
     \<and> rr_versions res = hb_versions st
     \<and> (\<forall>i < n. \<exists>out err c1. send_command e (cmds ! i) (after_commands e (take i cmds) c0) = (Inr (0, out, err), c1))
     \<and> (rr_error res \<longrightarrow> (\<exists>r out c1. r \<noteq> 0 \<and>
          send_command e (cmds ! n) (after_commands e (take n cmds) c0) = (Inr (r, out, rr_error_status res), c1)))"
proof -
  from assms have "rados_commands_loop e fsid name cmds [] c0 = (Inr res, c')"
    by (simp add: rados_commands_def bnd_def)
  from rados_commands_loop_outcome [OF this] show ?thesis unfolding list.size add_0_left by blast
qed

text \<open>A cluster that logs the commands it gets and refuses to delete a pool.\<close>

definition demo_json :: json where
  "demo_json = JsDict [(''fsid'', JsText ''f''), (''monmap'', JsDict [(''epoch'', JsInt 1)]),
     (''osdmap'', JsDict [(''osdmap'', JsDict [(''epoch'', JsInt 7)])]), (''mdsmap'', JsDict [(''epoch'', JsInt 1)]),
     (''election_epoch'', JsInt 4)]"

definition demo_calls :: "string list calls" where
  "demo_calls = \<lparr>connect = (\<lambda>name c. (Inr (), c)),
     json_command = (\<lambda>prefix args inbuf c.
       ((if prefix = ''osd pool delete'' then (-1, '''', ''EPERM'')
         else (0, (if prefix = ''pg dump'' then ''[]'' else if prefix = ''osd pool create'' then '''' else ''{}''), '''')),
        c @ [prefix])),
     socket_io = (\<lambda>path req c. (Inr ''{}'', c)), list_sockets = (\<lambda>pat c. [''mon.asok'']),
     validate_command = (\<lambda>sig cmd. [(''prefix'', JsText ''x'')]),
     crushtool = (\<lambda>b s. (0, s, '''')),
     loads = (\<lambda>s. if s = ''[]'' then Some (JsList []) else Some demo_json),
     dumps = (\<lambda>j. ''json''), packb = (\<lambda>s. ''pack''), md5 = (\<lambda>s. s),
     rados_installed = True, package_version = ''0.80'', boot_time_of = (\<lambda>c. 0)\<rparr>"

definition demo_commands :: "command list" where
  "demo_commands = [(''osd pool create'', [(''pool'', JStr ''a'')]), (''osd pool delete'', [(''pool'', JStr ''b'')]),
     (''osd pool create'', [(''pool'', JStr ''c'')])]"

lemma demo_commands_run:
  "case rados_commands demo_calls ''f'' ''ceph'' demo_commands [] of
     (Inr res, c) \<Rightarrow> rr_error res \<and> rr_error_status res = ''EPERM'' \<and> rr_results res = [None]
       \<and> take 2 c = [''osd pool create'', ''osd pool delete''] \<and> ''osd pool create'' \<notin> set (drop 1 c)
   | _ \<Rightarrow> False"
  by code_simp

theorem rados_commands_outcome_witness:
  "\<exists>res c' st. rados_commands demo_calls ''f'' ''ceph'' demo_commands [] = (Inr res, c')
     \<and> rr_error res \<and> rr_versions res = hb_versions st
     \<and> cluster_status demo_calls ''ceph'' (after_commands demo_calls (take 2 demo_commands) []) = (Inr st, c')"
proof -
  obtain res c' where run: "rados_commands demo_calls ''f'' ''ceph'' demo_commands [] = (Inr res, c')"
    and e: "rr_error res" "rr_results res = [None]"
    using demo_commands_run by (auto split: prod.splits sum.splits)
  have "connect demo_calls ''ceph'' [] = (Inr (), [])" by (simp add: demo_calls_def)
  from rados_commands_outcome [OF this run] e obtain st where
    "cluster_status demo_calls ''ceph'' (after_commands demo_calls (take (Suc 1) demo_commands) []) = (Inr st, c')"
    "rr_versions res = hb_versions st"
    by auto
  with run e(1) show ?thesis by (auto simp: numeral_2_eq_2)
qed

section \<open>Names of sockets\<close>

lemma splits_at_first: "c \<notin> set a \<Longrightarrow> a \<noteq> [] \<Longrightarrow> \<exists>more. splits_at c (a @ c # b) = (a, b) # more"
proof (induction a)
  case (Cons x a)
  show ?case
  proof (cases a)
    case Nil
    with Cons.prems show ?thesis by simp
  next
    case (Cons y ys)
    with Cons.IH Cons.prems obtain more where "splits_at c (a @ c # b) = (a, b) # more" by auto
    with Cons Cons.prems show ?thesis by auto
  qed
qed simp

lemma first_match_hd: "f x = Some y \<Longrightarrow> first_match f (x # xs) = Some y"
  by (simp add: first_match_def map_filter_simps)

lemma asok_id_suffix: "i \<noteq> [] \<Longrightarrow> asok_id (i @ ''.asok'') = Some i"
  by (simp add: asok_id_def)

lemma parse_asok_run:
  assumes "c \<noteq> []" and "CHR ''-'' \<notin> set c" and "ty \<noteq> []" and "CHR ''.'' \<notin> set ty" and "i \<noteq> []"
  shows "parse_asok (c @ ''-'' @ ty @ ''.'' @ i @ ''.asok'') = Some (c, ty, i)"
proof -
  obtain m1 where m1: "splits_at (CHR ''-'') (c @ CHR ''-'' # ty @ ''.'' @ i @ ''.asok'') = (c, ty @ ''.'' @ i @ ''.asok'') # m1"
    using splits_at_first [OF assms(2,1)] by blast
  obtain m2 where m2: "splits_at (CHR ''.'') (ty @ CHR ''.'' # i @ ''.asok'') = (ty, i @ ''.asok'') # m2"
    using splits_at_first [OF assms(4,3)] by blast
  have "first_match (\<lambda>(t, rest'). map_option (\<lambda>j. (c, t, j)) (asok_id rest'))
      (splits_at (CHR ''.'') (ty @ ''.'' @ i @ ''.asok'')) = Some (c, ty, i)"
    using m2 by (simp add: first_match_hd asok_id_suffix assms(5))
  then show ?thesis
    unfolding parse_asok_def using m1 by (simp add: first_match_hd)
qed

text \<open>The name of a daemon's admin socket gives back the cluster, the type and the id the daemon
  was started with, whatever characters the id has; a cluster name with a dash would be
  cut at its first dash.\<close>

theorem socket_name_roundtrip:
  assumes "c \<noteq> []" and "CHR ''-'' \<notin> set c" and "ty \<noteq> []" and "CHR ''.'' \<notin> set ty" and "i \<noteq> []"
    and "CHR ''/'' \<notin> set c \<union> set ty \<union> set i"
  shows "parse_asok (basename (''/var/run/ceph/'' @ c @ ''-'' @ ty @ ''.'' @ i @ ''.asok'')) = Some (c, ty, i)"
proof -
  let ?n = "c @ ''-'' @ ty @ ''.'' @ i @ ''.asok''"
  have "CHR ''/'' \<notin> set ?n" using assms(6) by auto
  then have "basename (''/var/run/ceph/'' @ ?n) = ?n"
    by (simp add: basename_def split_on_no_sep)
  then show ?thesis using parse_asok_run [OF assms(1-5)] by simp
qed

theorem socket_name_roundtrip_witness:
  "parse_asok (basename ''/var/run/ceph/ceph-mon.gravel1.example.asok'') = Some (''ceph'', ''mon'', ''gravel1.example'')"
  using socket_name_roundtrip [of "''ceph''" "''mon''" "''gravel1.example''"] by simp

section \<open>What a heartbeat tells\<close>

lemma cluster_status_versions:
  assumes "cluster_status e name c = (Inr d, c')"
  shows "hb_name d = name" and "\<forall>ty \<in> set SYNC_OBJECT_TYPES. has_key (hb_versions d) (sync_str ty)"
  using assms
  by (auto simp: cluster_status_def bnd_def ret_def has_key_def SYNC_OBJECT_TYPES_def split: prod.splits sum.splits)

lemma beacon_versions:
  assumes "cluster_beacons e names fs c = (Inr bs, c')" and "(fsid, d) \<in> set bs"
  shows "fsid \<in> set fs \<and> (\<forall>ty \<in> set SYNC_OBJECT_TYPES. has_key (hb_versions d) (sync_str ty))"
  using assms
proof (induction fs arbitrary: c bs)
  case Nil
  then show ?case by (simp add: ret_def)
next
  case (Cons f fs)
  let ?one = "or_else_skip (bnd (lift_exn (item names f f)) (\<lambda>name. bnd (connect e name) (\<lambda>_. cluster_status e name)))"
  obtain x c1 where one: "?one c = (Inr x, c1)"
    using Cons.prems(1) by (cases "?one c"; cases "fst (?one c)") (auto simp: bnd_def)
  obtain rest where rest: "cluster_beacons e names fs c1 = (Inr rest, c')"
    and bs: "bs = (case x of None \<Rightarrow> rest | Some d \<Rightarrow> (f, d) # rest)"
    using Cons.prems(1) one by (auto simp: bnd_def ret_def split: prod.splits sum.splits)
  have "\<forall>ty \<in> set SYNC_OBJECT_TYPES. has_key (hb_versions d') (sync_str ty)" if "x = Some d'" for d'
    using one that
    by (auto simp: or_else_skip_def try_except_def bnd_def ret_def raise_def
        dest!: cluster_status_versions(2) split: prod.splits sum.splits if_splits)
  with Cons.IH [OF rest] Cons.prems(2) bs show ?case
    by (auto split: option.splits)
qed

text \<open>Every cluster beacon of a minion names a version for each of the objects that are synchronised.\<close>

lemma fired_beacon:
  assumes "heartbeat e minion c = (Inr evs, c')" and "ev \<in> set evs" and "ev_data ev = ClusterBeacon d"
  shows "ev_id ev = minion \<and> startswith (ev_tag ev) ''ceph/cluster/''
     \<and> (\<forall>ty \<in> set SYNC_OBJECT_TYPES. has_key (hb_versions d) (sync_str ty))"
proof -
  from assms(1,2) obtain hb bs c1 c2 where g: "get_heartbeats e c = (Inr (hb, bs), c1)"
    and evs: "evs = \<lparr>ev_tag = ''ceph/server'', ev_id = minion, ev_data = ServerBeacon hb\<rparr>
       # map (\<lambda>(fsid, d). \<lparr>ev_tag = ''ceph/cluster/'' @ fsid, ev_id = minion, ev_data = ClusterBeacon d\<rparr>) bs"
    by (auto simp: heartbeat_def fire_heartbeats_def try_except_def bnd_def ret_def split: prod.splits sum.splits)
  from evs assms(2,3) obtain fsid where m: "(fsid, d) \<in> set bs"
      "ev = \<lparr>ev_tag = ''ceph/cluster/'' @ fsid, ev_id = minion, ev_data = ClusterBeacon d\<rparr>"
    by auto
  from g m(1) obtain names fs c3 c4 where "cluster_beacons e names fs c3 = (Inr bs, c4)"
    by (auto simp: get_heartbeats_def Let_def bnd_def ret_def split: if_splits prod.splits sum.splits)
  with m beacon_versions [OF this m(1)] show ?thesis by (simp add: startswith_def)
qed

text \<open>A minion with one mon in quorum.\<close>

definition demo_minion :: "string list calls" where
  "demo_minion = demo_calls\<lparr>list_sockets := (\<lambda>pat c. [''/var/run/ceph/ceph-mon.labmon.asok'']),
     loads := (\<lambda>s. if s = ''[]'' then Some (JsList []) else Some (JsDict
       [(''fsid'', JsText ''g''), (''monmap'', JsDict [(''epoch'', JsInt 1), (''fsid'', JsText ''g'')]),
        (''osdmap'', JsDict [(''osdmap'', JsDict [(''epoch'', JsInt 7)])]), (''mdsmap'', JsDict [(''epoch'', JsInt 1)]),
        (''election_epoch'', JsInt 4), (''rank'', JsInt 0), (''quorum'', JsList [JsInt 0]),
        (''version'', JsText ''0.80'')]))\<rparr>"

end
