(* ===== verification/Persister.thy ===== *)
theory Persister
  imports Manager
begin

text \<open>
  The database (cthulhu/persistence): ServerMonitor and ClusterMonitor queue their updates
  for the Persister, which applies one after the other, each in a transaction. The tables
  are read again when the process starts.
\<close>

section \<open>Tables\<close>

record db_server =
  dbs_id :: nat
  dbs_fqdn :: string
  dbs_hostname :: string
  dbs_managed :: bool
  dbs_last_contact :: "time option"
  dbs_boot_time :: "time option"
  dbs_ceph_version :: "string option"

record db_service =
  dbv_id :: service_id
  dbv_running :: "bool option"
  dbv_status :: "string option"
  dbv_server :: "nat option"

record db_object =
  dbo_fsid :: string
  dbo_name :: string
  dbo_type :: string
  dbo_version :: "int option"
  dbo_when :: time
  dbo_data :: "sync_data option"

record database =
  db_servers :: "db_server list"
  db_services :: "db_service list"
  db_objects :: "db_object list"
  db_next :: nat

definition empty_database :: database where
  "empty_database = \<lparr>db_servers = [], db_services = [], db_objects = [], db_next = 1\<rparr>"

text \<open>The value that the shipped configuration files set.\<close>

definition CLUSTER_MAP_RETENTION :: time where
  "CLUSTER_MAP_RETENTION = seconds 3600"

section \<open>Applying an update\<close>

text \<open>
  \<open>query(Server).filter_by(fqdn=f).one()\<close> raises unless there is exactly one such row.
  The exception ends the transaction: \<open>None\<close> is a rollback. So does a second row with
  the primary key of a service, or deleting a server that a service refers to.
\<close>

definition one_server_id :: "database \<Rightarrow> string \<Rightarrow> nat option" where
  "one_server_id db f = (case filter (\<lambda>r. dbs_fqdn r = f) (db_servers db) of [r] \<Rightarrow> Some (dbs_id r) | _ \<Rightarrow> None)"

definition update_server :: "string \<Rightarrow> (db_server \<Rightarrow> db_server) \<Rightarrow> database \<Rightarrow> database" where
  "update_server f g db = db\<lparr>db_servers := map (\<lambda>r. if dbs_fqdn r = f then g r else r) (db_servers db)\<rparr>"

definition update_service :: "service_id \<Rightarrow> (db_service \<Rightarrow> db_service) \<Rightarrow> database \<Rightarrow> database" where
  "update_service s g db = db\<lparr>db_services := map (\<lambda>q. if dbv_id q = s then g q else q) (db_services db)\<rparr>"

definition create_server_row :: "string \<Rightarrow> string \<Rightarrow> bool \<Rightarrow> time option \<Rightarrow> database \<Rightarrow> database" where
  "create_server_row f h m lc db = db\<lparr>db_servers := db_servers db @ [\<lparr>dbs_id = db_next db, dbs_fqdn = f,
     dbs_hostname = h, dbs_managed = m, dbs_last_contact = lc, dbs_boot_time = None, dbs_ceph_version = None\<rparr>],
     db_next := Suc (db_next db)\<rparr>"

definition create_service_row :: "service_id \<Rightarrow> string option \<Rightarrow> string \<Rightarrow> database \<Rightarrow> database option" where
  "create_service_row s st f db =
     (if s \<in> dbv_id ` set (db_services db) then None
      else case one_server_id db f of
          None \<Rightarrow> None
        | Some i \<Rightarrow> Some (db\<lparr>db_services := db_services db @
            [\<lparr>dbv_id = s, dbv_running = None, dbv_status = st, dbv_server = Some i\<rparr>]\<rparr>))"

definition locate_service_row :: "service_id \<Rightarrow> string \<Rightarrow> database \<Rightarrow> database option" where
  "locate_service_row s f db = (case one_server_id db f of
       None \<Rightarrow> None
     | Some i \<Rightarrow> Some (update_service s (\<lambda>q. q\<lparr>dbv_server := Some i\<rparr>) db))"

definition delete_server_row :: "string \<Rightarrow> database \<Rightarrow> database option" where
  "delete_server_row f db =
     (let victims = dbs_id ` set (filter (\<lambda>r. dbs_fqdn r = f) (db_servers db))
      in if \<exists>q \<in> set (db_services db). \<exists>i \<in> victims. dbv_server q = Some i then None
         else Some (db\<lparr>db_servers := filter (\<lambda>r. dbs_fqdn r \<noteq> f) (db_servers db)\<rparr>))"

definition delete_service_row :: "service_id \<Rightarrow> database \<Rightarrow> database" where
  "delete_service_row s db = db\<lparr>db_services := filter (\<lambda>q. dbv_id q \<noteq> s) (db_services db)\<rparr>"

text \<open>
  The database decides what becomes of a row without a version, which is part of the primary
  key: \<open>dbe_null_version\<close> gives the version it files the row under, \<open>None\<close> if it
  refuses the row. \<open>dbe_now\<close> is when the update is applied; the retention is measured from it.
\<close>

record db_env =
  dbe_now :: time
  dbe_null_version :: "db_object list \<Rightarrow> int option option"

definition update_sync_object :: "db_env \<Rightarrow> db_object \<Rightarrow> database \<Rightarrow> database option" where
  "update_sync_object e ob db =
     (case (if dbo_version ob = None then dbe_null_version e (db_objects db) else Some (dbo_version ob)) of
        None \<Rightarrow> None
      | Some v \<Rightarrow>
          if v \<noteq> None \<and> (\<exists>x \<in> set (db_objects db). dbo_fsid x = dbo_fsid ob \<and> dbo_type x = dbo_type ob
                \<and> dbo_version x = v) then None
          else Some (db\<lparr>db_objects := filter
            (\<lambda>x. \<not> (dbo_when x < dbe_now e - CLUSTER_MAP_RETENTION \<and> dbo_fsid x = dbo_fsid ob
                 \<and> dbo_type x = dbo_type ob))
            (db_objects db @ [ob\<lparr>dbo_version := v\<rparr>])\<rparr>))"

fun apply_update :: "db_env \<Rightarrow> db_op \<Rightarrow> database \<Rightarrow> database option" where
  "apply_update de (CreateServer f h m lc) db = Some (create_server_row f h m lc db)"
| "apply_update de (UpdateServerFqdn old new) db =
     Some (update_server old (\<lambda>r. r\<lparr>dbs_fqdn := new, dbs_managed := True\<rparr>) db)"
| "apply_update de (UpdateServerManaged f) db = Some (update_server f (\<lambda>r. r\<lparr>dbs_managed := True\<rparr>) db)"
| "apply_update de (UpdateServerContact f t) db = Some (update_server f (\<lambda>r. r\<lparr>dbs_last_contact := Some t\<rparr>) db)"
| "apply_update de (UpdateServerBoot f t) db = Some (update_server f (\<lambda>r. r\<lparr>dbs_boot_time := Some t\<rparr>) db)"
| "apply_update de (UpdateServerVersion f v) db = Some (update_server f (\<lambda>r. r\<lparr>dbs_ceph_version := v\<rparr>) db)"
| "apply_update de (DeleteServer f) db = delete_server_row f db"
| "apply_update de (CreateService s st f) db = create_service_row s st f db"
| "apply_update de (UpdateServiceRunning s b) db = Some (update_service s (\<lambda>q. q\<lparr>dbv_running := Some b\<rparr>) db)"
| "apply_update de (UpdateServiceStatus s st) db = Some (update_service s (\<lambda>q. q\<lparr>dbv_status := st\<rparr>) db)"
| "apply_update de (UpdateServiceLocation s f) db = locate_service_row s f db"
| "apply_update de (DeleteService s) db = Some (delete_service_row s db)"
| "apply_update de (UpdateSyncObject fsid name ty v t d) db = update_sync_object de
     \<lparr>dbo_fsid = fsid, dbo_name = name, dbo_type = ty, dbo_version = v, dbo_when = t, dbo_data = d\<rparr> db"
| "apply_update de (ExpungeSyncObjects fsid) db =
     Some (db\<lparr>db_objects := filter (\<lambda>x. dbo_fsid x \<noteq> fsid) (db_objects db)\<rparr>)"

text \<open>The Persister's loop: an update that raises is logged and rolled back.\<close>

definition persist_one :: "db_env \<Rightarrow> db_op \<Rightarrow> database \<Rightarrow> database" where
  "persist_one de op' db = (case apply_update de op' db of None \<Rightarrow> db | Some db' \<Rightarrow> db')"

definition persist_all :: "db_env \<Rightarrow> db_op list \<Rightarrow> database \<Rightarrow> database" where
  "persist_all de ops db = fold (persist_one de) ops db"

text \<open>What has been queued so far, applied.\<close>

definition stored :: "db_env \<Rightarrow> server_monitor \<Rightarrow> database" where
  "stored de m = persist_all de (sm_db m) empty_database"

section \<open>Reading it back\<close>

definition recovered_server :: "db_server \<Rightarrow> server_state" where
  "recovered_server r = \<lparr>ss_fqdn = dbs_fqdn r, ss_hostname = dbs_hostname r, ss_managed = dbs_managed r,
     ss_services = [], ss_last_contact = dbs_last_contact r, ss_boot_time = dbs_boot_time r,
     ss_ceph_version = dbs_ceph_version r\<rparr>"

text \<open>\<open>query(Server).get(i).fqdn\<close>, \<open>None\<close> without such a row.\<close>

definition server_name :: "database \<Rightarrow> nat \<Rightarrow> string option" where
  "server_name db i = map_of (map (\<lambda>r. (dbs_id r, dbs_fqdn r)) (db_servers db)) i"

definition recovered_service :: "database \<Rightarrow> db_service \<Rightarrow> service_row" where
  "recovered_service db q = \<lparr>sr_id = dbv_id q, sr_server = (case dbv_server q of
     None \<Rightarrow> None
   | Some i \<Rightarrow> if i = 0 then None else server_name db i)\<rparr>"

definition restart_servers :: "database \<Rightarrow> unit mg_py" where
  "restart_servers db =
     bnd (for_each recover_server (map recovered_server (db_servers db))) (\<lambda>_.
     for_each recover_service (map (recovered_service db) (db_services db)))"

section \<open>What the tables say\<close>

text \<open>
  Both sides describe a registry: which servers are known, and on which of them each
  service is.
\<close>

definition known_servers :: "database \<Rightarrow> string set" where
  "known_servers db = dbs_fqdn ` set (db_servers db)"

definition services_map :: "database \<Rightarrow> service_id \<Rightarrow> nat option option" where
  "services_map db = map_of (map (\<lambda>q. (dbv_id q, dbv_server q)) (db_services db))"

definition place_of :: "database \<Rightarrow> service_id \<Rightarrow> string option" where
  "place_of db s = (case services_map db s of Some (Some i) \<Rightarrow> server_name db i | _ \<Rightarrow> None)"

definition well_formed :: "database \<Rightarrow> bool" where
  "well_formed db \<longleftrightarrow> distinct (map dbs_fqdn (db_servers db)) \<and> distinct (map dbs_id (db_servers db))
     \<and> (\<forall>r \<in> set (db_servers db). 0 < dbs_id r \<and> dbs_id r < db_next db) \<and> 0 < db_next db \<and> distinct (map dbv_id (db_services db))
     \<and> (\<forall>q \<in> set (db_services db). \<exists>r \<in> set (db_servers db). dbv_server q = Some (dbs_id r))"

lemma well_formed_empty: "well_formed empty_database"
  by (simp add: well_formed_def empty_database_def)

lemma server_name_iff:
  "well_formed db \<Longrightarrow> server_name db i = Some f \<longleftrightarrow> (\<exists>r \<in> set (db_servers db). dbs_id r = i \<and> dbs_fqdn r = f)"
  unfolding server_name_def well_formed_def
  by (subst map_of_eq_Some_iff) (auto simp: comp_def)

lemma filter_unique:
  "distinct (map k xs) \<Longrightarrow> filter (\<lambda>x. k x = v) xs = [r] \<longleftrightarrow> r \<in> set xs \<and> k r = v"
proof (induction xs)
  case (Cons x xs)
  have "\<forall>y \<in> set xs. k y \<noteq> v" if "k x = v" using Cons.prems that by (force simp: image_iff)
  then have "filter (\<lambda>y. k y = v) xs = []" "\<forall>y \<in> set xs. k y \<noteq> v" if "k x = v"
    using that by (auto simp: filter_empty_conv)
  with Cons show ?case by (cases "k x = v") auto
qed simp

lemma one_server_id_iff:
  assumes "well_formed db"
  shows "one_server_id db f = Some i \<longleftrightarrow> (\<exists>r \<in> set (db_servers db). dbs_fqdn r = f \<and> dbs_id r = i)"
proof -
  have d: "distinct (map dbs_fqdn (db_servers db))" using assms by (simp add: well_formed_def)
  have "one_server_id db f = Some i \<longleftrightarrow> (\<exists>r. filter (\<lambda>r. dbs_fqdn r = f) (db_servers db) = [r] \<and> dbs_id r = i)"
    by (auto simp: one_server_id_def split: list.splits)
  then show ?thesis by (auto simp: filter_unique [OF d])
qed

section \<open>What an update does to the registry\<close>

lemma place_of_services:
  "server_name db' = server_name db \<Longrightarrow> services_map db' = services_map db \<Longrightarrow> place_of db' = place_of db"
  by (simp add: place_of_def fun_eq_iff split: option.split)

lemma server_name_same: "db_servers db' = db_servers db \<Longrightarrow> server_name db' = server_name db"
  by (simp add: server_name_def fun_eq_iff)

lemma known_same: "db_servers db' = db_servers db \<Longrightarrow> known_servers db' = known_servers db"
  by (simp add: known_servers_def)

lemma services_map_dom: "services_map db s = None \<longleftrightarrow> s \<notin> dbv_id ` set (db_services db)"
  by (auto simp: services_map_def map_of_eq_None_iff image_image)

lemma place_of_None:
  assumes "well_formed db"
  shows "place_of db s = None \<longleftrightarrow> services_map db s = None"
proof
  assume n: "place_of db s = None"
  show "services_map db s = None"
  proof (rule ccontr)
    assume "services_map db s \<noteq> None"
    then obtain x where x: "services_map db s = Some x" by blast
    then have "(s, x) \<in> set (map (\<lambda>q. (dbv_id q, dbv_server q)) (db_services db))"
      unfolding services_map_def by (rule map_of_SomeD)
    then obtain q where "q \<in> set (db_services db)" "dbv_id q = s" "dbv_server q = x" by auto
    with assms obtain r where "r \<in> set (db_servers db)" "x = Some (dbs_id r)"
      unfolding well_formed_def by blast
    with n x server_name_iff [OF assms, of "dbs_id r" "dbs_fqdn r"] show False by (auto simp: place_of_def)
  qed
qed (simp add: place_of_def)

lemma named_server:
  assumes "well_formed db" and "f \<in> known_servers db"
  shows "\<exists>r \<in> set (db_servers db). one_server_id db f = Some (dbs_id r) \<and> server_name db (dbs_id r) = Some f"
proof -
  from assms(2) obtain r where r: "r \<in> set (db_servers db)" "dbs_fqdn r = f" by (auto simp: known_servers_def)
  then have "one_server_id db f = Some (dbs_id r)" "server_name db (dbs_id r) = Some f"
    using one_server_id_iff [OF assms(1)] server_name_iff [OF assms(1)] by blast+
  with r(1) show ?thesis by blast
qed

lemma create_server_effect:
  assumes "well_formed db" and "f \<notin> known_servers db"
  shows "well_formed (create_server_row f h m lc db)"
    and "known_servers (create_server_row f h m lc db) = insert f (known_servers db)"
    and "place_of (create_server_row f h m lc db) = place_of db"
proof -
  let ?db = "create_server_row f h m lc db"
  show "well_formed ?db"
    using assms by (auto simp: well_formed_def create_server_row_def known_servers_def less_Suc_eq)
  show "known_servers ?db = insert f (known_servers db)"
    by (auto simp: known_servers_def create_server_row_def)
  have names: "server_name ?db i = (if i = db_next db then Some f else server_name db i)" for i
  proof -
    have "map_of (map (\<lambda>r. (dbs_id r, dbs_fqdn r)) (db_servers db)) (db_next db) = None"
      using assms(1) by (auto simp: map_of_eq_None_iff well_formed_def)
    then show ?thesis by (auto simp: server_name_def create_server_row_def map_add_def split: option.splits)
  qed
  have "services_map ?db = services_map db" by (simp add: services_map_def create_server_row_def)
  moreover have "i \<noteq> db_next db" if "services_map db s = Some (Some i)" for s i
  proof -
    from that have "(s, Some i) \<in> set (map (\<lambda>q. (dbv_id q, dbv_server q)) (db_services db))"
      unfolding services_map_def by (rule map_of_SomeD)
    with assms(1) show ?thesis by (fastforce simp: well_formed_def)
  qed
  ultimately have "place_of ?db s = place_of db s" for s
    by (auto simp: place_of_def names split: option.splits)
  then show "place_of ?db = place_of db" by blast
qed

lemma create_service_effect:
  assumes "well_formed db" and "f \<in> known_servers db" and "place_of db s = None"
  shows "\<exists>db'. create_service_row s st f db = Some db' \<and> well_formed db'
     \<and> known_servers db' = known_servers db \<and> place_of db' = (place_of db)(s \<mapsto> f)"
proof -
  from named_server [OF assms(1,2)] obtain r where r: "r \<in> set (db_servers db)"
    "one_server_id db f = Some (dbs_id r)" "server_name db (dbs_id r) = Some f" by blast
  have n: "services_map db s = None" using place_of_None [OF assms(1)] assms(3) by simp
  then have s: "s \<notin> dbv_id ` set (db_services db)" by (simp add: services_map_dom)
  let ?db = "db\<lparr>db_services := db_services db @
            [\<lparr>dbv_id = s, dbv_running = None, dbv_status = st, dbv_server = Some (dbs_id r)\<rparr>]\<rparr>"
  have "well_formed ?db" using assms(1) r(1) s by (auto simp: well_formed_def)
  moreover have "services_map ?db = (services_map db)(s \<mapsto> Some (dbs_id r))"
    using n by (auto simp: services_map_def map_add_def fun_eq_iff split: option.splits)
  then have "place_of ?db = (place_of db)(s \<mapsto> f)"
    using r(3) server_name_same [of ?db db] by (auto simp: place_of_def fun_eq_iff split: option.split)
  ultimately show ?thesis using r(2) s known_same [of ?db db]
    by (auto simp: create_service_row_def)
qed

lemma map_of_relocated:
  "map_of (map (\<lambda>q. (dbv_id q, dbv_server q)) (map (\<lambda>q. if dbv_id q = s then q\<lparr>dbv_server := x\<rparr> else q) qs))
    = (if s \<in> dbv_id ` set qs then (map_of (map (\<lambda>q. (dbv_id q, dbv_server q)) qs))(s \<mapsto> x)
       else map_of (map (\<lambda>q. (dbv_id q, dbv_server q)) qs))"
proof (induction qs)
  case (Cons q qs)
  then show ?case by (cases "dbv_id q = s") (auto simp: fun_eq_iff)
qed simp

lemma mapped_ids:
  "(\<And>q. dbv_id (g q) = dbv_id q) \<Longrightarrow>
     map dbv_id (map (\<lambda>q. if dbv_id q = s then g q else q) qs) = map dbv_id qs"
  by (induction qs) auto

lemma mapped_keys:
  "(\<And>q. dbv_id (g q) = dbv_id q \<and> dbv_server (g q) = dbv_server q) \<Longrightarrow>
     map (\<lambda>q. (dbv_id q, dbv_server q)) (map (\<lambda>q. if dbv_id q = s then g q else q) qs)
      = map (\<lambda>q. (dbv_id q, dbv_server q)) qs"
  by (induction qs) auto

lemma locate_service_effect:
  assumes "well_formed db" and "f \<in> known_servers db" and "place_of db s \<noteq> None"
  shows "\<exists>db'. locate_service_row s f db = Some db' \<and> well_formed db'
     \<and> known_servers db' = known_servers db \<and> place_of db' = (place_of db)(s \<mapsto> f)"
proof -
  from named_server [OF assms(1,2)] obtain r where r: "r \<in> set (db_servers db)"
    "one_server_id db f = Some (dbs_id r)" "server_name db (dbs_id r) = Some f" by blast
  have s: "s \<in> dbv_id ` set (db_services db)"
    using place_of_None [OF assms(1)] assms(3) services_map_dom [of db s] by simp
  let ?qs = "map (\<lambda>q. if dbv_id q = s then q\<lparr>dbv_server := Some (dbs_id r)\<rparr> else q) (db_services db)"
  let ?db = "db\<lparr>db_services := ?qs\<rparr>"
  have ids: "map dbv_id ?qs = map dbv_id (db_services db)" by (rule mapped_ids) simp
  have "\<exists>r \<in> set (db_servers db). dbv_server q = Some (dbs_id r)" if "q \<in> set ?qs" for q
    using that assms(1) r(1) unfolding well_formed_def by (auto split: if_splits)
  then have "well_formed ?db"
    using assms(1) ids unfolding well_formed_def by (simp del: map_map set_map)
  moreover have "services_map ?db = (services_map db)(s \<mapsto> Some (dbs_id r))"
    using s map_of_relocated [of s "Some (dbs_id r)" "db_services db"] by (simp add: services_map_def)
  then have "place_of ?db = (place_of db)(s \<mapsto> f)"
    using r(3) server_name_same [of ?db db] by (auto simp: place_of_def fun_eq_iff split: option.split)
  ultimately show ?thesis using r(2) known_same [of ?db db]
    by (auto simp: locate_service_row_def update_service_def)
qed

lemma delete_service_effect:
  assumes "well_formed db"
  shows "well_formed (delete_service_row s db)" and "known_servers (delete_service_row s db) = known_servers db"
    and "place_of (delete_service_row s db) = (place_of db)(s := None)"
proof -
  let ?db = "delete_service_row s db"
  show "well_formed ?db"
    using assms by (auto simp: well_formed_def delete_service_row_def distinct_map_filter)
  show "known_servers ?db = known_servers db" by (simp add: known_servers_def delete_service_row_def)
  have "map_of (map (\<lambda>q. (dbv_id q, dbv_server q)) (filter (\<lambda>q. dbv_id q \<noteq> s) qs))
      = (map_of (map (\<lambda>q. (dbv_id q, dbv_server q)) qs))(s := None)" for qs
    by (induction qs) (auto simp: fun_eq_iff)
  then have "services_map ?db = (services_map db)(s := None)" by (simp add: services_map_def delete_service_row_def)
  then show "place_of ?db = (place_of db)(s := None)"
    using server_name_same [of ?db db] by (auto simp: place_of_def fun_eq_iff delete_service_row_def split: option.split)
qed

lemma delete_server_effect:
  assumes "well_formed db" and "\<And>s. place_of db s \<noteq> Some f"
  shows "\<exists>db'. delete_server_row f db = Some db' \<and> well_formed db'
     \<and> known_servers db' = known_servers db - {f} \<and> place_of db' = place_of db"
proof -
  let ?db = "db\<lparr>db_servers := filter (\<lambda>r. dbs_fqdn r \<noteq> f) (db_servers db)\<rparr>"
  have free: "dbs_fqdn r \<noteq> f"
    if "q \<in> set (db_services db)" "r \<in> set (db_servers db)" "dbv_server q = Some (dbs_id r)" for q r
  proof -
    have "services_map db (dbv_id q) = Some (dbv_server q)"
      using assms(1) that(1) by (auto simp: services_map_def well_formed_def comp_def intro!: map_of_is_SomeI)
    moreover have "server_name db (dbs_id r) = Some (dbs_fqdn r)"
      using server_name_iff [OF assms(1)] that(2) by blast
    ultimately have "place_of db (dbv_id q) = Some (dbs_fqdn r)" using that(3) by (simp add: place_of_def)
    with assms(2) [of "dbv_id q"] show ?thesis by auto
  qed
  then have run: "delete_server_row f db = Some ?db"
    by (auto simp: delete_server_row_def Let_def)
  have wf: "well_formed ?db"
    using assms(1) free unfolding well_formed_def by (fastforce simp: distinct_map_filter)
  have names: "server_name ?db i = Some g \<longleftrightarrow> server_name db i = Some g \<and> g \<noteq> f" for i g
    unfolding server_name_iff [OF wf] server_name_iff [OF assms(1)] by auto
  have "place_of ?db t = place_of db t" for t
  proof (cases "place_of db t")
    case None
    then have "services_map db t = None" using place_of_None [OF assms(1)] by simp
    then show ?thesis by (simp add: place_of_def services_map_def)
  next
    case (Some g)
    then obtain i where i: "services_map db t = Some (Some i)" "server_name db i = Some g"
      by (auto simp: place_of_def split: option.splits)
    moreover have "g \<noteq> f" using assms(2) [of t] Some by auto
    ultimately show ?thesis using names by (simp add: place_of_def services_map_def)
  qed
  then have "place_of ?db = place_of db" by blast
  with wf run show ?thesis by (auto simp: known_servers_def)
qed

lemma service_update_effect:
  assumes "well_formed db" and "\<And>q. dbv_id (g q) = dbv_id q \<and> dbv_server (g q) = dbv_server q"
  shows "well_formed (update_service s g db)" and "known_servers (update_service s g db) = known_servers db"
    and "place_of (update_service s g db) = place_of db"
proof -
  let ?qs = "map (\<lambda>q. if dbv_id q = s then g q else q) (db_services db)"
  let ?db = "update_service s g db"
  have db: "?db = db\<lparr>db_services := ?qs\<rparr>" by (simp add: update_service_def)
  have ids: "map dbv_id ?qs = map dbv_id (db_services db)" by (rule mapped_ids) (simp add: assms(2))
  have "map (\<lambda>q. (dbv_id q, dbv_server q)) ?qs = map (\<lambda>q. (dbv_id q, dbv_server q)) (db_services db)"
    using assms(2) by (rule mapped_keys)
  then show "place_of ?db = place_of db"
    by (intro place_of_services server_name_same) (simp_all del: map_map add: services_map_def db)
  show "known_servers ?db = known_servers db" by (rule known_same) (simp add: db)
  have "\<exists>r \<in> set (db_servers db). dbv_server q = Some (dbs_id r)" if "q \<in> set ?qs" for q
    using that assms unfolding well_formed_def by (auto split: if_splits)
  then show "well_formed ?db"
    using assms(1) ids unfolding well_formed_def db by (simp del: map_map set_map)
qed

lemma mapped_servers:
  "(\<And>r. dbs_id (g r) = dbs_id r \<and> dbs_fqdn (g r) = dbs_fqdn r) \<Longrightarrow>
     map (\<lambda>r. (dbs_id r, dbs_fqdn r)) (map (\<lambda>r. if dbs_fqdn r = f then g r else r) rs)
      = map (\<lambda>r. (dbs_id r, dbs_fqdn r)) rs"
  by (induction rs) auto

lemma ids_only:
  assumes "map dbs_id rs = map dbs_id rs'"
  shows "(\<forall>r \<in> set rs. P (dbs_id r)) \<longleftrightarrow> (\<forall>r \<in> set rs'. P (dbs_id r))"
    and "(\<exists>r \<in> set rs. P (dbs_id r)) \<longleftrightarrow> (\<exists>r \<in> set rs'. P (dbs_id r))"
proof -
  have "dbs_id ` set rs = dbs_id ` set rs'" using arg_cong [OF assms, of set] by simp
  then have "(\<forall>i \<in> dbs_id ` set rs. P i) \<longleftrightarrow> (\<forall>i \<in> dbs_id ` set rs'. P i)"
    "(\<exists>i \<in> dbs_id ` set rs. P i) \<longleftrightarrow> (\<exists>i \<in> dbs_id ` set rs'. P i)" by simp_all
  then show "(\<forall>r \<in> set rs. P (dbs_id r)) \<longleftrightarrow> (\<forall>r \<in> set rs'. P (dbs_id r))"
    "(\<exists>r \<in> set rs. P (dbs_id r)) \<longleftrightarrow> (\<exists>r \<in> set rs'. P (dbs_id r))" by simp_all
qed

lemma well_formed_servers:
  assumes "map dbs_id rs = map dbs_id (db_servers db)" and "distinct (map dbs_fqdn rs)" and "well_formed db"
  shows "well_formed (db\<lparr>db_servers := rs\<rparr>)"
proof -
  have "\<forall>r \<in> set rs. 0 < dbs_id r \<and> dbs_id r < db_next db"
    using assms(3) ids_only(1) [OF assms(1), of "\<lambda>i. 0 < i \<and> i < db_next db"] by (simp add: well_formed_def)
  moreover have "\<exists>r \<in> set rs. x = Some (dbs_id r)" if "\<exists>r \<in> set (db_servers db). x = Some (dbs_id r)" for x
    using that ids_only(2) [OF assms(1), of "\<lambda>i. x = Some i"] by simp
  ultimately show ?thesis using assms unfolding well_formed_def by simp
qed

text \<open>Nothing in a well-formed database depends on more of a server than its id and its name.\<close>

lemma same_names:
  assumes keys: "map (\<lambda>r. (dbs_id r, dbs_fqdn r)) rs = map (\<lambda>r. (dbs_id r, dbs_fqdn r)) (db_servers db)"
    and "well_formed db"
  shows "well_formed (db\<lparr>db_servers := rs\<rparr>)" and "known_servers (db\<lparr>db_servers := rs\<rparr>) = known_servers db"
    and "place_of (db\<lparr>db_servers := rs\<rparr>) = place_of db"
proof -
  have keyed: "map dbs_fqdn xs = map snd (map (\<lambda>r. (dbs_id r, dbs_fqdn r)) xs)"
    "map dbs_id xs = map fst (map (\<lambda>r. (dbs_id r, dbs_fqdn r)) xs)" for xs
    by simp_all
  have names: "map dbs_fqdn rs = map dbs_fqdn (db_servers db)" "map dbs_id rs = map dbs_id (db_servers db)"
    by (subst keyed, subst keys, subst keyed, rule refl)+
  have "distinct (map dbs_fqdn rs)" using assms(2) unfolding names well_formed_def by blast
  with names(2) show "well_formed (db\<lparr>db_servers := rs\<rparr>)" by (rule well_formed_servers) (rule assms(2))
  show "known_servers (db\<lparr>db_servers := rs\<rparr>) = known_servers db"
    using arg_cong [OF names(1), of set] by (simp add: known_servers_def)
  show "place_of (db\<lparr>db_servers := rs\<rparr>) = place_of db"
    by (rule place_of_services) (simp_all add: server_name_def services_map_def keys fun_eq_iff)
qed

lemma server_update_effect:
  assumes "well_formed db" and "\<And>r. dbs_id (g r) = dbs_id r \<and> dbs_fqdn (g r) = dbs_fqdn r"
  shows "well_formed (update_server f g db)" and "known_servers (update_server f g db) = known_servers db"
    and "place_of (update_server f g db) = place_of db"
  unfolding update_server_def
  by (rule same_names [OF mapped_servers assms(1)], rule assms(2))+

text \<open>The operations that leave the registry alone.\<close>

fun registry_op :: "db_op \<Rightarrow> bool" where
  "registry_op (CreateServer f h m lc) = True"
| "registry_op (UpdateServerFqdn old new) = True"
| "registry_op (DeleteServer f) = True"
| "registry_op (CreateService s st f) = True"
| "registry_op (UpdateServiceLocation s f) = True"
| "registry_op (DeleteService s) = True"
| "registry_op _ = False"

lemma objects_effect:
  "well_formed (db\<lparr>db_objects := obs\<rparr>) = well_formed db"
  "known_servers (db\<lparr>db_objects := obs\<rparr>) = known_servers db"
  "place_of (db\<lparr>db_objects := obs\<rparr>) = place_of db"
  by (simp_all add: well_formed_def known_servers_def)
    (rule place_of_services; simp add: server_name_def services_map_def fun_eq_iff)

lemma minor_effect:
  assumes "\<not> registry_op op'" and "well_formed db"
  shows "well_formed (persist_one de op' db) \<and> known_servers (persist_one de op' db) = known_servers db
     \<and> place_of (persist_one de op' db) = place_of db"
  using assms
  by (cases op') (simp_all add: persist_one_def server_update_effect service_update_effect update_sync_object_def
      objects_effect split: option.split)

lemma minor_effects:
  assumes "list_all (\<lambda>x. \<not> registry_op x) ops" and "well_formed db"
  shows "well_formed (persist_all de ops db) \<and> known_servers (persist_all de ops db) = known_servers db
     \<and> place_of (persist_all de ops db) = place_of db"
  using assms
proof (induction ops arbitrary: db)
  case (Cons x ops)
  then show ?case using minor_effect [of x db de] by (simp add: persist_all_def)
qed (simp add: persist_all_def)

lemma renamed:
  "map_of (map (\<lambda>r. (dbs_id r, dbs_fqdn r))
       (map (\<lambda>r. if dbs_fqdn r = old then r\<lparr>dbs_fqdn := new, dbs_managed := True\<rparr> else r) rs)) i
    = (let n = map_of (map (\<lambda>r. (dbs_id r, dbs_fqdn r)) rs) i in if n = Some old then Some new else n)"
  by (induction rs) (auto simp: Let_def)

lemma rename_server_effect:
  assumes "well_formed db" and "new \<notin> known_servers db" and "old \<in> known_servers db"
  defines "db' \<equiv> update_server old (\<lambda>r. r\<lparr>dbs_fqdn := new, dbs_managed := True\<rparr>) db"
  shows "well_formed db'" and "known_servers db' = insert new (known_servers db - {old})"
    and "place_of db' = (\<lambda>s. if place_of db s = Some old then Some new else place_of db s)"
proof -
  let ?f = "\<lambda>r. if dbs_fqdn r = old then r\<lparr>dbs_fqdn := new, dbs_managed := True\<rparr> else r"
  have db': "db_servers db' = map ?f (db_servers db)" "db_services db' = db_services db"
    "db_next db' = db_next db"
    by (simp_all add: db'_def update_server_def)
  have ids: "map dbs_id (map ?f rs) = map dbs_id rs" for rs by (induction rs) auto
  have d: "distinct (map dbs_fqdn (map ?f rs))"
    if "distinct (map dbs_fqdn rs)" "new \<notin> dbs_fqdn ` set rs" for rs
    using that by (induction rs) (auto simp: image_iff)
  have "distinct (map dbs_fqdn (map ?f (db_servers db)))"
    using assms(1,2) by (intro d) (simp_all add: well_formed_def known_servers_def)
  then show "well_formed db'"
    unfolding db'_def update_server_def by (rule well_formed_servers [OF ids _ assms(1)])
  show "known_servers db' = insert new (known_servers db - {old})"
  proof -
    have "known_servers db' = (\<lambda>x. if x = old then new else x) ` known_servers db"
      unfolding known_servers_def db' set_map image_image by (rule image_cong) simp_all
    with assms(3) show ?thesis by auto
  qed
  have name: "server_name db' i = (if server_name db i = Some old then Some new else server_name db i)" for i
    unfolding server_name_def db' renamed Let_def by (rule refl)
  show "place_of db' = (\<lambda>s. if place_of db s = Some old then Some new else place_of db s)"
    by (auto simp: place_of_def services_map_def db' name fun_eq_iff split: option.split)
qed

end
