(* ===== verification/Mirror.thy ===== *)
theory Mirror
  imports Persister
begin

text \<open>
  The database against the registry in memory: after every heartbeat the queued updates,
  once applied, give tables that describe the servers and services ServerMonitor has.
\<close>

section \<open>The two views\<close>

definition host_of :: "server_monitor \<Rightarrow> service_id \<Rightarrow> string option" where
  "host_of m s = map_option ss_fqdn (get_by_service m s)"

definition mirrors :: "database \<Rightarrow> server_monitor \<Rightarrow> bool" where
  "mirrors db m \<longleftrightarrow> well_formed db \<and> known_servers db = {k. has_key (sm_servers m) k} \<and> place_of db = host_of m"

text \<open>Servers are filed under their FQDN, and those that have services are filed.\<close>

definition filed :: "server_monitor \<Rightarrow> bool" where
  "filed m \<longleftrightarrow> (\<forall>k a. map_of (sm_servers m) k = Some a \<longrightarrow> (\<exists>sv. map_of (sm_heap m) a = Some sv \<and> ss_fqdn sv = k))
     \<and> (\<forall>s v a. map_of (sm_services m) s = Some v \<longrightarrow> sv_server v = Some a \<longrightarrow> in_place m a)"

definition persisted :: "db_env \<Rightarrow> server_monitor \<Rightarrow> bool" where
  "persisted de m \<longleftrightarrow> consistent m \<and> filed m \<and> mirrors (stored de m) m"

lemma filed_key: "filed m \<Longrightarrow> map_of (sm_servers m) k = Some a \<Longrightarrow>
    \<exists>sv. map_of (sm_heap m) a = Some sv \<and> ss_fqdn sv = k"
  unfolding filed_def by blast

lemma filed_service: "filed m \<Longrightarrow> map_of (sm_services m) s = Some v \<Longrightarrow> sv_server v = Some a \<Longrightarrow> in_place m a"
  unfolding filed_def by blast

lemma filed_expungeable:
  assumes "filed m" and "map_of (sm_services m) s = Some v" and "sv_server v = Some old"
  shows "expungeable m s old"
  using filed_service [OF assms] by (auto simp: expungeable_def in_place_def)

lemma same_place: "in_place m a \<Longrightarrow> in_place m b \<Longrightarrow> map_of (sm_heap m) a = Some sv \<Longrightarrow>
    map_of (sm_heap m) b = Some w \<Longrightarrow> ss_fqdn sv = ss_fqdn w \<longleftrightarrow> a = b"
  by (auto simp: in_place_def)

lemma host_of_on:
  "map_of (sm_services m) s = Some v \<Longrightarrow> sv_server v = Some a \<Longrightarrow> map_of (sm_heap m) a = Some sv \<Longrightarrow>
     host_of m s = Some (ss_fqdn sv)"
  by (simp add: host_of_def get_by_service_def)

lemma host_of_unknown: "map_of (sm_services m) s = None \<Longrightarrow> host_of m s = None"
  by (simp add: host_of_def get_by_service_def)

lemma persist_all_append: "persist_all de (xs @ ys) db = persist_all de ys (persist_all de xs db)"
  by (simp add: persist_all_def)

lemma persist_all_Cons: "persist_all de (x # xs) db = persist_all de xs (persist_one de x db)"
  by (simp add: persist_all_def)

lemma stored_append:
  "sm_db m' = sm_db m @ ops \<Longrightarrow> stored de m' = persist_all de ops (stored de m)"
  by (simp add: stored_def persist_all_append)

text \<open>The objects keep their names, and stay where they are, through registering a service.\<close>

definition names_kept :: "server_monitor \<times> event_log \<Rightarrow> server_monitor \<times> event_log \<Rightarrow> bool" where
  "names_kept w w' \<longleftrightarrow> (\<forall>a. map_option ss_fqdn (map_of (sm_heap (fst w')) a)
      = map_option ss_fqdn (map_of (sm_heap (fst w)) a))"

interpretation nk: step_contract names_kept
  by unfold_locales (auto simp: names_kept_def)

lemma names_kept_upd:
  assumes "\<And>m. sm_heap (f m) = sm_heap m"
  shows "obeys names_kept (sm_upd f)"
  unfolding sm_upd_def using assms by (intro nk.obeys_modify) (auto simp: names_kept_def)

lemma names_kept_get [intro]: "obeys names_kept (sm_get f)"
  unfolding sm_get_def by (rule nk.obeys_gets)

lemma names_kept_at [intro]: "obeys names_kept (server_at a)"
  unfolding server_at_def by blast

lemma set_server_run:
  "set_server_at a f (m, l) = (case map_of (sm_heap m) a of
       None \<Rightarrow> (Inl (KeyError ''address''), (m, l))
     | Some sv \<Rightarrow> (Inr (), (m\<lparr>sm_heap := AList.update a (f sv) (sm_heap m)\<rparr>, l)))"
  by (simp add: set_server_at_def server_at_def py_simps item_def split: option.split)

lemma names_kept_set:
  assumes "\<And>v. ss_fqdn (f v) = ss_fqdn v"
  shows "obeys names_kept (set_server_at a f)"
  using assms by (auto simp: obeys_def set_server_run names_kept_def split: option.split)

lemma names_kept_parts [intro]:
  "obeys names_kept (persist op')" "obeys names_kept (service_at s)" "obeys names_kept (set_service_at s g)"
  "obeys names_kept (server_add_service a s)" "obeys names_kept (server_del_service a s)"
  "obeys names_kept (fsid_list f)" "obeys names_kept (set_fsid_list f ss)"
  unfolding persist_def service_at_def set_service_at_def server_add_service_def server_del_service_def
    fsid_list_def set_fsid_list_def
  by (auto intro!: names_kept_upd names_kept_set nk.obeys_bnd split: option.splits)

lemma names_kept_register: "obeys names_kept (register_service a s running st)"
  unfolding register_service_def inject_service_def refresh_service_def move_service_def expunge_if_empty_def
  by (auto intro!: names_kept_upd nk.obeys_bnd nk.obeys_guarded split: option.split)

section \<open>Applying what an operation queues\<close>

lemma mirrorsD:
  assumes "mirrors db m"
  shows "well_formed db" and "known_servers db = {k. has_key (sm_servers m) k}" and "place_of db = host_of m"
  using assms by (simp_all add: mirrors_def)

lemma state_updates_minor: "list_all state_update ops \<Longrightarrow> list_all (\<lambda>x. \<not> registry_op x) ops"
  by (induction ops) (auto elim: state_update.elims)

lemma in_place_known:
  "mirrors db m \<Longrightarrow> in_place m a \<Longrightarrow> map_of (sm_heap m) a = Some sv \<Longrightarrow> ss_fqdn sv \<in> known_servers db"
  by (auto simp: mirrors_def in_place_def has_key_def)

lemma host_of_cong:
  assumes "\<And>a. map_option ss_fqdn (map_of (sm_heap m') a) = map_option ss_fqdn (map_of (sm_heap m) a)"
    and "map_option sv_server (map_of (sm_services m') s) = map_option sv_server (map_of (sm_services m) s)"
  shows "host_of m' s = host_of m s"
  using assms(2) assms(1)
  by (cases "map_of (sm_services m') s"; cases "map_of (sm_services m) s")
    (simp_all add: host_of_def get_by_service_def split: option.split)

lemma store_new_service:
  fixes de :: db_env and st :: "string option"
  assumes "mirrors db m" and "in_place m a" and "map_of (sm_heap m) a = Some sv"
    and "map_of (sm_services m) s = None" and "list_all state_update us"
  defines "db' \<equiv> persist_all de (CreateService s st (ss_fqdn sv) # us) db"
  shows "well_formed db' \<and> known_servers db' = known_servers db \<and> place_of db' = (place_of db)(s \<mapsto> ss_fqdn sv)"
proof -
  have "place_of db s = None" using assms(1,4) by (simp add: mirrors_def host_of_unknown)
  from create_service_effect [OF mirrorsD(1) [OF assms(1)] in_place_known [OF assms(1-3)] this, of st]
  obtain d where "create_service_row s st (ss_fqdn sv) db = Some d" "well_formed d"
    "known_servers d = known_servers db" "place_of d = (place_of db)(s \<mapsto> ss_fqdn sv)" by blast
  then show ?thesis
    using minor_effects [OF state_updates_minor [OF assms(5)], of d de]
    by (simp add: db'_def persist_all_Cons persist_one_def)
qed

lemma store_location:
  fixes de :: db_env
  assumes "mirrors db m" and "in_place m a" and "map_of (sm_heap m) a = Some sv"
    and "host_of m s \<noteq> None" and "list_all state_update us"
  defines "db' \<equiv> persist_all de (us @ [UpdateServiceLocation s (ss_fqdn sv)]) db"
  shows "well_formed db' \<and> known_servers db' = known_servers db \<and> place_of db' = (place_of db)(s \<mapsto> ss_fqdn sv)"
proof -
  let ?d = "persist_all de us db"
  have d: "well_formed ?d" "known_servers ?d = known_servers db" "place_of ?d = place_of db"
    using minor_effects [OF state_updates_minor [OF assms(5)] mirrorsD(1) [OF assms(1)]] by blast+
  have "place_of ?d s \<noteq> None" using assms(1,4) d(3) by (simp add: mirrors_def)
  with d in_place_known [OF assms(1-3)] show ?thesis
    using locate_service_effect [OF d(1), of "ss_fqdn sv" s]
    by (auto simp: db'_def persist_all_append persist_all_Cons persist_one_def) (simp_all add: persist_all_def)
qed

section \<open>Registering keeps the mirror\<close>

lemma filed_registered:
  assumes "filed m" and "consistent m" and "registered m s a running st m'" and log: "logged m s a m'"
    and names: "\<And>b. map_option ss_fqdn (map_of (sm_heap m') b) = map_option ss_fqdn (map_of (sm_heap m) b)"
  shows "filed m'"
proof -
  have reg: "map_of (sm_services m') = (map_of (sm_services m))
          (s \<mapsto> \<lparr>sv_server = Some a, sv_running = running, sv_status = st\<rparr>)" "in_place m' a"
    "\<And>k b. map_of (sm_servers m') k = Some b \<Longrightarrow> map_of (sm_servers m) k = Some b"
    using assms(3) by (auto simp: registered_def)
  have kept: "\<exists>sv'. map_of (sm_heap m') b = Some sv' \<and> ss_fqdn sv' = ss_fqdn sv"
    if "map_of (sm_heap m) b = Some sv" for b sv
    using names [of b] that by auto
  have "in_place m' b" if x: "map_of (sm_services m) x = Some v" "sv_server v = Some b" "x \<noteq> s" for x v b
  proof -
    from filed_service [OF assms(1) x(1,2)] obtain sv where sv: "map_of (sm_heap m) b = Some sv"
      "map_of (sm_servers m) (ss_fqdn sv) = Some b" by (auto simp: in_place_def)
    have "map_of (sm_servers m') (ss_fqdn sv) = Some b"
    proof (cases "sm_servers m' = sm_servers m")
      case False
      with log obtain old osv where osv: "map_of (sm_heap m) old = Some osv" "remove1 s (ss_services osv) = []"
        "map_of (sm_servers m) (ss_fqdn osv) = Some old" "sm_servers m' = AList.delete (ss_fqdn osv) (sm_servers m)"
        by (auto simp: logged_def moved_away_def)
      have "x \<in> set (ss_services sv)" using assms(2) x(1) by (rule consistentD) (use x(2) sv(1) in auto)
      then have "b \<noteq> old" using osv(1,2) sv(1) x(3) by (metis in_set_remove1 list.set(1) empty_iff option.inject)
      then have "ss_fqdn sv \<noteq> ss_fqdn osv" using osv(3) sv(2) by auto
      with osv(4) sv(2) show ?thesis by simp
    qed (use sv in simp)
    with kept [OF sv(1)] show ?thesis by (auto simp: in_place_def)
  qed
  moreover have "\<exists>sv. map_of (sm_heap m') b = Some sv \<and> ss_fqdn sv = k"
    if "map_of (sm_servers m') k = Some b" for k b
    using filed_key [OF assms(1) reg(3) [OF that]] kept by blast
  ultimately show ?thesis
    using reg(1,2) unfolding filed_def by (auto split: if_splits)
qed

lemma host_of_registered:
  assumes "registered m s a running st m'" and "map_of (sm_heap m) a = Some sv"
    and names: "\<And>b. map_option ss_fqdn (map_of (sm_heap m') b) = map_option ss_fqdn (map_of (sm_heap m) b)"
  shows "host_of m' = (host_of m)(s \<mapsto> ss_fqdn sv)"
proof
  fix x
  have reg: "map_of (sm_services m') = (map_of (sm_services m))
          (s \<mapsto> \<lparr>sv_server = Some a, sv_running = running, sv_status = st\<rparr>)"
    using assms(1) by (simp add: registered_def)
  show "host_of m' x = ((host_of m)(s \<mapsto> ss_fqdn sv)) x"
  proof (cases "x = s")
    case True
    then show ?thesis using reg names [of a] assms(2) by (auto simp: host_of_def get_by_service_def)
  next
    case False
    with reg host_of_cong [of m' m x, OF names] show ?thesis by simp
  qed
qed

text \<open>No service but \<open>s\<close> is on a server that loses its last service with \<open>s\<close>.\<close>

lemma left_empty:
  assumes "filed m" and "consistent m" and "map_of (sm_heap m) old = Some osv"
    and "remove1 s (ss_services osv) = []" and "map_of (sm_servers m) (ss_fqdn osv) = Some old"
    and "x \<noteq> s"
  shows "host_of m x \<noteq> Some (ss_fqdn osv)"
proof
  assume h: "host_of m x = Some (ss_fqdn osv)"
  then obtain v b sv where v: "map_of (sm_services m) x = Some v" "sv_server v = Some b"
    "map_of (sm_heap m) b = Some sv" "ss_fqdn sv = ss_fqdn osv"
    by (auto simp: host_of_def get_by_service_def split: option.splits)
  from filed_service [OF assms(1) v(1,2)] v(3,4) assms(5) have "b = old" by (auto simp: in_place_def)
  moreover have "x \<in> set (ss_services sv)" using assms(2) v(1) by (rule consistentD) (use v in auto)
  ultimately show False using assms(3,4,6) v(3) by (metis in_set_remove1 list.set(1) empty_iff option.inject)
qed

lemma store_moved:
  fixes de :: db_env
  assumes "mirrors db m" and "filed m" and "consistent m" and "in_place m a" and sv: "map_of (sm_heap m) a = Some sv"
    and v: "map_of (sm_services m) s = Some v" "sv_server v = Some old" "old \<noteq> a"
    and us: "list_all state_update us" and mv: "moved_away m s old rest m'"
  defines "db' \<equiv> persist_all de (us @ UpdateServiceLocation s (ss_fqdn sv) # rest) db"
  shows "well_formed db' \<and> known_servers db' = {k. has_key (sm_servers m') k}
     \<and> place_of db' = (host_of m)(s \<mapsto> ss_fqdn sv)"
proof -
  let ?d = "persist_all de (us @ [UpdateServiceLocation s (ss_fqdn sv)]) db"
  have "host_of m s \<noteq> None"
    using filed_service [OF assms(2) v(1,2)] host_of_on [OF v(1,2)] by (auto simp: in_place_def)
  from store_location [OF assms(1,4) sv this us]
  have d: "well_formed ?d" "known_servers ?d = {k. has_key (sm_servers m) k}"
    "place_of ?d = (host_of m)(s \<mapsto> ss_fqdn sv)" using mirrorsD [OF assms(1)] by simp_all
  have db': "db' = persist_all de rest ?d"
    by (simp add: db'_def persist_all_append persist_all_Cons) (simp add: persist_all_def)
  from mv show ?thesis unfolding moved_away_def
  proof (elim disjE exE conjE)
    assume "rest = []" "sm_servers m' = sm_servers m"
    with d db' show ?thesis by (simp add: persist_all_def)
  next
    fix osv assume o: "map_of (sm_heap m) old = Some osv" "remove1 s (ss_services osv) = []"
      "map_of (sm_servers m) (ss_fqdn osv) = Some old" "rest = [DeleteServer (ss_fqdn osv)]"
      "sm_servers m' = AList.delete (ss_fqdn osv) (sm_servers m)"
    have "in_place m old" using o(1,3) by (auto simp: in_place_def)
    then have "ss_fqdn sv \<noteq> ss_fqdn osv" using same_place [OF assms(4) _ sv o(1)] v(3) by simp
    then have "place_of ?d t \<noteq> Some (ss_fqdn osv)" for t
      using left_empty [OF assms(2,3) o(1-3), of t] unfolding d(3) by simp
    from delete_server_effect [OF d(1) this] obtain d' where "delete_server_row (ss_fqdn osv) ?d = Some d'"
      "well_formed d'" "known_servers d' = known_servers ?d - {ss_fqdn osv}" "place_of d' = place_of ?d" by blast
    with d o(4,5) db' show ?thesis
      by (auto simp: persist_all_Cons persist_one_def has_key_def) (simp_all add: persist_all_def)
  qed
qed

lemma register_persisted:
  assumes p: "persisted de m" and a: "in_place m a"
  shows "\<exists>m'. register_service a s running st (m, l) = (Inr (), (m', l)) \<and> in_place m' a \<and> persisted de m'"
proof -
  have m: "consistent m" "filed m" "mirrors (stored de m) m" using p by (simp_all add: persisted_def)
  obtain m' where run: "register_service a s running st (m, l) = (Inr (), (m', l))"
    and reg: "registered m s a running st m'" and log: "logged m s a m'"
    using register_service_places [OF m(1) a] filed_expungeable [OF m(2)] by blast
  have names: "map_option ss_fqdn (map_of (sm_heap m') b) = map_option ss_fqdn (map_of (sm_heap m) b)" for b
    using obeysD [OF names_kept_register run] by (simp add: names_kept_def)
  have f: "filed m'" by (rule filed_registered [OF m(2,1) reg log names])
  from log obtain sv us where sv: "map_of (sm_heap m) a = Some sv" and us: "list_all state_update us"
    and cases: "(map_of (sm_services m) s = None \<and> sm_servers m' = sm_servers m
          \<and> (\<exists>st. sm_db m' = sm_db m @ CreateService s st (ss_fqdn sv) # us))
       \<or> (\<exists>v. map_of (sm_services m) s = Some v \<and> sv_server v = Some a \<and> sm_servers m' = sm_servers m
          \<and> sm_db m' = sm_db m @ us)
       \<or> (\<exists>v old rest. map_of (sm_services m) s = Some v \<and> sv_server v = Some old \<and> old \<noteq> a
          \<and> moved_away m s old rest m'
          \<and> sm_db m' = sm_db m @ us @ UpdateServiceLocation s (ss_fqdn sv) # rest)"
    unfolding logged_def by blast
  have host: "host_of m' = (host_of m)(s \<mapsto> ss_fqdn sv)" by (rule host_of_registered [OF reg sv names])
  from cases have "mirrors (stored de m') m'"
  proof (elim disjE exE conjE)
    fix st assume c: "map_of (sm_services m) s = None" "sm_servers m' = sm_servers m"
      "sm_db m' = sm_db m @ CreateService s st (ss_fqdn sv) # us"
    from store_new_service [OF m(3) a sv c(1) us, of de st] host c(2) mirrorsD [OF m(3)]
    show ?thesis by (simp add: mirrors_def stored_append [OF c(3)])
  next
    fix v assume c: "map_of (sm_services m) s = Some v" "sv_server v = Some a" "sm_servers m' = sm_servers m"
      "sm_db m' = sm_db m @ us"
    have "host_of m' = host_of m" using host host_of_on [OF c(1,2) sv] by (simp add: fun_upd_idem)
    with minor_effects [OF state_updates_minor [OF us] mirrorsD(1) [OF m(3)], of de] c(3) mirrorsD [OF m(3)]
    show ?thesis by (simp add: mirrors_def stored_append [OF c(4)])
  next
    fix v old rest assume c: "map_of (sm_services m) s = Some v" "sv_server v = Some old" "old \<noteq> a"
      "moved_away m s old rest m'" "sm_db m' = sm_db m @ us @ UpdateServiceLocation s (ss_fqdn sv) # rest"
    from store_moved [OF m(3,2,1) a sv c(1-3) us c(4), of de] host
    show ?thesis by (simp add: mirrors_def stored_append [OF c(5)])
  qed
  with reg run f show ?thesis by (auto simp: persisted_def registered_def)
qed

section \<open>Heartbeats keep the mirror\<close>

definition stays :: "db_env \<Rightarrow> address \<Rightarrow> server_monitor \<times> event_log \<Rightarrow> server_monitor \<times> event_log \<Rightarrow> bool" where
  "stays de a w w' \<longleftrightarrow> (persisted de (fst w) \<longrightarrow> in_place (fst w) a \<longrightarrow>
     persisted de (fst w') \<and> in_place (fst w') a)"

interpretation hb: step_contract "stays de a"
  by unfold_locales (auto simp: stays_def)

lemma persisted_step:
  assumes p: "persisted de m" and c: "consistent m'" and f: "filed m'"
    and "sm_db m' = sm_db m @ ops" and "list_all (\<lambda>x. \<not> registry_op x) ops"
    and "\<And>k. has_key (sm_servers m') k = has_key (sm_servers m) k" and "host_of m' = host_of m"
  shows "persisted de m'"
  using p minor_effects [OF assms(5), of "stored de m" de] assms(6,7)
  by (simp add: persisted_def mirrors_def c f stored_append [OF assms(4)])

lemma in_place_cong:
  assumes "sm_servers m' = sm_servers m"
    and "\<And>a. map_option ss_fqdn (map_of (sm_heap m') a) = map_option ss_fqdn (map_of (sm_heap m) a)"
  shows "in_place m' a = in_place m a"
  using assms(2) [of a] unfolding in_place_def assms(1)
  by (cases "map_of (sm_heap m') a"; cases "map_of (sm_heap m) a") auto

lemma filed_cong:
  assumes "filed m" and "sm_servers m' = sm_servers m"
    and "\<And>s. map_option sv_server (map_of (sm_services m') s) = map_option sv_server (map_of (sm_services m) s)"
    and "\<And>a. map_option ss_fqdn (map_of (sm_heap m') a) = map_option ss_fqdn (map_of (sm_heap m) a)"
  shows "filed m'"
  unfolding filed_def
proof (intro conjI allI impI)
  fix k a assume "map_of (sm_servers m') k = Some a"
  with filed_key [OF assms(1), of k a] assms(2) assms(4) [of a]
  show "\<exists>sv. map_of (sm_heap m') a = Some sv \<and> ss_fqdn sv = k" by auto
next
  fix s v a assume "map_of (sm_services m') s = Some v" "sv_server v = Some a"
  with assms(3) [of s] obtain w where "map_of (sm_services m) s = Some w" "sv_server w = Some a"
    by (cases "map_of (sm_services m) s") auto
  from filed_service [OF assms(1) this] show "in_place m' a" by (simp add: in_place_cong [OF assms(2,4)])
qed

lemma persisted_set_server:
  assumes p: "persisted de m" and "map_of (sm_heap m) b = Some sv" and "ss_fqdn w = ss_fqdn sv"
    and "ss_services w = ss_services sv"
  defines "m' \<equiv> m\<lparr>sm_heap := AList.update b w (sm_heap m)\<rparr>"
  shows "persisted de m'" and "in_place m' x = in_place m x"
proof -
  have h: "map_option ss_services (map_of (sm_heap m') x) = map_option ss_services (map_of (sm_heap m) x)"
    "map_option ss_fqdn (map_of (sm_heap m') x) = map_option ss_fqdn (map_of (sm_heap m) x)" for x
    using assms(2-4) by (auto simp: m'_def)
  have c: "consistent m" and f: "filed m" using p by (simp_all add: persisted_def)
  have "consistent m'"
    by (rule consistent_cong [OF c _ h(1)])
      (use consistent_parts(1) [OF c] in \<open>auto simp: m'_def listed_def live_def\<close>)
  moreover have "filed m'" by (rule filed_cong [OF f _ _ h(2)]) (simp_all add: m'_def)
  moreover have "host_of m' = host_of m" by (rule ext, rule host_of_cong [OF h(2)]) (simp add: m'_def)
  ultimately show "persisted de m'" by (intro persisted_step [OF p, of _ "[]"]) (simp_all add: m'_def)
  show "in_place m' x = in_place m x" by (rule in_place_cong [OF _ h(2)]) (simp add: m'_def)
qed

lemma stays_set_server:
  assumes "\<And>v. ss_fqdn (g v) = ss_fqdn v \<and> ss_services (g v) = ss_services v"
  shows "obeys (stays de a) (set_server_at b g)"
  using assms by (auto simp: obeys_def set_server_run stays_def persisted_set_server split: option.split)

lemma stays_persist:
  assumes "\<not> registry_op op'"
  shows "obeys (stays de a) (persist op')"
proof -
  have "persisted de (m\<lparr>sm_db := sm_db m @ [op']\<rparr>)" if "persisted de m" for m
  proof (rule persisted_step [OF that, of _ "[op']"])
    show "consistent (m\<lparr>sm_db := sm_db m @ [op']\<rparr>)"
      using that by (auto simp: persisted_def consistent_def listed_def live_def)
    show "filed (m\<lparr>sm_db := sm_db m @ [op']\<rparr>)"
      using that by (auto simp: persisted_def filed_def in_place_def)
    show "host_of (m\<lparr>sm_db := sm_db m @ [op']\<rparr>) = host_of m" by (rule ext, rule host_of_cong) simp_all
  qed (simp_all add: assms)
  then show ?thesis by (auto simp: obeys_def persist_def py_simps stays_def in_place_def)
qed

lemma stays_set_service:
  assumes "\<And>v. sv_server (g v) = sv_server v"
  shows "obeys (stays de a) (set_service_at s g)"
  unfolding obeys_def
proof
  fix w :: "server_monitor \<times> event_log"
  obtain m l where w: "w = (m, l)" by fastforce
  show "stays de a w (snd (set_service_at s g w))"
  proof (cases "map_of (sm_services m) s")
    case (Some v)
    let ?S = "AList.update s (g v) (sm_services m)"
    let ?m = "m\<lparr>sm_services := ?S, sm_db := sm_db m\<rparr>"
    have "consistent ?m" if "consistent m"
      by (rule consistent_update_service [OF that Some assms]) simp
    moreover have place: "in_place ?m x = in_place m x" for x by (simp add: in_place_def)
    have "filed ?m" if "filed m" by (rule filed_cong [OF that]) (use Some assms in auto)
    moreover have "host_of ?m = host_of m"
      by (rule ext, rule host_of_cong) (use Some assms in auto)
    ultimately have "persisted de ?m" if "persisted de m"
      using that by (intro persisted_step [OF that, of _ "[]"]) (simp_all add: persisted_def)
    with place show ?thesis using Some by (simp add: w stays_def set_service_at_def service_at_def py_simps)
  qed (simp add: w set_service_at_def service_at_def py_simps item_def hb.step_refl)
qed

lemma stays_register: "obeys (stays de a) (register_service a s running st)"
  unfolding obeys_def
proof
  fix w :: "server_monitor \<times> event_log"
  obtain m l where w: "w = (m, l)" by fastforce
  show "stays de a w (snd (register_service a s running st w))"
    using register_persisted [of de m a s running st l] by (auto simp: w stays_def)
qed

lemma new_server_filed:
  fixes h :: string and D :: "db_op list"
  assumes c: "consistent m" and fl: "filed m" and f: "\<not> has_key (sm_servers m) f"
    and sv: "ss_services sv = []" "ss_fqdn sv = f"
  defines "m' \<equiv> m\<lparr>sm_heap := AList.update (sm_next m) sv (sm_heap m), sm_next := Suc (sm_next m),
     sm_hostname_to_server := AList.update h (sm_next m) (sm_hostname_to_server m),
     sm_servers := AList.update f (sm_next m) (sm_servers m), sm_db := D\<rparr>"
  shows "consistent m'" and "filed m'" and "in_place m' (sm_next m)" and "host_of m' = host_of m"
proof -
  let ?n = "sm_next m"
  have fresh: "map_of (sm_heap m) ?n = None"
    using consistent_parts(4) [OF c, of ?n] by (cases "map_of (sm_heap m) ?n") (auto simp: has_key_def)
  have heap: "map_of (sm_heap m') = (map_of (sm_heap m))(?n \<mapsto> sv)"
    and same: "sm_services m' = sm_services m" "\<And>g. listed m' g = listed m g"
    and nxt: "sm_next m' = Suc ?n"
    by (simp_all add: m'_def listed_def)
  have other: "map_of (sm_heap m') a = Some w" if "map_of (sm_heap m) a = Some w" for a w
    using that fresh by (auto simp: heap)
  have lv: "live m b \<or> b = ?n" if "live m' b" for b
    using that by (auto simp: live_def m'_def split: if_splits)
  show "consistent m'"
  proof (rule consistentI)
    fix s v assume "map_of (sm_services m') s = Some v"
    then have v: "map_of (sm_services m) s = Some v" by (simp add: same)
    from c v obtain a w where "sv_server v = Some a" "map_of (sm_heap m) a = Some w" "s \<in> set (ss_services w)"
      "s \<in> set (listed m (sid_fsid s))" by (rule consistentD)
    with other show "\<exists>a w. sv_server v = Some a \<and> map_of (sm_heap m') a = Some w \<and> s \<in> set (ss_services w)"
      "s \<in> set (listed m' (sid_fsid s))" by (auto simp: same)
  next
    fix a w s assume "live m' a" "map_of (sm_heap m') a = Some w" "s \<in> set (ss_services w)"
    then show "\<exists>v. map_of (sm_services m') s = Some v \<and> sv_server v = Some a"
      using lv sv(1) consistent_server [OF c, of a w s] by (auto simp: heap same split: if_splits)
  next
    fix a assume "live m' a"
    then show "has_key (sm_heap m') a"
      using lv [of a] consistent_parts(3) [OF c, of a] by (auto simp: heap has_key_def)
  qed (use consistent_parts(1,2,4) [OF c] consistent_listed [OF c] sv(1) in
      \<open>auto simp: heap same has_key_def nxt less_Suc_eq split: if_splits\<close>)
  show ip: "in_place m' ?n" by (auto simp: in_place_def heap sv m'_def)
  have keep: "in_place m' a" if a: "in_place m a" for a
  proof -
    obtain x where x: "map_of (sm_heap m) a = Some x" "map_of (sm_servers m) (ss_fqdn x) = Some a"
      using a by (auto simp: in_place_def)
    with f have "map_of (sm_servers m') (ss_fqdn x) = Some a" by (auto simp: m'_def has_key_def)
    with other [OF x(1)] show ?thesis by (auto simp: in_place_def)
  qed
  have "\<exists>x. map_of (sm_heap m') b = Some x \<and> ss_fqdn x = k" if k: "map_of (sm_servers m') k = Some b" for k b
  proof (cases "k = f")
    case True
    with k sv(2) show ?thesis by (auto simp: m'_def)
  next
    case False
    with k have "map_of (sm_servers m) k = Some b" by (simp add: m'_def)
    from filed_key [OF fl this] other show ?thesis by blast
  qed
  with keep fl show "filed m'" unfolding filed_def same by blast
  have "host_of m' s = host_of m s" for s
  proof (cases "map_of (sm_services m) s")
    case (Some v)
    from c Some obtain a w where "sv_server v = Some a" "map_of (sm_heap m) a = Some w" by (rule consistentD)
    with Some other [of a w] show ?thesis by (simp add: host_of_def get_by_service_def same)
  qed (simp add: host_of_def get_by_service_def same)
  then show "host_of m' = host_of m" by blast
qed

lemma persisted_new_server:
  fixes h :: string and mg :: bool and lc :: "time option"
  assumes p: "persisted de m" and f: "\<not> has_key (sm_servers m) f"
    and sv: "ss_services sv = []" "ss_fqdn sv = f"
  defines "m' \<equiv> m\<lparr>sm_heap := AList.update (sm_next m) sv (sm_heap m), sm_next := Suc (sm_next m),
     sm_hostname_to_server := AList.update h (sm_next m) (sm_hostname_to_server m),
     sm_servers := AList.update f (sm_next m) (sm_servers m),
     sm_db := sm_db m @ [CreateServer f h mg lc]\<rparr>"
  shows "persisted de m'" and "in_place m' (sm_next m)"
proof -
  have m: "consistent m" "filed m" and mi: "mirrors (stored de m) m"
    using p by (simp_all add: persisted_def)
  note new = new_server_filed [OF m f sv, where h = h and D = "sm_db m @ [CreateServer f h mg lc]", folded m'_def]
  have "f \<notin> known_servers (stored de m)" using f mi by (simp add: mirrors_def)
  moreover have "sm_db m' = sm_db m @ [CreateServer f h mg lc]" by (simp add: m'_def)
  ultimately have "mirrors (stored de m') m'"
    using create_server_effect [OF mirrorsD(1) [OF mi]] mirrorsD [OF mi] new(4)
    by (auto simp: mirrors_def stored_append persist_all_def persist_one_def) (auto simp: m'_def has_key_def)
  with new show "persisted de m'" "in_place m' (sm_next m)" by (simp_all add: persisted_def)
qed

lemma persisted_take_over:
  fixes f :: string
  assumes p: "persisted de m" and a: "map_of (sm_heap m) a = Some sv"
    and old: "map_of (sm_servers m) (ss_fqdn sv) = Some a" and f: "\<not> has_key (sm_servers m) f"
    and w: "ss_services w = ss_services sv" "ss_fqdn w = f"
  defines "m' \<equiv> m\<lparr>sm_heap := AList.update a w (sm_heap m),
     sm_servers := AList.update f a (AList.delete (ss_fqdn sv) (sm_servers m)),
     sm_db := sm_db m @ [UpdateServerFqdn (ss_fqdn sv) f]\<rparr>"
  shows "persisted de m'" and "in_place m' a"
proof -
  have c: "consistent m" and fl: "filed m" and mi: "mirrors (stored de m) m"
    using p by (simp_all add: persisted_def)
  have heap: "map_of (sm_heap m') = (map_of (sm_heap m))(a \<mapsto> w)"
    and servers: "map_of (sm_servers m') = (map_of (sm_servers m))(ss_fqdn sv := None, f \<mapsto> a)"
    and same: "sm_services m' = sm_services m" "\<And>g. listed m' g = listed m g"
    by (simp_all add: m'_def listed_def)
  have ne: "f \<noteq> ss_fqdn sv" using f old by (auto simp: has_key_def)
  have ip: "in_place m a" using a old by (auto simp: in_place_def)
  have lv: "live m b" if "live m' b" for b
  proof -
    have "sm_hostname_to_server m' = sm_hostname_to_server m" by (simp add: m'_def)
    with that old show ?thesis unfolding live_def servers same by (auto split: if_splits)
  qed
  have c': "consistent m'"
    by (rule consistent_cong [OF c]) (use consistent_parts(1) [OF c] lv a w(1) in
      \<open>auto simp: heap same, simp add: m'_def\<close>)
  show ip': "in_place m' a" using w(2) by (auto simp: in_place_def heap servers)
  have away: "in_place m' b" if b: "in_place m b" for b
  proof (cases "b = a")
    case False
    obtain x where x: "map_of (sm_heap m) b = Some x" "map_of (sm_servers m) (ss_fqdn x) = Some b"
      using b by (auto simp: in_place_def)
    with False old f show ?thesis by (auto simp: in_place_def heap servers has_key_def)
  qed (use ip' in simp)
  have "\<exists>x. map_of (sm_heap m') b = Some x \<and> ss_fqdn x = k" if k: "map_of (sm_servers m') k = Some b" for k b
  proof (cases "k = f")
    case True
    with k w(2) show ?thesis by (auto simp: heap servers)
  next
    case False
    with k have "map_of (sm_servers m) k = Some b" "k \<noteq> ss_fqdn sv" by (auto simp: servers split: if_splits)
    with filed_key [OF fl, of k b] a show ?thesis by (auto simp: heap)
  qed
  with away fl have f': "filed m'" unfolding filed_def same by blast
  have host: "host_of m' s = (if host_of m s = Some (ss_fqdn sv) then Some f else host_of m s)" for s
  proof (cases "map_of (sm_services m) s")
    case (Some v)
    from c Some obtain b x where b: "sv_server v = Some b" "map_of (sm_heap m) b = Some x" by (rule consistentD)
    have "ss_fqdn x = ss_fqdn sv \<longleftrightarrow> b = a"
      by (rule same_place [OF filed_service [OF fl Some b(1)] ip b(2) a])
    with Some b a w(2) show ?thesis by (auto simp: host_of_def get_by_service_def same heap)
  qed (simp add: host_of_def get_by_service_def same)
  have db: "sm_db m' = sm_db m @ [UpdateServerFqdn (ss_fqdn sv) f]" by (simp add: m'_def)
  have "f \<notin> known_servers (stored de m)" "ss_fqdn sv \<in> known_servers (stored de m)"
    using f old mi by (auto simp: mirrors_def has_key_def)
  note rename_server_effect [OF mirrorsD(1) [OF mi] this] mirrorsD [OF mi]
  moreover have "{k. has_key (sm_servers m') k} = insert f ({k. has_key (sm_servers m) k} - {ss_fqdn sv})"
    using ne by (auto simp: has_key_def servers)
  moreover have "host_of m' = (\<lambda>s. if host_of m s = Some (ss_fqdn sv) then Some f else host_of m s)"
    using host by blast
  ultimately have "mirrors (stored de m') m'"
    by (simp add: mirrors_def stored_append [OF db] persist_all_def persist_one_def cong: if_cong)
  with c' f' show "persisted de m'" by (simp add: persisted_def)
qed

lemma stays_get [intro]: "obeys (stays de a) (sm_get f)" "obeys (stays de a) (server_at b)"
  "obeys (stays de a) (service_at s)"
  unfolding server_at_def service_at_def sm_get_def by blast+

text \<open>
  A host name that still points at a server from before must not point at one whose FQDN
  another server has taken since.
\<close>

definition no_namesake :: "server_monitor \<Rightarrow> bool" where
  "no_namesake m \<longleftrightarrow> (\<forall>h a sv b. map_of (sm_hostname_to_server m) h = Some a \<longrightarrow> map_of (sm_heap m) a = Some sv
     \<longrightarrow> map_of (sm_servers m) (ss_fqdn sv) = Some b \<longrightarrow> b = a)"

lemma take_over_run:
  assumes p: "persisted de m" and a: "map_of (sm_heap m) a = Some sv" and f: "\<not> has_key (sm_servers m) f"
    and n: "\<And>b. map_of (sm_servers m) (ss_fqdn sv) = Some b \<Longrightarrow> b = a"
  shows "\<exists>r m'. take_over a f (m, l) = (r, (m', l)) \<and> persisted de m' \<and> (r = Inr () \<longrightarrow> in_place m' a)"
proof (cases "map_of (sm_servers m) (ss_fqdn sv)")
  case None
  with a show ?thesis
    using persisted_set_server(1) [OF p a, of "sv\<lparr>ss_managed := True\<rparr>"]
    by (simp add: take_over_def set_server_run server_at_def py_simps item_def)
next
  case (Some b)
  with n have b: "map_of (sm_servers m) (ss_fqdn sv) = Some a" by simp
  let ?w = "sv\<lparr>ss_managed := True, ss_fqdn := f\<rparr>"
  let ?m = "m\<lparr>sm_heap := AList.update a ?w (sm_heap m)\<rparr>"
  let ?H = "AList.update a ?w (AList.update a (sv\<lparr>ss_managed := True\<rparr>) (sm_heap m))"
  have same: "?H = AList.update a ?w (sm_heap m)" by (induction "sm_heap m") auto
  show ?thesis
    using a b persisted_take_over [OF p a b f, of ?w]
    by (simp add: take_over_def set_server_run server_at_def persist_def py_simps item_def same)
qed

lemma find_server_run:
  assumes p: "persisted de m" and n: "no_namesake m"
  shows "\<exists>r m'. find_server grains f (m, l) = (r, (m', l)) \<and> persisted de m'
     \<and> (case r of Inl e \<Rightarrow> True
        | Inr (Some a, nm) \<Rightarrow> in_place m' a
        | Inr (None, nm) \<Rightarrow> \<not> has_key (sm_servers m') f)"
proof (cases "map_of (sm_servers m) f")
  case (Some a)
  from p Some obtain sv where sv: "map_of (sm_heap m) a = Some sv" "ss_fqdn sv = f"
    using filed_key [OF _ Some] unfolding persisted_def by blast
  then have ip: "in_place m a" using Some by (auto simp: in_place_def)
  show ?thesis
  proof (cases "ss_managed sv")
    case True
    with Some sv p ip show ?thesis by (simp add: find_server_def server_at_def py_simps item_def)
  next
    case False
    have "obeys (stays de a) (manage_server a)"
      unfolding manage_server_def by (auto intro!: stays_set_server stays_persist hb.obeys_bnd)
    moreover obtain m' where m': "manage_server a (m, l) = (Inr (), (m', l))"
      using sv(1) by (simp add: manage_server_def set_server_run server_at_def persist_def py_simps item_def)
    ultimately have "persisted de m'" "in_place m' a" using obeysD p ip by (fastforce simp: stays_def)+
    with Some sv False m' show ?thesis by (simp add: find_server_def server_at_def py_simps item_def)
  qed
next
  case None
  then have f: "\<not> has_key (sm_servers m) f" by (simp add: has_key_def)
  show ?thesis
  proof (cases "grains f")
    case (Inl e)
    with None p show ?thesis by (simp add: find_server_def py_simps)
  next
    case (Inr h)
    show ?thesis
    proof (cases "map_of (sm_hostname_to_server m) h")
      case None
      with \<open>map_of (sm_servers m) f = None\<close> Inr p f show ?thesis by (simp add: find_server_def py_simps)
    next
      case (Some a)
      then have "live m a" by (auto simp: live_def)
      then obtain sv where sv: "map_of (sm_heap m) a = Some sv"
        using p consistent_parts(3) by (fastforce simp: persisted_def has_key_def)
      obtain r m' where "take_over a f (m, l) = (r, (m', l))" "persisted de m'" "r = Inr () \<longrightarrow> in_place m' a"
        using take_over_run [OF p sv f, of l] n Some sv by (auto simp: no_namesake_def)
      with None Inr Some sv p f show ?thesis
        by (cases r) (auto simp: find_server_def server_at_def py_simps item_def)
    qed
  qed
qed

lemma create_server_run:
  assumes p: "persisted de m" and f: "\<not> has_key (sm_servers m) f"
  shows "\<exists>r m'. create_server grains t f hb (m, l) = (r, (m', l)) \<and> persisted de m'
     \<and> (case r of Inl e \<Rightarrow> True | Inr a \<Rightarrow> in_place m' a)"
proof (cases "grains f")
  case (Inr h)
  then show ?thesis
    using persisted_new_server [OF p f, of "\<lparr>ss_fqdn = f, ss_hostname = h, ss_managed = True, ss_services = [],
        ss_last_contact = Some t, ss_boot_time = Some (seconds (hb_boot_time hb)),
        ss_ceph_version = hb_ceph_version hb\<rparr>" h True "Some t"]
    by (simp add: create_server_def new_server_def inject_server_def server_at_def persist_def py_simps item_def)
qed (use p in \<open>simp add: create_server_def py_simps\<close>)

lemma stays_emit: "obeys (stays de a) (sm_emit t sev msg x)"
  unfolding sm_emit_def obeys_def by (auto simp: snd_zoom stays_def split: prod.split)

lemma stays_events [intro]:
  "obeys (stays de a) (on_server t sv)" "obeys (stays de a) (on_reboot t sv e)"
  "obeys (stays de a) (on_new_version t sv)"
  unfolding on_server_def on_reboot_def on_new_version_def Let_def by (auto intro!: stays_emit)

lemma stays_checks:
  "obeys (stays de a) (check_boot_time t a b)" "obeys (stays de a) (check_version t a hb fresh)"
  "obeys (stays de a) (stop_unseen a seen)"
  unfolding check_boot_time_def check_version_def stop_unseen_def Let_def
  by (auto intro!: stays_set_server stays_set_service stays_persist hb.obeys_bnd hb.obeys_guarded
      split: option.split)

definition note_contact :: "time \<Rightarrow> address \<Rightarrow> heartbeat \<Rightarrow> bool \<Rightarrow> unit sm_py" where
  "note_contact t a hb fresh =
     bnd (set_server_at a (\<lambda>s. s\<lparr>ss_last_contact := Some t\<rparr>)) (\<lambda>_.
     bnd (server_at a) (\<lambda>s.
     bnd (persist (UpdateServerContact (ss_fqdn s) t)) (\<lambda>_.
     bnd (check_boot_time t a (seconds (hb_boot_time hb))) (\<lambda>_.
     bnd (check_version t a hb fresh) (\<lambda>_.
     bnd (for_each (\<lambda>x. register_service a (hs_id x) True (hs_status x)) (hb_services hb)) (\<lambda>_.
     bnd (stop_unseen a (map hs_id (hb_services hb))) (\<lambda>_.
     guarded fresh (bnd (server_at a) (\<lambda>s'. on_server t s')))))))))"

lemma stays_note_contact: "obeys (stays de a) (note_contact t a hb fresh)"
  unfolding note_contact_def
  by (auto intro!: stays_set_server stays_persist stays_checks stays_register hb.obeys_bnd hb.obeys_guarded)

lemma heartbeat_parts:
  "on_server_heartbeat grains t f hb = bnd (find_server grains f) (\<lambda>(found, nm).
     bnd (case found of None \<Rightarrow> create_server grains t f hb | Some a \<Rightarrow> ret a) (\<lambda>a.
     note_contact t a hb (found = None \<or> nm)))"
  unfolding on_server_heartbeat_def note_contact_def by (rule refl)

lemma heartbeat_persists:
  assumes p: "persisted de m" and n: "no_namesake m"
  shows "persisted de (fst (snd (on_server_heartbeat grains t f hb (m, l))))"
proof -
  have rest: "persisted de (fst (snd (note_contact t a hb fresh (w, l))))"
    if "persisted de w" "in_place w a" for w a fresh
    using stays_note_contact [of de a t hb fresh] that by (auto simp: obeys_def stays_def)
  obtain r m1 where f1: "find_server grains f (m, l) = (r, (m1, l))" "persisted de m1"
    "case r of Inl e \<Rightarrow> True | Inr (Some a, nm) \<Rightarrow> in_place m1 a
      | Inr (None, nm) \<Rightarrow> \<not> has_key (sm_servers m1) f"
    using find_server_run [OF p n, of grains f l] by blast
  show ?thesis
  proof (cases r)
    case (Inl e)
    with f1 show ?thesis by (simp add: heartbeat_parts bnd_def)
  next
    case (Inr x)
    obtain found nm where x: "x = (found, nm)" by fastforce
    show ?thesis
    proof (cases found)
      case (Some a)
      with f1 Inr x rest show ?thesis by (simp add: heartbeat_parts bnd_def ret_def)
    next
      case None
      with f1 Inr x have "\<not> has_key (sm_servers m1) f" by simp
      from create_server_run [OF f1(2) this, of grains t hb l] obtain r2 m2
        where c: "create_server grains t f hb (m1, l) = (r2, (m2, l))" "persisted de m2"
          "case r2 of Inl e \<Rightarrow> True | Inr a \<Rightarrow> in_place m2 a" by blast
      with f1 Inr x None rest show ?thesis
        by (cases r2) (simp_all add: heartbeat_parts bnd_def)
    qed
  qed
qed

section \<open>Starting again\<close>

lemma inject_service_run:
  assumes c: "consistent m" and fl: "filed m" and s: "map_of (sm_services m) s = None"
    and f: "map_of (sm_servers m) f = Some a"
  shows "\<exists>m'. inject_service s f (m, l) = (Inr (), (m', l)) \<and> consistent m' \<and> filed m'
     \<and> sm_servers m' = sm_servers m \<and> host_of m' = (host_of m)(s \<mapsto> f)
     \<and> (\<forall>x. map_of (sm_services m') x = None \<longleftrightarrow> x \<noteq> s \<and> map_of (sm_services m) x = None)"
proof -
  from filed_key [OF fl f] obtain sv where sv: "map_of (sm_heap m) a = Some sv" "ss_fqdn sv = f" by blast
  have ip: "in_place m a" using sv f by (auto simp: in_place_def)
  define d where "d = AList.update (sid_fsid s) (listed m (sid_fsid s) @ [s])
     (case map_of (sm_fsid_services m) (sid_fsid s) of
        None \<Rightarrow> AList.update (sid_fsid s) [] (sm_fsid_services m) | Some _ \<Rightarrow> sm_fsid_services m)"
  have d: "get_default d g [] = (if g = sid_fsid s then listed m g @ [s] else listed m g)" for g
    by (simp add: d_def get_default_def listed_def split: option.splits)
  let ?v = "new_service_state\<lparr>sv_server := Some a\<rparr>"
  let ?m = "with_service s a sv ?v m d (sm_db m)"
  have run: "inject_service s f (m, l) = (Inr (), (?m, l))"
    using sv f
    by (cases "map_of (sm_fsid_services m) (sid_fsid s)")
      (simp_all add: inject_service_def server_add_service_def set_server_at_def server_at_def
        fsid_list_def set_fsid_list_def py_simps with_service_def d_def listed_def get_default_def)
  have c': "consistent ?m"
    using s in_place_live [OF ip] sv(1) d by (intro consistent_with_service [OF c]) (simp add: adds_service_def)
  have names: "map_option ss_fqdn (map_of (sm_heap ?m) b) = map_option ss_fqdn (map_of (sm_heap m) b)" for b
    using sv(1) by (simp add: with_service_def)
  have place: "in_place ?m b = in_place m b" for b
    by (rule in_place_cong [OF _ names]) (simp add: with_service_def)
  have "\<exists>x. map_of (sm_heap ?m) b = Some x \<and> ss_fqdn x = k" if k: "map_of (sm_servers ?m) k = Some b" for k b
    using filed_key [OF fl, of k b] k names [of b] by (auto simp: with_service_def)
  moreover have "in_place ?m b"
    if "map_of (sm_services ?m) x = Some w" "sv_server w = Some b" for x w b
    using that ip filed_service [OF fl, of x w b] unfolding place by (auto simp: with_service_def split: if_splits)
  ultimately have "filed ?m" unfolding filed_def by blast
  moreover have "host_of ?m = (host_of m)(s \<mapsto> f)"
  proof
    fix x show "host_of ?m x = ((host_of m)(s \<mapsto> f)) x"
      using host_of_cong [of ?m m x, OF names] sv
      by (cases "x = s") (simp_all add: host_of_def get_by_service_def with_service_def)
  qed
  ultimately show ?thesis using run c' by (intro exI [of _ ?m]) (simp add: with_service_def)
qed

text \<open>\<open>ws\<close>, \<open>wl\<close>: the ServerMonitor and the event log of the whole state.\<close>

lemma recover_servers_run:
  assumes "consistent (servers w)" and "filed (servers w)" and "distinct (map dbs_fqdn rows)"
    and "\<forall>r \<in> set rows. \<not> has_key (sm_servers (servers w)) (dbs_fqdn r)"
  shows "\<exists>w'. for_each recover_server (map recovered_server rows) w = (Inr (), w') \<and> consistent (servers w')
     \<and> filed (servers w') \<and> sm_services (servers w') = sm_services (servers w)
     \<and> {k. has_key (sm_servers (servers w')) k} = {k. has_key (sm_servers (servers w)) k} \<union> dbs_fqdn ` set rows"
  using assms
proof (induction rows arbitrary: w)
  case Nil
  then show ?case by (simp add: ret_def)
next
  case (Cons r rows)
  let ?s = "recovered_server r" let ?m = "servers w"
  let ?n = "?m\<lparr>sm_heap := AList.update (sm_next ?m) ?s (sm_heap ?m), sm_next := Suc (sm_next ?m),
     sm_hostname_to_server := AList.update (dbs_hostname r) (sm_next ?m) (sm_hostname_to_server ?m),
     sm_servers := AList.update (dbs_fqdn r) (sm_next ?m) (sm_servers ?m), sm_db := sm_db ?m\<rparr>"
  let ?w = "w\<lparr>servers := ?n\<rparr>"
  have run: "recover_server ?s w = (Inr (), ?w)"
    by (simp add: recover_server_def on_servers_def zoom_def new_server_def inject_server_def server_at_def
        py_simps item_def recovered_server_def)
  have new: "consistent ?n" "filed ?n"
    by (rule new_server_filed [OF Cons.prems(1,2)]; use Cons.prems(4) in \<open>simp add: recovered_server_def\<close>)+
  have "\<forall>x \<in> set rows. \<not> has_key (sm_servers ?n) (dbs_fqdn x)"
    using Cons.prems(3,4) by (auto simp: image_iff)
  with Cons.IH [of ?w] new Cons.prems(3) obtain w' where
    "for_each recover_server (map recovered_server rows) ?w = (Inr (), w')" "consistent (servers w')"
    "filed (servers w')" "sm_services (servers w') = sm_services ?m"
    "{k. has_key (sm_servers (servers w')) k} = {k. has_key (sm_servers ?n) k} \<union> dbs_fqdn ` set rows"
    by auto
  with run show ?case by (intro exI [of _ w']) (auto simp: bnd_def)
qed

lemma recover_services_run:
  assumes wf: "well_formed db" and "set qs \<subseteq> set (db_services db)" and "distinct (map dbv_id qs)"
    and "consistent (servers w)" and "filed (servers w)"
    and "{k. has_key (sm_servers (servers w)) k} = known_servers db"
    and "\<forall>q \<in> set qs. map_of (sm_services (servers w)) (dbv_id q) = None"
  shows "\<exists>w'. for_each recover_service (map (recovered_service db) qs) w = (Inr (), w') \<and> consistent (servers w')
     \<and> filed (servers w') \<and> sm_servers (servers w') = sm_servers (servers w)
     \<and> host_of (servers w') = (\<lambda>s. if s \<in> dbv_id ` set qs then place_of db s else host_of (servers w) s)"
  using assms(2-)
proof (induction qs arbitrary: w)
  case Nil
  then show ?case by (simp add: ret_def)
next
  case (Cons q qs)
  have q: "q \<in> set (db_services db)" using Cons.prems(1) by simp
  with wf obtain r where r: "r \<in> set (db_servers db)" "dbv_server q = Some (dbs_id r)"
    unfolding well_formed_def by blast
  have n: "server_name db (dbs_id r) = Some (dbs_fqdn r)" using server_name_iff [OF wf] r(1) by blast
  have pos: "dbs_id r \<noteq> 0" using wf r(1) by (auto simp: well_formed_def)
  have "services_map db (dbv_id q) = Some (dbv_server q)"
    using wf q by (auto simp: services_map_def well_formed_def comp_def intro!: map_of_is_SomeI)
  then have pl: "place_of db (dbv_id q) = Some (dbs_fqdn r)" using r(2) n by (simp add: place_of_def)
  have "has_key (sm_servers (servers w)) (dbs_fqdn r)" using Cons.prems(5) r(1) by (auto simp: known_servers_def)
  then obtain a where a: "map_of (sm_servers (servers w)) (dbs_fqdn r) = Some a" by (auto simp: has_key_def)
  from inject_service_run [OF Cons.prems(3,4) _ a, of "dbv_id q" "event_log w"] Cons.prems(6) obtain m'
    where m': "inject_service (dbv_id q) (dbs_fqdn r) (servers w, event_log w) = (Inr (), (m', event_log w))"
      "consistent m'" "filed m'" "sm_servers m' = sm_servers (servers w)"
      "host_of m' = (host_of (servers w))(dbv_id q \<mapsto> dbs_fqdn r)"
      "\<And>x. map_of (sm_services m') x = None \<longleftrightarrow> x \<noteq> dbv_id q \<and> map_of (sm_services (servers w)) x = None"
    by auto
  let ?w = "w\<lparr>servers := m'\<rparr>"
  have run: "recover_service (recovered_service db q) w = (Inr (), ?w)"
    using m'(1) r(2) n pos
    by (simp add: recover_service_def recovered_service_def on_servers_def zoom_def)
  have "\<forall>x \<in> set qs. map_of (sm_services m') (dbv_id x) = None"
    using Cons.prems(2,6) m'(6) by (auto simp: image_iff)
  with Cons.IH [of ?w] Cons.prems m' obtain w' where w':
    "for_each recover_service (map (recovered_service db) qs) ?w = (Inr (), w')" "consistent (servers w')"
    "filed (servers w')" "sm_servers (servers w') = sm_servers (servers w)"
    "host_of (servers w') = (\<lambda>s. if s \<in> dbv_id ` set qs then place_of db s else host_of m' s)"
    by (auto cong: if_cong)
  have "host_of (servers w') = (\<lambda>s. if s \<in> dbv_id ` set (q # qs) then place_of db s else host_of (servers w) s)"
    by (auto simp: w'(5) m'(5) pl fun_eq_iff)
  with w' run show ?case by (intro exI [of _ w']) (simp add: bnd_def)
qed

lemma restart_run:
  assumes wf: "well_formed db"
  shows "\<exists>w'. restart_servers db init_manager = (Inr (), w') \<and> consistent (servers w') \<and> filed (servers w')
     \<and> {k. has_key (sm_servers (servers w')) k} = known_servers db \<and> host_of (servers w') = place_of db"
proof -
  have init: "servers init_manager = init_server_monitor" by (simp add: init_manager_def)
  have "filed init_server_monitor" by (simp add: filed_def init_server_monitor_def)
  moreover have "{k. has_key (sm_servers init_server_monitor) k} = {}"
    by (simp add: init_server_monitor_def has_key_def)
  ultimately obtain w1 where w1: "for_each recover_server (map recovered_server (db_servers db)) init_manager = (Inr (), w1)"
    "consistent (servers w1)" "filed (servers w1)" "sm_services (servers w1) = []"
    "{k. has_key (sm_servers (servers w1)) k} = known_servers db"
    using recover_servers_run [of init_manager "db_servers db"] wf consistent_init
    by (auto simp: init well_formed_def known_servers_def init_server_monitor_def)
  from recover_services_run [OF wf order.refl _ w1(2,3,5)] wf w1(4) obtain w2
    where w2: "for_each recover_service (map (recovered_service db) (db_services db)) w1 = (Inr (), w2)"
    "consistent (servers w2)" "filed (servers w2)" "sm_servers (servers w2) = sm_servers (servers w1)"
    "host_of (servers w2) = (\<lambda>s. if s \<in> dbv_id ` set (db_services db) then place_of db s else host_of (servers w1) s)"
    by (auto simp: well_formed_def)
  have "host_of (servers w1) s = place_of db s" if "s \<notin> dbv_id ` set (db_services db)" for s
  proof -
    have "place_of db s = None" using that services_map_dom [of db s] by (simp add: place_of_def)
    moreover have "host_of (servers w1) s = None" by (rule host_of_unknown) (simp add: w1(4))
    ultimately show ?thesis by simp
  qed
  then have "host_of (servers w2) = place_of db" by (auto simp: w2(5) fun_eq_iff)
  with w1 w2 show ?thesis by (simp add: restart_servers_def bnd_def)
qed

section \<open>Properties\<close>


definition osd_heartbeat :: heartbeat where
  "osd_heartbeat = \<lparr>hb_boot_time = 5, hb_ceph_version = Some ''0.80'',
     hb_services = [\<lparr>hs_id = ServiceId ''f'' ''osd'' ''3'', hs_status = None\<rparr>]\<rparr>"

definition a_database :: db_env where
  "a_database = \<lparr>dbe_now = 0, dbe_null_version = (\<lambda>rows. Some (Some (int (length rows))))\<rparr>"

definition after_heartbeat :: server_monitor where
  "after_heartbeat = fst (snd (on_server_heartbeat (\<lambda>_. Inr ''n1'') 0 ''n1.example'' osd_heartbeat
     (init_server_monitor, \<lparr>ev_pending = [], ev_saved = []\<rparr>)))"

lemma persisted_init: "persisted de init_server_monitor \<and> no_namesake init_server_monitor"
proof -
  have "stored de init_server_monitor = empty_database"
    by (simp add: stored_def persist_all_def init_server_monitor_def)
  moreover have "place_of empty_database = host_of init_server_monitor"
    by (simp add: place_of_def services_map_def empty_database_def host_of_def get_by_service_def
        init_server_monitor_def fun_eq_iff)
  ultimately show ?thesis
    using consistent_init well_formed_empty
    by (simp add: persisted_def mirrors_def filed_def no_namesake_def)
      (simp add: known_servers_def empty_database_def init_server_monitor_def has_key_def)
qed


text \<open>
  C8. A restart loses nothing of that: read back by a fresh Manager, tables that describe the
  registry restore its servers and the place of every service, and the restored tables in
  memory are consistent. No row is refused.
\<close>

theorem restart_restores_registry:
  assumes "mirrors (stored de m) m"
  shows "\<exists>w'. restart_servers (stored de m) init_manager = (Inr (), w') \<and> consistent (servers w')
     \<and> (\<forall>k. has_key (sm_servers (servers w')) k \<longleftrightarrow> has_key (sm_servers m) k)
     \<and> (\<forall>s. map_option ss_fqdn (get_by_service (servers w') s) = map_option ss_fqdn (get_by_service m s))"
proof -
  from restart_run [OF mirrorsD(1) [OF assms]] obtain w' where w':
    "restart_servers (stored de m) init_manager = (Inr (), w')" "consistent (servers w')"
    "{k. has_key (sm_servers (servers w')) k} = {k. has_key (sm_servers m) k}"
    "host_of (servers w') = host_of m"
    using mirrorsD [OF assms] by auto
  have "has_key (sm_servers (servers w')) k \<longleftrightarrow> has_key (sm_servers m) k" for k using w'(3) by blast
  moreover have "map_option ss_fqdn (get_by_service (servers w') s) = map_option ss_fqdn (get_by_service m s)" for s
    using fun_cong [OF w'(4), of s] by (simp add: host_of_def)
  ultimately show ?thesis using w' by blast
qed

theorem restart_restores_registry_witness:
  "\<exists>w'. restart_servers (stored a_database after_heartbeat) init_manager = (Inr (), w')
     \<and> has_key (sm_servers (servers w')) ''n1.example''"
proof -
  have "persisted a_database after_heartbeat"
    unfolding after_heartbeat_def using persisted_init by (intro heartbeat_persists) simp_all
  then have "mirrors (stored a_database after_heartbeat) after_heartbeat" by (simp add: persisted_def)
  from restart_restores_registry [OF this] have "\<exists>w'. restart_servers (stored a_database after_heartbeat) init_manager = (Inr (), w')
     \<and> (has_key (sm_servers (servers w')) ''n1.example'' \<longleftrightarrow> has_key (sm_servers after_heartbeat) ''n1.example'')"
    by blast
  moreover have "has_key (sm_servers after_heartbeat) ''n1.example''" by code_simp
  ultimately show ?thesis by simp
qed

end
