(* ===== verification/Simulator.thy ===== *)
theory Simulator
  imports CephModule "HOL-Library.List_Lexorder" "HOL-Library.Char_ord"
begin

text \<open>
  The simulated Ceph cluster that the test environment runs the server against
  (minion-sim/minion_sim/ceph_cluster.py), and the execution module its minions have in
  place of the real one (child.py). Pools, PGs, OSDs and the CRUSH tree are mutated by
  commands; a simplified PG monitor creates, recovers and cleans PGs as time advances.

  Python's string hash and the digests of versions are parameters, as is the text that
  an error has once it has crossed XML-RPC. Of each JSON object the model has the members
  that some operation reads or writes; a pool, whose members commands name freely, is a
  dictionary. The random numbers of the load generator and of the statistics are
  parameters of the operations that draw them.
\<close>

section \<open>State\<close>

type_synonym sim_pool = "(string, jval) dict"

record sim_osd =
  zo_id :: int
  zo_up :: int
  zo_in :: int

record sim_pg = pg_brief +
  up_osds :: "int list"

record sim_node =
  sn_id :: int
  sn_name :: string
  sn_type :: string
  sn_children :: "int list option"
  sn_reweight :: "jval option"

record sim_bucket =
  sb_id :: int
  sb_name :: string
  sb_type :: string
  sb_weight :: rat
  sb_items :: "(int \<times> rat) list"

record pg_stats =
  num_objects :: int
  num_bytes :: int
  num_bytes_wr :: int
  num_bytes_rd :: int

record sim_service =
  ssv_type :: string
  ssv_id :: string
  ssv_fsid :: string

record sim_cluster =
  sim_fsid :: string
  sim_name :: string
  service_locations :: "(string \<times> string, string) dict"
  host_services :: "(string, sim_service list) dict"
  sim_epoch :: int
  sim_flags :: jval
  sim_osds :: "sim_osd list"
  sim_pools :: "sim_pool list"
  sim_nodes :: "sim_node list"
  sim_buckets :: "sim_bucket list"
  crush_node_id :: int
  pgs :: "sim_pg list"
  pg_map_version :: int
  overall_status :: string
  health_summary :: "(string \<times> string) list"
  sim_config :: "(string, string) dict"
  sim_mons :: "(int \<times> string) list"
  election_epoch :: int
  sim_pg_stats :: "(string, pg_stats) dict"
  osd_total_bytes :: "(int, int) dict"

type_synonym 'a sim_py = "(sim_cluster, 'a) py"

record sim_env =
  str_hash :: "string \<Rightarrow> int"
  health_digest :: "string \<times> (string \<times> string) list \<Rightarrow> string"
  summary_digest :: "pg_summary_data \<Rightarrow> string"
  config_digest :: "(string, string) dict \<Rightarrow> string"
  status_text :: "int \<times> (int \<times> string) list \<Rightarrow> string"
  fault_text :: "exn \<Rightarrow> string"

section \<open>Helpers\<close>

definition pool_template :: "jval \<Rightarrow> int \<Rightarrow> jval \<Rightarrow> sim_pool" where
  "pool_template name i n = [
     (''pool'', JInt i), (''pool_name'', name), (''flags'', JInt 0), (''flags_names'', JStr []),
     (''type'', JInt 1), (''size'', JInt 2), (''min_size'', JInt 1), (''crush_ruleset'', JInt 2),
     (''object_hash'', JInt 2), (''pg_num'', n), (''pg_placement_num'', n),
     (''crash_replay_interval'', JInt 0), (''last_change'', JStr ''1''), (''auid'', JInt 0),
     (''snap_mode'', JStr ''selfmanaged''), (''snap_seq'', JInt 0), (''snap_epoch'', JInt 0),
     (''pool_snaps'', JText []), (''removed_snaps'', JStr ''[]''), (''quota_max_bytes'', JInt 0),
     (''quota_max_objects'', JInt 0), (''tiers'', JList []), (''tier_of'', JInt (- 1)),
     (''read_tier'', JInt (- 1)), (''write_tier'', JInt (- 1)), (''cache_mode'', JStr ''none''),
     (''properties'', JList [])]"

definition zero_division :: exn where
  "zero_division = RuntimeError ''integer division or modulo by zero''"

definition pseudorandom_subset :: "(string \<Rightarrow> int) \<Rightarrow> int list \<Rightarrow> int \<Rightarrow> string \<Rightarrow> exn + int list" where
  "pseudorandom_subset h possible_values n_select selector =
     (if 0 < n_select \<and> possible_values = [] then Inl zero_division
      else Inr (map (\<lambda>i. possible_values ! nat (h (selector @ str_int i) mod int (length possible_values)))
             [0..n_select - 1]))"

definition get_hostname :: "string \<Rightarrow> string" where
  "get_hostname fqdn = hd (split_on (CHR ''.'') fqdn)"

text \<open>\<open>p[k]\<close>, and \<open>p[k]\<close> where a number is needed.\<close>

definition member :: "sim_pool \<Rightarrow> string \<Rightarrow> exn + jval" where
  "member p k = item p k k"

definition number :: "sim_pool \<Rightarrow> string \<Rightarrow> exn + int" where
  "number p k = then_do (member p k) int_of"

text \<open>\<open>[x for x in xs if P(x)]\<close> and its first element.\<close>

fun filter_res :: "('a \<Rightarrow> exn + bool) \<Rightarrow> 'a list \<Rightarrow> exn + 'a list" where
  "filter_res P [] = Inr []"
| "filter_res P (x # xs) =
     then_do (P x) (\<lambda>b. then_do (filter_res P xs) (\<lambda>ys. Inr (if b then x # ys else ys)))"

definition first_of :: "'a list \<Rightarrow> exn + 'a" where
  "first_of xs = (case xs of [] \<Rightarrow> Inl IndexError | x # _ \<Rightarrow> Inr x)"

text \<open>Mutating the object that such a comprehension found.\<close>

fun update_first :: "('a \<Rightarrow> bool) \<Rightarrow> ('a \<Rightarrow> 'a) \<Rightarrow> 'a list \<Rightarrow> 'a list" where
  "update_first P f [] = []"
| "update_first P f (x # xs) = (if P x then f x # xs else x # update_first P f xs)"

definition is_named :: "jval \<Rightarrow> sim_pool \<Rightarrow> exn + bool" where
  "is_named name p = then_do (member p ''pool_name'') (\<lambda>n. Inr (n = name))"

definition has_name :: "jval \<Rightarrow> sim_pool \<Rightarrow> bool" where
  "has_name name p \<longleftrightarrow> map_of p ''pool_name'' = Some name"

definition pools_named :: "jval \<Rightarrow> sim_cluster \<Rightarrow> exn + sim_pool list" where
  "pools_named name s = filter_res (is_named name) (sim_pools s)"

definition next_epoch :: "unit sim_py" where
  "next_epoch = modify (\<lambda>s. s\<lparr>sim_epoch := sim_epoch s + 1\<rparr>)"

section \<open>Creating a cluster\<close>

definition add_service :: "string \<Rightarrow> sim_service \<Rightarrow> (string, sim_service list) dict \<Rightarrow> (string, sim_service list) dict" where
  "add_service fqdn x d = AList.update fqdn (get_default d fqdn [] @ [x]) d"

definition pg_id_of :: "int \<Rightarrow> int \<Rightarrow> string" where
  "pg_id_of pool i = str_int pool @ ''.'' @ str_int i"

definition clean_pg :: "(string \<Rightarrow> int) \<Rightarrow> int \<Rightarrow> int \<Rightarrow> int \<Rightarrow> exn + sim_pg" where
  "clean_pg h osd_count pool i =
     then_do (pseudorandom_subset h [0..osd_count - 1] 2 (pg_id_of pool i)) (\<lambda>os.
     Inr \<lparr>pg_id = pg_id_of pool i, pg_state = ''active+clean'', acting = os, up_osds = os\<rparr>)"

definition crush_hosts :: "(string, sim_service list) dict \<Rightarrow> sim_node list \<times> int list" where
  "crush_hosts hosts =
     (let host_id = (\<lambda>k. - 2 - int k);
          osds = (\<lambda>ss. map (\<lambda>s. the (read_int (ssv_id s))) (filter (\<lambda>s. ssv_type s = ''osd'') ss));
          nodes = concat (map (\<lambda>(k, fqdn, ss).
            map (\<lambda>i. \<lparr>sn_id = i, sn_name = ''osd.'' @ str_int i, sn_type = ''osd'', sn_children = None,
                 sn_reweight = Some (JNum 1)\<rparr>) (osds ss)
            @ [\<lparr>sn_id = host_id k, sn_name = get_hostname fqdn, sn_type = ''host'',
                 sn_children = Some (osds ss), sn_reweight = None\<rparr>])
            (zip [0..<length hosts] hosts))
      in (nodes, map host_id [0..<length hosts]))"

text \<open>The pools data, metadata and rbd with 64 PGs each.\<close>

definition initial_pgs :: "(int \<times> int) list" where
  "initial_pgs = concat (map (\<lambda>pool. map (\<lambda>i. (pool, i)) [0..63]) [0, 1, 2])"

text \<open>\<open>crush\<close> and \<open>conf\<close> are the constants DEFAULT_CRUSH and DEFAULT_CONFIG, \<open>fsid\<close> the new UUID.\<close>

definition sim_create :: "(string \<Rightarrow> int) \<Rightarrow> sim_bucket list \<Rightarrow> (string, string) dict \<Rightarrow> string \<Rightarrow>
    string list \<Rightarrow> nat \<Rightarrow> nat \<Rightarrow> bool \<Rightarrow> int \<Rightarrow> exn + sim_cluster" where
  "sim_create h crush conf fsid fqdns mon_count osds_per_host osd_overlap osd_size =
     (let mon_hosts = take mon_count fqdns;
          osd_hosts = (if osd_overlap then drop mon_count fqdns else fqdns);
          osd_count = length osd_hosts * osds_per_host;
          placed = concat (map (\<lambda>(k, fqdn). map (\<lambda>i. (fqdn, k * osds_per_host + i)) [0..<osds_per_host])
                     (zip [0..<length osd_hosts] osd_hosts));
          locations = map (\<lambda>(fqdn, i). ((''osd'', str_nat i), fqdn)) placed
            @ map (\<lambda>fqdn. ((''mon'', get_hostname fqdn), fqdn)) mon_hosts;
          hosts = fold (\<lambda>fqdn d. add_service fqdn \<lparr>ssv_type = ''mon'', ssv_id = get_hostname fqdn, ssv_fsid = fsid\<rparr> d)
            mon_hosts (fold (\<lambda>(fqdn, i) d. add_service fqdn \<lparr>ssv_type = ''osd'', ssv_id = str_nat i, ssv_fsid = fsid\<rparr> d)
              placed []);
          (host_nodes, host_ids) = crush_hosts hosts;
          root = \<lparr>sn_id = - 1, sn_name = ''default'', sn_type = ''root'', sn_children = Some host_ids, sn_reweight = None\<rparr>
      in then_do (map_res (\<lambda>(pool, i). clean_pg h (int osd_count) pool i) initial_pgs) (\<lambda>new_pgs.
         Inr \<lparr>sim_fsid = fsid, sim_name = ''ceph_fake'', service_locations = dict_of locations, host_services = hosts,
           sim_epoch = 1, sim_flags = JStr [],
           sim_osds = map (\<lambda>i. \<lparr>zo_id = int i, zo_up = 1, zo_in = 1\<rparr>) [0..<osd_count],
           sim_pools = [pool_template (JStr ''data'') 0 (JInt 64), pool_template (JStr ''metadata'') 1 (JInt 64),
             pool_template (JStr ''rbd'') 2 (JInt 64)],
           sim_nodes = root # host_nodes, sim_buckets = crush, crush_node_id = - 100, pgs = new_pgs, pg_map_version = 1,
           overall_status = ''HEALTH_OK'', health_summary = [], sim_config = conf,
           sim_mons = map (\<lambda>(i, fqdn). (int i, get_hostname fqdn)) (zip [0..<length mon_hosts] mon_hosts),
           election_epoch = 77,
           sim_pg_stats = dict_of (map (\<lambda>p. (pg_id p, \<lparr>num_objects = 0, num_bytes = 0, num_bytes_wr = 0, num_bytes_rd = 0\<rparr>)) new_pgs),
           osd_total_bytes = map (\<lambda>i. (int i, osd_size)) [0..<osd_count]\<rparr>))"

section \<open>Health and the PG monitor\<close>

text \<open>The summary of an earlier warning is not taken back.\<close>

definition update_health :: "unit sim_py" where
  "update_health = modify (\<lambda>s.
     if \<exists>p \<in> set (pgs s). pg_state p \<noteq> ''active+clean''
     then s\<lparr>health_summary := [(''HEALTH_WARN'', ''Unclean PGs'')], overall_status := ''HEALTH_WARN''\<rparr>
     else s\<lparr>overall_status := ''HEALTH_OK''\<rparr>)"

text \<open>The states of a PG, a set in the code, are a list without duplicates.\<close>

definition states_of :: "string \<Rightarrow> string list" where
  "states_of st = remdups (split_on (CHR ''+'') st)"

definition set_flag :: "bool \<Rightarrow> string \<Rightarrow> string list \<Rightarrow> string list" where
  "set_flag b x xs = (if b then (if x \<in> set xs then xs else xs @ [x]) else filter (\<lambda>y. y \<noteq> x) xs)"

definition joined_state :: "string list \<Rightarrow> string" where
  "joined_state xs = join ''+'' (sort xs)"

definition osds_by_number :: "sim_cluster \<Rightarrow> (int, sim_osd) dict" where
  "osds_by_number s = dict_of (map (\<lambda>o'. (zo_id o', o')) (sim_osds s))"

definition acting_osds :: "(int, sim_osd) dict \<Rightarrow> int list \<Rightarrow> exn + sim_osd list" where
  "acting_osds osds is = map_res (\<lambda>i. item osds i (str_int i)) is"

definition pg_id_to_osds :: "(string \<Rightarrow> int) \<Rightarrow> sim_osd list \<Rightarrow> string \<Rightarrow> exn + int list" where
  "pg_id_to_osds h osds i = pseudorandom_subset h (map zo_id (filter (\<lambda>o'. zo_in o' \<noteq> 0) osds)) 2 i"

text \<open>
  The states that one PG gets: \<open>stale\<close>, \<open>active\<close>, \<open>out\<close> and \<open>all_in\<close> are what the code
  finds out about its OSDs, \<open>r\<close> and \<open>c\<close> the recoveries and creations that are left.
\<close>

definition next_states :: "bool \<Rightarrow> bool \<Rightarrow> bool \<Rightarrow> bool \<Rightarrow> int \<Rightarrow> int \<Rightarrow> string list \<Rightarrow> string list \<times> int \<times> int" where
  "next_states stale active out all_in r c states =
     (let states1 = set_flag stale ''stale'' states;
          states2 = set_flag active ''active'' states1;
          states3 = (if out then set_flag True ''remapped'' states2 else states2);
          states4 = set_flag (all_in \<and> ''remapped'' \<notin> set states3) ''clean'' states3;
          recovered = (0 < r \<and> ''remapped'' \<in> set states4);
          states5 = (if recovered then set_flag False ''remapped'' states4 else states4);
          created = (0 < c \<and> ''creating'' \<in> set states5);
          states6 = (if created then set_flag False ''creating'' states5 else states5)
      in (states6, if recovered then r - 1 else r, if created then c - 1 else c))"

text \<open>Errors come before the PG is changed.\<close>

definition monitor_pg :: "(string \<Rightarrow> int) \<Rightarrow> sim_osd list \<Rightarrow> (int, sim_osd) dict \<Rightarrow> int \<Rightarrow> int \<Rightarrow> sim_pg \<Rightarrow>
    exn + sim_pg \<times> int \<times> int" where
  "monitor_pg h all_osds osds r c pg =
     then_do (first_of (acting pg)) (\<lambda>primary_id.
     then_do (item osds primary_id (str_int primary_id)) (\<lambda>primary.
     then_do (acting_osds osds (acting pg)) (\<lambda>os.
     let out = (\<exists>o' \<in> set os. zo_in o' = 0)
     in then_do (if out then pg_id_to_osds h all_osds (pg_id pg) else Inr (acting pg)) (\<lambda>new_acting.
        then_do (acting_osds osds new_acting) (\<lambda>os'.
        case next_states (zo_in primary = 1 \<and> zo_up primary = 0) (\<exists>o' \<in> set os. zo_in o' = 1) out
               (\<forall>o' \<in> set os'. zo_in o' = 1) r c (states_of (pg_state pg)) of
          (states, r', c') \<Rightarrow>
            Inr (pg\<lparr>pg_state := joined_state states, acting := new_acting,
                    up_osds := (if out then new_acting else up_osds pg)\<rparr>, r', c'))))))"

text \<open>The loop gives the PGs it leaves behind, also when it raises.\<close>

fun monitor_pgs :: "(string \<Rightarrow> int) \<Rightarrow> sim_osd list \<Rightarrow> (int, sim_osd) dict \<Rightarrow> int \<Rightarrow> int \<Rightarrow> sim_pg list \<Rightarrow>
    (exn + bool) \<times> sim_pg list" where
  "monitor_pgs h all_osds osds r c [] = (Inr False, [])"
| "monitor_pgs h all_osds osds r c (p # ps) = (case monitor_pg h all_osds osds r c p of
       Inl e \<Rightarrow> (Inl e, p # ps)
     | Inr (p', r', c') \<Rightarrow> (case monitor_pgs h all_osds osds r' c' ps of
           (Inl e, qs) \<Rightarrow> (Inl e, p' # qs)
         | (Inr changes, qs) \<Rightarrow> (Inr (pg_state p \<noteq> pg_state p' \<or> changes), p' # qs)))"

definition pg_monitor :: "(string \<Rightarrow> int) \<Rightarrow> int \<Rightarrow> int \<Rightarrow> unit sim_py" where
  "pg_monitor h recovery_credits creation_credits =
     bnd (\<lambda>s. case monitor_pgs h (sim_osds s) (osds_by_number s) recovery_credits creation_credits (pgs s) of
            (x, ps) \<Rightarrow> (x, s\<lparr>pgs := ps\<rparr>)) (\<lambda>changes.
     guarded changes
       (bnd (modify (\<lambda>s. s\<lparr>pg_map_version := pg_map_version s + 1\<rparr>)) (\<lambda>_. update_health)))"

definition RECOVERIES_PER_SECOND :: int where "RECOVERIES_PER_SECOND = 1"

definition CREATIONS_PER_SECOND :: int where "CREATIONS_PER_SECOND = 10"

definition sim_advance :: "(string \<Rightarrow> int) \<Rightarrow> int \<Rightarrow> unit sim_py" where
  "sim_advance h t =
     bnd (pg_monitor h (t * RECOVERIES_PER_SECOND) (t * CREATIONS_PER_SECOND)) (\<lambda>_. update_health)"

section \<open>OSDs\<close>

definition changed :: "int option \<Rightarrow> int \<Rightarrow> bool" where
  "changed x y = (case x of None \<Rightarrow> False | Some v \<Rightarrow> y \<noteq> v)"

definition set_osd_state :: "(string \<Rightarrow> int) \<Rightarrow> int \<Rightarrow> int option \<Rightarrow> int option \<Rightarrow> unit sim_py" where
  "set_osd_state h osd_id new_up new_in =
     bnd get_state (\<lambda>s.
     bnd (lift_exn (first_of (filter (\<lambda>o'. zo_id o' = osd_id) (sim_osds s)))) (\<lambda>o'.
     guarded (changed new_up (zo_up o') \<or> changed new_in (zo_in o'))
       (bnd (modify (\<lambda>s. s\<lparr>sim_osds := update_first (\<lambda>o'. zo_id o' = osd_id)
          (\<lambda>o'. o'\<lparr>zo_up := (case new_up of None \<Rightarrow> zo_up o' | Some v \<Rightarrow> v),
                    zo_in := (case new_in of None \<Rightarrow> zo_in o' | Some v \<Rightarrow> v)\<rparr>) (sim_osds s)\<rparr>)) (\<lambda>_.
        bnd next_epoch (\<lambda>_.
        bnd (pg_monitor h 0 0) (\<lambda>_. update_health))))))"

definition set_osd_weight :: "(string \<Rightarrow> int) \<Rightarrow> int \<Rightarrow> jval \<Rightarrow> unit sim_py" where
  "set_osd_weight h osd_id weight =
     bnd get_state (\<lambda>s.
     bnd (lift_exn (first_of (filter (\<lambda>n. sn_id n = osd_id) (sim_nodes s)))) (\<lambda>_.
     bnd (modify (\<lambda>s. s\<lparr>sim_nodes := update_first (\<lambda>n. sn_id n = osd_id)
       (\<lambda>n. n\<lparr>sn_reweight := Some weight\<rparr>) (sim_nodes s)\<rparr>)) (\<lambda>_.
     bnd next_epoch (\<lambda>_.
     bnd (pg_monitor h 0 0) (\<lambda>_. update_health)))))"

definition set_osd_flags :: "jval \<Rightarrow> unit sim_py" where
  "set_osd_flags flags = bnd (modify (\<lambda>s. s\<lparr>sim_flags := flags\<rparr>)) (\<lambda>_. next_epoch)"

section \<open>The CRUSH tree\<close>

text \<open>The last bucket and the last node that match; without a bucket any node raises.\<close>

definition find_crush_node :: "string \<Rightarrow> sim_cluster \<Rightarrow> exn + sim_bucket option \<times> sim_node option" where
  "find_crush_node name s =
     (case rev (filter (\<lambda>b. sb_name b = name) (sim_buckets s)) of
        [] \<Rightarrow> if sim_nodes s = [] then Inr (None, None) else Inl TypeError
      | b # _ \<Rightarrow> Inr (Some b, (case rev (filter (\<lambda>n. sn_id n = sb_id b) (sim_nodes s)) of
            [] \<Rightarrow> None | n # _ \<Rightarrow> Some n)))"

definition crush_add_bucket :: "string \<Rightarrow> string \<Rightarrow> unit sim_py" where
  "crush_add_bucket name typ =
     bnd (modify (\<lambda>s. s\<lparr>
       sim_buckets := sim_buckets s @ [\<lparr>sb_id = crush_node_id s, sb_name = name, sb_type = typ, sb_weight = 1 / 10, sb_items = []\<rparr>],
       sim_nodes := sim_nodes s @ [\<lparr>sn_id = crush_node_id s, sn_name = name, sn_type = typ, sn_children = Some [],
         sn_reweight = None\<rparr>]\<rparr>)) (\<lambda>_.
     bnd next_epoch (\<lambda>_.
     modify (\<lambda>s. s\<lparr>crush_node_id := crush_node_id s - 1\<rparr>)))"

definition some_or :: "exn \<Rightarrow> 'a option \<Rightarrow> exn + 'a" where
  "some_or e x = (case x of None \<Rightarrow> Inl e | Some v \<Rightarrow> Inr v)"

text \<open>\<open>update_last\<close> mutates the object that \<open>find_crush_node\<close> found.\<close>

definition update_last :: "('a \<Rightarrow> bool) \<Rightarrow> ('a \<Rightarrow> 'a) \<Rightarrow> 'a list \<Rightarrow> 'a list" where
  "update_last P f xs = rev (update_first P f (rev xs))"

definition crush_move :: "string \<Rightarrow> string \<Rightarrow> unit sim_py" where
  "crush_move name arg =
     bnd (lift_exn (case split_on (CHR ''='') arg of _ # p # _ \<Rightarrow> Inr p | _ \<Rightarrow> Inl IndexError)) (\<lambda>parent_name.
     bnd get_state (\<lambda>s.
     bnd (lift_exn (find_crush_node parent_name s)) (\<lambda>(pb, pn).
     bnd (lift_exn (find_crush_node name s)) (\<lambda>(cb, cn).
     bnd (lift_exn (some_or TypeError cb)) (\<lambda>child.
     bnd (lift_exn (some_or TypeError pb)) (\<lambda>parent.
     bnd (modify (\<lambda>s. s\<lparr>sim_buckets := update_last (\<lambda>b. sb_name b = parent_name)
       (\<lambda>b. b\<lparr>sb_items := sb_items b @ [(sb_id child, sb_weight child)]\<rparr>) (sim_buckets s)\<rparr>)) (\<lambda>_.
     bnd (lift_exn (some_or TypeError pn)) (\<lambda>pnode.
     bnd (lift_exn (some_or (KeyError ''children'') (sn_children pnode))) (\<lambda>cs.
     bnd (lift_exn (some_or TypeError cn)) (\<lambda>cnode.
     bnd (modify (\<lambda>s. s\<lparr>sim_nodes := update_last (\<lambda>n. sn_id n = sb_id parent)
       (\<lambda>n. n\<lparr>sn_children := Some (cs @ [sn_id cnode])\<rparr>) (sim_nodes s)\<rparr>)) (\<lambda>_.
     next_epoch)))))))))))"

text \<open>\<open>list.remove\<close> takes the first equal element out; \<open>None\<close> is in neither list.\<close>

definition crush_remove :: "string \<Rightarrow> unit sim_py" where
  "crush_remove name =
     bnd get_state (\<lambda>s.
     bnd (lift_exn (find_crush_node name s)) (\<lambda>(b, n).
     bnd (lift_exn (some_or (ValueError ''list.remove(x): x not in list'') b)) (\<lambda>bucket.
     bnd (modify (\<lambda>s. s\<lparr>sim_buckets := remove1 bucket (sim_buckets s)\<rparr>)) (\<lambda>_.
     bnd (lift_exn (some_or (ValueError ''list.remove(x): x not in list'') n)) (\<lambda>node.
     bnd (modify (\<lambda>s. s\<lparr>sim_nodes := remove1 node (sim_nodes s)\<rparr>)) (\<lambda>_.
     next_epoch))))))"

section \<open>Pools\<close>

definition creating_pg :: "(string \<Rightarrow> int) \<Rightarrow> int \<Rightarrow> int \<Rightarrow> int \<Rightarrow> int \<Rightarrow> exn + sim_pg" where
  "creating_pg h osd_count sz pool i =
     then_do (pseudorandom_subset h [0..osd_count - 1] sz (pg_id_of pool i)) (\<lambda>os.
     Inr \<lparr>pg_id = pg_id_of pool i, pg_state = ''creating'', acting = os, up_osds = os\<rparr>)"

definition create_pgs :: "(string \<Rightarrow> int) \<Rightarrow> int \<Rightarrow> int list \<Rightarrow> unit sim_py" where
  "create_pgs h pid new_ids =
     bnd get_state (\<lambda>s.
     bnd (lift_exn (then_do (filter_res (\<lambda>p. then_do (number p ''pool'') (\<lambda>i. Inr (i = pid))) (sim_pools s))
            first_of)) (\<lambda>pool.
     bnd (for_each (\<lambda>i.
         bnd (lift_exn (number pool ''size'')) (\<lambda>sz.
         bnd (lift_exn (creating_pg h (int (length (sim_osds s))) sz pid i)) (\<lambda>p.
         modify (\<lambda>s. s\<lparr>pgs := pgs s @ [p]\<rparr>)))) new_ids) (\<lambda>_.
     modify (\<lambda>s. s\<lparr>pg_map_version := pg_map_version s + 1\<rparr>))))"

definition max_of :: "int list \<Rightarrow> exn + int" where
  "max_of xs = (case xs of [] \<Rightarrow> Inl (ValueError ''max() arg is an empty sequence'') | x # ys \<Rightarrow> Inr (fold max ys x))"

definition sim_pool_create :: "(string \<Rightarrow> int) \<Rightarrow> jval \<Rightarrow> jval \<Rightarrow> unit sim_py" where
  "sim_pool_create h name npgs =
     bnd get_state (\<lambda>s.
     bnd (lift_exn (pools_named name s)) (\<lambda>same_name.
     guarded (same_name = [])
       (bnd (lift_exn (then_do (map_res (\<lambda>p. number p ''pool'') (sim_pools s)) max_of)) (\<lambda>m.
        bnd (modify (\<lambda>s. s\<lparr>sim_pools := sim_pools s @ [pool_template name (m + 1) npgs]\<rparr>)) (\<lambda>_.
        bnd next_epoch (\<lambda>_.
        bnd (lift_exn (int_of npgs)) (\<lambda>n. create_pgs h (m + 1) [0..n - 1])))))))"

definition pgs_of_pool :: "int \<Rightarrow> sim_pg list \<Rightarrow> sim_pg list" where
  "pgs_of_pool pool ps = filter (\<lambda>p. startswith (pg_id p) (str_int pool @ ''.'')) ps"

definition is_creating :: "sim_pg \<Rightarrow> bool" where
  "is_creating p \<longleftrightarrow> ''creating'' \<in> set (split_on (CHR ''+'') (pg_state p))"

definition int_setting :: "(string, string) dict \<Rightarrow> string \<Rightarrow> exn + int" where
  "int_setting d k = then_do (item d k k) (\<lambda>v. case read_int v of
       None \<Rightarrow> Inl (ValueError (''invalid literal for int() with base 10: '' @ quote @ v @ quote))
     | Some i \<Rightarrow> Inr i)"

definition grow_pgs :: "(string \<Rightarrow> int) \<Rightarrow> sim_pool \<Rightarrow> int \<Rightarrow> jval \<Rightarrow> unit sim_py" where
  "grow_pgs h pool pid val =
     bnd get_state (\<lambda>s.
     bnd (lift_exn (int_of val)) (\<lambda>v.
     bnd (lift_exn (number pool ''pg_num'')) (\<lambda>n.
     bnd (lift_exn (int_setting (sim_config s) ''mon_osd_max_split_count'')) (\<lambda>split.
     if min n (int (length (sim_osds s))) * split < v - n
     then raise (RuntimeError ''Exceeded mon_osd_max_split_count'')
     else create_pgs h pid [n..v - 1]))))"

definition sim_pool_update :: "(string \<Rightarrow> int) \<Rightarrow> jval \<Rightarrow> string \<Rightarrow> jval \<Rightarrow> unit sim_py" where
  "sim_pool_update h name var val =
     bnd get_state (\<lambda>s.
     bnd (lift_exn (then_do (pools_named name s) first_of)) (\<lambda>pool.
     bnd (if var = ''pg_num'' \<or> var = ''pgp_num'' then
            bnd (lift_exn (number pool ''pool'')) (\<lambda>i.
            guarded (\<exists>p \<in> set (pgs_of_pool i (pgs s)). is_creating p)
              (raise (RuntimeError ''Cannot modify pg_num while PGs are creating'')))
          else ret ()) (\<lambda>_.
     bnd (if var = ''pg_num'' then bnd (lift_exn (number pool ''pool'')) (\<lambda>i. grow_pgs h pool i val)
          else ret ()) (\<lambda>_.
     let k = (if var = ''pgp_num'' then ''pg_placement_num'' else var)
     in bnd (lift_exn (member pool k)) (\<lambda>old.
        guarded (old \<noteq> val)
          (bnd (modify (\<lambda>s. s\<lparr>sim_pools := update_first (has_name name) (AList.update k val) (sim_pools s)\<rparr>)) (\<lambda>_.
           next_epoch)))))))"

definition sim_pool_delete :: "jval \<Rightarrow> unit sim_py" where
  "sim_pool_delete name =
     bnd get_state (\<lambda>s.
     bnd (lift_exn (pools_named name s)) (\<lambda>same_name.
     guarded (same_name \<noteq> [])
       (bnd (modify (\<lambda>s. s\<lparr>sim_pools := filter (\<lambda>p. \<not> has_name name p) (sim_pools s)\<rparr>)) (\<lambda>_. next_epoch))))"

section \<open>Client traffic\<close>

definition object_id_to_pg :: "(string \<Rightarrow> int) \<Rightarrow> int \<Rightarrow> int \<Rightarrow> sim_cluster \<Rightarrow> exn + string" where
  "object_id_to_pg h pid object_id s =
     then_do (filter_res (\<lambda>p. then_do (number p ''pool'') (\<lambda>i. Inr (i = pid))) (sim_pools s)) (\<lambda>found.
     then_do (if found = [] then Inr 0 else number (last found) ''pg_num'') (\<lambda>n.
     if n = 0 then Inl (RuntimeError (''Pool '' @ str_int pid @ '' not found''))
     else Inr (pg_id_of pid (h (str_int object_id) mod n))))"

definition write_object :: "(string \<Rightarrow> int) \<Rightarrow> int \<Rightarrow> int \<Rightarrow> int \<Rightarrow> unit sim_py" where
  "write_object h pid sz object_id =
     bnd get_state (\<lambda>s.
     bnd (lift_exn (object_id_to_pg h pid object_id s)) (\<lambda>pgid.
     bnd (lift_exn (item (sim_pg_stats s) pgid pgid)) (\<lambda>st.
     modify (\<lambda>s. s\<lparr>sim_pg_stats := AList.update pgid
       (st\<lparr>num_objects := num_objects st + 1, num_bytes := num_bytes st + sz,
           num_bytes_wr := num_bytes_wr st + sz\<rparr>) (sim_pg_stats s)\<rparr>))))"

text \<open>\<open>base_id\<close> is the random number.\<close>

definition rados_write :: "(string \<Rightarrow> int) \<Rightarrow> int \<Rightarrow> int \<Rightarrow> int \<Rightarrow> int \<Rightarrow> unit sim_py" where
  "rados_write h base_id pid n sz = for_each (write_object h pid sz) [base_id..base_id + n - 1]"

text \<open>A round of the load generator's thread; an exception ends the thread.\<close>

definition load_round :: "(string \<Rightarrow> int) \<Rightarrow> int \<Rightarrow> int \<Rightarrow> int \<Rightarrow> int \<Rightarrow> unit sim_py" where
  "load_round h base0 n0 base1 n1 =
     bnd (rados_write h base0 0 n0 (1024 * 1024 * 4)) (\<lambda>_.
     bnd (rados_write h base1 1 n1 1024) (\<lambda>_. sim_advance h 2))"

section \<open>What the minions see\<close>

definition get_services :: "string \<Rightarrow> sim_service list sim_py" where
  "get_services fqdn =
     bnd (gets host_services) (\<lambda>d. case map_of d fqdn of
         Some ss \<Rightarrow> ret ss
       | None \<Rightarrow> bnd (modify (\<lambda>s. s\<lparr>host_services := AList.update fqdn [] (host_services s)\<rparr>)) (\<lambda>_. ret []))"

definition brief :: "sim_pg \<Rightarrow> pg_brief" where
  "brief p = \<lparr>pg_id = pg_id p, pg_state = pg_state p, acting = acting p\<rparr>"

definition sim_summary :: "sim_cluster \<Rightarrow> exn + pg_summary_data" where
  "sim_summary s = pg_summary (map brief (pgs s))"

definition sim_heartbeat :: "sim_env \<Rightarrow> cluster_data sim_py" where
  "sim_heartbeat e =
     bnd get_state (\<lambda>s.
     bnd (lift_exn (sim_summary s)) (\<lambda>summary.
     ret \<lparr>hb_fsid = sim_fsid s, hb_name = sim_name s,
          hb_versions = [(''health'', VStr (health_digest e (overall_status s, health_summary s))),
            (''mds_map'', VInt 1), (''mon_map'', VInt 1), (''mon_status'', VInt (election_epoch s)),
            (''osd_map'', VInt (sim_epoch s)), (''osd_tree'', VInt 1), (''pg_map'', VInt (pg_map_version s)),
            (''pg_summary'', VStr (summary_digest e summary)), (''config'', VStr (config_digest e (sim_config s)))]\<rparr>))"

text \<open>The objects that are not versioned all have version 1.\<close>

datatype sim_data =
    SummaryData pg_summary_data
  | HealthData string "(string \<times> string) list"
  | ConfigData "(string, string) dict"
  | OsdMapData int jval "sim_osd list" "sim_pool list" "sim_node list" "sim_bucket list"
  | MonStatusData int "(int \<times> string) list"
  | MonMapData "(int \<times> string) list"
  | MdsMapData
  | PgBriefData "sim_pg list"
  | PgMapData int

definition sim_objects :: "sim_cluster \<Rightarrow> (string, sim_data) dict" where
  "sim_objects s = [
     (''health'', HealthData (overall_status s) (health_summary s)), (''config'', ConfigData (sim_config s)),
     (''osd_map'', OsdMapData (sim_epoch s) (sim_flags s) (sim_osds s) (sim_pools s) (sim_nodes s) (sim_buckets s)),
     (''mon_map'', MonMapData (sim_mons s)), (''mon_status'', MonStatusData (election_epoch s) (sim_mons s)),
     (''mds_map'', MdsMapData), (''pg_brief'', PgBriefData (pgs s)), (''pg_map'', PgMapData (pg_map_version s))]"

definition sim_version :: "sim_env \<Rightarrow> sim_cluster \<Rightarrow> sim_data \<Rightarrow> version" where
  "sim_version e s d = (case d of
       OsdMapData epoch _ _ _ _ _ \<Rightarrow> VInt epoch
     | MonStatusData epoch _ \<Rightarrow> VInt epoch
     | HealthData st summary \<Rightarrow> VStr (health_digest e (st, summary))
     | SummaryData x \<Rightarrow> VStr (summary_digest e x)
     | ConfigData c \<Rightarrow> VStr (config_digest e c)
     | _ \<Rightarrow> VInt 1)"

definition sim_get_object :: "sim_env \<Rightarrow> string \<Rightarrow> (string \<times> version \<times> sim_data) sim_py" where
  "sim_get_object e ty =
     bnd get_state (\<lambda>s.
     bnd (lift_exn (if ty = ''pg_summary'' then then_do (sim_summary s) (\<lambda>x. Inr (SummaryData x))
            else item (sim_objects s) ty ty)) (\<lambda>d.
     ret (sim_fsid s, sim_version e s d, d)))"

section \<open>Executing commands\<close>

definition arg :: "(string, jval) dict \<Rightarrow> string \<Rightarrow> exn + jval" where
  "arg args k = item args k k"

definition text_arg :: "(string, jval) dict \<Rightarrow> string \<Rightarrow> exn + string" where
  "text_arg args k = then_do (arg args k) (\<lambda>v. case v of JStr t \<Rightarrow> Inr t | _ \<Rightarrow> Inl TypeError)"

definition list_arg :: "(string, jval) dict \<Rightarrow> string \<Rightarrow> exn + jval list" where
  "list_arg args k = then_do (arg args k) (\<lambda>v. case v of JList xs \<Rightarrow> Inr xs | _ \<Rightarrow> Inl TypeError)"

text \<open>\<open>int(v)\<close>\<close>

definition as_number :: "jval \<Rightarrow> exn + int" where
  "as_number v = (case v of
       JStr t \<Rightarrow> (case read_int t of
           None \<Rightarrow> Inl (ValueError (''invalid literal for int() with base 10: '' @ quote @ t @ quote))
         | Some i \<Rightarrow> Inr i)
     | _ \<Rightarrow> int_of v)"

definition each_osd :: "(string \<Rightarrow> int) \<Rightarrow> (string, jval) dict \<Rightarrow> int option \<Rightarrow> int option \<Rightarrow> unit sim_py" where
  "each_osd h args new_up new_in =
     bnd (lift_exn (list_arg args ''ids'')) (\<lambda>ids.
     for_each (\<lambda>v. bnd (lift_exn (as_number v)) (\<lambda>i. set_osd_state h i new_up new_in)) ids)"

definition FLAG_HASHPSPOOL :: int where "FLAG_HASHPSPOOL = 1"

definition pool_set :: "(string \<Rightarrow> int) \<Rightarrow> (string, jval) dict \<Rightarrow> unit sim_py" where
  "pool_set h args =
     bnd (lift_exn (text_arg args ''var'')) (\<lambda>var.
     bnd (lift_exn (arg args ''pool'')) (\<lambda>pool.
     bnd (lift_exn (arg args ''val'')) (\<lambda>val.
     if var = ''hashpspool''
     then sim_pool_update h pool ''flags'' (JInt (if truthy val then FLAG_HASHPSPOOL else 0))
     else sim_pool_update h pool var val)))"

definition run_sim_command :: "(string \<Rightarrow> int) \<Rightarrow> command \<Rightarrow> unit sim_py" where
  "run_sim_command h c = (let prefix = fst c; args = snd c in
     if prefix = ''osd pool create'' then
       bnd (lift_exn (arg args ''pool'')) (\<lambda>n. bnd (lift_exn (arg args ''pg_num'')) (sim_pool_create h n))
     else if prefix = ''osd pool set'' then pool_set h args
     else if prefix = ''osd pool set-quota'' then
       bnd (lift_exn (arg args ''pool'')) (\<lambda>n.
       bnd (lift_exn (text_arg args ''field'')) (\<lambda>f.
       bnd (lift_exn (then_do (arg args ''val'') as_number)) (\<lambda>v.
       sim_pool_update h n (''quota_'' @ f) (JInt v))))
     else if prefix = ''osd pool rename'' then
       bnd (lift_exn (arg args ''srcpool'')) (\<lambda>src. bnd (lift_exn (arg args ''destpool'')) (sim_pool_update h src ''pool_name''))
     else if prefix = ''osd pool delete'' then bnd (lift_exn (arg args ''pool'')) sim_pool_delete
     else if prefix = ''osd in'' then each_osd h args None (Some 1)
     else if prefix = ''osd out'' then each_osd h args None (Some 0)
     else if prefix = ''osd down'' then each_osd h args (Some 0) None
     else if prefix = ''osd reweight'' then
       bnd (lift_exn (arg args ''id'')) (\<lambda>i. bnd (lift_exn (arg args ''weight'')) (\<lambda>w. case i of
           JInt n \<Rightarrow> set_osd_weight h n w | _ \<Rightarrow> raise IndexError))
     else if prefix \<in> {''osd scrub'', ''osd deep-scrub'', ''osd repair''} then ret ()
     else if prefix = ''osd set'' then bnd (lift_exn (arg args ''key'')) set_osd_flags
     else if prefix = ''osd crush add'' then next_epoch
     else if prefix = ''osd crush add-bucket'' then
       bnd (lift_exn (text_arg args ''name'')) (\<lambda>n. bnd (lift_exn (text_arg args ''type'')) (crush_add_bucket n))
     else if prefix = ''osd crush move'' then
       bnd (lift_exn (then_do (list_arg args ''args'') first_of)) (\<lambda>a.
       bnd (lift_exn (text_arg args ''name'')) (\<lambda>n. case a of
           JStr t \<Rightarrow> crush_move n t | _ \<Rightarrow> raise AttributeError))
     else if prefix = ''osd crush remove'' then bnd (lift_exn (text_arg args ''name'')) crush_remove
     else if prefix = ''osd crush reweight'' then next_epoch
     else raise (NotImplementedError []))"

definition sim_rados_commands :: "sim_env \<Rightarrow> string \<Rightarrow> command list \<Rightarrow> rados_result sim_py" where
  "sim_rados_commands e fqdn commands =
     bnd (get_services fqdn) (\<lambda>ss.
     bnd (assert_that (ss \<noteq> [])) (\<lambda>_.
     let fsid = ssv_fsid (last ss)
     in bnd (try_except (bnd (for_each (run_sim_command (str_hash e)) commands) (\<lambda>_. ret None)) (\<lambda>x. ret (Some x))) (\<lambda>err.
        bnd (sim_heartbeat e) (\<lambda>st.
        ret (case err of
            Some x \<Rightarrow> \<lparr>rr_error = True, rr_results = [], rr_error_status = fault_text e x,
                        rr_versions = hb_versions st, rr_fsid = fsid\<rparr>
          | None \<Rightarrow> \<lparr>rr_error = False, rr_results = map (\<lambda>_. None) commands, rr_error_status = [],
                      rr_versions = hb_versions st, rr_fsid = fsid\<rparr>)))))"

text \<open>The heartbeat of the minion \<open>fqdn\<close>.\<close>

fun scan_services :: "sim_env \<Rightarrow> sim_service list \<Rightarrow> (string, hb_service) dict \<Rightarrow> (string, cluster_data) dict \<Rightarrow>
    ((string, hb_service) dict \<times> (string, cluster_data) dict) sim_py" where
  "scan_services e [] svs cls = ret (svs, cls)"
| "scan_services e (x # xs) svs cls =
     bnd get_state (\<lambda>s.
     let name = sim_name s @ ''-'' @ ssv_type x @ ''.'' @ ssv_id x;
         i = ServiceId (ssv_fsid x) (ssv_type x) (ssv_id x)
     in if ssv_type x = ''mon'' then
          bnd (sim_heartbeat e) (\<lambda>hb.
          scan_services e xs
            (AList.update name \<lparr>hs_id = i, hs_status = Some (status_text e (election_epoch s, sim_mons s))\<rparr> svs)
            (AList.update (ssv_fsid x) hb cls))
        else scan_services e xs (AList.update name \<lparr>hs_id = i, hs_status = None\<rparr> svs) cls)"

definition sim_minion_heartbeat :: "sim_env \<Rightarrow> string \<Rightarrow> salt_event list sim_py" where
  "sim_minion_heartbeat e fqdn =
     bnd (get_services fqdn) (\<lambda>ss.
     bnd (scan_services e ss [] []) (\<lambda>(svs, cls).
     ret (\<lparr>ev_tag = ''ceph/server'', ev_id = fqdn, ev_data = ServerBeacon
            \<lparr>hb_boot_time = 123456, hb_ceph_version = Some ''0.67.8-simulator'', hb_services = vals svs\<rparr>\<rparr>
       # map (\<lambda>(fsid, d). \<lparr>ev_tag = ''ceph/cluster/'' @ fsid, ev_id = fqdn, ev_data = ClusterBeacon d\<rparr>) cls)))"

section \<open>States of a PG\<close>

lemma split_on_join:
  assumes "xs \<noteq> []" and "\<And>x. x \<in> set xs \<Longrightarrow> c \<notin> set x"
  shows "split_on c (join [c] xs) = xs"
  using assms
proof (induction xs)
  case (Cons x xs)
  show ?case
  proof (cases xs)
    case Nil
    with Cons.prems show ?thesis by (simp add: join_def split_on_no_sep)
  next
    case (Cons y ys)
    then have "join [c] (x # xs) = x @ c # join [c] xs" by (simp add: join_def)
    with Cons.IH Cons.prems Cons show ?thesis by (simp add: split_on_append)
  qed
qed simp

definition no_plus :: "string list \<Rightarrow> bool" where
  "no_plus xs \<longleftrightarrow> (\<forall>x \<in> set xs. CHR ''+'' \<notin> set x)"

lemma state_in_joined:
  assumes "no_plus xs" and "st \<noteq> []"
  shows "st \<in> set (split_on (CHR ''+'') (joined_state xs)) \<longleftrightarrow> st \<in> set xs"
proof (cases "xs = []")
  case True
  with assms(2) show ?thesis by (simp add: joined_state_def join_def)
next
  case False
  then have "sort xs \<noteq> []" by (metis set_empty set_sort)
  with assms(1) have "split_on (CHR ''+'') (join ''+'' (sort xs)) = sort xs"
    by (intro split_on_join) (auto simp: no_plus_def)
  then show ?thesis by (simp add: joined_state_def)
qed

lemma set_set_flag [simp]: "set (set_flag b x xs) = (if b then insert x (set xs) else set xs - {x})"
  by (auto simp: set_flag_def)

lemma no_plus_set_flag: "no_plus xs \<Longrightarrow> CHR ''+'' \<notin> set x \<Longrightarrow> no_plus (set_flag b x xs)"
  by (auto simp: no_plus_def set_flag_def)

lemma other_flag:
  assumes "x \<noteq> y"
  shows "y \<in> set (set_flag b x xs) \<longleftrightarrow> y \<in> set xs" and "y \<in> set (if c then set_flag b x xs else xs) \<longleftrightarrow> y \<in> set xs"
  using assms by simp_all

lemma dropped_flag: "x \<in> set (if b \<and> x \<in> set xs then set_flag False x xs else xs) \<longleftrightarrow> x \<in> set xs \<and> \<not> b"
  by auto

lemma no_plus_if_flag: "no_plus xs \<Longrightarrow> CHR ''+'' \<notin> set x \<Longrightarrow> no_plus (if c then set_flag b x xs else xs)"
  by (simp add: no_plus_set_flag)

lemma next_states_run:
  assumes "next_states stale active out all_in r c states = (states', r', c')"
  shows "no_plus states \<Longrightarrow> no_plus states'"
    and "''creating'' \<in> set states' \<longleftrightarrow> ''creating'' \<in> set states \<and> c \<le> 0"
    and "c' = (if ''creating'' \<in> set states \<and> 0 < c then c - 1 else c)"
proof -
  note st = assms [unfolded next_states_def Let_def prod.inject, THEN conjunct1, symmetric]
  show "no_plus states \<Longrightarrow> no_plus states'"
    unfolding st by (intro no_plus_if_flag no_plus_set_flag) simp_all
  show "''creating'' \<in> set states' \<longleftrightarrow> ''creating'' \<in> set states \<and> c \<le> 0"
    unfolding st dropped_flag by (simp add: other_flag not_less del: set_set_flag)
  note assms [unfolded next_states_def Let_def prod.inject, THEN conjunct2, THEN conjunct2, symmetric]
  then show "c' = (if ''creating'' \<in> set states \<and> 0 < c then c - 1 else c)"
    by (simp add: other_flag conj_commute del: set_set_flag)
qed

lemma set_states_of: "set (states_of st) = set (split_on (CHR ''+'') st)"
  by (simp add: states_of_def)

lemma no_plus_states_of: "no_plus (states_of st)"
  using split_on_no_sep_parts by (auto simp: no_plus_def set_states_of)

section \<open>The PG monitor's work\<close>

definition placed_pg :: "sim_osd list \<Rightarrow> sim_pg \<Rightarrow> bool" where
  "placed_pg os p \<longleftrightarrow> acting p \<noteq> [] \<and> set (acting p) \<subseteq> zo_id ` set os"

lemma acting_osds_run:
  assumes "set is \<subseteq> zo_id ` set os"
  shows "\<exists>xs. acting_osds (dict_of (map (\<lambda>o'. (zo_id o', o')) os)) is = Inr xs"
  using assms
proof (induction "is")
  case Nil
  then show ?case by (simp add: acting_osds_def)
next
  case (Cons i "is")
  let ?d = "dict_of (map (\<lambda>o'. (zo_id o', o')) os)"
  have "i \<in> fst ` set ?d" using Cons.prems by (force simp: image_iff)
  then obtain v where "map_of ?d i = Some v"
    by (metis has_key_def has_key_iff not_None_eq)
  with Cons show ?case by (auto simp: acting_osds_def)
qed

lemma pseudorandom_subset_run:
  assumes "xs \<noteq> []" and "0 < n"
  shows "\<exists>ys. pseudorandom_subset h xs n sel = Inr ys \<and> ys \<noteq> [] \<and> set ys \<subseteq> set xs"
proof -
  have "nat (h (sel @ str_int i) mod int (length xs)) < length xs" for i
    using assms(1) by (simp add: nat_less_iff)
  then have "set (map (\<lambda>i. xs ! nat (h (sel @ str_int i) mod int (length xs))) [0..n - 1]) \<subseteq> set xs" by auto
  with assms show ?thesis by (auto simp: pseudorandom_subset_def)
qed

lemma monitor_pg_run:
  assumes p: "placed_pg os p" and some_in: "\<exists>o' \<in> set os. zo_in o' \<noteq> 0"
  shows "\<exists>p' r' c'. monitor_pg h os (dict_of (map (\<lambda>o'. (zo_id o', o')) os)) r c p = Inr (p', r', c')
     \<and> placed_pg os p' \<and> pg_id p' = pg_id p
     \<and> (is_creating p' \<longleftrightarrow> is_creating p \<and> c \<le> 0)
     \<and> c' = (if is_creating p \<and> 0 < c then c - 1 else c)"
proof -
  let ?d = "dict_of (map (\<lambda>o'. (zo_id o', o')) os)"
  obtain a as where a: "acting p = a # as" using p by (cases "acting p") (auto simp: placed_pg_def)
  obtain xs where xs: "acting_osds ?d (acting p) = Inr xs"
    using acting_osds_run p unfolding placed_pg_def by blast
  then obtain x where x: "item ?d a (str_int a) = Inr x"
    by (cases "item ?d a (str_int a)") (auto simp: a acting_osds_def)
  have first: "first_of (acting p) = Inr a" by (simp add: a first_of_def)
  let ?out = "\<exists>o' \<in> set xs. zo_in o' = 0"
  obtain na where na: "(if ?out then pg_id_to_osds h os (pg_id p) else Inr (acting p)) = Inr na"
    "na \<noteq> []" "set na \<subseteq> zo_id ` set os"
  proof (cases ?out)
    case True
    have "map zo_id (filter (\<lambda>o'. zo_in o' \<noteq> 0) os) \<noteq> []" using some_in by (auto simp: filter_empty_conv)
    from pseudorandom_subset_run [OF this, of 2 h "pg_id p"] obtain ys
      where "pg_id_to_osds h os (pg_id p) = Inr ys" "ys \<noteq> []" "set ys \<subseteq> zo_id ` set os"
      by (auto simp: pg_id_to_osds_def)
    with True that show ?thesis by simp
  qed (use p in \<open>simp add: placed_pg_def that\<close>)
  obtain zs where zs: "acting_osds ?d na = Inr zs" using acting_osds_run [OF na(3)] by blast
  obtain sts r' c' where ns: "next_states (zo_in x = 1 \<and> zo_up x = 0) (\<exists>o' \<in> set xs. zo_in o' = 1) ?out
      (\<forall>o' \<in> set zs. zo_in o' = 1) r c (states_of (pg_state p)) = (sts, r', c')"
    by (rule prod_cases3)
  have "monitor_pg h os ?d r c p = Inr (p\<lparr>pg_state := joined_state sts, acting := na,
      up_osds := (if ?out then na else up_osds p)\<rparr>, r', c')"
    by (simp only: monitor_pg_def first x xs na(1) zs ns Let_def then_do_Inr prod.case)
  moreover have "no_plus sts \<and> (''creating'' \<in> set sts \<longleftrightarrow> is_creating p \<and> c \<le> 0) \<and> c' = (if is_creating p \<and> 0 < c then c - 1 else c)"
    using next_states_run [OF ns] no_plus_states_of by (simp add: is_creating_def set_states_of)
  ultimately show ?thesis
    using na(2,3) by (simp add: placed_pg_def is_creating_def state_in_joined)
qed

end
