(* ===== verification/Simulation.thy ===== *)
theory Simulation
  imports Simulator
begin

text \<open>
  What the simulated cluster keeps while commands and the PG monitor mutate it: PGs stay
  on OSDs that exist, every pool has exactly the PGs that its pg_num says, and time
  completes the creation of PGs.
\<close>

section \<open>The PG monitor\<close>

abbreviation osd_index :: "sim_osd list \<Rightarrow> (int, sim_osd) dict" where
  "osd_index os \<equiv> dict_of (map (\<lambda>o'. (zo_id o', o')) os)"

lemma pg_id_to_osds_known:
  assumes "pg_id_to_osds h os i = Inr ys"
  shows "ys \<noteq> [] \<and> set ys \<subseteq> zo_id ` set os"
proof -
  let ?ids = "map zo_id (filter (\<lambda>o'. zo_in o' \<noteq> 0) os)"
  from assms have "?ids \<noteq> []" by (auto simp: pg_id_to_osds_def pseudorandom_subset_def split: if_splits)
  from pseudorandom_subset_run [OF this, of 2 h i] assms show ?thesis
    by (auto simp: pg_id_to_osds_def)
qed

lemma monitor_pg_keeps:
  assumes "monitor_pg h os d r c p = Inr (p', r', c')"
  shows "(placed_pg os p \<longrightarrow> placed_pg os p') \<and> pg_id p' = pg_id p"
proof -
  from assms obtain out na where "(if out then pg_id_to_osds h os (pg_id p) else Inr (acting p)) = Inr na"
    and "acting p' = na" "pg_id p' = pg_id p"
    unfolding monitor_pg_def then_do_eq_Inr Let_def by (force split: prod.split_asm simp del: if_split)
  with pg_id_to_osds_known [of h os "pg_id p" na] show ?thesis
    by (cases out) (simp_all add: placed_pg_def)
qed

lemma monitor_pgs_keeps:
  assumes "monitor_pgs h os d r c ps = (x, qs)"
  shows "((\<forall>p \<in> set ps. placed_pg os p) \<longrightarrow> (\<forall>p \<in> set qs. placed_pg os p)) \<and> map pg_id qs = map pg_id ps"
  using assms
proof (induction h os d r c ps arbitrary: x qs rule: monitor_pgs.induct)
  case (2 h os d r c p ps)
  show ?case
  proof (cases "monitor_pg h os d r c p")
    case (Inl e)
    with 2 show ?thesis by auto
  next
    case (Inr y)
    obtain p' r' c' where y: "y = (p', r', c')" by (rule prod_cases3)
    obtain z qs' where z: "monitor_pgs h os d r' c' ps = (z, qs')" by fastforce
    from 2(2) Inr y z have qs: "qs = p' # qs'" by (cases z) auto
    with 2(1) [OF Inr y [symmetric] refl z] monitor_pg_keeps [OF Inr [unfolded y]] show ?thesis by simp
  qed
qed auto

definition creating_count :: "sim_pg list \<Rightarrow> nat" where
  "creating_count ps = length (filter is_creating ps)"

lemma monitor_pgs_run:
  assumes "\<forall>p \<in> set ps. placed_pg os p" and "\<exists>o' \<in> set os. zo_in o' \<noteq> 0"
  shows "\<exists>b qs. monitor_pgs h os (osd_index os) r c ps = (Inr b, qs)
    \<and> creating_count qs = creating_count ps - nat c"
  using assms(1)
proof (induction ps arbitrary: r c)
  case (Cons p ps)
  from Cons.prems have "placed_pg os p" by simp
  from monitor_pg_run [OF this assms(2)] obtain p' r' c'
    where p': "monitor_pg h os (osd_index os) r c p = Inr (p', r', c')"
      "is_creating p' \<longleftrightarrow> is_creating p \<and> c \<le> 0" "c' = (if is_creating p \<and> 0 < c then c - 1 else c)"
    by blast
  from Cons.IH [of r' c'] Cons.prems obtain b qs where qs: "monitor_pgs h os (osd_index os) r' c' ps = (Inr b, qs)"
    "creating_count qs = creating_count ps - nat c'"
    by auto
  from qs(2) p'(2,3) have "creating_count (p' # qs) = creating_count (p # ps) - nat c"
    by (cases "is_creating p"; cases "0 < c") (simp_all add: creating_count_def nat_diff_distrib)
  with p'(1) qs(1) show ?case by simp
qed (auto simp: creating_count_def)

lemma advance_run:
  assumes "\<forall>p \<in> set (pgs s). placed_pg (sim_osds s) p" and "\<exists>o' \<in> set (sim_osds s). zo_in o' \<noteq> 0"
  shows "fst (sim_advance h t s) = Inr () \<and> creating_count (pgs (snd (sim_advance h t s))) = creating_count (pgs s) - nat (t * 10)
    \<and> sim_osds (snd (sim_advance h t s)) = sim_osds s \<and> sim_pools (snd (sim_advance h t s)) = sim_pools s
    \<and> sim_config (snd (sim_advance h t s)) = sim_config s \<and> (\<forall>p \<in> set (pgs (snd (sim_advance h t s))). placed_pg (sim_osds s) p)"
proof -
  from monitor_pgs_run [OF assms] obtain b qs
    where qs: "monitor_pgs h (sim_osds s) (osd_index (sim_osds s)) (t * RECOVERIES_PER_SECOND) (t * CREATIONS_PER_SECOND) (pgs s) = (Inr b, qs)"
    and n: "creating_count qs = creating_count (pgs s) - nat (t * CREATIONS_PER_SECOND)" by blast
  from monitor_pgs_keeps [OF qs] assms(1) n qs show ?thesis
    by (simp add: sim_advance_def pg_monitor_def update_health_def osds_by_number_def CREATIONS_PER_SECOND_def py_simps)
qed

text \<open>
  C18. Time completes the creation of PGs. While some OSD is in the cluster and every PG is
  placed on known OSDs, no round of the PG monitor raises, and rounds of \<open>ts\<close> seconds take
  ten PGs a second out of the creating state until none is left.
\<close>

theorem pgs_get_created:
  assumes "\<forall>p \<in> set (pgs s). placed_pg (sim_osds s) p" and "\<exists>o' \<in> set (sim_osds s). zo_in o' \<noteq> 0"
    and "\<forall>t \<in> set ts. 0 \<le> t"
  shows "fst (for_each (sim_advance h) ts s) = Inr ()
    \<and> creating_count (pgs (snd (for_each (sim_advance h) ts s))) = creating_count (pgs s) - nat (10 * sum_list ts)"
  using assms
proof (induction ts arbitrary: s)
  case (Cons t ts)
  define s1 where "s1 = snd (sim_advance h t s)"
  from advance_run [OF Cons.prems(1,2), of h t] have s1: "sim_advance h t s = (Inr (), s1)"
    "creating_count (pgs s1) = creating_count (pgs s) - nat (t * 10)" "sim_osds s1 = sim_osds s"
    "\<forall>p \<in> set (pgs s1). placed_pg (sim_osds s1) p"
    by (auto simp: s1_def prod_eq_iff)
  have "0 \<le> sum_list ts" using Cons.prems(3) by (simp add: sum_list_nonneg)
  with Cons.IH [of s1] Cons.prems s1 show ?case
    by (simp add: bnd_def nat_add_distrib distrib_left diff_diff_left)
qed (simp add: ret_def)

section \<open>Operations that leave pools alone\<close>

text \<open>
  What every operation but the creation and the growth of a pool keeps: the pools, the
  OSDs that there are, the PGs that there are, and that PGs are on OSDs that there are.
\<close>

definition all_placed :: "sim_cluster \<Rightarrow> bool" where
  "all_placed s \<longleftrightarrow> (\<forall>p \<in> set (pgs s). placed_pg (sim_osds s) p)"

definition layout_kept :: "sim_cluster \<Rightarrow> sim_cluster \<Rightarrow> bool" where
  "layout_kept s s' \<longleftrightarrow> sim_pools s' = sim_pools s \<and> map zo_id (sim_osds s') = map zo_id (sim_osds s)
     \<and> map pg_id (pgs s') = map pg_id (pgs s) \<and> (all_placed s \<longrightarrow> all_placed s')"

interpretation ly: step_contract layout_kept
  by unfold_locales (auto simp: layout_kept_def)

lemma placed_pg_ids: "map zo_id os' = map zo_id os \<Longrightarrow> placed_pg os' p \<longleftrightarrow> placed_pg os p"
  by (simp add: placed_pg_def flip: set_map)

lemma layout_same:
  assumes "sim_pools (f s) = sim_pools s" and "map zo_id (sim_osds (f s)) = map zo_id (sim_osds s)" and "pgs (f s) = pgs s"
  shows "layout_kept s (f s)"
  using assms placed_pg_ids [OF assms(2)] by (simp add: layout_kept_def all_placed_def)

lemma update_first_map: "(\<And>x. g (f x) = g x) \<Longrightarrow> map g (update_first P f xs) = map g xs"
  by (induction xs) auto

lemma layout_update_health: "obeys layout_kept update_health"
  unfolding update_health_def by (rule ly.obeys_modify) (auto intro: layout_same)

lemma layout_next_epoch: "obeys layout_kept next_epoch"
  unfolding next_epoch_def by (rule ly.obeys_modify) (auto intro: layout_same)

lemma layout_pg_monitor: "obeys layout_kept (pg_monitor h r c)"
proof -
  have "layout_kept s (s\<lparr>pgs := snd (monitor_pgs h (sim_osds s) (osds_by_number s) r c (pgs s))\<rparr>)" for s
    using monitor_pgs_keeps [OF surjective_pairing] by (auto simp: layout_kept_def all_placed_def)
  then have "obeys layout_kept (\<lambda>s. case monitor_pgs h (sim_osds s) (osds_by_number s) r c (pgs s) of
      (x, ps) \<Rightarrow> (x, s\<lparr>pgs := ps\<rparr>))"
    by (simp add: obeys_def case_prod_beta)
  then show ?thesis
    unfolding pg_monitor_def
    by (intro ly.obeys_bnd ly.obeys_guarded ly.obeys_modify layout_update_health layout_same) simp_all
qed

lemma obeys_case_prod: "(\<And>a b. obeys R (f a b)) \<Longrightarrow> obeys R (case p of (a, b) \<Rightarrow> f a b)"
  by (cases p) simp

lemmas layout_steps = ly.obeys_bnd ly.obeys_get ly.obeys_gets ly.obeys_lift ly.obeys_guarded ly.obeys_modify ly.obeys_ret
  ly.obeys_raise ly.obeys_for_each obeys_case_prod layout_pg_monitor layout_update_health layout_next_epoch layout_same

lemmas layout_operations = sim_advance_def set_osd_state_def set_osd_weight_def set_osd_flags_def crush_add_bucket_def
  crush_move_def crush_remove_def rados_write_def write_object_def

lemma layout_advance: "obeys layout_kept (sim_advance h t)"
  unfolding layout_operations by (intro layout_steps; simp add: update_first_map)

lemma layout_osd_state: "obeys layout_kept (set_osd_state h i u n)"
  unfolding layout_operations by (intro layout_steps; simp add: update_first_map)

lemma layout_osd_weight: "obeys layout_kept (set_osd_weight h i w)"
  unfolding layout_operations by (intro layout_steps; simp add: update_first_map)

lemma layout_osd_flags: "obeys layout_kept (set_osd_flags v)"
  unfolding layout_operations by (intro layout_steps; simp add: update_first_map)

lemma layout_crush_add_bucket: "obeys layout_kept (crush_add_bucket n t)"
  unfolding layout_operations by (intro layout_steps; simp add: update_first_map)

lemma layout_crush_move: "obeys layout_kept (crush_move n a)"
  unfolding layout_operations by (intro layout_steps; simp add: update_first_map)

lemma layout_crush_remove: "obeys layout_kept (crush_remove n)"
  unfolding layout_operations by (intro layout_steps; simp add: update_first_map)

lemma layout_rados_write: "obeys layout_kept (rados_write h b i n z)"
  unfolding layout_operations by (intro layout_steps; simp add: update_first_map)

section \<open>Pools and their PGs\<close>

lemma pg_id_of_prefix: "startswith (pg_id_of j k) (str_int i @ ''.'') \<longleftrightarrow> j = i"
proof
  assume "startswith (pg_id_of j k) (str_int i @ ''.'')"
  then obtain rest where "str_int j @ CHR ''.'' # str_int k = str_int i @ CHR ''.'' # rest"
    unfolding startswith_def pg_id_of_def by (metis append_assoc append_Cons append_Nil append_take_drop_id)
  then have "takeWhile (\<lambda>c. c \<noteq> CHR ''.'') (str_int j @ CHR ''.'' # str_int k)
      = takeWhile (\<lambda>c. c \<noteq> CHR ''.'') (str_int i @ CHR ''.'' # rest)" by simp
  moreover have "takeWhile (\<lambda>c. c \<noteq> CHR ''.'') (str_int x @ CHR ''.'' # y) = str_int x" for x y
    using dot_notin_str_int [of x] by (subst takeWhile_append2) auto
  ultimately show "j = i" by simp
qed (simp add: startswith_def pg_id_of_def)

definition ids_of_pool :: "int \<Rightarrow> string list \<Rightarrow> string list" where
  "ids_of_pool i ids = filter (\<lambda>x. startswith x (str_int i @ ''.'')) ids"

lemma ids_of_pool_pgs: "map pg_id (pgs_of_pool i ps) = ids_of_pool i (map pg_id ps)"
  by (simp add: pgs_of_pool_def ids_of_pool_def filter_map comp_def)

lemma ids_of_pool_append [simp]: "ids_of_pool i (xs @ ys) = ids_of_pool i xs @ ids_of_pool i ys"
  by (simp add: ids_of_pool_def)

lemma ids_of_pool_generated [simp]: "ids_of_pool i (map (pg_id_of j) ns) = (if j = i then map (pg_id_of j) ns else [])"
  by (simp add: ids_of_pool_def pg_id_of_prefix filter_map comp_def)

text \<open>A pool as the simulator itself makes them, \<open>i\<close> its number and \<open>n\<close> its pg_num.\<close>

definition pool_typed :: "int \<Rightarrow> int \<Rightarrow> sim_pool \<Rightarrow> bool" where
  "pool_typed i n p \<longleftrightarrow> number p ''pool'' = Inr i \<and> number p ''pg_num'' = Inr n \<and> 0 \<le> n
     \<and> (\<exists>k > 0. number p ''size'' = Inr k) \<and> has_key p ''pool_name''"

definition pool_served :: "string list \<Rightarrow> sim_pool \<Rightarrow> bool" where
  "pool_served ids p \<longleftrightarrow> (\<exists>i n. pool_typed i n p \<and> ids_of_pool i ids = map (pg_id_of i) [0..n - 1])"

definition sim_wf :: "sim_cluster \<Rightarrow> bool" where
  "sim_wf s \<longleftrightarrow> all_placed s \<and> sim_osds s \<noteq> []
     \<and> map zo_id (sim_osds s) = [0..int (length (sim_osds s)) - 1]
     \<and> sim_pools s \<noteq> [] \<and> (\<forall>p \<in> set (sim_pools s). pool_served (map pg_id (pgs s)) p)
     \<and> distinct (map (\<lambda>p. number p ''pool'') (sim_pools s))
     \<and> (\<forall>x \<in> set (map pg_id (pgs s)). \<exists>p \<in> set (sim_pools s). \<exists>i k. number p ''pool'' = Inr i \<and> x = pg_id_of i k)"

lemma wf_layout:
  assumes "layout_kept s s'" and "sim_wf s"
  shows "sim_wf s'"
proof -
  have "length (sim_osds s') = length (sim_osds s)"
    using assms(1) by (metis layout_kept_def length_map)
  with assms show ?thesis by (auto simp: sim_wf_def layout_kept_def)
qed

lemma filter_res_total:
  assumes "\<And>x. x \<in> set xs \<Longrightarrow> P x = Inr (Q x)"
  shows "filter_res P xs = Inr (filter Q xs)"
  using assms by (induction xs) auto

lemma map_res_total:
  assumes "\<And>x. x \<in> set xs \<Longrightarrow> f x = Inr (g x)"
  shows "map_res f xs = Inr (map g xs)"
  using assms by (induction xs) auto

lemma max_of_bound: "xs \<noteq> [] \<Longrightarrow> \<exists>m. max_of xs = Inr m \<and> m \<in> set xs \<and> (\<forall>x \<in> set xs. x \<le> m)"
proof -
  have "fold max ys x \<in> insert x (set ys) \<and> (\<forall>y \<in> insert x (set ys). y \<le> fold max ys x)" for x :: int and ys
  proof (induction ys arbitrary: x)
    case (Cons y ys)
    from Cons [of "max y x"] show ?case by (auto simp: max_def split: if_splits)
  qed simp
  then show "xs \<noteq> [] \<Longrightarrow> ?thesis" by (auto simp: max_of_def neq_Nil_conv)
qed

lemma creating_pg_run:
  assumes "0 < sz" and "sim_osds s \<noteq> []" and "map zo_id (sim_osds s) = [0..int (length (sim_osds s)) - 1]"
  shows "\<exists>p. creating_pg h (int (length (sim_osds s))) sz pool i = Inr p \<and> pg_id p = pg_id_of pool i
    \<and> placed_pg (sim_osds s) p \<and> is_creating p"
proof -
  have "[0..int (length (sim_osds s)) - 1] \<noteq> []" using assms(2) by (auto simp: Suc_le_eq)
  from pseudorandom_subset_run [OF this assms(1)] obtain ys
    where "pseudorandom_subset h [0..int (length (sim_osds s)) - 1] sz (pg_id_of pool i) = Inr ys"
      "ys \<noteq> []" "set ys \<subseteq> set (map zo_id (sim_osds s))"
    unfolding assms(3) by blast
  then show ?thesis
    by (simp add: creating_pg_def placed_pg_def is_creating_def split_on_no_sep)
qed

lemma create_pgs_run:
  assumes "filter_res (\<lambda>p. then_do (number p ''pool'') (\<lambda>i. Inr (i = pid))) (sim_pools s) = Inr (pool # others)"
    and "number pool ''size'' = Inr sz" and "0 < sz" and "sim_osds s \<noteq> []"
    and "map zo_id (sim_osds s) = [0..int (length (sim_osds s)) - 1]"
  shows "\<exists>new. create_pgs h pid ns s = (Inr (), s\<lparr>pgs := pgs s @ new, pg_map_version := pg_map_version s + 1\<rparr>)
    \<and> map pg_id new = map (pg_id_of pid) ns \<and> (\<forall>p \<in> set new. placed_pg (sim_osds s) p \<and> is_creating p)"
proof -
  let ?body = "\<lambda>i. bnd (lift_exn (number pool ''size'')) (\<lambda>sz.
    bnd (lift_exn (creating_pg h (int (length (sim_osds s))) sz pid i)) (\<lambda>p. modify (\<lambda>s. s\<lparr>pgs := pgs s @ [p]\<rparr>)))"
  have "\<exists>new. for_each ?body ns w = (Inr (), w\<lparr>pgs := pgs w @ new\<rparr>)
      \<and> map pg_id new = map (pg_id_of pid) ns \<and> (\<forall>p \<in> set new. placed_pg (sim_osds s) p \<and> is_creating p)" for w
  proof (induction ns arbitrary: w)
    case (Cons n ns)
    from creating_pg_run [OF assms(3-5)] obtain p where p: "creating_pg h (int (length (sim_osds s))) sz pid n = Inr p"
      "pg_id p = pg_id_of pid n" "placed_pg (sim_osds s) p" "is_creating p" by blast
    from Cons [of "w\<lparr>pgs := pgs w @ [p]\<rparr>"] obtain new
      where new: "for_each ?body ns (w\<lparr>pgs := pgs w @ [p]\<rparr>) = (Inr (), w\<lparr>pgs := (pgs w @ [p]) @ new\<rparr>)"
      "map pg_id new = map (pg_id_of pid) ns" "\<forall>p \<in> set new. placed_pg (sim_osds s) p \<and> is_creating p" by auto
    with p assms(2) show ?case by (intro exI [of _ "p # new"]) (simp add: py_simps)
  qed (auto simp: ret_def)
  then obtain new where "for_each ?body ns s = (Inr (), s\<lparr>pgs := pgs s @ new\<rparr>)"
    and "map pg_id new = map (pg_id_of pid) ns \<and> (\<forall>p \<in> set new. placed_pg (sim_osds s) p \<and> is_creating p)"
    by blast
  with assms(1) show ?thesis
    by (intro exI [of _ new]) (simp add: create_pgs_def first_of_def bnd_def get_state_def lift_exn_def modify_def)
qed

lemma wf_served: "sim_wf s \<Longrightarrow> p \<in> set (sim_pools s) \<Longrightarrow>
    \<exists>i n. pool_typed i n p \<and> ids_of_pool i (map pg_id (pgs s)) = map (pg_id_of i) [0..n - 1]"
  by (simp add: sim_wf_def pool_served_def)

lemma pools_by_number:
  assumes "\<forall>p \<in> set ps. \<exists>i n. pool_typed i n p" and "distinct (map (\<lambda>p. number p ''pool'') ps)"
    and "p \<in> set ps" and "number p ''pool'' = Inr i"
  shows "filter_res (\<lambda>p. then_do (number p ''pool'') (\<lambda>j. Inr (j = i))) ps = Inr [p]"
proof -
  have "filter_res (\<lambda>p. then_do (number p ''pool'') (\<lambda>j. Inr (j = i))) ps = Inr (filter (\<lambda>q. number q ''pool'' = Inr i) ps)"
    using assms(1) by (intro filter_res_total) (auto simp: pool_typed_def)
  moreover have "filter (\<lambda>q. number q ''pool'' = Inr i) ps = [p]"
    using assms(2-4) by (induction ps) (force simp: filter_empty_conv image_iff)+
  ultimately show ?thesis by simp
qed

lemma pools_named_wf:
  assumes "sim_wf s"
  shows "pools_named name s = Inr (filter (has_name name) (sim_pools s))"
  unfolding pools_named_def
proof (rule filter_res_total)
  fix p
  assume "p \<in> set (sim_pools s)"
  with wf_served [OF assms] have "has_key p ''pool_name''" by (auto simp: pool_typed_def)
  then show "is_named name p = Inr (has_name name p)"
    by (auto simp: is_named_def member_def item_def has_key_def has_name_def)
qed

lemma template_typed: "0 \<le> n \<Longrightarrow> pool_typed i n (pool_template name i (JInt n))"
  by (simp add: pool_typed_def pool_template_def number_def member_def item_def has_key_def)

lemma pool_create_run:
  assumes "sim_wf s" and "0 \<le> n" and "filter (has_name name) (sim_pools s) = []"
  shows "\<exists>m new. sim_pool_create h name (JInt n) s = (Inr (), s\<lparr>sim_pools := sim_pools s @ [pool_template name (m + 1) (JInt n)],
        sim_epoch := sim_epoch s + 1, pgs := pgs s @ new, pg_map_version := pg_map_version s + 1\<rparr>)
    \<and> map pg_id new = map (pg_id_of (m + 1)) [0..n - 1] \<and> (\<forall>p \<in> set new. placed_pg (sim_osds s) p)
    \<and> (\<forall>p \<in> set (sim_pools s). \<forall>i. number p ''pool'' = Inr i \<longrightarrow> i \<le> m)"
proof -
  define num where "num p = (case number p ''pool'' of Inr i \<Rightarrow> i | Inl _ \<Rightarrow> 0)" for p
  have num: "number p ''pool'' = Inr (num p)" if "p \<in> set (sim_pools s)" for p
    using wf_served [OF assms(1) that] by (auto simp: pool_typed_def num_def)
  have ids: "map_res (\<lambda>p. number p ''pool'') (sim_pools s) = Inr (map num (sim_pools s))"
    using num by (rule map_res_total)
  from assms(1) max_of_bound [of "map num (sim_pools s)"] obtain m where m: "max_of (map num (sim_pools s)) = Inr m"
    "\<forall>p \<in> set (sim_pools s). num p \<le> m" by (auto simp: sim_wf_def)
  let ?t = "pool_template name (m + 1) (JInt n)"
  let ?s1 = "s\<lparr>sim_pools := sim_pools s @ [?t], sim_epoch := sim_epoch s + 1\<rparr>"
  have t: "pool_typed (m + 1) n ?t" using assms(2) by (rule template_typed)
  have "distinct (map (\<lambda>p. number p ''pool'') (sim_pools ?s1))"
    using assms(1) num m(2) t by (force simp: sim_wf_def pool_typed_def)
  moreover have "\<forall>p \<in> set (sim_pools ?s1). \<exists>i n. pool_typed i n p" using t wf_served [OF assms(1)] by (auto; blast)
  ultimately have found: "filter_res (\<lambda>p. then_do (number p ''pool'') (\<lambda>j. Inr (j = m + 1))) (sim_pools ?s1) = Inr [?t]"
    using t by (intro pools_by_number) (auto simp: pool_typed_def)
  from t obtain k where k: "0 < k" "number ?t ''size'' = Inr k" by (auto simp: pool_typed_def)
  from create_pgs_run [OF found k(2,1), of h "[0..n - 1]"] assms(1) obtain new
    where "create_pgs h (m + 1) [0..n - 1] ?s1 = (Inr (), ?s1\<lparr>pgs := pgs s @ new, pg_map_version := pg_map_version s + 1\<rparr>)"
      "map pg_id new = map (pg_id_of (m + 1)) [0..n - 1]" "\<forall>p \<in> set new. placed_pg (sim_osds s) p"
    by (auto simp: sim_wf_def)
  then show ?thesis
    using assms(3) ids m num
    by (intro exI [of _ m] exI [of _ new])
      (simp add: sim_pool_create_def next_epoch_def pools_named_wf [OF assms(1)] guarded_def bnd_def get_state_def lift_exn_def modify_def)
qed

text \<open>What PGs that are added to a pool with number \<open>i\<close> do to the others.\<close>

lemma all_placed_append:
  "all_placed s \<Longrightarrow> \<forall>p \<in> set new. placed_pg (sim_osds s) p \<Longrightarrow> sim_osds s' = sim_osds s \<Longrightarrow> pgs s' = pgs s @ new \<Longrightarrow> all_placed s'"
  by (auto simp: all_placed_def)

lemma served_append:
  assumes "pool_served ids p" and "number p ''pool'' \<noteq> Inr i"
  shows "pool_served (ids @ map (pg_id_of i) ns) p"
  using assms by (auto simp: pool_served_def pool_typed_def)

lemma wf_grown:
  assumes "sim_wf s" and "all_placed s'" and "\<forall>q \<in> set ps. pool_served ids q"
    and "distinct (map (\<lambda>q. number q ''pool'') ps)"
    and "\<forall>x \<in> set ids. \<exists>q \<in> set ps. \<exists>i k. number q ''pool'' = Inr i \<and> x = pg_id_of i k"
    and "ps \<noteq> []" and "sim_osds s' = sim_osds s" and "sim_pools s' = ps" and "map pg_id (pgs s') = ids"
  shows "sim_wf s'"
  using assms by (simp only: sim_wf_def) blast

lemma wf_pool_create:
  assumes "sim_wf s" and "0 \<le> n"
  shows "sim_wf (snd (sim_pool_create h name (JInt n) s))"
proof (cases "filter (has_name name) (sim_pools s) = []")
  case True
  from pool_create_run [OF assms True] obtain m new where run: "sim_pool_create h name (JInt n) s
        = (Inr (), s\<lparr>sim_pools := sim_pools s @ [pool_template name (m + 1) (JInt n)],
        sim_epoch := sim_epoch s + 1, pgs := pgs s @ new, pg_map_version := pg_map_version s + 1\<rparr>)"
    and new: "map pg_id new = map (pg_id_of (m + 1)) [0..n - 1]" "\<forall>p \<in> set new. placed_pg (sim_osds s) p"
    and m: "\<forall>p \<in> set (sim_pools s). \<forall>i. number p ''pool'' = Inr i \<longrightarrow> i \<le> m" by blast
  let ?t = "pool_template name (m + 1) (JInt n)" and ?s = "snd (sim_pool_create h name (JInt n) s)"
  let ?ids = "map pg_id (pgs s)"
  have t: "pool_typed (m + 1) n ?t" using assms(2) by (rule template_typed)
  have old: "\<forall>x \<in> set ?ids. \<exists>p \<in> set (sim_pools s). \<exists>i k. number p ''pool'' = Inr i \<and> x = pg_id_of i k"
    using assms(1) by (simp add: sim_wf_def)
  have "ids_of_pool (m + 1) ?ids = []"
    unfolding ids_of_pool_def filter_empty_conv using old m by (fastforce simp: pg_id_of_prefix)
  then have "pool_served (?ids @ map (pg_id_of (m + 1)) [0..n - 1]) ?t"
    using t by (auto simp: pool_served_def)
  moreover have "pool_served (?ids @ map (pg_id_of (m + 1)) [0..n - 1]) p" if "p \<in> set (sim_pools s)" for p
    using assms(1) m that by (intro served_append) (auto simp: sim_wf_def)
  ultimately have served: "\<forall>p \<in> set (sim_pools s @ [?t]). pool_served (?ids @ map (pg_id_of (m + 1)) [0..n - 1]) p"
    by simp
  have owned: "\<forall>x \<in> set (?ids @ map (pg_id_of (m + 1)) [0..n - 1]).
      \<exists>p \<in> set (sim_pools s @ [?t]). \<exists>i k. number p ''pool'' = Inr i \<and> x = pg_id_of i k"
    using old t by (force simp: pool_typed_def)
  have distinct: "distinct (map (\<lambda>p. number p ''pool'') (sim_pools s @ [?t]))"
  proof -
    have "number ?t ''pool'' = Inr (m + 1)" using t by (simp add: pool_typed_def)
    moreover have "Inr (m + 1) \<notin> (\<lambda>p. number p ''pool'') ` set (sim_pools s)"
    proof
      assume "Inr (m + 1) \<in> (\<lambda>p. number p ''pool'') ` set (sim_pools s)"
      then obtain p where "p \<in> set (sim_pools s)" and "number p ''pool'' = Inr (m + 1)" by (auto simp: eq_commute)
      with m have "m + 1 \<le> m" by blast
      then show False by simp
    qed
    ultimately show ?thesis using assms(1) by (simp add: sim_wf_def)
  qed
  have "all_placed ?s"
    by (rule all_placed_append [OF _ new(2)]) (use assms(1) in \<open>simp_all add: sim_wf_def run\<close>)
  from wf_grown [OF assms(1) this served distinct owned] show ?thesis
    by (simp add: run new(1))
next
  case False
  then show ?thesis
    using assms(1) by (simp add: sim_pool_create_def pools_named_wf [OF assms(1)] py_simps)
qed

lemma update_first_split:
  assumes "filter P xs = x # others"
  shows "\<exists>ys zs. xs = ys @ x # zs \<and> update_first P f xs = ys @ f x # zs"
  using assms
proof (induction xs)
  case (Cons a xs)
  show ?case
  proof (cases "P a")
    case True
    with Cons.prems show ?thesis by (intro exI [of _ "[]"] exI [of _ xs]) simp
  next
    case False
    with Cons obtain ys zs where xs: "xs = ys @ x # zs" "update_first P f xs = ys @ f x # zs" by auto
    then have "a # xs = (a # ys) @ x # zs" by simp
    moreover have "update_first P f (a # xs) = (a # ys) @ f x # zs" using False xs(2) by simp
    ultimately show ?thesis by blast
  qed
qed simp

lemma number_update: "k \<noteq> x \<Longrightarrow> number (AList.update k v p) x = number p x"
  by (simp add: number_def member_def item_def)

lemma typed_attribute: "k \<notin> {''pool'', ''pg_num'', ''size''} \<Longrightarrow> pool_typed i n p \<Longrightarrow> pool_typed i n (AList.update k v p)"
  by (simp add: pool_typed_def number_update)

lemma typed_grown: "0 \<le> v \<Longrightarrow> pool_typed i n p \<Longrightarrow> pool_typed i v (AList.update ''pg_num'' (JInt v) p)"
  by (simp add: pool_typed_def number_update) (simp add: number_def member_def item_def)

text \<open>One pool is replaced by \<open>q\<close>, and PGs of its own are added.\<close>

lemma wf_pool_replaced:
  assumes wf: "sim_wf s" and ps: "sim_pools s = ys @ p # zs" and i: "number p ''pool'' = Inr i"
    and q: "pool_typed i n q" "ids_of_pool i (map pg_id (pgs s)) @ map (pg_id_of i) ns = map (pg_id_of i) [0..n - 1]"
    and s': "sim_pools s' = ys @ q # zs" "pgs s' = pgs s @ new" "map pg_id new = map (pg_id_of i) ns"
      "\<forall>x \<in> set new. placed_pg (sim_osds s) x" "sim_osds s' = sim_osds s"
  shows "sim_wf s'"
proof -
  let ?ids = "map pg_id (pgs s)"
  have number: "number q ''pool'' = Inr i" using q(1) by (simp add: pool_typed_def)
  have "all_placed s'"
    by (rule all_placed_append [OF _ s'(4,5,2)]) (use wf in \<open>simp add: sim_wf_def\<close>)
  moreover have "\<forall>x \<in> set (ys @ q # zs). pool_served (?ids @ map (pg_id_of i) ns) x"
  proof
    fix x
    assume "x \<in> set (ys @ q # zs)"
    then consider "x = q" | "x \<in> set ys \<union> set zs" by auto
    then show "pool_served (?ids @ map (pg_id_of i) ns) x"
    proof cases
      case 1
      with q show ?thesis by (auto simp: pool_served_def)
    next
      case 2
      with wf ps have "pool_served ?ids x" by (auto simp: sim_wf_def)
      moreover have "distinct (map (\<lambda>x. number x ''pool'') (ys @ p # zs))" using wf unfolding ps [symmetric] sim_wf_def by blast
      with 2 i have "number x ''pool'' \<noteq> Inr i" by (auto simp: image_iff)
      ultimately show ?thesis by (rule served_append)
    qed
  qed
  moreover have numbers: "map (\<lambda>x. number x ''pool'') (ys @ q # zs) = map (\<lambda>x. number x ''pool'') (sim_pools s)"
    by (simp add: ps i number)
  then have "distinct (map (\<lambda>x. number x ''pool'') (ys @ q # zs))" using wf by (simp only: sim_wf_def)
  moreover have "\<forall>x \<in> set (?ids @ map (pg_id_of i) ns). \<exists>p \<in> set (ys @ q # zs). \<exists>j k. number p ''pool'' = Inr j \<and> x = pg_id_of j k"
  proof
    fix x
    assume "x \<in> set (?ids @ map (pg_id_of i) ns)"
    then consider "x \<in> set ?ids" | k where "x = pg_id_of i k" by auto
    then show "\<exists>p \<in> set (ys @ q # zs). \<exists>j k. number p ''pool'' = Inr j \<and> x = pg_id_of j k"
    proof cases
      case 1
      with wf obtain p' j k where "p' \<in> set (sim_pools s)" "number p' ''pool'' = Inr j" "x = pg_id_of j k"
        unfolding sim_wf_def by blast
      with ps i number show ?thesis by auto
    qed (use number in auto)
  qed
  ultimately show ?thesis by (rule wf_grown [OF wf]) (simp_all add: s')
qed

lemma wf_attribute:
  assumes "sim_wf s" and "filter P (sim_pools s) = p # others" and "k \<notin> {''pool'', ''pg_num'', ''size''}"
    and "sim_pools s' = update_first P (AList.update k v) (sim_pools s)" and "pgs s' = pgs s" and "sim_osds s' = sim_osds s"
  shows "sim_wf s'"
proof -
  from update_first_split [OF assms(2)] obtain ys zs where ps: "sim_pools s = ys @ p # zs"
    and ps': "sim_pools s' = ys @ AList.update k v p # zs" using assms(4) by metis
  then have "p \<in> set (sim_pools s)" by simp
  from wf_served [OF assms(1) this] obtain i n where p: "pool_typed i n p"
    "ids_of_pool i (map pg_id (pgs s)) = map (pg_id_of i) [0..n - 1]" by blast
  show ?thesis
    by (rule wf_pool_replaced [OF assms(1) ps, where ns = "[]" and new = "[]"])
      (use p typed_attribute [OF assms(3) p(1)] assms(5,6) in \<open>simp_all add: ps' pool_typed_def\<close>)
qed

text \<open>What \<open>osd pool set\<close> does, growth apart.\<close>

lemma pool_attribute_run:
  assumes "sim_wf s" and "var \<noteq> ''pg_num''"
  shows "sim_pool_update h name var val s = (x, s') \<Longrightarrow>
    (x \<noteq> Inr () \<longrightarrow> s' = s) \<and> (s' = s \<or> (\<exists>p others. filter (has_name name) (sim_pools s) = p # others
      \<and> s' = s\<lparr>sim_pools := update_first (has_name name)
           (AList.update (if var = ''pgp_num'' then ''pg_placement_num'' else var) val) (sim_pools s),
           sim_epoch := sim_epoch s + 1\<rparr>))"
  using assms(2)
  by (cases "filter (has_name name) (sim_pools s)")
    (auto simp: sim_pool_update_def pools_named_wf [OF assms(1)] first_of_def next_epoch_def Let_def py_simps
      split: sum.splits if_splits)

lemma wf_pool_attribute:
  assumes "sim_wf s" and "var \<notin> {''pool'', ''pg_num'', ''size''}"
  shows "sim_wf (snd (sim_pool_update h name var val s))"
proof -
  obtain x s' where run: "sim_pool_update h name var val s = (x, s')" by fastforce
  have "(if var = ''pgp_num'' then ''pg_placement_num'' else var) \<notin> {''pool'', ''pg_num'', ''size''}" using assms(2) by simp
  note key = this
  have "var \<noteq> ''pg_num''" using assms(2) by simp
  from pool_attribute_run [OF assms(1) this run] consider "s' = s"
    | p others where "filter (has_name name) (sim_pools s) = p # others"
      and "s' = s\<lparr>sim_pools := update_first (has_name name)
           (AList.update (if var = ''pgp_num'' then ''pg_placement_num'' else var) val) (sim_pools s),
           sim_epoch := sim_epoch s + 1\<rparr>" by blast
  then show ?thesis
  proof cases
    case 2
    show ?thesis by (rule wf_attribute [OF assms(1) 2(1) key, where v = val]) (simp_all add: run 2(2))
  qed (simp add: run assms(1))
qed

section \<open>Growing a pool\<close>

text \<open>\<open>s'\<close> is \<open>s\<close> after the pool \<open>p\<close> with number \<open>i\<close> got PGs up to \<open>v\<close>.\<close>

definition grown :: "jval \<Rightarrow> int \<Rightarrow> int \<Rightarrow> int \<Rightarrow> sim_cluster \<Rightarrow> sim_cluster \<Rightarrow> bool" where
  "grown name i n v s s' \<longleftrightarrow> (\<exists>q new. pool_typed i v q \<and> has_name name q
     \<and> sim_pools s' = update_first (has_name name) (\<lambda>_. q) (sim_pools s)
     \<and> pgs s' = pgs s @ new \<and> map pg_id new = map (pg_id_of i) [n..v - 1]
     \<and> (\<forall>p \<in> set new. placed_pg (sim_osds s) p \<and> is_creating p)
     \<and> sim_osds s' = sim_osds s \<and> sim_config s' = sim_config s)"

lemma update_first_const: "filter P xs = x # others \<Longrightarrow> update_first P f xs = update_first P (\<lambda>_. f x) xs"
  by (induction xs) (auto split: if_splits)

lemma upto_grown:
  assumes "0 \<le> n" and "n \<le> v"
  shows "[0..n - 1] @ [n..v - 1] = [0..v - 1]"
proof (cases "n = v")
  case False
  with assms show ?thesis by (simp add: upto_split1 [of 0 n "v - 1"])
qed simp

lemma update_first_same: "filter P xs = x # others \<Longrightarrow> update_first P (\<lambda>_. x) xs = xs"
  by (induction xs) (auto split: if_splits)

lemma pool_grow_run:
  fixes h :: "string \<Rightarrow> int"
  assumes wf: "sim_wf s" and named: "filter (has_name name) (sim_pools s) = p # others"
    and typed: "pool_typed i n p" and "n \<le> v"
  defines "run \<equiv> sim_pool_update h name ''pg_num'' (JInt v) s"
  shows "(\<exists>e. run = (Inl e, s)) \<or> (\<exists>s'. run = (Inr (), s') \<and> grown name i n v s s')"
    and "int_setting (sim_config s) ''mon_osd_max_split_count'' = Inr split \<Longrightarrow> v - n \<le> min n (int (length (sim_osds s))) * split
      \<Longrightarrow> \<forall>p \<in> set (pgs_of_pool i (pgs s)). \<not> is_creating p \<Longrightarrow> \<exists>s'. run = (Inr (), s') \<and> grown name i n v s s'"
proof -
  have p: "number p ''pool'' = Inr i" "number p ''pg_num'' = Inr n" "has_name name p"
    using typed named by (auto simp: pool_typed_def filter_eq_Cons_iff)
  obtain old where old: "member p ''pg_num'' = Inr old" "int_of old = Inr n"
    using p(2) by (cases "member p ''pg_num''") (auto simp: number_def)
  from named have mem: "p \<in> set (sim_pools s)" by (auto simp: filter_eq_Cons_iff)
  from typed obtain k where k: "0 < k" "number p ''size'' = Inr k" by (auto simp: pool_typed_def)
  from pools_by_number [OF _ _ mem p(1)] wf wf_served [OF wf] have
    "filter_res (\<lambda>p. then_do (number p ''pool'') (\<lambda>j. Inr (j = i))) (sim_pools s) = Inr [p]"
    unfolding sim_wf_def by blast
  from create_pgs_run [OF this k(2,1), of h "[n..v - 1]"] wf obtain new
    where new: "create_pgs h i [n..v - 1] s = (Inr (), s\<lparr>pgs := pgs s @ new, pg_map_version := pg_map_version s + 1\<rparr>)"
      "map pg_id new = map (pg_id_of i) [n..v - 1]" "\<forall>p \<in> set new. placed_pg (sim_osds s) p \<and> is_creating p"
    by (auto simp: sim_wf_def)
  define s' where "s' = (if old = JInt v then s\<lparr>pgs := pgs s @ new, pg_map_version := pg_map_version s + 1\<rparr>
    else s\<lparr>pgs := pgs s @ new, pg_map_version := pg_map_version s + 1,
      sim_pools := update_first (has_name name) (AList.update ''pg_num'' (JInt v)) (sim_pools s), sim_epoch := sim_epoch s + 1\<rparr>)"
  have "grown name i n v s s'"
  proof (cases "old = JInt v")
    case True
    with old(2) have "n = v" by simp
    with True typed p(3) new update_first_same [OF named] show ?thesis
      unfolding grown_def by (intro exI [of _ p] exI [of _ new]) (simp add: s'_def)
  next
    case False
    let ?q = "AList.update ''pg_num'' (JInt v) p"
    have "pool_typed i v ?q" using typed \<open>n \<le> v\<close> by (intro typed_grown) (auto simp: pool_typed_def)
    with False new p(3) update_first_const [OF named] show ?thesis
      unfolding grown_def by (intro exI [of _ ?q] exI [of _ new]) (simp add: s'_def has_name_def)
  qed
  note grown = this
  have run: "run = bnd (if \<exists>p \<in> set (pgs_of_pool i (pgs s)). is_creating p
       then raise (RuntimeError ''Cannot modify pg_num while PGs are creating'') else ret ()) (\<lambda>_.
     bnd (lift_exn (int_setting (sim_config s) ''mon_osd_max_split_count'')) (\<lambda>split.
     if min n (int (length (sim_osds s))) * split < v - n
     then raise (RuntimeError ''Exceeded mon_osd_max_split_count'')
     else (\<lambda>_. (Inr (), s')))) s"
    by (cases "\<exists>p \<in> set (pgs_of_pool i (pgs s)). is_creating p"; cases "int_setting (sim_config s) ''mon_osd_max_split_count''")
      (simp_all add: run_def sim_pool_update_def grow_pgs_def pools_named_wf [OF wf] named first_of_def p old(1) new(1) s'_def
        guarded_def bnd_def get_state_def lift_exn_def raise_def ret_def modify_def next_epoch_def)
  show "(\<exists>e. run = (Inl e, s)) \<or> (\<exists>s'. run = (Inr (), s') \<and> grown name i n v s s')"
    using grown by (simp add: run py_simps split: sum.split)
  show "int_setting (sim_config s) ''mon_osd_max_split_count'' = Inr split \<Longrightarrow> v - n \<le> min n (int (length (sim_osds s))) * split
      \<Longrightarrow> \<forall>p \<in> set (pgs_of_pool i (pgs s)). \<not> is_creating p \<Longrightarrow> \<exists>s'. run = (Inr (), s') \<and> grown name i n v s s'"
    using grown by (simp add: run py_simps)
qed

lemma wf_grown_pool:
  assumes "sim_wf s" and "filter (has_name name) (sim_pools s) = p # others" and "pool_typed i n p" and "n \<le> v"
    and "grown name i n v s s'"
  shows "sim_wf s'"
proof -
  from assms(5) obtain q new where q: "pool_typed i v q" "sim_pools s' = update_first (has_name name) (\<lambda>_. q) (sim_pools s)"
    "pgs s' = pgs s @ new" "map pg_id new = map (pg_id_of i) [n..v - 1]"
    "\<forall>x \<in> set new. placed_pg (sim_osds s) x" "sim_osds s' = sim_osds s" unfolding grown_def by blast
  from update_first_split [OF assms(2), of "\<lambda>_. q"] q(2) obtain ys zs
    where ps: "sim_pools s = ys @ p # zs" "sim_pools s' = ys @ q # zs" by metis
  then have "p \<in> set (sim_pools s)" by simp
  from wf_served [OF assms(1) this] assms(3) have "ids_of_pool i (map pg_id (pgs s)) = map (pg_id_of i) [0..n - 1]"
    by (auto simp: pool_typed_def)
  moreover have "0 \<le> n" "number p ''pool'' = Inr i" using assms(3) by (auto simp: pool_typed_def)
  ultimately show ?thesis
    using upto_grown [of n v] assms(4)
    by (intro wf_pool_replaced [OF assms(1) ps(1) _ q(1) _ ps(2) q(3,4,5,6)]) (simp_all flip: map_append)
qed

section \<open>Histories of the cluster\<close>

text \<open>
  What happens to a cluster, deletion of pools apart: the commands of child.py on it (the
  pools keep their number and size, and grow), the load generator and the passing of time.
  Whatever raises is a step too.
\<close>

inductive sim_step :: "(string \<Rightarrow> int) \<Rightarrow> sim_cluster \<Rightarrow> sim_cluster \<Rightarrow> bool" for h where
  pool_created: "0 \<le> n \<Longrightarrow> sim_step h s (snd (sim_pool_create h name (JInt n) s))"
| pool_grows: "filter (has_name name) (sim_pools s) = p # others \<Longrightarrow> number p ''pg_num'' = Inr n \<Longrightarrow> n \<le> v
    \<Longrightarrow> sim_step h s (snd (sim_pool_update h name ''pg_num'' (JInt v) s))"
| pool_changes: "var \<notin> {''pool'', ''pg_num'', ''size''} \<Longrightarrow> sim_step h s (snd (sim_pool_update h name var val s))"
| osd_state: "sim_step h s (snd (set_osd_state h i u n s))"
| osd_weight: "sim_step h s (snd (set_osd_weight h i w s))"
| osd_flags: "sim_step h s (snd (set_osd_flags v s))"
| crush_add_bucket: "sim_step h s (snd (crush_add_bucket n t s))"
| crush_move: "sim_step h s (snd (crush_move n a s))"
| crush_remove: "sim_step h s (snd (crush_remove n s))"
| objects_written: "sim_step h s (snd (rados_write h b i n z s))"
| time_passes: "sim_step h s (snd (sim_advance h t s))"

lemmas layouts = layout_osd_state layout_osd_weight layout_osd_flags layout_crush_add_bucket layout_crush_move
  layout_crush_remove layout_rados_write layout_advance

lemma wf_obeys: "obeys layout_kept m \<Longrightarrow> sim_wf s \<Longrightarrow> sim_wf (snd (m s))"
  by (auto simp: obeys_def dest: wf_layout)

lemma step_wf:
  assumes "sim_step h s s'" and "sim_wf s"
  shows "sim_wf s'"
  using assms
proof cases
  case (pool_grows name p others n v)
  then have "p \<in> set (sim_pools s)" by (auto simp: filter_eq_Cons_iff)
  from wf_served [OF assms(2) this] pool_grows(3) obtain i where typed: "pool_typed i n p" by (auto simp: pool_typed_def)
  from pool_grow_run(1) [OF assms(2) pool_grows(2) typed pool_grows(4), of h] wf_grown_pool [OF assms(2) pool_grows(2) typed pool_grows(4)]
  show ?thesis using assms(2) by (auto simp: pool_grows(1))
qed (simp_all add: assms(2) wf_pool_create wf_pool_attribute layouts [THEN wf_obeys])

inductive sim_reaches :: "(string \<Rightarrow> int) \<Rightarrow> sim_cluster \<Rightarrow> sim_cluster \<Rightarrow> bool" for h where
  reaches_refl: "sim_reaches h s s"
| reaches_step: "sim_reaches h s t \<Longrightarrow> sim_step h t u \<Longrightarrow> sim_reaches h s u"

lemma reaches_wf: "sim_reaches h s t \<Longrightarrow> sim_wf s \<Longrightarrow> sim_wf t"
  by (induction rule: sim_reaches.induct) (auto dest: step_wf)

section \<open>A new cluster\<close>

lemma map_res_ids:
  assumes "\<And>x. x \<in> set xs \<Longrightarrow> \<exists>y. f x = Inr y \<and> g y = k x \<and> Q y"
  shows "\<exists>ys. map_res f xs = Inr ys \<and> map g ys = map k xs \<and> (\<forall>y \<in> set ys. Q y)"
  using assms
proof (induction xs)
  case (Cons x xs)
  then obtain y ys where "f x = Inr y \<and> g y = k x \<and> Q y"
    and "map_res f xs = Inr ys \<and> map g ys = map k xs \<and> (\<forall>y \<in> set ys. Q y)" by (metis list.set_intros)
  then show ?case by simp
qed simp

lemma clean_pg_run:
  assumes "0 < n" and "zo_id ` set os = set [0..int n - 1]"
  shows "\<exists>p. clean_pg h (int n) pool i = Inr p \<and> pg_id p = pg_id_of pool i \<and> placed_pg os p"
proof -
  have "[0..int n - 1] \<noteq> []" using assms(1) by simp
  from pseudorandom_subset_run [OF this, of 2 h "pg_id_of pool i"] show ?thesis
    by (auto simp: clean_pg_def placed_pg_def assms(2))
qed

lemma upto_int: "map int [0..<n] = [0..int n - 1]"
  by (induction n) (simp_all add: upto_rec2)

lemma initial_ids:
  "map (\<lambda>(pool, i). pg_id_of pool i) initial_pgs = map (pg_id_of 0) [0..64 - 1] @ map (pg_id_of 1) [0..64 - 1] @ map (pg_id_of 2) [0..64 - 1]"
proof -
  have "map (\<lambda>(pool, i). pg_id_of pool i) (concat (map (\<lambda>pool. map (\<lambda>i. (pool, i)) ns) [a, b, c]))
      = map (pg_id_of a) ns @ map (pg_id_of b) ns @ map (pg_id_of c) ns" for ns a b c by simp
  moreover have "(64 :: int) - 1 = 63" by simp
  ultimately show ?thesis unfolding initial_pgs_def by metis
qed

definition osd_hosts_of :: "string list \<Rightarrow> nat \<Rightarrow> bool \<Rightarrow> string list" where
  "osd_hosts_of fqdns mon_count osd_overlap = (if osd_overlap then drop mon_count fqdns else fqdns)"

lemma create_run:
  assumes "0 < length (osd_hosts_of fqdns mon_count osd_overlap) * per_host"
  shows "\<exists>s. sim_create h crush conf fsid fqdns mon_count per_host osd_overlap osd_size = Inr s
    \<and> sim_osds s = map (\<lambda>i. \<lparr>zo_id = int i, zo_up = 1, zo_in = 1\<rparr>) [0..<length (osd_hosts_of fqdns mon_count osd_overlap) * per_host]
    \<and> sim_pools s = [pool_template (JStr ''data'') 0 (JInt 64), pool_template (JStr ''metadata'') 1 (JInt 64),
        pool_template (JStr ''rbd'') 2 (JInt 64)]
    \<and> map pg_id (pgs s) = map (pg_id_of 0) [0..64 - 1] @ map (pg_id_of 1) [0..64 - 1] @ map (pg_id_of 2) [0..64 - 1]
    \<and> sim_config s = conf \<and> all_placed s"
proof -
  define n where "n = length (osd_hosts_of fqdns mon_count osd_overlap) * per_host"
  let ?os = "map (\<lambda>i. \<lparr>zo_id = int i, zo_up = 1, zo_in = 1\<rparr>) [0..<n]"
  have "0 < n" using assms by (simp add: n_def)
  have "map zo_id ?os = [0..int n - 1]" by (simp add: comp_def flip: upto_int)
  then have "zo_id ` set ?os = set [0..int n - 1]" by (metis set_map)
  from clean_pg_run [OF \<open>0 < n\<close> this]
  have "\<exists>y. (case x of (pool, i) \<Rightarrow> clean_pg h (int n) pool i) = Inr y \<and> pg_id y = (case x of (pool, i) \<Rightarrow> pg_id_of pool i)
      \<and> placed_pg ?os y" for x by (cases x) simp
  from map_res_ids [where f = "\<lambda>x. case x of (pool, i) \<Rightarrow> clean_pg h (int n) pool i" and xs = initial_pgs, OF this] obtain new where new: "map_res (\<lambda>(pool, i). clean_pg h (int n) pool i) initial_pgs = Inr new"
    "map pg_id new = map (\<lambda>(pool, i). pg_id_of pool i) initial_pgs" "\<forall>p \<in> set new. placed_pg ?os p" by blast
  show ?thesis
    unfolding sim_create_def Let_def osd_hosts_of_def [symmetric] n_def [symmetric] new(1) then_do_Inr case_prod_beta initial_ids [symmetric]
    using new(2,3) by (simp add: all_placed_def case_prod_beta)
qed

lemma served_template:
  "0 \<le> n \<Longrightarrow> ids_of_pool i ids = map (pg_id_of i) [0..n - 1] \<Longrightarrow> pool_served ids (pool_template x i (JInt n))"
  unfolding pool_served_def using template_typed by blast

lemma create_wf:
  assumes "0 < length (osd_hosts_of fqdns mon_count osd_overlap) * per_host"
    and "sim_create h crush conf fsid fqdns mon_count per_host osd_overlap osd_size = Inr s"
  shows "sim_wf s"
proof -
  define n where "n = length (osd_hosts_of fqdns mon_count osd_overlap) * per_host"
  from create_run [OF assms(1), of h crush conf fsid osd_size] assms(2)
  have s: "sim_osds s = map (\<lambda>i. \<lparr>zo_id = int i, zo_up = 1, zo_in = 1\<rparr>) [0..<n]"
    "sim_pools s = [pool_template (JStr ''data'') 0 (JInt 64), pool_template (JStr ''metadata'') 1 (JInt 64),
        pool_template (JStr ''rbd'') 2 (JInt 64)]"
    "map pg_id (pgs s) = map (pg_id_of 0) [0..64 - 1] @ map (pg_id_of 1) [0..64 - 1] @ map (pg_id_of 2) [0..64 - 1]"
    and placed: "all_placed s"
    by (auto simp: n_def)
  have typed: "pool_typed i 64 (pool_template x i (JInt 64))" for i x by (rule template_typed) simp
  then have num: "number (pool_template x i (JInt 64)) ''pool'' = Inr i" for i x by (simp add: pool_typed_def)
  have "\<forall>p \<in> set (sim_pools s). pool_served (map pg_id (pgs s)) p"
    unfolding s(2,3) by (simp add: served_template del: upto_rec_numeral)
  moreover have "\<forall>x \<in> set (map pg_id (pgs s)). \<exists>p \<in> set (sim_pools s). \<exists>i k. number p ''pool'' = Inr i \<and> x = pg_id_of i k"
    unfolding s(2,3) using num by auto
  moreover have "distinct (map (\<lambda>p. number p ''pool'') (sim_pools s))" by (simp add: s(2) num)
  moreover have "map zo_id (sim_osds s) = [0..int (length (sim_osds s)) - 1]" by (simp add: s(1) comp_def flip: upto_int)
  moreover have "sim_osds s \<noteq> []" "sim_pools s \<noteq> []" using assms(1) by (simp_all add: s(1,2) n_def)
  ultimately show ?thesis using placed by (simp add: sim_wf_def)
qed

section \<open>Properties\<close>


lemma no_creating: "creating_count ps = 0 \<longleftrightarrow> (\<forall>p \<in> set ps. \<not> is_creating p)"
  by (auto simp: creating_count_def filter_empty_conv)

lemma filter_update_first: "filter P xs = x # others \<Longrightarrow> P y \<Longrightarrow> \<exists>zs. filter P (update_first P (\<lambda>_. y) xs) = y # zs"
  by (induction xs) (auto split: if_splits)

text \<open>One command of a growth, and the time that its PGs need.\<close>

lemma growth_round:
  assumes wf: "sim_wf s" and some_in: "\<exists>o' \<in> set (sim_osds s). zo_in o' \<noteq> 0"
    and named: "filter (has_name (JStr name)) (sim_pools s) = p # others" and typed: "pool_typed i n p" and "n \<le> v"
    and split: "int_setting (sim_config s) ''mon_osd_max_split_count'' = Inr split"
    and small: "v - n \<le> min n (int (length (sim_osds s))) * split" and none: "creating_count (pgs s) = 0" and t: "v - n \<le> 10 * t"
  shows "\<exists>s' q qs. bnd (run_sim_command h (set_pg_num name v)) (\<lambda>_. sim_advance h t) s = (Inr (), s') \<and> sim_wf s'
    \<and> sim_osds s' = sim_osds s \<and> sim_config s' = sim_config s \<and> creating_count (pgs s') = 0
    \<and> filter (has_name (JStr name)) (sim_pools s') = q # qs \<and> pool_typed i v q"
proof -
  have "\<forall>p \<in> set (pgs_of_pool i (pgs s)). \<not> is_creating p" using none by (auto simp: no_creating pgs_of_pool_def)
  from pool_grow_run(2) [OF wf named typed \<open>n \<le> v\<close> split small this, of h] obtain s1
    where s1: "sim_pool_update h (JStr name) ''pg_num'' (JInt v) s = (Inr (), s1)" "grown (JStr name) i n v s s1" by blast
  have wf1: "sim_wf s1" by (rule wf_grown_pool [OF wf named typed \<open>n \<le> v\<close> s1(2)])
  from s1(2) obtain q new where q: "pool_typed i v q" "has_name (JStr name) q" "pgs s1 = pgs s @ new"
    "sim_pools s1 = update_first (has_name (JStr name)) (\<lambda>_. q) (sim_pools s)" "map pg_id new = map (pg_id_of i) [n..v - 1]"
    "sim_osds s1 = sim_osds s" "sim_config s1 = sim_config s" unfolding grown_def by blast
  have "\<exists>qs. filter (has_name (JStr name)) (sim_pools s1) = q # qs"
    unfolding q(4) by (rule filter_update_first [OF named q(2)])
  then obtain qs where qs: "filter (has_name (JStr name)) (sim_pools s1) = q # qs" by blast
  have "creating_count (pgs s1) \<le> length new" using none by (simp add: q(3) creating_count_def)
  also have "\<dots> = nat (v - n)" using arg_cong [OF q(5), of length] by simp
  also have "\<dots> \<le> nat (t * 10)" using t by simp
  finally have enough: "creating_count (pgs s1) - nat (t * 10) = 0" by simp
  have "\<forall>p \<in> set (pgs s1). placed_pg (sim_osds s1) p" using wf1 by (simp add: sim_wf_def all_placed_def)
  from advance_run [OF this, of h t] some_in q(6) enough
  have adv: "fst (sim_advance h t s1) = Inr ()" "creating_count (pgs (snd (sim_advance h t s1))) = 0"
    "sim_osds (snd (sim_advance h t s1)) = sim_osds s1" "sim_pools (snd (sim_advance h t s1)) = sim_pools s1"
    "sim_config (snd (sim_advance h t s1)) = sim_config s1" by simp_all
  have "run_sim_command h (set_pg_num name v) s = (Inr (), s1)"
    by (simp add: run_sim_command_def set_pg_num_def pool_set_def text_arg_def arg_def item_def bnd_def lift_exn_def s1(1))
  then have "bnd (run_sim_command h (set_pg_num name v)) (\<lambda>_. sim_advance h t) s = sim_advance h t s1" by (simp add: bnd_def)
  with adv qs q(1,6,7) wf_obeys [OF layout_advance wf1, of h t] show ?thesis
    by (intro exI [of _ "snd (sim_advance h t s1)"] exI [of _ q] exI [of _ qs]) (simp add: prod_eq_iff)
qed

text \<open>
  C10. The simulator accepts every command of a growth that Calamari splits up. The goals are
  those of a PgCreatingRequest for a pool of \<open>n\<close> PGs, in blocks of the cluster's
  mon_osd_max_split_count times the smaller of \<open>n\<close> and the number of OSDs, as the factory
  computes them. When the PGs of a block get the time to be created before the next
  command, no command exceeds the split limit or meets PGs that are still being created,
  and the pool ends with \<open>f\<close> PGs, all of them created.
\<close>

theorem growth_is_accepted:
  fixes h :: "string \<Rightarrow> int" and s :: sim_cluster and name :: string and split n f t :: int
  defines "block \<equiv> split * min n (int (length (sim_osds s)))"
  assumes "sim_wf s" and "\<exists>o' \<in> set (sim_osds s). zo_in o' \<noteq> 0"
    and "filter (has_name (JStr name)) (sim_pools s) = p # others" and "pool_typed i n p"
    and "int_setting (sim_config s) ''mon_osd_max_split_count'' = Inr split" and "0 < block" and "n \<le> f"
    and "creating_count (pgs s) = 0" and "block \<le> 10 * t"
  shows "\<exists>s' q qs. for_each (\<lambda>g. bnd (run_sim_command h (set_pg_num name g)) (\<lambda>_. sim_advance h t)) (further_goals n f block) s
       = (Inr (), s')
     \<and> filter (has_name (JStr name)) (sim_pools s') = q # qs \<and> pool_typed i f q \<and> creating_count (pgs s') = 0"
proof -
  let ?round = "\<lambda>g. bnd (run_sim_command h (set_pg_num name g)) (\<lambda>_. sim_advance h t)"
  let ?osds = "sim_osds s"
  have "0 < split"
    using assms(5,7) by (auto simp: block_def pool_typed_def zero_less_mult_iff)
  have "\<exists>s' q qs. for_each ?round (further_goals m f block) w = (Inr (), s')
      \<and> filter (has_name (JStr name)) (sim_pools s') = q # qs \<and> pool_typed i f q \<and> creating_count (pgs s') = 0"
    if "sim_wf w" "sim_osds w = ?osds" "sim_config w = sim_config s" "creating_count (pgs w) = 0"
      "filter (has_name (JStr name)) (sim_pools w) = p' # others'" "pool_typed i m p'" "n \<le> m" "m \<le> f" for w m p' others'
    using that
  proof (induction gs \<equiv> "further_goals m f block" arbitrary: m w p' others')
    case Nil
    then have "m = f" using \<open>0 < block\<close> by (metis further_goals_step less_le list.distinct(1))
    with Nil show ?case by (auto simp: ret_def)
  next
    case (Cons g gs)
    have "m < f" using Cons.hyps(2) Cons.prems(8) by (metis further_goals_done less_le list.distinct(1))
    with Cons.hyps(2) \<open>0 < block\<close> have g: "g = min f (m + block)" "gs = further_goals g f block"
      by (simp_all add: further_goals_step)
    have "block \<le> min m (int (length ?osds)) * split"
      using \<open>n \<le> m\<close> \<open>0 < split\<close> by (simp add: block_def mult.commute mult_right_mono)
    moreover have "g - m \<le> block" "m \<le> g" using g(1) \<open>m < f\<close> \<open>0 < block\<close> by auto
    ultimately have small: "g - m \<le> min m (int (length (sim_osds w))) * split" "g - m \<le> 10 * t"
      using assms(10) Cons.prems(2) by simp_all
    have setting: "int_setting (sim_config w) ''mon_osd_max_split_count'' = Inr split" "\<exists>o' \<in> set (sim_osds w). zo_in o' \<noteq> 0"
      using assms(3,6) Cons.prems(2,3) by simp_all
    from growth_round [OF Cons.prems(1) setting(2) Cons.prems(5,6) \<open>m \<le> g\<close> setting(1) small(1) Cons.prems(4) small(2), of h]
    obtain w' q qs where w': "?round g w = (Inr (), w')" "sim_wf w'" "sim_osds w' = sim_osds w" "sim_config w' = sim_config w"
      "creating_count (pgs w') = 0" "filter (has_name (JStr name)) (sim_pools w') = q # qs" "pool_typed i g q" by blast
    have "n \<le> g" "g \<le> f" using \<open>m \<le> g\<close> Cons.prems(7) g(1) by simp_all
    have "for_each ?round (further_goals m f block) w = for_each ?round (further_goals g f block) w'"
      using w'(1) by (simp add: bnd_def flip: Cons.hyps(2) g(2))
    with Cons.hyps(1) [OF g(2) w'(2) _ _ w'(5,6,7) \<open>n \<le> g\<close> \<open>g \<le> f\<close>] w'(3,4) Cons.prems(2,3) show ?case by simp
  qed
  from this [OF assms(2) refl refl assms(9,4,5) order_refl assms(8)] show ?thesis .
qed

section \<open>A small cluster\<close>

text \<open>One OSD and a pool of two PGs, one of them still being created.\<close>

definition small_cluster :: sim_cluster where
  "small_cluster = \<lparr>sim_fsid = ''f'', sim_name = ''ceph_fake'', service_locations = [], host_services = [],
     sim_epoch = 1, sim_flags = JStr [], sim_osds = [\<lparr>zo_id = 0, zo_up = 1, zo_in = 1\<rparr>],
     sim_pools = [pool_template (JStr ''rbd'') 0 (JInt 2)], sim_nodes = [], sim_buckets = [], crush_node_id = - 100,
     pgs = [\<lparr>pg_id = pg_id_of 0 0, pg_state = ''active+clean'', acting = [0, 0], up_osds = [0, 0]\<rparr>,
            \<lparr>pg_id = pg_id_of 0 1, pg_state = ''creating'', acting = [0, 0], up_osds = [0, 0]\<rparr>],
     pg_map_version = 1, overall_status = ''HEALTH_OK'', health_summary = [],
     sim_config = [(''mon_osd_max_split_count'', ''32'')], sim_mons = [], election_epoch = 77, sim_pg_stats = [],
     osd_total_bytes = [(0, 10)]\<rparr>"

theorem pgs_get_created_witness:
  "fst (for_each (sim_advance (\<lambda>_. 0)) [0, 2] small_cluster) = Inr ()
   \<and> creating_count (pgs (snd (for_each (sim_advance (\<lambda>_. 0)) [0, 2] small_cluster))) = 0"
proof -
  have "\<forall>p \<in> set (pgs small_cluster). placed_pg (sim_osds small_cluster) p"
    and "\<exists>o' \<in> set (sim_osds small_cluster). zo_in o' \<noteq> 0" and "creating_count (pgs small_cluster) = 1"
    by (simp_all add: small_cluster_def placed_pg_def creating_count_def is_creating_def)
  with pgs_get_created [of small_cluster "[0, 2]" "\<lambda>_. 0"] show ?thesis by simp
qed


text \<open>The same cluster with both PGs created.\<close>

definition settled_cluster :: sim_cluster where
  "settled_cluster = snd (sim_advance (\<lambda>_. 0) 1 small_cluster)"

lemma small_wf: "sim_wf small_cluster"
proof -
  let ?rbd = "pool_template (JStr ''rbd'') 0 (JInt 2)"
  have rbd: "pool_typed 0 2 ?rbd" by (rule template_typed) simp
  then have num: "number ?rbd ''pool'' = Inr 0" by (simp add: pool_typed_def)
  have pools: "sim_pools small_cluster = [?rbd]" and pgs: "map pg_id (pgs small_cluster) = map (pg_id_of 0) [0..2 - 1]"
    by (simp_all add: small_cluster_def upto.simps)
  have "pool_served (map (pg_id_of 0) [0..2 - 1]) ?rbd" by (rule served_template) simp_all
  moreover have "\<forall>x \<in> set (map (pg_id_of 0) [0..2 - 1]). \<exists>i k. number ?rbd ''pool'' = Inr i \<and> x = pg_id_of i k"
    using num by auto
  moreover have "all_placed small_cluster" "sim_osds small_cluster = [\<lparr>zo_id = 0, zo_up = 1, zo_in = 1\<rparr>]"
    by (simp_all add: all_placed_def placed_pg_def small_cluster_def)
  ultimately show ?thesis unfolding sim_wf_def pools pgs by simp
qed

lemma settled:
  "sim_wf settled_cluster" "creating_count (pgs settled_cluster) = 0" "sim_osds settled_cluster = sim_osds small_cluster"
  "sim_pools settled_cluster = sim_pools small_cluster" "sim_config settled_cluster = sim_config small_cluster"
proof -
  have "\<forall>p \<in> set (pgs small_cluster). placed_pg (sim_osds small_cluster) p"
    and "\<exists>o' \<in> set (sim_osds small_cluster). zo_in o' \<noteq> 0" and "creating_count (pgs small_cluster) = 1"
    by (simp_all add: small_cluster_def placed_pg_def creating_count_def is_creating_def)
  with advance_run [of small_cluster "\<lambda>_. 0" 1] wf_obeys [OF layout_advance small_wf]
  show "sim_wf settled_cluster" "creating_count (pgs settled_cluster) = 0" "sim_osds settled_cluster = sim_osds small_cluster"
    "sim_pools settled_cluster = sim_pools small_cluster" "sim_config settled_cluster = sim_config small_cluster"
    by (simp_all add: settled_cluster_def)
qed

theorem growth_is_accepted_witness:
  "\<exists>s'. for_each (\<lambda>g. bnd (run_sim_command (\<lambda>_. 0) (set_pg_num ''rbd'' g)) (\<lambda>_. sim_advance (\<lambda>_. 0) 4))
      (further_goals 2 40 32) settled_cluster = (Inr (), s') \<and> creating_count (pgs s') = 0"
proof -
  let ?rbd = "pool_template (JStr ''rbd'') 0 (JInt 2)"
  have typed: "pool_typed 0 2 ?rbd" by (rule template_typed) simp
  have named: "filter (has_name (JStr ''rbd'')) (sim_pools settled_cluster) = ?rbd # []"
    by (simp add: settled small_cluster_def has_name_def) (simp add: pool_template_def)
  have split: "int_setting (sim_config settled_cluster) ''mon_osd_max_split_count'' = Inr 32"
    by (simp add: settled small_cluster_def int_setting_def item_def) code_simp
  have "length (sim_osds settled_cluster) = 1"
    and "\<exists>o' \<in> set (sim_osds settled_cluster). zo_in o' \<noteq> 0" by (simp_all add: settled small_cluster_def)
  with growth_is_accepted [OF settled(1) _ named typed split, of 40 4 "\<lambda>_. 0"] settled(2) show ?thesis by auto
qed

end
