(* ===== verification/SimStats.thy ===== *)
theory SimStats
  imports Simulation
begin

text \<open>
  The statistics that a simulated minion sends to graphite (ceph_cluster.py, get_stats): made-up
  load of its processors and network interfaces and, from the host of the monitors'
  leader, what the PGs hold, summed up by pool and for the cluster. The random numbers are
  parameters.
\<close>

section \<open>Flattening\<close>

datatype stat_tree = Stat rat | Stats "(string \<times> stat_tree) list"

text \<open>\<open>prefix\<close> is empty where the code has None.\<close>

function flatten_dictionary :: "string \<Rightarrow> string \<Rightarrow> (string \<times> stat_tree) list \<Rightarrow> (string \<times> rat) list" where
  "flatten_dictionary sep prefix data =
     concat (map (\<lambda>(name, v).
       let fullname = join sep (filter (\<lambda>x. x \<noteq> []) [prefix, name])
       in case v of Stats d \<Rightarrow> flatten_dictionary sep fullname d | Stat x \<Rightarrow> [(fullname, x)])
       (sort_key fst data))"
  by auto
termination
proof (relation "measure (\<lambda>(sep, prefix, d). size_list (\<lambda>p. size (snd p)) d)")
  fix data :: "(string \<times> stat_tree) list" and p name v d
  assume "p \<in> set (sort_key fst data)" and "(name, v) = p" and "v = Stats d"
  then have mem: "(name, Stats d) \<in> set data" by simp
  have "size_list (\<lambda>p. size (snd p)) d < size (snd (name, Stats d))"
    by (induction d) auto
  with mem have "size_list (\<lambda>p. size (snd p)) d < size_list (\<lambda>p. size (snd p)) data"
    by (rule size_list_estimation)
  then show "((sep, x, d), sep, prefix, data) \<in> measure (\<lambda>(sep, prefix, d). size_list (\<lambda>p. size (snd p)) d)" for sep x prefix
    by simp
qed simp

declare flatten_dictionary.simps [simp del]

section \<open>Statistics of a host\<close>

definition CPU_STATS :: "string list" where
  "CPU_STATS = [''guest'', ''guest_nice'', ''idle'', ''iowait'', ''irq'', ''nice'', ''softirq'', ''steal'', ''system'', ''user'']"

definition NET_STATS :: "string list" where
  "NET_STATS = [''rx_byte'', ''rx_compressed'', ''rx_drop'', ''rx_errors'', ''rx_fifo'', ''rx_frame'', ''rx_multicast'',
     ''rx_packets'', ''tx_byte'', ''tx_compressed'', ''tx_drop'', ''tx_errors'', ''tx_fifo'', ''tx_frame'',
     ''tx_multicast'', ''tx_packets'']"

record sim_random =
  cpu_load :: "nat \<Rightarrow> string \<Rightarrow> rat"
  net_load :: "string \<Rightarrow> string \<Rightarrow> rat"
  pool_reads :: "string \<Rightarrow> int"
  pool_writes :: "string \<Rightarrow> int"

definition cpu_stats :: "sim_random \<Rightarrow> (string \<times> stat_tree) list" where
  "cpu_stats g = (''total'', Stats (map (\<lambda>k. (k, Stat (sum_list (map (\<lambda>cpu. cpu_load g cpu k) [0..<2])))) CPU_STATS))
     # map (\<lambda>cpu. (''cpu'' @ str_nat cpu, Stats (map (\<lambda>k. (k, Stat (cpu_load g cpu k))) CPU_STATS))) [0..<2]"

definition net_stats :: "sim_random \<Rightarrow> (string \<times> stat_tree) list" where
  "net_stats g = map (\<lambda>i. (i, Stats (map (\<lambda>k. (k, Stat (net_load g i k))) NET_STATS))) [''em1'', ''p1p1'', ''p1p2'']"

section \<open>Statistics of the cluster\<close>

record pool_stat =
  bytes_used :: int
  kb_used :: int
  stat_objects :: int
  num_read :: int
  num_write :: int

definition KB :: int where "KB = 1024"

definition pool_of_pg :: "string \<Rightarrow> exn + int" where
  "pool_of_pg i = (case read_int (hd (split_on (CHR ''.'') i)) of
       None \<Rightarrow> Inl (ValueError (''invalid literal for int() with base 10: '' @ quote @ hd (split_on (CHR ''.'') i) @ quote))
     | Some n \<Rightarrow> Inr n)"

text \<open>The reads and writes of a pool are those drawn for the last of its PGs.\<close>

fun pool_stats :: "sim_random \<Rightarrow> (string, pg_stats) dict \<Rightarrow> (int, pool_stat) dict \<Rightarrow> exn + (int, pool_stat) dict" where
  "pool_stats g [] d = Inr d"
| "pool_stats g ((i, st) # xs) d =
     then_do (pool_of_pg i) (\<lambda>pid.
     let p = get_default d pid \<lparr>bytes_used = 0, kb_used = 0, stat_objects = 0, num_read = 0, num_write = 0\<rparr>
     in pool_stats g xs (AList.update pid
          (p\<lparr>bytes_used := bytes_used p + num_bytes st, stat_objects := stat_objects p + num_objects st,
             num_read := pool_reads g i, num_write := pool_writes g i\<rparr>) d))"

definition with_kb :: "(int, pool_stat) dict \<Rightarrow> (int, pool_stat) dict" where
  "with_kb d = map (\<lambda>(i, p). (i, p\<lparr>kb_used := bytes_used p div KB\<rparr>)) d"

definition pool_fields :: "pool_stat \<Rightarrow> (string \<times> int) list" where
  "pool_fields p = [(''bytes_used'', bytes_used p), (''kb_used'', kb_used p), (''objects'', stat_objects p),
     (''num_read'', num_read p), (''num_write'', num_write p)]"

definition all_pools :: "(int, pool_stat) dict \<Rightarrow> (string \<times> int) list" where
  "all_pools d = (if d = [] then [] else map (\<lambda>(k, f). (k, sum_list (map (\<lambda>(i, p). f p) d)))
     [(''bytes_used'', bytes_used), (''kb_used'', kb_used), (''objects'', stat_objects), (''num_read'', num_read),
      (''num_write'', num_write)])"

definition df_stats :: "int \<Rightarrow> int \<Rightarrow> (string \<times> int) list" where
  "df_stats total_space total_used =
     [(''total_space'', total_space div 1024), (''total_used'', total_used div 1024),
      (''total_avail'', (total_space - total_used) div 1024)]"

definition cluster_stats :: "sim_random \<Rightarrow> sim_cluster \<Rightarrow> exn + (string \<times> int) list" where
  "cluster_stats g s =
     then_do (pool_stats g (sim_pg_stats s) []) (\<lambda>d0.
     let d = with_kb d0;
         root = ''ceph.cluster.'' @ sim_fsid s;
         total_used = sum_list (map (\<lambda>(i, p). bytes_used p) d);
         total_space = sum_list (map snd (osd_total_bytes s))
     in Inr (concat (map (\<lambda>(i, p). map (\<lambda>(k, v). (root @ ''.pool.'' @ str_int i @ ''.'' @ k, v)) (pool_fields p)) d)
             @ map (\<lambda>(k, v). (root @ ''.pool.all.'' @ k, v)) (all_pools d)
             @ map (\<lambda>(k, v). (root @ ''.df.'' @ k, v)) (df_stats total_space total_used)))"

text \<open>The leader is the first mon of the quorum, which is every mon in the order of its rank.\<close>

definition leader_name :: "sim_cluster \<Rightarrow> string option" where
  "leader_name s = (case sim_mons s of [] \<Rightarrow> None | (_, name) # _ \<Rightarrow> Some name)"

definition get_stats :: "sim_random \<Rightarrow> string \<Rightarrow> sim_cluster \<Rightarrow> exn + (string, rat) dict" where
  "get_stats g fqdn s =
     (let host = replace fqdn ''.'' ''_'';
          local = flatten_dictionary ''.'' (''servers.'' @ host @ ''.cpu'') (cpu_stats g)
            @ flatten_dictionary ''.'' (''servers.'' @ host @ ''.network'') (net_stats g)
      in then_do (if Some (get_hostname fqdn) = leader_name s then cluster_stats g s else Inr []) (\<lambda>xs.
         Inr (dict_of (local @ map (\<lambda>(k, v). (k, of_int v)) xs))))"

section \<open>What is written is reported\<close>

definition total_bytes :: "(string, pg_stats) dict \<Rightarrow> int" where
  "total_bytes d = sum_list (map (\<lambda>(i, st). num_bytes st) d)"

lemma sum_update:
  assumes "distinct (keys d)"
  shows "sum_list (map (\<lambda>(i, x). f x) (AList.update k v d))
    = sum_list (map (\<lambda>(i, x). f x) d) + f v - (case map_of d k of None \<Rightarrow> 0 | Some x \<Rightarrow> (f x :: int))"
  using assms by (induction d) (auto split: option.splits dest: map_of_SomeD simp: rev_image_eqI)

lemma pool_stats_total:
  assumes "pool_stats g xs d = Inr d'" and "distinct (keys d)"
  shows "sum_list (map (\<lambda>(i, p). bytes_used p) d') = sum_list (map (\<lambda>(i, p). bytes_used p) d) + total_bytes xs"
  using assms
proof (induction g xs d rule: pool_stats.induct)
  case (2 g i st xs d)
  from "2.prems"(1) obtain pid where pid: "pool_of_pg i = Inr pid" by (auto simp: then_do_eq_Inr)
  let ?p = "get_default d pid \<lparr>bytes_used = 0, kb_used = 0, stat_objects = 0, num_read = 0, num_write = 0\<rparr>"
  let ?q = "?p\<lparr>bytes_used := bytes_used ?p + num_bytes st, stat_objects := stat_objects ?p + num_objects st,
             num_read := pool_reads g i, num_write := pool_writes g i\<rparr>"
  from "2.prems" pid have "pool_stats g xs (AList.update pid ?q d) = Inr d'" by (simp add: Let_def)
  from "2.IH" [OF refl this] "2.prems"(2) have "sum_list (map (\<lambda>(i, p). bytes_used p) d')
      = sum_list (map (\<lambda>(i, p). bytes_used p) (AList.update pid ?q d)) + total_bytes xs"
    by (simp add: distinct_update)
  then show ?case
    by (simp add: sum_update [OF "2.prems"(2)] total_bytes_def get_default_def split: option.split)
qed (simp add: total_bytes_def)

lemma write_object_run:
  assumes "write_object h pid sz i s = (Inr (), s')" and "distinct (keys (sim_pg_stats s))"
  shows "total_bytes (sim_pg_stats s') = total_bytes (sim_pg_stats s) + sz \<and> distinct (keys (sim_pg_stats s'))
    \<and> sim_fsid s' = sim_fsid s \<and> sim_mons s' = sim_mons s"
  using assms
  by (auto simp: write_object_def py_simps total_bytes_def sum_update distinct_update split: sum.splits)

lemma writes_run:
  assumes "for_each (write_object h pid sz) is s = (Inr (), s')" and "distinct (keys (sim_pg_stats s))"
  shows "total_bytes (sim_pg_stats s') = total_bytes (sim_pg_stats s) + int (length is) * sz
    \<and> distinct (keys (sim_pg_stats s')) \<and> sim_fsid s' = sim_fsid s \<and> sim_mons s' = sim_mons s"
  using assms
proof (induction "is" arbitrary: s)
  case (Cons i "is")
  then obtain s1 where s1: "write_object h pid sz i s = (Inr (), s1)" "for_each (write_object h pid sz) is s1 = (Inr (), s')"
    by (auto simp: bnd_def split: prod.splits sum.splits)
  from write_object_run [OF s1(1) Cons.prems(2)] Cons.IH [OF s1(2)] show ?case by (simp add: algebra_simps)
qed (simp add: ret_def total_bytes_def)

lemma sum_with_kb: "sum_list (map (\<lambda>(i, p). bytes_used p) (with_kb d)) = sum_list (map (\<lambda>(i, p). bytes_used p) d)"
  by (induction d) (auto simp: with_kb_def)

lemma total_used_reported:
  assumes "cluster_stats g s = Inr xs"
  shows "map_of xs (''ceph.cluster.'' @ sim_fsid s @ ''.df.total_used'') = Some (total_bytes (sim_pg_stats s) div 1024)"
proof -
  let ?root = "''ceph.cluster.'' @ sim_fsid s"
  from assms obtain d ys zs where d: "pool_stats g (sim_pg_stats s) [] = Inr d"
    and xs: "xs = ys @ zs @ map (\<lambda>(k, v). (?root @ ''.df.'' @ k, v))
      (df_stats (sum_list (map snd (osd_total_bytes s))) (sum_list (map (\<lambda>(i, p). bytes_used p) (with_kb d))))"
    and none: "\<forall>k \<in> fst ` set (ys @ zs). \<exists>x. k = ?root @ ''.pool.'' @ x"
    unfolding cluster_stats_def then_do_eq_Inr Let_def by (fastforce simp: image_iff)
  have "?root @ ''.df.total_used'' \<notin> fst ` set (ys @ zs)"
  proof
    assume "?root @ ''.df.total_used'' \<in> fst ` set (ys @ zs)"
    with none obtain x where "?root @ ''.df.total_used'' = ?root @ ''.pool.'' @ x" by blast
    then show False by simp
  qed
  then have "map_of (ys @ zs) (?root @ ''.df.total_used'') = None" unfolding map_of_eq_None_iff .
  then have "map_of xs (?root @ ''.df.total_used'') = Some (sum_list (map (\<lambda>(i, p). bytes_used p) (with_kb d)) div 1024)"
    unfolding xs append_assoc [symmetric] by (subst map_of_append) (simp add: df_stats_def map_add_def)
  with pool_stats_total [OF d] show ?thesis by (simp add: sum_with_kb)
qed

text \<open>
  C34. What clients write is what the statistics report. When a simulated client has written
  \<open>n\<close> objects of \<open>sz\<close> bytes to a pool without an error, the space in use that the leader's
  host sends to graphite is that of all objects there were before, whichever pools they are
  in, plus \<open>n * sz\<close> bytes, in kilobytes.
\<close>

theorem written_bytes_are_reported:
  assumes "rados_write h base pid n sz s = (Inr (), s')" and "0 \<le> n" and "distinct (keys (sim_pg_stats s))"
    and "cluster_stats g s' = Inr xs"
  shows "map_of xs (''ceph.cluster.'' @ sim_fsid s @ ''.df.total_used'')
    = Some ((total_bytes (sim_pg_stats s) + n * sz) div 1024)"
  using total_used_reported [OF assms(4)] writes_run [OF assms(1) [unfolded rados_write_def] assms(3)] assms(2) by simp

definition small_writes :: "sim_cluster" where
  "small_writes = small_cluster\<lparr>sim_pg_stats :=
     [(pg_id_of 0 0, \<lparr>num_objects = 1, num_bytes = 1000, num_bytes_wr = 1000, num_bytes_rd = 0\<rparr>),
      (pg_id_of 0 1, \<lparr>num_objects = 0, num_bytes = 0, num_bytes_wr = 0, num_bytes_rd = 0\<rparr>)]\<rparr>"

definition no_load :: sim_random where
  "no_load = \<lparr>cpu_load = \<lambda>_ _. 0, net_load = \<lambda>_ _. 0, pool_reads = \<lambda>_. 10, pool_writes = \<lambda>_. 10\<rparr>"

theorem written_bytes_are_reported_witness:
  "\<exists>s' xs. rados_write (\<lambda>_. 0) 5 0 3 1024 small_writes = (Inr (), s') \<and> cluster_stats no_load s' = Inr xs
     \<and> map_of xs ''ceph.cluster.f.df.total_used'' = Some 3"
proof -
  have "case rados_write (\<lambda>_. 0) 5 0 3 1024 small_writes of (Inr _, s') \<Rightarrow>
      (case cluster_stats no_load s' of Inr _ \<Rightarrow> True | Inl _ \<Rightarrow> False) | _ \<Rightarrow> False" by code_simp
  moreover obtain r s' where w: "rados_write (\<lambda>_. 0) 5 0 3 1024 small_writes = (r, s')" by (rule prod.exhaust)
  ultimately obtain xs where xs: "cluster_stats no_load s' = Inr xs" and "r = Inr ()"
    unfolding w by (cases r; cases "cluster_stats no_load s'") simp_all
  with w have run: "rados_write (\<lambda>_. 0) 5 0 3 1024 small_writes = (Inr (), s')" "cluster_stats no_load s' = Inr xs"
    by simp_all
  have small: "distinct (keys (sim_pg_stats small_writes))" "total_bytes (sim_pg_stats small_writes) = 1000"
    "sim_fsid small_writes = ''f''" by code_simp+
  have "map_of xs (''ceph.cluster.'' @ ''f'' @ ''.df.total_used'') = Some ((1000 + 3 * 1024) div 1024)"
    using written_bytes_are_reported [OF run(1) _ small(1) run(2)] unfolding small(2,3) by simp
  then have "map_of xs ''ceph.cluster.f.df.total_used'' = Some 3" by simp
  with run show ?thesis by blast
qed

end
