(* ===== verification/RestBase.thy ===== *)
theory RestBase
  imports Rpc
begin

text \<open>
  What the views of the REST API share: responses, the status codes that exceptions get
  (views/rpc_view.py and the exceptions of Django and its REST framework), the validation of
  what is posted (serializers/v2.py), permissions, and pages.

  What the REST framework itself does with a field is a parameter of a serializer: the
  errors it finds in the data, and the value a field has once it was parsed and printed.
\<close>

section \<open>Responses\<close>

datatype 'a body = Empty | Message string | FieldErrors "(string, string list) dict" | Data 'a

record 'a http =
  http_status :: nat
  http_body :: "'a body"

definition response :: "nat \<Rightarrow> 'a body \<Rightarrow> 'a http" where
  "response n b = \<lparr>http_status = n, http_body = b\<rparr>"

type_synonym ('s, 'a) view = "('s, 'a http) py"

text \<open>None where the exception is raised again and becomes an internal error.\<close>

fun handle_exception :: "exn \<Rightarrow> 'a http option" where
  "handle_exception (Http404 m) = Some (response 404 (Message m))"
| "handle_exception (ParseError m) = Some (response 400 (Message m))"
| "handle_exception (PermissionDenied m) = Some (response 403 (Message m))"
| "handle_exception (ServiceUnavailable m) = Some (response 503 (Message m))"
| "handle_exception (APIException m) = Some (response 500 (Message m))"
| "handle_exception (NotFound ty i) = Some (response 404 (Message (exn_str (NotFound ty i))))"
| "handle_exception (BucketNotEmptyError m) = Some (response 409 (Message m))"
| "handle_exception _ = None"

definition dispatch :: "('s, 'a) view \<Rightarrow> ('s, 'a) view" where
  "dispatch m = try_except m (\<lambda>e. case handle_exception e of Some r \<Rightarrow> ret r | None \<Rightarrow> raise e)"

text \<open>The handle of a request, if one was started.\<close>

definition return_request :: "'a option \<Rightarrow> 'a http" where
  "return_request r = (case r of Some x \<Rightarrow> response 202 (Data x) | None \<Rightarrow> response 304 Empty)"

text \<open>\<open>assert 'request_id' in response\<close>: None is not a dictionary.\<close>

definition accepted :: "'a option \<Rightarrow> ('s, 'a) view" where
  "accepted r = (case r of Some x \<Rightarrow> ret (response 202 (Data x)) | None \<Rightarrow> raise TypeError)"

section \<open>Validation\<close>

type_synonym errors = "(string, string list) dict"

record serializer =
  create_allowed :: "string list"
  create_required :: "string list"
  modify_allowed :: "string list"
  modify_required :: "string list"
  field_errors :: "attributes option \<Rightarrow> errors"
  field_value :: "attributes \<Rightarrow> string \<Rightarrow> jval"

definition update_dict :: "('k \<times> 'v) list \<Rightarrow> ('k, 'v) dict \<Rightarrow> ('k, 'v) dict" where
  "update_dict xs d = fold (\<lambda>(k, v) d. AList.update k v d) xs d"

definition construct_errors :: "string list \<Rightarrow> string list \<Rightarrow> string list \<Rightarrow> string \<Rightarrow> errors" where
  "construct_errors allowed required given action =
     update_dict (map (\<lambda>x. (x, [''Required during '' @ action])) (filter (\<lambda>x. x \<notin> set given) required))
       (update_dict (map (\<lambda>x. (x, [''Not allowed during '' @ action])) (filter (\<lambda>x. x \<notin> set allowed) given)) [])"

text \<open>\<open>data\<close> is None where the request had no content.\<close>

definition errors_of :: "serializer \<Rightarrow> string \<Rightarrow> attributes option \<Rightarrow> errors" where
  "errors_of z http_method data = (case data of
       None \<Rightarrow> field_errors z None
     | Some a \<Rightarrow> update_dict
         (if http_method = ''POST'' then construct_errors (create_allowed z) (create_required z) (keys a) http_method
          else if http_method = ''PATCH'' \<or> http_method = ''PUT''
          then construct_errors (modify_allowed z) (modify_required z) (keys a) http_method
          else [(http_method, [''Not a valid method''])])
         (field_errors z (Some a)))"

definition is_valid :: "serializer \<Rightarrow> string \<Rightarrow> attributes option \<Rightarrow> bool" where
  "is_valid z http_method data \<longleftrightarrow> errors_of z http_method data = []"

text \<open>Only the fields that were given, with the values the fields make of them.\<close>

definition get_fields :: "serializer \<Rightarrow> attributes \<Rightarrow> attributes" where
  "get_fields z a = map (\<lambda>k. (k, field_value z a k)) (keys a)"

definition serializer_data :: "serializer \<Rightarrow> attributes option \<Rightarrow> exn + attributes" where
  "serializer_data z data = (case data of None \<Rightarrow> Inl AttributeError | Some a \<Rightarrow> Inr (get_fields z a))"

definition invalid :: "serializer \<Rightarrow> string \<Rightarrow> attributes option \<Rightarrow> 'a http" where
  "invalid z http_method data = response 400 (FieldErrors (errors_of z http_method data))"

section \<open>Permissions\<close>

text \<open>
  \<open>safe\<close> are the framework's SAFE_METHODS; \<open>groups\<close> the groups of the user, who may be a
  superuser.
\<close>

definition has_permission :: "string list \<Rightarrow> string list \<Rightarrow> bool \<Rightarrow> string \<Rightarrow> bool" where
  "has_permission safe groups superuser http_method =
     (if ''readonly'' \<in> set groups then http_method \<in> set safe
      else if ''read/write'' \<in> set groups then True
      else superuser)"

section \<open>Pages\<close>

text \<open>
  \<open>paginator\<close> is Django's: the page of that number when there are so many objects on a page.
  Its errors EmptyPage and PageNotAnInteger are ValueErrors here.
\<close>

definition paginate :: "('b list \<Rightarrow> string \<Rightarrow> string \<Rightarrow> exn + 'c) \<Rightarrow> string option \<Rightarrow> string option \<Rightarrow> 'b list \<Rightarrow> exn + 'c" where
  "paginate paginator page page_size xs =
     (case paginator xs (case page_size of None \<Rightarrow> ''10'' | Some t \<Rightarrow> t) (case page of None \<Rightarrow> ''1'' | Some t \<Rightarrow> t) of
        Inl (ValueError m) \<Rightarrow> Inl (ParseError m)
      | r \<Rightarrow> r)"

section \<open>Texts\<close>

text \<open>\<open>s.lower()\<close>\<close>

definition lower_char :: "char \<Rightarrow> char" where
  "lower_char c = (if 65 \<le> (of_char c :: nat) \<and> (of_char c :: nat) \<le> 90 then char_of (of_char c + 32 :: nat) else c)"

definition lower :: "string \<Rightarrow> string" where
  "lower s = map lower_char s"

section \<open>Reading the cluster\<close>

definition no_filter :: list_filter where
  "no_filter = \<lparr>lf_id_in = None, lf_pool = None\<rparr>"

definition list_pools :: "nat \<Rightarrow> string \<Rightarrow> pool list mg_py" where
  "list_pools k fsid = bnd (rpc_list k fsid POOL no_filter) (\<lambda>xs. ret (case xs of Pools ps \<Rightarrow> ps | _ \<Rightarrow> []))"

definition list_rules :: "nat \<Rightarrow> string \<Rightarrow> crush_rule list mg_py" where
  "list_rules k fsid = bnd (rpc_list k fsid CRUSH_RULE no_filter) (\<lambda>xs. ret (case xs of Rules rs \<Rightarrow> rs | _ \<Rightarrow> []))"

definition get_pool :: "string \<Rightarrow> int \<Rightarrow> pool mg_py" where
  "get_pool fsid i = bnd (rpc_get fsid POOL i) (\<lambda>x. case x of OnePool p \<Rightarrow> ret p | _ \<Rightarrow> raise TypeError)"

text \<open>None and the empty configuration count as none.\<close>

definition ceph_config :: "string \<Rightarrow> (string, string) dict mg_py" where
  "ceph_config fsid = bnd (rpc_get_sync_object fsid ''config'') (\<lambda>x. ret (case x of Some (DConfig c) \<Rightarrow> c | _ \<Rightarrow> []))"

text \<open>\<open>int(text)\<close>\<close>

definition int_text :: "string \<Rightarrow> exn + int" where
  "int_text t = (case read_int t of
       None \<Rightarrow> Inl (ValueError (''invalid literal for int() with base 10: '' @ quote @ t @ quote))
     | Some i \<Rightarrow> Inr i)"

section \<open>Running a view\<close>

lemma bnd_lift_Inr [simp]: "bnd (lift_exn (Inr x)) f = f x"
  by (simp add: bnd_def lift_exn_def fun_eq_iff)

lemma bnd_Inr: "m w = (Inr x, w') \<Longrightarrow> bnd m f w = f x w'"
  by (simp add: bnd_def)

lemma bnd_Inl: "m w = (Inl e, w') \<Longrightarrow> bnd m f w = (Inl e, w')"
  by (simp add: bnd_def)

lemma bnd_eq_Inr: "bnd m f w = (Inr y, w') \<longleftrightarrow> (\<exists>x v. m w = (Inr x, v) \<and> f x v = (Inr y, w'))"
  by (auto simp: bnd_def split: prod.splits sum.splits)

end
