(* ===== verification/RestHealth.thy ===== *)
theory RestHealth
  imports RestBase CephModule
begin

text \<open>
  The read-only summaries of the REST API's first version (calamari_rest/views/v1.py): the
  health counters of a cluster, its space as graphite knows it, and the list of OSDs with
  the states of their PGs. Graphite's series are a parameter. So are the numbers of the MDS
  map's \<open>up\<close> and \<open>in\<close> entries, which the server passes through.
\<close>

section \<open>Health counters\<close>

definition CRIT_STATES :: "string list" where
  "CRIT_STATES = [''stale'', ''down'', ''peering'', ''inconsistent'', ''incomplete'', ''inactive'']"

definition WARN_STATES :: "string list" where
  "WARN_STATES = [''creating'', ''recovery_wait'', ''recovering'', ''replay'', ''splitting'', ''degraded'', ''remapped'',
     ''scrubbing'', ''repair'', ''wait_backfill'', ''backfilling'', ''backfill_toofull'']"

definition OKAY_STATES :: "string list" where
  "OKAY_STATES = [''active'', ''clean'']"

record counter =
  c_count :: int
  c_states :: counts

record health_class =
  ok :: counter
  warn :: counter
  critical :: counter

definition no_count :: counter where
  "no_count = \<lparr>c_count = 0, c_states = []\<rparr>"

definition add_state :: "int \<Rightarrow> string \<Rightarrow> counts \<Rightarrow> counts" where
  "add_state n st d = AList.update st (get_default d st 0 + n) d"

text \<open>The new counter if a state is of the class, else None.\<close>

definition pg_counter_helper :: "string list \<Rightarrow> string list \<Rightarrow> int \<Rightarrow> counter \<Rightarrow> counter option" where
  "pg_counter_helper states classifier n stats =
     (let matched = filter (\<lambda>x. x \<in> set states) classifier
      in if matched = [] then None
         else Some \<lparr>c_count = c_count stats + n, c_states = fold (add_state n) matched (c_states stats)\<rparr>)"

definition count_state :: "string \<times> int \<Rightarrow> health_class \<Rightarrow> health_class" where
  "count_state p h = (case p of (state_name, n) \<Rightarrow>
     let states = map lower (split_on (CHR ''+'') state_name)
     in case pg_counter_helper states CRIT_STATES n (critical h) of
          Some c \<Rightarrow> h\<lparr>critical := c\<rparr>
        | None \<Rightarrow> (case pg_counter_helper states WARN_STATES n (warn h) of
            Some c \<Rightarrow> h\<lparr>warn := c\<rparr>
          | None \<Rightarrow> (case pg_counter_helper states OKAY_STATES n (ok h) of
              Some c \<Rightarrow> h\<lparr>ok := c\<rparr>
            | None \<Rightarrow> h\<lparr>critical := \<lparr>c_count = c_count (critical h) + n,
                c_states = fold (add_state n)
                  (filter (\<lambda>st. st \<notin> set (CRIT_STATES @ WARN_STATES @ OKAY_STATES) \<or> st \<in> set CRIT_STATES) states)
                  (c_states (critical h))\<rparr>\<rparr>)))"

definition pg_counters :: "pg_summary_data \<Rightarrow> health_class" where
  "pg_counters s = fold count_state (all_pgs s) \<lparr>ok = no_count, warn = no_count, critical = no_count\<rparr>"

definition one_state :: "string \<Rightarrow> int \<Rightarrow> counter" where
  "one_state st n = \<lparr>c_count = n, c_states = (if n = 0 then [] else [(st, n)])\<rparr>"

definition mon_counters :: "mon_status_data \<Rightarrow> health_class" where
  "mon_counters m =
     (let n = int (length (filter (\<lambda>x. mon_rank x \<in> set (ms_quorum m)) (ms_mons m)))
      in \<lparr>ok = one_state ''in'' n, warn = one_state ''up'' 0,
          critical = one_state ''out'' (int (length (ms_mons m)) - n)\<rparr>)"

definition osds_with :: "bool \<Rightarrow> bool \<Rightarrow> osd_map_data \<Rightarrow> int" where
  "osds_with u i d = int (length (filter (\<lambda>x. (osd_up x \<noteq> 0) = u \<and> (osd_in x \<noteq> 0) = i) (om_osds d)))"

definition osd_counters :: "osd_map_data \<Rightarrow> health_class" where
  "osd_counters d =
     (let up_out = osds_with True False d; down_in = osds_with False True d
      in \<lparr>ok = one_state ''up/in'' (osds_with True True d),
          warn = \<lparr>c_count = up_out + down_in,
            c_states = (if 0 < up_out then [(''up/out'', up_out)] else []) @ (if 0 < down_in then [(''down/in'', down_in)] else [])\<rparr>,
          critical = one_state ''down/out'' (osds_with False False d)\<rparr>)"

record mds_class =
  mds_total :: int
  mds_up_in :: int
  mds_up_not_in :: int
  mds_not_up_not_in :: int

text \<open>\<open>n_up\<close> and \<open>n_in\<close> are the sizes of the map's other sections.\<close>

definition mds_counters :: "int \<Rightarrow> int \<Rightarrow> mds_map_data \<Rightarrow> mds_class" where
  "mds_counters n_up n_in info =
     \<lparr>mds_total = int (length info), mds_up_in = n_in, mds_up_not_in = n_up - n_in,
      mds_not_up_not_in = int (length info) - n_up\<rparr>"

record health_counters =
  hc_osd :: health_class
  hc_mds :: mds_class
  hc_mon :: health_class
  hc_pg :: health_class

definition generate_counters ::
  "(mds_map_data \<Rightarrow> int \<times> int) \<Rightarrow> osd_map_data \<Rightarrow> mds_map_data \<Rightarrow> mon_status_data \<Rightarrow> pg_summary_data \<Rightarrow> health_counters" where
  "generate_counters sizes d mds m s =
     \<lparr>hc_osd = osd_counters d, hc_mds = (case sizes mds of (n_up, n_in) \<Rightarrow> mds_counters n_up n_in mds),
      hc_mon = mon_counters m, hc_pg = pg_counters s\<rparr>"

text \<open>A map that the server does not have yet is None, and indexing it raises.\<close>

definition get_counters ::
  "(mds_map_data \<Rightarrow> int \<times> int) \<Rightarrow> string \<Rightarrow> (health_counters \<times> string) mg_py" where
  "get_counters sizes fsid =
     bnd (rpc_get_sync_object fsid ''mds_map'') (\<lambda>mds.
     bnd (rpc_get_sync_object fsid ''osd_map'') (\<lambda>d.
     bnd (rpc_get_sync_object fsid ''pg_summary'') (\<lambda>s.
     bnd (rpc_get_sync_object fsid ''mon_status'') (\<lambda>m.
     case (mds, d, s, m) of
       (Some (DMds mds'), Some (DOsd d'), Some (DPg s'), Some (DMonStatus m')) \<Rightarrow>
         bnd get_state (\<lambda>w. case rpc_get_cluster w fsid of
             Some c \<Rightarrow> ret (generate_counters sizes d' mds' m' s', cd_update_time c)
           | None \<Rightarrow> raise TypeError)
     | _ \<Rightarrow> raise TypeError))))"

section \<open>Space\<close>

text \<open>
  \<open>source metric t\<close> are graphite's series from \<open>t\<close> to now. The latest value is the last one
  of the first series in the first range that has any.
\<close>

definition RANGES :: "string list" where
  "RANGES = [''-1min'', ''-10min'', ''-60min'', ''-1d'', ''-7d'']"

definition latest_in :: "int option list list \<Rightarrow> int option" where
  "latest_in series = (case series of [] \<Rightarrow> None | s # _ \<Rightarrow>
     (case rev (filter (\<lambda>k. k \<noteq> None) s) of [] \<Rightarrow> None | k # _ \<Rightarrow> k))"

fun first_range :: "(string \<Rightarrow> int option list list) \<Rightarrow> string list \<Rightarrow> int option" where
  "first_range source [] = None"
| "first_range source (t # ts) = (case latest_in (source t) of Some v \<Rightarrow> Some v | None \<Rightarrow> first_range source ts)"

definition get_latest_graphite :: "(string \<Rightarrow> string \<Rightarrow> int option list list) option \<Rightarrow> string \<Rightarrow> int option" where
  "get_latest_graphite graphite metric = (case graphite of
       None \<Rightarrow> None
     | Some source \<Rightarrow> first_range (source metric) RANGES)"

record space =
  used_bytes :: "int option"
  capacity_bytes :: "int option"
  free_bytes :: "int option"

definition get_space :: "(string \<Rightarrow> int option) \<Rightarrow> string \<Rightarrow> space" where
  "get_space metric_value fsid =
     (let df_path = (\<lambda>stat. ''ceph.cluster.'' @ fsid @ ''.df.'' @ stat); to_bytes = map_option (\<lambda>kb. kb * 1024)
      in if metric_value (df_path ''total_used_bytes'') \<noteq> None
         then \<lparr>used_bytes = metric_value (df_path ''total_used_bytes''), capacity_bytes = metric_value (df_path ''total_bytes''),
               free_bytes = metric_value (df_path ''total_avail_bytes'')\<rparr>
         else \<lparr>used_bytes = to_bytes (metric_value (df_path ''total_used'')),
               capacity_bytes = to_bytes (metric_value (df_path ''total_space'')),
               free_bytes = to_bytes (metric_value (df_path ''total_avail''))\<rparr>)"

section \<open>The list of OSDs\<close>

record osd_view =
  ov_osd :: osd_entry
  ov_pg_states :: counts
  ov_pools :: "string list"
  ov_fqdn :: "string option"
  ov_host :: "string option"

text \<open>A set is a list without duplicates; \<open>add_to\<close> is \<open>d[k].add(x)\<close> on a dictionary of sets.\<close>

definition add_to :: "'k \<Rightarrow> 'v \<Rightarrow> ('k, 'v list) dict \<Rightarrow> ('k, 'v list) dict" where
  "add_to k x d = AList.update k (let xs = get_default d k [] in if x \<in> set xs then xs else xs @ [x]) d"

fun pools_of_osds :: "(int, pool) dict \<Rightarrow> (int \<times> int list) list \<Rightarrow> (int, string list) dict \<Rightarrow> exn + (int, string list) dict" where
  "pools_of_osds pools [] d = Inr d"
| "pools_of_osds pools ((pid, os) # xs) d =
     then_do (if os = [] then Inr d else then_do (item pools pid (str_int pid)) (\<lambda>p.
       Inr (fold (\<lambda>o'. add_to o' (pool_name p)) os d))) (pools_of_osds pools xs)"

definition split_states :: "string \<Rightarrow> string list" where
  "split_states st = split_on (CHR ''+'') st"

definition states_of_osd :: "counts \<Rightarrow> counts" where
  "states_of_osd c = fold (\<lambda>(st, n) d. fold (add_state n) (split_states st) d) c []"

definition osds_by_pg_state :: "(int, counts) dict \<Rightarrow> (string, int list) dict" where
  "osds_by_pg_state xs = fold (\<lambda>(i, c) d. fold (\<lambda>(st, n) d. fold (\<lambda>s. add_to s i) (split_states st) d) c d) xs []"

text \<open>
  The OSDs \<open>by_id\<close> are the map's in the order in which Python iterates over the dictionary
  by id, while \<open>service_to_server\<close> is in the order of the map; they are matched by position.
\<close>

definition osd_view_of :: "(string \<times> string) list \<Rightarrow> (int, counts) dict \<Rightarrow> (int, string list) dict \<Rightarrow>
    osd_entry \<times> string option \<Rightarrow> exn + osd_view" where
  "osd_view_of hosts counts_of pools x = (case x of (o', fqdn) \<Rightarrow>
     then_do (case fqdn of None \<Rightarrow> Inr None | Some f \<Rightarrow> then_do (item hosts f f) (\<lambda>h. Inr (Some h))) (\<lambda>host.
     Inr \<lparr>ov_osd = o', ov_pg_states = states_of_osd (get_default counts_of (osd o') []),
          ov_pools = get_default pools (osd o') [], ov_fqdn = fqdn, ov_host = host\<rparr>))"

text \<open>\<open>service_to_server\<close> has at least as many entries as there are OSDs in the dictionary.\<close>

definition generate_osds :: "nat \<Rightarrow> pg_summary_data \<Rightarrow> osd_map_data \<Rightarrow> osd_entry list \<Rightarrow> string option list \<Rightarrow>
    (string \<times> string) list \<Rightarrow> exn + osd_view list \<times> (string, int list) dict" where
  "generate_osds k s d by_id service_to_server hosts =
     then_do (then_do (osds_by_pool k d) (\<lambda>m. pools_of_osds (pools_by_id (Some d)) m [])) (\<lambda>pools.
     then_do (map_res (osd_view_of hosts (by_osd s) pools) (zip by_id service_to_server)) (\<lambda>osds.
     Inr (osds, osds_by_pg_state (by_osd s))))"

definition filter_by_pg_state :: "osd_view list \<Rightarrow> string \<Rightarrow> (string, int list) dict \<Rightarrow> osd_view list" where
  "filter_by_pg_state osds pg_states by_state =
     (let wanted = map lower (split_on (CHR '','') pg_states);
          target = concat (map snd (filter (\<lambda>(st, is). st \<in> set wanted) by_state))
      in filter (\<lambda>x. osd (ov_osd x) \<in> set target) osds)"

datatype osd_listing = NoOsds | Listing "osd_view list" "(string, int list) dict"

text \<open>\<open>values\<close> is the order in which Python iterates over the OSDs by id.\<close>

definition osd_listing ::
  "nat \<Rightarrow> (osd_entry list \<Rightarrow> osd_entry list) \<Rightarrow> pg_summary_data option \<Rightarrow> osd_map_data option \<Rightarrow> string option list \<Rightarrow>
    (string \<times> string) list \<Rightarrow> string option \<Rightarrow> exn + osd_listing http" where
  "osd_listing k values s d service_to_server hosts pg_states = (case s of
       None \<Rightarrow> Inl TypeError
     | Some s' \<Rightarrow> (case d of
         None \<Rightarrow> Inr (response 202 (Data NoOsds))
       | Some d' \<Rightarrow>
           then_do (generate_osds k s' d' (values (vals (osds_by_id d))) service_to_server hosts) (\<lambda>(osds, by_state).
           Inr (if osds = [] \<or> by_state = [] then response 202 (Data NoOsds)
                else response 200 (Data (case pg_states of
                    Some (c # cs) \<Rightarrow> Listing (filter_by_pg_state osds (c # cs) by_state) by_state
                  | _ \<Rightarrow> Listing osds by_state))))))"

definition get_osds ::
  "nat \<Rightarrow> (osd_entry list \<Rightarrow> osd_entry list) \<Rightarrow> string \<Rightarrow> string option \<Rightarrow> (manager, osd_listing) view" where
  "get_osds k values fsid pg_states =
     bnd (rpc_list k fsid OSD no_filter) (\<lambda>xs.
     bnd (rpc_server_list_cluster fsid) (\<lambda>servers.
     bnd (rpc_get_sync_object fsid ''osd_map'') (\<lambda>d.
     bnd (rpc_get_sync_object fsid ''pg_summary'') (\<lambda>s.
     bnd get_state (\<lambda>w.
     let osds = (case xs of Osds os \<Rightarrow> os | _ \<Rightarrow> []);
         info = rpc_server_by_service w (map (\<lambda>x. ServiceId fsid ''osd'' (str_int (osd x))) osds)
     in lift_exn (osd_listing k values (case s of Some (DPg s') \<Rightarrow> Some s' | _ \<Rightarrow> None)
          (case d of Some (DOsd d') \<Rightarrow> Some d' | _ \<Rightarrow> None) (map snd info)
          (dict_of (map (\<lambda>x. (sd_fqdn x, sd_hostname x)) servers)) pg_states))))))"

definition get_osd :: "string \<Rightarrow> string \<Rightarrow> (manager, osd_entry) view" where
  "get_osd fsid i =
     bnd (lift_exn (int_text i)) (\<lambda>n.
     bnd (rpc_get fsid OSD n) (\<lambda>x. case x of OneOsd o' \<Rightarrow> ret (response 200 (Data o')) | _ \<Rightarrow> raise TypeError))"

section \<open>Clusters and pools\<close>

record pool_usage =
  pu_cluster :: string
  pu_pool :: pool
  pu_used_objects :: "int option"
  pu_used_bytes :: "int option"

definition pool_object :: "(string \<Rightarrow> int option) \<Rightarrow> pool \<Rightarrow> cluster_dump \<Rightarrow> pool_usage" where
  "pool_object metric_value p c =
     (let path = ''ceph.cluster.'' @ cd_id c @ ''.pool.'' @ str_int (pool_id p)
      in \<lparr>pu_cluster = cd_id c, pu_pool = p, pu_used_objects = metric_value (path @ ''.num_objects''),
          pu_used_bytes = metric_value (path @ ''.num_bytes'')\<rparr>)"

text \<open>\<open>get_cluster\<close> gives None for an unknown cluster.\<close>

definition known_cluster :: "string \<Rightarrow> cluster_dump mg_py" where
  "known_cluster fsid = bnd get_state (\<lambda>w. case rpc_get_cluster w fsid of None \<Rightarrow> raise TypeError | Some c \<Rightarrow> ret c)"

definition list_pools_used :: "nat \<Rightarrow> (string \<Rightarrow> int option) \<Rightarrow> string \<Rightarrow> (manager, pool_usage list) view" where
  "list_pools_used k metric_value fsid =
     bnd get_state (\<lambda>w.
     bnd (list_pools k fsid) (\<lambda>ps.
     lift_exn (then_do (map_res (\<lambda>p. case rpc_get_cluster w fsid of
         None \<Rightarrow> Inl TypeError | Some c \<Rightarrow> Inr (pool_object metric_value p c)) ps) (\<lambda>us.
       Inr (response 200 (Data us))))))"

definition retrieve_pool_used :: "(string \<Rightarrow> int option) \<Rightarrow> string \<Rightarrow> string \<Rightarrow> (manager, pool_usage) view" where
  "retrieve_pool_used metric_value fsid i =
     bnd (lift_exn (int_text i)) (\<lambda>n.
     bnd (get_pool fsid n) (\<lambda>p.
     bnd (known_cluster fsid) (\<lambda>c. ret (response 200 (Data (pool_object metric_value p c))))))"

definition list_clusters :: "(manager, cluster_dump option list) view" where
  "list_clusters = bnd get_state (\<lambda>w. ret (response 200 (Data (rpc_list_clusters w))))"

definition retrieve_cluster :: "string \<Rightarrow> (manager, cluster_dump) view" where
  "retrieve_cluster fsid = bnd get_state (\<lambda>w. ret (case rpc_get_cluster w fsid of
     None \<Rightarrow> response 404 Empty | Some c \<Rightarrow> response 200 (Data c)))"

definition get_health :: "string \<Rightarrow> (manager, sync_data option \<times> string) view" where
  "get_health fsid =
     bnd (rpc_get_sync_object fsid ''health'') (\<lambda>h.
     bnd (known_cluster fsid) (\<lambda>c. ret (response 200 (Data (h, cd_update_time c)))))"

section \<open>Logging in\<close>

text \<open>\<open>authenticate\<close> is Django's; \<open>data\<close> has the fields that were posted.\<close>

definition login :: "(string \<Rightarrow> string \<Rightarrow> bool) \<Rightarrow> string \<Rightarrow> (string, string) dict \<Rightarrow> unit http" where
  "login authenticate http_method data =
     (if http_method = ''POST'' then
        let missing = (\<lambda>f. get_default data f [] = []);
            msg = map (\<lambda>f. (f, [''This field is required''])) (filter missing [''username'', ''password''])
        in if msg \<noteq> [] then response 400 (FieldErrors msg)
           else if \<not> authenticate (get_default data ''username'' []) (get_default data ''password'' [])
           then response 401 (Message ''User authentication failed'')
           else response 200 Empty
      else response 200 Empty)"

text \<open>The first address of the first interface that is not a loopback and has one.\<close>

definition first_address :: "(string \<times> string list) list \<Rightarrow> string option" where
  "first_address ip_interfaces = (case filter (\<lambda>(name, as). name \<notin> {''lo'', ''lo0''} \<and> as \<noteq> []) ip_interfaces of
     (_, a # _) # _ \<Rightarrow> Some a | _ \<Rightarrow> None)"

text \<open>\<open>gethostbyname\<close> is None where the resolver raises; without any address the view does.\<close>

definition info_address :: "(string \<Rightarrow> string option) \<Rightarrow> string \<Rightarrow> (string \<times> string list) list \<Rightarrow> exn + string" where
  "info_address gethostbyname fqdn ip_interfaces = (case gethostbyname fqdn of
       Some a \<Rightarrow> Inr a
     | None \<Rightarrow> (case first_address ip_interfaces of Some a \<Rightarrow> Inr a | None \<Rightarrow> Inl IndexError))"

section \<open>Every placement group is counted once\<close>

text \<open>The classes as predicates on the text of a PG's state.\<close>

definition state_words :: "string \<Rightarrow> string set" where
  "state_words st = set (map lower (split_on (CHR ''+'') st))"

definition is_critical :: "string \<Rightarrow> bool" where
  "is_critical st \<longleftrightarrow> state_words st \<inter> set CRIT_STATES \<noteq> {}
     \<or> state_words st \<inter> set (CRIT_STATES @ WARN_STATES @ OKAY_STATES) = {}"

definition is_warning :: "string \<Rightarrow> bool" where
  "is_warning st \<longleftrightarrow> \<not> is_critical st \<and> state_words st \<inter> set WARN_STATES \<noteq> {}"

definition is_ok :: "string \<Rightarrow> bool" where
  "is_ok st \<longleftrightarrow> \<not> is_critical st \<and> \<not> is_warning st"

lemma pg_counter_helper_None:
  "pg_counter_helper states classifier n stats = None \<longleftrightarrow> set states \<inter> set classifier = {}"
  by (auto simp: pg_counter_helper_def Let_def filter_empty_conv)

lemma pg_counter_helper_Some:
  "pg_counter_helper states classifier n stats = Some c \<Longrightarrow>
     set states \<inter> set classifier \<noteq> {} \<and> c_count c = c_count stats + n"
  by (auto simp: pg_counter_helper_def Let_def filter_empty_conv split: if_splits)

lemma count_state_counts:
  "c_count (critical (count_state (st, n) h)) = c_count (critical h) + (if is_critical st then n else 0)
   \<and> c_count (warn (count_state (st, n) h)) = c_count (warn h) + (if is_warning st then n else 0)
   \<and> c_count (ok (count_state (st, n) h)) = c_count (ok h) + (if is_ok st then n else 0)"
proof -
  define words where "words = map lower (split_on (CHR ''+'') st)"
  have w: "state_words st = set words" by (simp add: state_words_def words_def)
  have state: "count_state (st, n) h = (case pg_counter_helper words CRIT_STATES n (critical h) of
          Some c \<Rightarrow> h\<lparr>critical := c\<rparr>
        | None \<Rightarrow> (case pg_counter_helper words WARN_STATES n (warn h) of
            Some c \<Rightarrow> h\<lparr>warn := c\<rparr>
          | None \<Rightarrow> (case pg_counter_helper words OKAY_STATES n (ok h) of
              Some c \<Rightarrow> h\<lparr>ok := c\<rparr>
            | None \<Rightarrow> h\<lparr>critical := \<lparr>c_count = c_count (critical h) + n,
                c_states = fold (add_state n)
                  (filter (\<lambda>st. st \<notin> set (CRIT_STATES @ WARN_STATES @ OKAY_STATES) \<or> st \<in> set CRIT_STATES) words)
                  (c_states (critical h))\<rparr>\<rparr>)))"
    by (simp only: count_state_def words_def Let_def prod.case)
  consider (crit) c where "pg_counter_helper words CRIT_STATES n (critical h) = Some c"
    | (warn) c where "pg_counter_helper words CRIT_STATES n (critical h) = None"
        "pg_counter_helper words WARN_STATES n (warn h) = Some c"
    | (ok) c where "pg_counter_helper words CRIT_STATES n (critical h) = None"
        "pg_counter_helper words WARN_STATES n (warn h) = None" "pg_counter_helper words OKAY_STATES n (ok h) = Some c"
    | (other) "pg_counter_helper words CRIT_STATES n (critical h) = None"
        "pg_counter_helper words WARN_STATES n (warn h) = None" "pg_counter_helper words OKAY_STATES n (ok h) = None"
    by fastforce
  then show ?thesis
  proof cases
    case crit
    have "is_critical st" using pg_counter_helper_Some [OF crit] w by (simp add: is_critical_def)
    with crit pg_counter_helper_Some [OF crit] show ?thesis by (simp add: state is_warning_def is_ok_def)
  next
    case warn
    have "is_warning st"
      using pg_counter_helper_Some [OF warn(2)] warn(1) w
      by (simp add: is_critical_def is_warning_def pg_counter_helper_None Int_Un_distrib)
    with warn pg_counter_helper_Some [OF warn(2)] show ?thesis by (simp add: state is_warning_def is_ok_def)
  next
    case ok
    have "is_ok st"
      using pg_counter_helper_Some [OF ok(3)] ok(1,2) w
      by (simp add: is_critical_def is_warning_def is_ok_def pg_counter_helper_None Int_Un_distrib)
    with ok pg_counter_helper_Some [OF ok(3)] show ?thesis by (simp add: state is_ok_def)
  next
    case other
    have "is_critical st"
      using other w by (simp add: is_critical_def pg_counter_helper_None Int_Un_distrib)
    with other show ?thesis by (simp add: state is_warning_def is_ok_def)
  qed
qed

text \<open>What the states that satisfy \<open>P\<close> are counted to.\<close>

definition counted :: "(string \<Rightarrow> bool) \<Rightarrow> counts \<Rightarrow> int" where
  "counted P c = (\<Sum>(st, n) \<leftarrow> c. if P st then n else 0)"

lemma counted_simps [simp]:
  "counted P [] = 0"
  "counted P ((st, n) # c) = (if P st then n else 0) + counted P c"
  by (simp_all add: counted_def)

lemma counted_update:
  "counted P (AList.update st v c) = counted P c + (if P st then v - get_default c st 0 else 0)"
  by (induction c) (auto simp: get_default_def)

lemma counted_fold:
  "c_count (critical (fold count_state xs h)) = c_count (critical h) + counted is_critical xs
   \<and> c_count (warn (fold count_state xs h)) = c_count (warn h) + counted is_warning xs
   \<and> c_count (ok (fold count_state xs h)) = c_count (ok h) + counted is_ok xs"
proof (induction xs arbitrary: h)
  case (Cons x xs)
  then show ?case by (cases x) (simp add: count_state_counts)
qed simp

lemma counted_summary:
  "pg_summary_loop pgs acc = Inr s \<Longrightarrow>
     counted P (all_pgs s) = counted P (all_pgs acc) + int (length (filter (\<lambda>p. P (pg_state p)) pgs))"
  by (induction pgs acc rule: pg_summary_loop.induct)
     (auto simp: then_do_eq_Inr count_up_def counted_update)

lemma osds_partition:
  "osds_with True True d + osds_with True False d + osds_with False True d + osds_with False False d = int (length (om_osds d))"
proof -
  have "int (length (filter (\<lambda>x. (osd_up x \<noteq> 0) = True \<and> (osd_in x \<noteq> 0) = True) xs))
      + int (length (filter (\<lambda>x. (osd_up x \<noteq> 0) = True \<and> (osd_in x \<noteq> 0) = False) xs))
      + int (length (filter (\<lambda>x. (osd_up x \<noteq> 0) = False \<and> (osd_in x \<noteq> 0) = True) xs))
      + int (length (filter (\<lambda>x. (osd_up x \<noteq> 0) = False \<and> (osd_in x \<noteq> 0) = False) xs)) = int (length xs)" for xs
    by (induction xs) auto
  then show ?thesis by (simp add: osds_with_def)
qed

text \<open>
  C22. The health counters that the API computes from the digest that a minion made of its PGs count
  every PG in exactly one class: as critical if one of the words of its state is critical or
  none of them is known, else as a warning if one is a warning, else as fine. The counters
  of the OSDs and of the mons add up to their numbers.
\<close>

theorem health_counts_everything_once:
  assumes "pg_summary pgs = Inr s" and "generate_counters sizes d mds m s = h"
  shows "c_count (critical (hc_pg h)) = int (length (filter (\<lambda>p. is_critical (pg_state p)) pgs))
    \<and> c_count (warn (hc_pg h)) = int (length (filter (\<lambda>p. is_warning (pg_state p)) pgs))
    \<and> c_count (ok (hc_pg h)) = int (length (filter (\<lambda>p. is_ok (pg_state p)) pgs))
    \<and> c_count (ok (hc_pg h)) + c_count (warn (hc_pg h)) + c_count (critical (hc_pg h)) = int (length pgs)
    \<and> c_count (ok (hc_osd h)) + c_count (warn (hc_osd h)) + c_count (critical (hc_osd h)) = int (length (om_osds d))
    \<and> c_count (ok (hc_mon h)) + c_count (critical (hc_mon h)) = int (length (ms_mons m))"
proof -
  have h: "hc_pg h = pg_counters s" "hc_osd h = osd_counters d" "hc_mon h = mon_counters m"
    using assms(2) by (auto simp: generate_counters_def)
  have per_class: "counted P (all_pgs s) = int (length (filter (\<lambda>p. P (pg_state p)) pgs))" for P
    using counted_summary [OF assms(1) [unfolded pg_summary_def], of P] by simp
  have "int (length (filter (\<lambda>p. is_ok (pg_state p)) xs)) + int (length (filter (\<lambda>p. is_warning (pg_state p)) xs))
      + int (length (filter (\<lambda>p. is_critical (pg_state p)) xs)) = int (length xs)" for xs
    by (induction xs) (auto simp: is_ok_def is_warning_def)
  moreover have "c_count (ok (osd_counters d)) + c_count (warn (osd_counters d)) + c_count (critical (osd_counters d))
      = int (length (om_osds d))"
    using osds_partition [of d] by (simp add: osd_counters_def one_state_def Let_def)
  moreover have "c_count (ok (mon_counters m)) + c_count (critical (mon_counters m)) = int (length (ms_mons m))"
    by (simp add: mon_counters_def one_state_def Let_def)
  ultimately show ?thesis
    by (simp add: h pg_counters_def counted_fold no_count_def per_class)
qed

theorem health_counts_everything_once_witness:
  "\<exists>s. pg_summary two_pgs = Inr s
     \<and> c_count (warn (hc_pg (generate_counters (\<lambda>_. (1, 1)) rack_map [] \<lparr>ms_mons = [], ms_quorum = [], ms_election_epoch = 1, ms_rank = 0\<rparr> s))) = 1
     \<and> c_count (ok (hc_pg (generate_counters (\<lambda>_. (1, 1)) rack_map [] \<lparr>ms_mons = [], ms_quorum = [], ms_election_epoch = 1, ms_rank = 0\<rparr> s))) = 1"
proof -
  have p: "pool_of_pg p = Inr 3" if "p \<in> set two_pgs" for p
    using that by (auto simp: two_pgs_def pool_of_pg_def Let_def read_int_def digit_val_def upt_rec)
  then obtain s where s: "pg_summary two_pgs = Inr s"
    by (auto simp: pg_summary_def two_pgs_def)
  have "int (length (filter (\<lambda>p. is_warning (pg_state p)) two_pgs)) = 1"
    and "int (length (filter (\<lambda>p. is_ok (pg_state p)) two_pgs)) = 1"
    by code_simp+
  with health_counts_everything_once [OF s refl] show ?thesis
    by (intro exI [of _ s]) (simp add: s)
qed

end
