(* ===== verification/RestMons.thy ===== *)
theory RestMons
  imports RestBase
begin

text \<open>
  The mons of a cluster as the REST API reports them (calamari_rest/views/v2.py, MonViewSet):
  what the cluster's own status says is reconciled with what each mon daemon last said of
  itself. A daemon's status is a text in the server's state; \<open>read_status\<close> is the parsed JSON
  object.
\<close>

section \<open>Opinions\<close>

record mon_service =
  mon_running :: bool
  mon_server :: string
  mon_local :: "mon_status_data option"

record mon_view =
  mv_mon :: mon_entry
  mv_server :: "string option"
  mv_status :: "mon_status_data option"
  in_quorum :: bool

text \<open>
  The status to believe and the epoch below which no status counts. A newer status of a mon
  replaces that of the cluster; one of the same epoch that disagrees invalidates both.
\<close>

fun newest_status :: "mon_service option list \<Rightarrow> mon_status_data \<Rightarrow> int \<Rightarrow> mon_status_data \<times> int" where
  "newest_status [] ms lowest = (ms, lowest)"
| "newest_status (s # ss) ms lowest = (case Option.bind s mon_local of
       None \<Rightarrow> newest_status ss ms lowest
     | Some st \<Rightarrow>
         if lowest < ms_election_epoch st then newest_status ss st (ms_election_epoch st)
         else if ms_election_epoch st = lowest \<and> ms_quorum st \<noteq> ms_quorum ms
         then newest_status ss ms (ms_election_epoch st + 1)
         else newest_status ss ms lowest)"

definition cluster_opinion :: "mon_status_data \<Rightarrow> int \<Rightarrow> mon_entry \<Rightarrow> bool" where
  "cluster_opinion ms lowest m \<longleftrightarrow> mon_rank m \<in> set (ms_quorum ms) \<and> lowest \<le> ms_election_epoch ms"

definition local_opinion :: "int \<Rightarrow> bool \<Rightarrow> mon_status_data \<Rightarrow> bool" where
  "local_opinion lowest running st \<longleftrightarrow> running \<and> ms_rank st \<in> set (ms_quorum st) \<and> lowest \<le> ms_election_epoch st"

definition believed :: "mon_status_data \<Rightarrow> int \<Rightarrow> mon_entry \<Rightarrow> mon_service option \<Rightarrow> bool" where
  "believed ms lowest m s = (let c = cluster_opinion ms lowest m in case s of
       None \<Rightarrow> c
     | Some sv \<Rightarrow> (case mon_local sv of
         None \<Rightarrow> c
       | Some st \<Rightarrow> (let l = local_opinion lowest (mon_running sv) st
           in if c \<noteq> l then
                (if ms_election_epoch st = 0 \<or> \<not> mon_running sv then l
                 else if ms_election_epoch st < ms_election_epoch ms then c
                 else l)
              else c)))"

definition view_mon :: "mon_status_data \<Rightarrow> int \<Rightarrow> mon_entry \<times> mon_service option \<Rightarrow> mon_view" where
  "view_mon ms lowest x = (case x of (m, s) \<Rightarrow>
     \<lparr>mv_mon = m, mv_server = map_option mon_server s, mv_status = Option.bind s mon_local,
      in_quorum = believed ms lowest m s\<rparr>)"

text \<open>Too few mons for a quorum are none.\<close>

definition without_minority :: "mon_view list \<Rightarrow> mon_view list" where
  "without_minority ms =
     (if length (filter in_quorum ms) < length ms div 2 + 1 then map (\<lambda>m. m\<lparr>in_quorum := False\<rparr>) ms else ms)"

definition reconcile :: "mon_status_data \<Rightarrow> mon_service option list \<Rightarrow> mon_view list" where
  "reconcile ms ss =
     (let (ms', lowest) = newest_status (take (length (ms_mons ms)) ss) ms (ms_election_epoch ms)
      in without_minority (map (view_mon ms' lowest) (zip (ms_mons ms) ss)))"

section \<open>The views\<close>

definition mon_services ::
  "(string \<Rightarrow> mon_status_data) \<Rightarrow> string \<Rightarrow> string list \<Rightarrow> mon_service option list mg_py" where
  "mon_services read_status fsid names =
     bnd (rpc_status_by_service (map (ServiceId fsid ''mon'') names)) (\<lambda>xs.
     ret (map (map_option (\<lambda>(running, server, st). \<lparr>mon_running = running, mon_server = server,
       mon_local = map_option read_status st\<rparr>)) xs))"

definition get_mons :: "(string \<Rightarrow> mon_status_data) \<Rightarrow> string \<Rightarrow> mon_view list mg_py" where
  "get_mons read_status fsid =
     bnd (rpc_get_sync_object fsid ''mon_status'') (\<lambda>x. case x of
         Some (DMonStatus ms) \<Rightarrow>
           bnd (mon_services read_status fsid (map mon_name (ms_mons ms))) (\<lambda>ss. ret (reconcile ms ss))
       | _ \<Rightarrow> raise (Http404 ''No mon data available''))"

definition list_mons :: "(string \<Rightarrow> mon_status_data) \<Rightarrow> string \<Rightarrow> (manager, mon_view list) view" where
  "list_mons read_status fsid = bnd (get_mons read_status fsid) (\<lambda>ms. ret (response 200 (Data ms)))"

definition retrieve_mon :: "(string \<Rightarrow> mon_status_data) \<Rightarrow> string \<Rightarrow> string \<Rightarrow> (manager, mon_view) view" where
  "retrieve_mon read_status fsid name =
     bnd (get_mons read_status fsid) (\<lambda>ms. case filter (\<lambda>m. mon_name (mv_mon m) = name) ms of
         [] \<Rightarrow> raise (Http404 (''Mon '' @ quote @ name @ quote @ '' not found''))
       | m # _ \<Rightarrow> ret (response 200 (Data m)))"

definition retrieve_mon_status :: "(string \<Rightarrow> mon_status_data) \<Rightarrow> string \<Rightarrow> string \<Rightarrow> (manager, mon_status_data option) view" where
  "retrieve_mon_status read_status fsid name =
     bnd (mon_services read_status fsid [name]) (\<lambda>ss. case ss of
         Some s # _ \<Rightarrow> ret (response 200 (Data (mon_local s)))
       | _ \<Rightarrow> raise (Http404 (''Mon not found '' @ quote @ name @ quote)))"

section \<open>Properties\<close>

text \<open>The statuses that an opinion can rest on.\<close>

definition known_statuses :: "mon_status_data \<Rightarrow> mon_service option list \<Rightarrow> mon_status_data list" where
  "known_statuses ms ss = ms # List.map_filter (\<lambda>s. Option.bind s mon_local) ss"

lemma known_statuses_simps [simp]:
  "known_statuses ms [] = [ms]"
  "set (known_statuses ms (s # ss)) = set (case Option.bind s mon_local of None \<Rightarrow> [] | Some st \<Rightarrow> [st]) \<union> set (known_statuses ms ss)"
  by (auto simp: known_statuses_def map_filter_simps split: option.split)

lemma newest_status_bounds:
  assumes "ms_election_epoch ms \<le> lowest"
  shows "lowest \<le> snd (newest_status ss ms lowest)
    \<and> (\<forall>st \<in> set (known_statuses ms ss). ms_election_epoch st \<le> snd (newest_status ss ms lowest))"
  using assms
proof (induction ss ms lowest rule: newest_status.induct)
  case (2 s ss ms lowest)
  show ?case
  proof (cases "Option.bind s mon_local")
    case None
    with 2(1) [OF None 2(5)] show ?thesis by simp
  next
    case (Some st)
    consider (newer) "lowest < ms_election_epoch st"
      | (split) "\<not> lowest < ms_election_epoch st" "ms_election_epoch st = lowest \<and> ms_quorum st \<noteq> ms_quorum ms"
      | (other) "\<not> lowest < ms_election_epoch st" "\<not> (ms_election_epoch st = lowest \<and> ms_quorum st \<noteq> ms_quorum ms)"
      by blast
    then show ?thesis
    proof cases
      case newer
      with 2(2) [OF Some newer] 2(5) Some show ?thesis by (auto simp: known_statuses_def)
    next
      case split
      with 2(3) [OF Some split] 2(5) Some show ?thesis by (auto simp: known_statuses_def)
    next
      case other
      with 2(4) [OF Some other] 2(5) Some show ?thesis by (auto simp: known_statuses_def)
    qed
  qed
qed simp

lemma own_status_known:
  assumes "(m, s) \<in> set (zip ms' ss)" and "Option.bind s mon_local = Some st"
  shows "st \<in> set (known_statuses ms ss)"
  using set_zip_rightD [OF assms(1)] assms(2) by (force simp: known_statuses_def map_filter_def)

lemma newest_status_known:
  "fst (newest_status ss ms lowest) \<in> set (known_statuses ms ss)"
  by (induction ss ms lowest rule: newest_status.induct) (auto simp: known_statuses_def split: option.splits)

text \<open>A mon is believed to be in the quorum only on the word of a status that no other contradicts.\<close>

lemma believed_vouched:
  assumes "believed ms' lowest m s"
  shows "(mon_rank m \<in> set (ms_quorum ms') \<and> lowest \<le> ms_election_epoch ms') \<or>
    (\<exists>st. Option.bind s mon_local = Some st \<and> ms_rank st \<in> set (ms_quorum st) \<and> lowest \<le> ms_election_epoch st)"
  using assms
  by (auto simp: believed_def cluster_opinion_def local_opinion_def Let_def split: option.splits if_splits)

lemma believed_running:
  assumes "believed ms' lowest m (Some sv)" and "mon_local sv = Some st"
  shows "mon_running sv"
  using assms by (auto simp: believed_def local_opinion_def Let_def split: if_splits)

lemma without_minority_in_quorum:
  assumes "x \<in> set (without_minority vs)" and "in_quorum x"
  shows "x \<in> set vs"
  using assms by (auto simp: without_minority_def split: if_splits)

lemma without_minority_majority:
  "filter in_quorum (without_minority vs) = []
    \<or> length vs div 2 < length (filter in_quorum (without_minority vs))"
  by (auto simp: without_minority_def filter_empty_conv)

lemma map_without_minority [simp]:
  assumes "\<And>m. f (m\<lparr>in_quorum := False\<rparr>) = f m"
  shows "map f (without_minority vs) = map f vs"
  using assms by (simp add: without_minority_def)

text \<open>The status that \<open>reconcile\<close> settles on, and the bound on the epochs.\<close>

definition settled :: "mon_status_data \<Rightarrow> mon_service option list \<Rightarrow> mon_status_data \<times> int" where
  "settled ms ss = newest_status (take (length (ms_mons ms)) ss) ms (ms_election_epoch ms)"

lemma reconcile_settled:
  "reconcile ms ss = without_minority (map (view_mon (fst (settled ms ss)) (snd (settled ms ss))) (zip (ms_mons ms) ss))"
  by (simp add: reconcile_def settled_def split_beta)

text \<open>A status that no known one is newer than has the mon, or the daemon's own rank, in its quorum.\<close>

definition vouched :: "mon_status_data \<Rightarrow> mon_service option list \<Rightarrow> mon_view \<Rightarrow> bool" where
  "vouched ms ss v \<longleftrightarrow> (\<exists>(m, s) \<in> set (zip (ms_mons ms) ss). mv_mon v = m \<and> mv_status v = Option.bind s mon_local
     \<and> (\<forall>sv. s = Some sv \<and> mon_local sv \<noteq> None \<longrightarrow> mon_running sv)
     \<and> (\<exists>st \<in> set (known_statuses ms ss). (\<forall>other \<in> set (known_statuses ms ss). ms_election_epoch other \<le> ms_election_epoch st)
          \<and> (mon_rank m \<in> set (ms_quorum st) \<or> mv_status v = Some st \<and> ms_rank st \<in> set (ms_quorum st))))"

text \<open>
  C21. The mons that are reported to be in the quorum are more than half of all mons, or there are
  none. Each of them is vouched for by a status, that of the cluster or one that a mon daemon
  gave of itself, which no known status is newer than and which has the mon's rank (or the
  daemon's own) in its quorum. A daemon that has reported and is not running is never among
  them.
\<close>

theorem quorum_is_vouched_for:
  assumes "length ss = length (ms_mons ms)"
  shows "map mv_mon (reconcile ms ss) = ms_mons ms
    \<and> (filter in_quorum (reconcile ms ss) = []
        \<or> length (ms_mons ms) div 2 < length (filter in_quorum (reconcile ms ss)))
    \<and> (\<forall>v \<in> set (reconcile ms ss). in_quorum v \<longrightarrow>
        vouched ms ss v)"
proof -
  obtain ms' lowest where st: "settled ms ss = (ms', lowest)" by (cases "settled ms ss")
  have st': "newest_status ss ms (ms_election_epoch ms) = (ms', lowest)"
    using st assms by (simp add: settled_def)
  have bounds: "ms_election_epoch other \<le> lowest" if "other \<in> set (known_statuses ms ss)" for other
    using newest_status_bounds [of ms "ms_election_epoch ms" ss] st' that by simp
  have known: "ms' \<in> set (known_statuses ms ss)"
    using newest_status_known [of ss ms "ms_election_epoch ms"] st' by simp
  have mons: "map mv_mon (reconcile ms ss) = ms_mons ms"
    using assms by (simp add: reconcile_settled view_mon_def split_beta comp_def)
  have len: "length (ms_mons ms) = length (map (view_mon ms' lowest) (zip (ms_mons ms) ss))"
    using assms by simp
  have vouched: "vouched ms ss v"
    if v: "v \<in> set (reconcile ms ss)" "in_quorum v" for v
  proof -
    from v st have "v \<in> set (map (view_mon ms' lowest) (zip (ms_mons ms) ss))"
      by (auto simp: reconcile_settled dest: without_minority_in_quorum)
    then obtain m s where ms: "(m, s) \<in> set (zip (ms_mons ms) ss)" "v = view_mon ms' lowest (m, s)" by auto
    with v(2) have b: "believed ms' lowest m s" by (simp add: view_mon_def)
    have "mon_running sv" if "s = Some sv" "mon_local sv \<noteq> None" for sv
      using b that believed_running by blast
    moreover obtain st where "st \<in> set (known_statuses ms ss)"
        "mon_rank m \<in> set (ms_quorum st) \<or> Option.bind s mon_local = Some st \<and> ms_rank st \<in> set (ms_quorum st)"
        "lowest \<le> ms_election_epoch st"
      using believed_vouched [OF b] known own_status_known [OF ms(1)] by blast
    moreover have "mv_mon v = m" "mv_status v = Option.bind s mon_local" using ms(2) by (simp_all add: view_mon_def)
    moreover have "\<forall>other \<in> set (known_statuses ms ss). ms_election_epoch other \<le> ms_election_epoch st"
      using bounds \<open>lowest \<le> ms_election_epoch st\<close> order_trans by blast
    ultimately show ?thesis
      using ms(1) unfolding vouched_def by (intro bexI [of _ "(m, s)"] bexI [of _ st]) auto
  qed
  show ?thesis
    using mons without_minority_majority [of "map (view_mon ms' lowest) (zip (ms_mons ms) ss)"] vouched len st
    by (simp only: reconcile_settled fst_conv snd_conv simp_thms) blast
qed

text \<open>Three mons, all in the cluster's quorum; the daemon of the third has stopped.\<close>

definition three_mons :: mon_status_data where
  "three_mons = \<lparr>ms_mons = [\<lparr>mon_rank = 0, mon_name = ''a'', mon_addr = ''10.0.0.1''\<rparr>,
     \<lparr>mon_rank = 1, mon_name = ''b'', mon_addr = ''10.0.0.2''\<rparr>, \<lparr>mon_rank = 2, mon_name = ''c'', mon_addr = ''10.0.0.3''\<rparr>],
     ms_quorum = [0, 1, 2], ms_election_epoch = 4, ms_rank = 0\<rparr>"

definition two_daemons :: "mon_service option list" where
  "two_daemons = [None, Some \<lparr>mon_running = True, mon_server = ''n1'', mon_local = Some (three_mons\<lparr>ms_rank := 1\<rparr>)\<rparr>,
     Some \<lparr>mon_running = False, mon_server = ''n2'', mon_local = Some (three_mons\<lparr>ms_rank := 2\<rparr>)\<rparr>]"

theorem quorum_is_vouched_for_witness:
  "map in_quorum (reconcile three_mons two_daemons) = [True, True, False]
    \<and> vouched three_mons two_daemons (hd (reconcile three_mons two_daemons))"
proof -
  have q: "map in_quorum (reconcile three_mons two_daemons) = [True, True, False]" by code_simp
  have "length two_daemons = length (ms_mons three_mons)" by code_simp
  from quorum_is_vouched_for [OF this] q show ?thesis
    by (cases "reconcile three_mons two_daemons") auto
qed

end
