(* ===== verification/RestPools.thy ===== *)
theory RestPools
  imports RestBase
begin

text \<open>
  The pools of the REST API (calamari_rest/views/v2.py, PoolViewSet): what a client may post,
  the checks against the pools, rules and configuration of the cluster, and the requests
  that result.
\<close>

unbundle bit_operations_syntax

section \<open>Pools as objects\<close>

definition FLAG_HASHPSPOOL :: int where "FLAG_HASHPSPOOL = 1"

definition FLAG_FULL :: int where "FLAG_FULL = 2"

definition hashpspool :: "pool \<Rightarrow> bool" where
  "hashpspool p = (pool_flags p AND FLAG_HASHPSPOOL \<noteq> 0)"

definition full :: "pool \<Rightarrow> bool" where
  "full p = (pool_flags p AND FLAG_FULL \<noteq> 0)"

definition pool_serializer :: "(attributes option \<Rightarrow> errors) \<Rightarrow> (attributes \<Rightarrow> string \<Rightarrow> jval) \<Rightarrow> serializer" where
  "pool_serializer fe fv =
     (let allowed = [''name'', ''pg_num'', ''pgp_num'', ''size'', ''min_size'', ''crash_replay_interval'', ''crush_ruleset'',
        ''quota_max_objects'', ''quota_max_bytes'', ''hashpspool'']
      in \<lparr>create_allowed = allowed, create_required = [''name'', ''pg_num''], modify_allowed = allowed,
          modify_required = [], field_errors = fe, field_value = fv\<rparr>)"

section \<open>Configuration\<close>

definition int_config :: "(string, string) dict \<Rightarrow> string \<Rightarrow> exn + int" where
  "int_config c k = then_do (item c k k) int_text"

section \<open>Defaults\<close>

definition config_to_bool :: "string \<Rightarrow> exn + bool" where
  "config_to_bool v = (let t = lower v in item [(''true'', True), (''false'', False)] t t)"

definition default_ruleset :: "(string, string) dict \<Rightarrow> int list \<Rightarrow> exn + int" where
  "default_ruleset c ids =
     then_do (int_config c ''osd_pool_default_crush_rule'') (\<lambda>old.
     if old \<in> set ids then Inr old
     else then_do (case map_of c ''osd_pool_default_crush_replicated_ruleset'' of None \<Rightarrow> Inr (- 1) | Some t \<Rightarrow> int_text t) (\<lambda>new.
       if new \<in> set ids then int_config c ''osd_pool_default_crush_replicated_ruleset'' else Inr (hd ids)))"

definition pool_defaults :: "nat \<Rightarrow> string \<Rightarrow> (manager, attributes) view" where
  "pool_defaults k fsid =
     bnd (ceph_config fsid) (\<lambda>c.
     bnd (list_rules k fsid) (\<lambda>rules.
     if c = [] then ret (response 503 (Message ''Cluster configuration unavailable''))
     else if rules = [] then ret (response 503 (Message ''No CRUSH rules exist, pool creation is impossible''))
     else lift_exn (
       then_do (default_ruleset c (sorted_list_of_set (set (map ruleset rules)))) (\<lambda>rs.
       then_do (int_config c ''osd_pool_default_size'') (\<lambda>sz.
       then_do (int_config c ''osd_pool_default_min_size'') (\<lambda>m.
       then_do (then_do (item c ''osd_pool_default_flag_hashpspool'' ''osd_pool_default_flag_hashpspool'') config_to_bool) (\<lambda>h.
       Inr (response 200 (Data [(''size'', JInt sz), (''crush_ruleset'', JInt rs), (''min_size'', JInt m),
         (''hashpspool'', JBool h), (''crash_replay_interval'', JInt 0), (''quota_max_objects'', JInt 0),
         (''quota_max_bytes'', JInt 0)])))))))))"

section \<open>The checks\<close>

definition add_error :: "string \<Rightarrow> string \<Rightarrow> errors \<Rightarrow> errors" where
  "add_error k m e = AList.update k (get_default e k [] @ [m]) e"

text \<open>Python's \<open><\<close>: None is less than numbers, and numbers are less than all other values.\<close>

fun less_jval :: "jval \<Rightarrow> jval \<Rightarrow> bool" where
  "less_jval JNull b = (b \<noteq> JNull)"
| "less_jval a b = (case (number_of a, number_of b) of
     (Some x, Some y) \<Rightarrow> x < y | (Some x, None) \<Rightarrow> b \<noteq> JNull | _ \<Rightarrow> False)"

text \<open>\<open>pid\<close> is the text in the URL, None for a new pool.\<close>

definition check_name_unique :: "nat \<Rightarrow> string \<Rightarrow> string option \<Rightarrow> attributes \<Rightarrow> errors \<Rightarrow> errors mg_py" where
  "check_name_unique k fsid pid data e =
     bnd (list_pools k fsid) (\<lambda>ps.
     let ids = dict_of (map (\<lambda>p. (JStr (pool_name p), JInt (pool_id p))) ps);
         found = get_default ids (get_default data ''name'' JNull) JNull;
         own = (case pid of None \<Rightarrow> JNull | Some t \<Rightarrow> JStr t)
     in if found = JNull \<or> found = own then ret e
        else bnd (lift_exn (item data ''name'' ''name'')) (\<lambda>n.
          ret (add_error ''name'' (''Pool with name '' @ str_jval n @ '' already exists'') e)))"

definition check_crush_ruleset :: "nat \<Rightarrow> string \<Rightarrow> attributes \<Rightarrow> errors \<Rightarrow> errors mg_py" where
  "check_crush_ruleset k fsid data e = (case map_of data ''crush_ruleset'' of
       None \<Rightarrow> ret e
     | Some v \<Rightarrow> bnd (list_rules k fsid) (\<lambda>rules.
         ret (if v \<in> set (map (\<lambda>r. JInt (ruleset r)) rules) then e
              else add_error ''crush_ruleset'' (''CRUSH ruleset '' @ str_jval v @ '' not found'') e)))"

definition check_pgp_less_than_pg_num :: "attributes \<Rightarrow> errors \<Rightarrow> errors" where
  "check_pgp_less_than_pg_num data e = (case (map_of data ''pgp_num'', map_of data ''pg_num'') of
       (Some pgp, Some pg) \<Rightarrow> (if less_jval pg pgp then add_error ''pgp_num'' ''must be >= to pg_num'' e else e)
     | _ \<Rightarrow> e)"

definition compare_with :: "attributes \<Rightarrow> string \<times> int \<Rightarrow> errors \<Rightarrow> errors" where
  "compare_with data x e = (case x of (k, now) \<Rightarrow> case map_of data k of
       None \<Rightarrow> e
     | Some v \<Rightarrow> (if less_jval v (JInt now) then add_error k (''must be >= than current '' @ k) e else e))"

definition check_pg_nums_dont_decrease :: "string \<Rightarrow> string option \<Rightarrow> attributes \<Rightarrow> errors \<Rightarrow> errors mg_py" where
  "check_pg_nums_dont_decrease fsid pid data e = (case pid of
       None \<Rightarrow> ret e
     | Some t \<Rightarrow> bnd (lift_exn (int_text t)) (\<lambda>i. bnd (get_pool fsid i) (\<lambda>p.
         ret (fold (compare_with data) [(''pg_num'', pg_num p), (''pgp_num'', pg_placement_num p)] e))))"

text \<open>Without a configuration the response that the check returns is dropped by its caller.\<close>

definition check_pg_num_inside_config_bounds :: "string \<Rightarrow> attributes \<Rightarrow> errors \<Rightarrow> errors mg_py" where
  "check_pg_num_inside_config_bounds fsid data e =
     bnd (ceph_config fsid) (\<lambda>c. case map_of data ''pg_num'' of
         None \<Rightarrow> ret e
       | Some v \<Rightarrow>
           if c = [] then ret e
           else bnd (lift_exn (int_config c ''mon_max_pool_pg_num'')) (\<lambda>m.
             ret (if less_jval (JInt m) v
               then add_error ''pg_num'' (''requested pg_num must be <= than current limit of '' @ get_default c ''mon_max_pool_pg_num'' []) e
               else e)))"

text \<open>None if there is nothing to object to.\<close>

definition validate_semantics :: "nat \<Rightarrow> string \<Rightarrow> string option \<Rightarrow> attributes \<Rightarrow> 'a http option mg_py" where
  "validate_semantics k fsid pid data =
     bnd (check_name_unique k fsid pid data []) (\<lambda>e1.
     bnd (check_crush_ruleset k fsid data e1) (\<lambda>e2.
     bnd (check_pg_nums_dont_decrease fsid pid data (check_pgp_less_than_pg_num data e2)) (\<lambda>e3.
     bnd (check_pg_num_inside_config_bounds fsid data e3) (\<lambda>e4.
     ret (if e4 = [] then None
          else Some (response (if has_key e4 ''name'' then 409 else 400) (FieldErrors e4)))))))"

section \<open>The views\<close>

text \<open>\<open>pub\<close>, \<open>rid\<close> and \<open>t\<close> are what the server uses for the new request, as in the RPCs.\<close>

definition create_pool ::
  "nat \<Rightarrow> serializer \<Rightarrow> (nat \<Rightarrow> string option) \<Rightarrow> string \<Rightarrow> time \<Rightarrow> string \<Rightarrow> attributes option \<Rightarrow> (manager, string) view" where
  "create_pool k z pub rid t fsid data =
     (if is_valid z ''POST'' data then
        bnd (lift_exn (serializer_data z data)) (\<lambda>a.
        bnd (validate_semantics k fsid None a) (\<lambda>refused. case refused of
             Some r \<Rightarrow> ret r
           | None \<Rightarrow> bnd (rpc_create pub rid t fsid POOL (Attrs a)) accepted))
      else ret (invalid z ''POST'' data))"

definition update_pool ::
  "nat \<Rightarrow> serializer \<Rightarrow> (nat \<Rightarrow> string option) \<Rightarrow> string \<Rightarrow> time \<Rightarrow> string \<Rightarrow> string \<Rightarrow> attributes option \<Rightarrow> (manager, string) view" where
  "update_pool k z pub rid t fsid pid data =
     (if is_valid z ''PATCH'' data then
        bnd (lift_exn (serializer_data z data)) (\<lambda>a.
        bnd (validate_semantics k fsid (Some pid) a) (\<lambda>refused. case refused of
             Some r \<Rightarrow> ret r
           | None \<Rightarrow> bnd (lift_exn (int_text pid)) (\<lambda>i.
               bnd (rpc_update pub rid t fsid POOL i (Attrs a)) (\<lambda>x. ret (return_request x)))))
      else ret (invalid z ''PATCH'' data))"

definition destroy_pool ::
  "(nat \<Rightarrow> string option) \<Rightarrow> string \<Rightarrow> time \<Rightarrow> string \<Rightarrow> string \<Rightarrow> (manager, string option) view" where
  "destroy_pool pub rid t fsid pid =
     bnd (lift_exn (int_text pid)) (\<lambda>i.
     bnd (rpc_delete pub rid t fsid POOL i) (\<lambda>x. ret (response 202 (Data x))))"

definition retrieve_pool :: "string \<Rightarrow> string \<Rightarrow> (manager, pool \<times> bool \<times> bool) view" where
  "retrieve_pool fsid pid =
     bnd (lift_exn (int_text pid)) (\<lambda>i.
     bnd (get_pool fsid i) (\<lambda>p. ret (response 200 (Data (p, hashpspool p, full p)))))"

definition list_pool_objects :: "nat \<Rightarrow> string \<Rightarrow> (manager, (pool \<times> bool \<times> bool) list) view" where
  "list_pool_objects k fsid =
     bnd (list_pools k fsid) (\<lambda>ps. ret (response 200 (Data (map (\<lambda>p. (p, hashpspool p, full p)) ps))))"

section \<open>The checks against the cluster\<close>

definition knows :: "manager \<Rightarrow> string \<Rightarrow> osd_map_data \<Rightarrow> (string, string) dict \<Rightarrow> bool" where
  "knows w fsid d cfg \<longleftrightarrow> (\<exists>c. map_of (clusters w) fsid = Some c \<and> cluster_osd_map c = Some d
     \<and> SyncObjects.get_data (cl_sync c) Config = Some (DConfig cfg))"

lemma fs_resolve_run: "map_of (clusters w) fsid = Some c \<Longrightarrow> fs_resolve fsid w = (Inr c, w)"
  by (simp add: fs_resolve_def key_error_as_def try_except_def the_cluster_run)

lemma config_type: "item SYNC_OBJECT_STR_TYPE ''config'' ''config'' = Inr Config"
  using sync_str_type [of Config] by simp

lemma reads_run [simp]:
  assumes "knows w fsid d cfg"
  shows "list_pools k fsid w = (Inr (om_pools d), w)"
    and "list_rules k fsid w = (Inr (om_rules d), w)"
    and "ceph_config fsid w = (Inr cfg, w)"
    and "map_of (pools_by_id (Some d)) i = Some p \<Longrightarrow> get_pool fsid i w = (Inr p, w)"
  using assms config_type
  by (auto simp: knows_def list_pools_def list_rules_def ceph_config_def get_pool_def rpc_list_def rpc_get_def
      rpc_get_sync_object_def bnd_def fs_resolve_run ret_def lift_exn_def CRUSH_RULE_def
      pool_resolve_def key_error_as_def try_except_def)

text \<open>What the data of a request says of a pool, as a predicate; \<open>p\<close> is the pool to be changed.\<close>

definition name_taken :: "osd_map_data \<Rightarrow> attributes \<Rightarrow> bool" where
  "name_taken d a \<longleftrightarrow> (\<exists>p \<in> set (om_pools d). map_of a ''name'' = Some (JStr (pool_name p)))"

definition ruleset_exists :: "osd_map_data \<Rightarrow> attributes \<Rightarrow> bool" where
  "ruleset_exists d a \<longleftrightarrow> (\<forall>v. map_of a ''crush_ruleset'' = Some v \<longrightarrow> v \<in> (\<lambda>r. JInt (ruleset r)) ` set (om_rules d))"

definition given_int :: "attributes \<Rightarrow> string \<Rightarrow> int \<Rightarrow> bool" where
  "given_int a k i \<longleftrightarrow> map_of a k = Some (JInt i)"

definition pg_nums_fit :: "(string, string) dict \<Rightarrow> pool option \<Rightarrow> attributes \<Rightarrow> bool" where
  "pg_nums_fit cfg p a \<longleftrightarrow>
     (\<forall>i j. given_int a ''pgp_num'' i \<and> given_int a ''pg_num'' j \<longrightarrow> i \<le> j)
     \<and> (\<forall>i m. given_int a ''pg_num'' i \<and> int_config cfg ''mon_max_pool_pg_num'' = Inr m \<longrightarrow> i \<le> m)
     \<and> (\<forall>x i. p = Some x \<and> given_int a ''pg_num'' i \<longrightarrow> pg_num x \<le> i)
     \<and> (\<forall>x i. p = Some x \<and> given_int a ''pgp_num'' i \<longrightarrow> pg_placement_num x \<le> i)"

definition numeric :: "attributes \<Rightarrow> bool" where
  "numeric a \<longleftrightarrow> (\<forall>k \<in> {''pg_num'', ''pgp_num''}. \<forall>v. map_of a k = Some v \<longrightarrow> (\<exists>i. v = JInt i))"

lemma update_not_Nil [simp]: "AList.update k v d \<noteq> []"
  by (cases d) auto

lemma add_error_not_Nil [simp]: "add_error k m e \<noteq> []"
  by (simp add: add_error_def)

lemma add_error_key [simp]: "has_key (add_error k m e) k' \<longleftrightarrow> k' = k \<or> has_key e k'"
  by (simp add: add_error_def)

lemma less_jval_ints [simp]: "less_jval (JInt x) (JInt y) \<longleftrightarrow> x < y"
  by simp

text \<open>A check leaves the errors alone, or adds one for \<open>key\<close>.\<close>

definition checked :: "bool \<Rightarrow> string \<Rightarrow> errors \<Rightarrow> errors \<Rightarrow> bool" where
  "checked good k e e' \<longleftrightarrow> (if good then e' = e else (\<exists>m. e' = add_error k m e))"

lemma checked_empty: "checked good k e e' \<Longrightarrow> e' = [] \<longleftrightarrow> good \<and> e = []"
  by (auto simp: checked_def split: if_splits)

lemma checked_key: "checked good k e e' \<Longrightarrow> has_key e' j \<longleftrightarrow> has_key e j \<or> (\<not> good \<and> j = k)"
  by (auto simp: checked_def split: if_splits)

lemma dict_of_map_None: "map_of (dict_of (map (\<lambda>x. (f x, g x)) xs)) key = None \<longleftrightarrow> key \<notin> f ` set xs"
  by (auto simp: map_of_eq_None_iff image_iff)

lemma dict_of_map_Some:
  "map_of (dict_of (map (\<lambda>x. (f x, g x)) xs)) key = Some v \<Longrightarrow> \<exists>x \<in> set xs. f x = key \<and> v = g x"
  by (auto dest!: map_of_SomeD)

lemma get_default_cases:
  "map_of m x = None \<Longrightarrow> get_default m x y = y"
  "map_of m x = Some v \<Longrightarrow> get_default m x y = v"
  by (simp_all add: get_default_def)

lemma name_taken_iff:
  "name_taken d a \<longleftrightarrow> get_default a ''name'' JNull \<in> (\<lambda>p. JStr (pool_name p)) ` set (om_pools d)"
  by (cases "map_of a ''name''") (auto simp: name_taken_def get_default_cases)

lemma found_name:
  fixes a :: attributes and d :: osd_map_data
  defines "found \<equiv> get_default (dict_of (map (\<lambda>p. (JStr (pool_name p), JInt (pool_id p))) (om_pools d))) (get_default a ''name'' JNull) JNull"
  shows "found = JNull \<and> \<not> name_taken d a
     \<or> (\<exists>i n. found = JInt i \<and> name_taken d a \<and> map_of a ''name'' = Some (JStr n))"
proof (cases "map_of (dict_of (map (\<lambda>p. (JStr (pool_name p), JInt (pool_id p))) (om_pools d))) (get_default a ''name'' JNull)")
  case None
  then have "found = JNull" unfolding found_def by (rule get_default_cases(1))
  moreover from None have "\<not> name_taken d a" unfolding dict_of_map_None name_taken_iff .
  ultimately show ?thesis by blast
next
  case (Some v)
  then have "found = v" unfolding found_def by (rule get_default_cases(2))
  moreover from dict_of_map_Some [OF Some] obtain p where p: "p \<in> set (om_pools d)"
    "JStr (pool_name p) = get_default a ''name'' JNull" "v = JInt (pool_id p)" by blast
  moreover from p(1,2) have "name_taken d a" unfolding name_taken_iff by force
  moreover from this have "\<exists>n. map_of a ''name'' = Some (JStr n)" unfolding name_taken_def by blast
  ultimately show ?thesis by blast
qed

lemma check_name_unique_run:
  assumes "knows w fsid d cfg"
  shows "\<exists>e'. check_name_unique k fsid pid a e w = (Inr e', w) \<and> checked (\<not> name_taken d a) ''name'' e e'"
proof -
  let ?found = "get_default (dict_of (map (\<lambda>p. (JStr (pool_name p), JInt (pool_id p))) (om_pools d))) (get_default a ''name'' JNull) JNull"
  from found_name [of d a]
  consider "?found = JNull" "\<not> name_taken d a" | i n where "?found = JInt i" "name_taken d a" "map_of a ''name'' = Some (JStr n)"
    by (auto simp: name_taken_def)
  then show ?thesis
    by cases (use assms in \<open>auto simp: check_name_unique_def bnd_def Let_def ret_def lift_exn_def checked_def split: option.split\<close>)
qed

lemma check_crush_ruleset_run:
  assumes "knows w fsid d cfg"
  shows "\<exists>e'. check_crush_ruleset k fsid a e w = (Inr e', w) \<and> checked (ruleset_exists d a) ''crush_ruleset'' e e'"
  using assms
  by (cases "map_of a ''crush_ruleset''")
     (auto simp: check_crush_ruleset_def bnd_def ret_def checked_def ruleset_exists_def)

definition pgp_fits :: "attributes \<Rightarrow> bool" where
  "pgp_fits a \<longleftrightarrow> (\<forall>i j. given_int a ''pgp_num'' i \<and> given_int a ''pg_num'' j \<longrightarrow> i \<le> j)"

definition below_limit :: "(string, string) dict \<Rightarrow> attributes \<Rightarrow> bool" where
  "below_limit cfg a \<longleftrightarrow> (\<forall>i m. given_int a ''pg_num'' i \<and> int_config cfg ''mon_max_pool_pg_num'' = Inr m \<longrightarrow> i \<le> m)"

definition not_less :: "int \<Rightarrow> string \<Rightarrow> attributes \<Rightarrow> bool" where
  "not_less now k a \<longleftrightarrow> (\<forall>i. given_int a k i \<longrightarrow> now \<le> i)"

lemma pg_nums_fit_alt:
  "pg_nums_fit cfg p a \<longleftrightarrow> pgp_fits a \<and> below_limit cfg a
     \<and> (\<forall>x. p = Some x \<longrightarrow> not_less (pg_num x) ''pg_num'' a \<and> not_less (pg_placement_num x) ''pgp_num'' a)"
  by (auto simp: pg_nums_fit_def pgp_fits_def below_limit_def not_less_def)

lemma numeric_cases:
  assumes "numeric a" and "k \<in> {''pg_num'', ''pgp_num''}"
  obtains "map_of a k = None" "\<And>i. \<not> given_int a k i"
  | i where "map_of a k = Some (JInt i)" "\<And>j. given_int a k j \<longleftrightarrow> j = i"
proof (cases "map_of a k")
  case None
  then show thesis by (intro that(1)) (simp_all add: given_int_def)
next
  case (Some v)
  with assms obtain i where "v = JInt i" unfolding numeric_def by blast
  with Some show thesis by (intro that(2) [of i]) (auto simp: given_int_def)
qed

lemma check_pgp_run:
  assumes "numeric a"
  shows "checked (pgp_fits a) ''pgp_num'' e (check_pgp_less_than_pg_num a e)"
proof -
  have p: "numeric a" "''pgp_num'' \<in> {''pg_num'', ''pgp_num''}" and q: "''pg_num'' \<in> {''pg_num'', ''pgp_num''}"
    using assms by auto
  from p show ?thesis
  proof (cases rule: numeric_cases)
    case 1
    then show ?thesis by (simp add: check_pgp_less_than_pg_num_def checked_def pgp_fits_def)
  next
    case pgp: (2 i)
    from p(1) q show ?thesis
      by (cases rule: numeric_cases)
         (use pgp in \<open>auto simp: check_pgp_less_than_pg_num_def checked_def pgp_fits_def\<close>)
  qed
qed

lemma compare_with_run:
  assumes "numeric a" and "k \<in> {''pg_num'', ''pgp_num''}"
  shows "checked (not_less now k a) k e (compare_with a (k, now) e)"
  using assms
  by (cases rule: numeric_cases) (auto simp: compare_with_def checked_def not_less_def)

lemma check_config_run:
  assumes "knows w fsid d cfg" and "numeric a" and "cfg = [] \<or> (\<exists>m. int_config cfg ''mon_max_pool_pg_num'' = Inr m)"
  shows "\<exists>e'. check_pg_num_inside_config_bounds fsid a e w = (Inr e', w) \<and> checked (below_limit cfg a) ''pg_num'' e e'"
proof -
  have k: "''pg_num'' \<in> {''pg_num'', ''pgp_num''}" by simp
  from assms(2) k show ?thesis
  proof (cases rule: numeric_cases)
    case 1
    then show ?thesis
      using assms(1) by (simp add: check_pg_num_inside_config_bounds_def bnd_def ret_def checked_def below_limit_def)
  next
    case (2 i)
    show ?thesis
    proof (cases "cfg = []")
      case True
      then have "below_limit cfg a" by (auto simp: below_limit_def int_config_def then_do_eq_Inr)
      with True 2 assms(1) show ?thesis
        by (simp add: check_pg_num_inside_config_bounds_def bnd_def ret_def checked_def)
    next
      case False
      with assms(3) obtain m where "int_config cfg ''mon_max_pool_pg_num'' = Inr m" by blast
      with False 2 assms(1) show ?thesis
        by (auto simp: check_pg_num_inside_config_bounds_def bnd_def ret_def lift_exn_def checked_def below_limit_def)
    qed
  qed
qed

definition addresses :: "osd_map_data \<Rightarrow> string option \<Rightarrow> pool option \<Rightarrow> bool" where
  "addresses d pid p \<longleftrightarrow> (case pid of
       None \<Rightarrow> p = None
     | Some t \<Rightarrow> (\<exists>i x. int_text t = Inr i \<and> map_of (pools_by_id (Some d)) i = Some x \<and> p = Some x))"

lemma check_decrease_run:
  assumes "knows w fsid d cfg" and "numeric a" and "addresses d pid p"
  shows "\<exists>e1 e'. check_pg_nums_dont_decrease fsid pid a e w = (Inr e', w)
    \<and> checked (\<forall>x. p = Some x \<longrightarrow> not_less (pg_num x) ''pg_num'' a) ''pg_num'' e e1
    \<and> checked (\<forall>x. p = Some x \<longrightarrow> not_less (pg_placement_num x) ''pgp_num'' a) ''pgp_num'' e1 e'"
proof (cases pid)
  case None
  with assms(3) show ?thesis by (simp add: addresses_def check_pg_nums_dont_decrease_def ret_def checked_def)
next
  case (Some t)
  with assms(3) obtain i x where x: "int_text t = Inr i" "map_of (pools_by_id (Some d)) i = Some x" "p = Some x"
    by (auto simp: addresses_def)
  let ?e1 = "compare_with a (''pg_num'', pg_num x) e"
  have "checked (not_less (pg_num x) ''pg_num'' a) ''pg_num'' e ?e1"
    and "checked (not_less (pg_placement_num x) ''pgp_num'' a) ''pgp_num'' ?e1 (compare_with a (''pgp_num'', pg_placement_num x) ?e1)"
    by (rule compare_with_run [OF assms(2)], simp)+
  moreover have "check_pg_nums_dont_decrease fsid pid a e w = (Inr (compare_with a (''pgp_num'', pg_placement_num x) ?e1), w)"
    using Some x(1) reads_run(4) [OF assms(1) x(2)]
    by (simp add: check_pg_nums_dont_decrease_def bnd_def lift_exn_def ret_def)
  ultimately show ?thesis using x(3) by auto
qed

lemma validate_run:
  assumes "knows w fsid d cfg" and "numeric a" and "cfg = [] \<or> (\<exists>m. int_config cfg ''mon_max_pool_pg_num'' = Inr m)"
    and "addresses d pid p"
  shows "\<exists>e. validate_semantics k fsid pid a w =
        (Inr (if e = [] then None else Some (response (if name_taken d a then 409 else 400) (FieldErrors e))), w)
    \<and> (e = [] \<longleftrightarrow> \<not> name_taken d a \<and> ruleset_exists d a \<and> pg_nums_fit cfg p a)"
proof -
  obtain e1 where e1: "check_name_unique k fsid pid a [] w = (Inr e1, w)" "checked (\<not> name_taken d a) ''name'' [] e1"
    using check_name_unique_run [OF assms(1)] by blast
  obtain e2 where e2: "check_crush_ruleset k fsid a e1 w = (Inr e2, w)" "checked (ruleset_exists d a) ''crush_ruleset'' e1 e2"
    using check_crush_ruleset_run [OF assms(1)] by blast
  let ?e3 = "check_pgp_less_than_pg_num a e2"
  have e3: "checked (pgp_fits a) ''pgp_num'' e2 ?e3" by (rule check_pgp_run [OF assms(2)])
  obtain e4 e5 where e5: "check_pg_nums_dont_decrease fsid pid a ?e3 w = (Inr e5, w)"
    "checked (\<forall>x. p = Some x \<longrightarrow> not_less (pg_num x) ''pg_num'' a) ''pg_num'' ?e3 e4"
    "checked (\<forall>x. p = Some x \<longrightarrow> not_less (pg_placement_num x) ''pgp_num'' a) ''pgp_num'' e4 e5"
    using check_decrease_run [OF assms(1,2,4)] by blast
  obtain e6 where e6: "check_pg_num_inside_config_bounds fsid a e5 w = (Inr e6, w)" "checked (below_limit cfg a) ''pg_num'' e5 e6"
    using check_config_run [OF assms(1-3)] by blast
  note steps = e1(2) e2(2) e3 e5(2,3) e6(2)
  have empty: "e6 = [] \<longleftrightarrow> \<not> name_taken d a \<and> ruleset_exists d a \<and> pg_nums_fit cfg p a"
    using steps [THEN checked_empty] by (auto simp: pg_nums_fit_alt)
  have "has_key e6 ''name'' \<longleftrightarrow> name_taken d a"
    using steps [THEN checked_key, of "''name''"] by (simp add: has_key_def)
  with empty e1(1) e2(1) e5(1) e6(1) show ?thesis
    by (intro exI [of _ e6]) (auto simp: validate_semantics_def bnd_def ret_def)
qed

section \<open>A cluster with one pool\<close>

definition pool_config :: "(string, string) dict" where
  "pool_config = [(''mon_max_pool_pg_num'', ''64'')]"

definition pool_cluster :: cluster where
  "pool_cluster = demo_cluster\<lparr>cl_sync := (init_sync_objects ''ceph'')\<lparr>objects :=
     (\<lambda>ty. if ty = OsdMap then mk_sync_object (VInt 1) (Some (DOsd one_rule_map))
       else mk_sync_object (VInt 1) (Some (DConfig pool_config)))\<rparr>\<rparr>"

definition pool_manager :: manager where
  "pool_manager = late_manager\<lparr>clusters := [(''f'', pool_cluster)]\<rparr>"

definition plain_serializer :: serializer where
  "plain_serializer = pool_serializer (\<lambda>_. []) (\<lambda>a k. get_default a k JNull)"

lemma plain_value [simp]: "field_value plain_serializer a k = get_default a k JNull"
  by (simp add: plain_serializer_def pool_serializer_def Let_def)

lemma knows_pool_manager: "knows pool_manager ''f'' one_rule_map pool_config"
  by (simp add: knows_def pool_manager_def pool_cluster_def cluster_osd_map_def SyncObjects.get_data_def
      mk_sync_object_def osd_map_of_def init_osd_map_def one_rule_map_def filter_crush_nodes_def)

lemma pool_limit: "int_config pool_config ''mon_max_pool_pg_num'' = Inr 64"
  by code_simp

text \<open>
  C20. What happens to the data of a POST to the pools of a cluster whose maps the server has: data
  that the serializer refuses gets 400; if a pool has the name already, 409; if the rule set is
  unknown, or the PG numbers are above the limit or the wrong way round, 400; in all these cases
  the server's state stays as it is. All other data becomes a creation request to the server.
\<close>

theorem pool_creation_is_checked:
  assumes "knows w fsid d cfg" and "numeric (get_fields z a)"
    and "cfg = [] \<or> (\<exists>m. int_config cfg ''mon_max_pool_pg_num'' = Inr m)"
  shows "if \<not> is_valid z ''POST'' (Some a)
    then create_pool k z pub rid t fsid (Some a) w = (Inr (invalid z ''POST'' (Some a)), w)
    else if name_taken d (get_fields z a)
    then (\<exists>e. create_pool k z pub rid t fsid (Some a) w = (Inr (response 409 (FieldErrors e)), w))
    else if ruleset_exists d (get_fields z a) \<and> pg_nums_fit cfg None (get_fields z a)
    then create_pool k z pub rid t fsid (Some a) w =
      bnd (rpc_create pub rid t fsid POOL (Attrs (get_fields z a))) accepted w
    else (\<exists>e. create_pool k z pub rid t fsid (Some a) w = (Inr (response 400 (FieldErrors e)), w))"
proof -
  have "addresses d None None" by (simp add: addresses_def)
  from validate_run [OF assms this, of k] obtain e where
    e: "(validate_semantics k fsid None (get_fields z a) :: string http option mg_py) w =
        (Inr (if e = [] then None else Some (response (if name_taken d (get_fields z a) then 409 else 400) (FieldErrors e))), w)"
      "e = [] \<longleftrightarrow> \<not> name_taken d (get_fields z a) \<and> ruleset_exists d (get_fields z a) \<and> pg_nums_fit cfg None (get_fields z a)"
    by blast
  show ?thesis
  proof (cases "is_valid z ''POST'' (Some a)")
    case False
    then show ?thesis by (simp add: create_pool_def ret_def)
  next
    case True
    then have "create_pool k z pub rid t fsid (Some a) w =
      bnd (validate_semantics k fsid None (get_fields z a)) (\<lambda>refused. case refused of
             Some r \<Rightarrow> ret r
           | None \<Rightarrow> bnd (rpc_create pub rid t fsid POOL (Attrs (get_fields z a))) accepted) w"
      by (simp add: create_pool_def serializer_data_def)
    with e(2) True show ?thesis by (auto simp: bnd_Inr [where m = "validate_semantics k fsid None (get_fields z a)" and w = w, OF e(1)] ret_def)
  qed
qed

theorem pool_creation_is_checked_witness:
  "\<exists>e. create_pool 9 plain_serializer (\<lambda>_. None) ''r'' 5 ''f'' (Some [(''name'', JStr ''rbd''), (''pg_num'', JInt 8)]) pool_manager
     = (Inr (response 409 (FieldErrors e)), pool_manager)"
proof -
  let ?a = "[(''name'', JStr ''rbd''), (''pg_num'', JInt 8)]"
  have "numeric (get_fields plain_serializer ?a)"
    by (simp add: numeric_def get_fields_def get_default_def)
  moreover have "is_valid plain_serializer ''POST'' (Some ?a)" by code_simp
  moreover have "name_taken one_rule_map (get_fields plain_serializer ?a)" by code_simp
  ultimately show ?thesis
    using pool_creation_is_checked [OF knows_pool_manager, of plain_serializer ?a 9 "\<lambda>_. None" "''r''" 5] pool_limit by simp
qed



text \<open>
  C36. A PATCH that sets the number of PGs of a pool to what it already is passes all checks of the
  API, since only a decrease is an error, but the server cannot build the request: its progress
  has nothing to do, which is an AssertionError, and the client gets an internal error.
\<close>

theorem unchanged_pg_num_is_an_internal_error:
  assumes "knows w fsid d cfg" and "map_of (clusters w) fsid = Some c" and "cl_favorite c = Some fav"
    and "int_text t = Inr i" and "map_of (pools_by_id (Some d)) i = Some x"
    and "is_valid z ''PATCH'' (Some a)" and "get_fields z a = [(''pg_num'', JInt (pg_num x))]"
    and "int_config cfg ''mon_max_pool_pg_num'' = Inr m" and "pg_num x \<le> m"
    and "max_split_count (context_of rid now c) = Inr split"
  shows "dispatch (update_pool k z pub rid now fsid t (Some a)) w = (Inl AssertionError, w)"
proof -
  have n: "numeric (get_fields z a)" by (simp add: numeric_def assms(7))
  have "addresses d (Some t) (Some x)" using assms(4,5) by (simp add: addresses_def)
  from validate_run [OF assms(1) n _ this, of k] assms(8) obtain e where
    e: "(validate_semantics k fsid (Some t) (get_fields z a) :: string http option mg_py) w =
        (Inr (if e = [] then None else Some (response (if name_taken d (get_fields z a) then 409 else 400) (FieldErrors e))), w)"
      "e = [] \<longleftrightarrow> \<not> name_taken d (get_fields z a) \<and> ruleset_exists d (get_fields z a) \<and> pg_nums_fit cfg (Some x) (get_fields z a)"
    by blast
  have "e = []"
    unfolding e(2) using assms(8,9) by (auto simp: assms(7) name_taken_def ruleset_exists_def pg_nums_fit_def given_int_def)
  with e(1) have v: "(validate_semantics k fsid (Some t) (get_fields z a) :: string http option mg_py) w = (Inr None, w)" by simp
  have om: "cluster_osd_map c = Some d" using assms(1,2) by (auto simp: knows_def)
  have f: "call_factory (context_of rid now c) h POOL (Update i (with_id i (Attrs (get_fields z a)))) = Inl AssertionError" for h
    using assms(5,10) om
    by (simp add: assms(7) with_id_def has_key_def pool_update_def resolve_pool_def the_osd_map_def context_of_def
        cluster_osd_map_def clamp_min_size_def grow_pool_def get_default_def new_pg_creating_def pg_progress_init_def
        advance_goal_def is_final_block_def Let_def then_do_def)
  have "rpc_update pub rid now fsid POOL i (Attrs (get_fields z a)) w = (Inl AssertionError, w)"
    using assms(2,3,5) om f
    by (simp add: rpc_update_def bnd_def fs_resolve_run pool_resolve_def key_error_as_def try_except_def lift_exn_def
        cluster_request_def the_cluster_run get_request_factory_def known_type_def get_state_def)
  with v assms(4,6) show ?thesis
    by (simp add: dispatch_def try_except_def update_pool_def serializer_data_def bnd_def [of "validate_semantics k fsid (Some t) (get_fields z a)"]
        bnd_def [of "rpc_update pub rid now fsid POOL i (Attrs (get_fields z a))"] raise_def)
qed

theorem unchanged_pg_num_is_an_internal_error_witness:
  "dispatch (update_pool 9 plain_serializer (\<lambda>_. None) ''r'' 5 ''f'' ''3'' (Some [(''pg_num'', JInt 8)])) pool_manager
     = (Inl AssertionError, pool_manager)"
proof -
  let ?a = "[(''pg_num'', JInt 8)]"
  obtain x where x: "map_of (pools_by_id (Some one_rule_map)) 3 = Some x" "pg_num x = 8"
    by (simp add: one_rule_map_def pools_by_id_def)
  have c: "map_of (clusters pool_manager) ''f'' = Some pool_cluster" "cl_favorite pool_cluster = Some ''mon0''"
    by (simp_all add: pool_manager_def pool_cluster_def demo_cluster_def)
  have "get_fields plain_serializer ?a = [(''pg_num'', JInt (pg_num x))]"
    by (simp add: x(2) get_fields_def get_default_def)
  moreover have "is_valid plain_serializer ''PATCH'' (Some ?a)" "int_text ''3'' = Inr 3" by code_simp+
  moreover have "max_split_count (context_of ''r'' 5 pool_cluster) = Inr 32" by code_simp
  ultimately show ?thesis
    using unchanged_pg_num_is_an_internal_error [OF knows_pool_manager c _ x(1) _ _ pool_limit] x(2) by simp
qed

end
