(* ===== verification/RestViews.thy ===== *)
theory RestViews
  imports RestPools CephModule
begin

text \<open>
  The views of the REST API on CRUSH, OSDs, clusters, configuration and requests
  (calamari_rest/views/v2.py and crush_node.py).

  Writing views take the arguments \<open>pub\<close>, \<open>rid\<close> and \<open>t\<close> of the RPCs. The dictionaries that Python
  iterates over come in the order in which they were built.
\<close>

section \<open>Ancestors of a CRUSH node\<close>

text \<open>The loop goes to the first parent for as long as there is one, and does not end on a cycle.\<close>

partial_function (option) climb :: "(int, tree_node list) dict \<Rightarrow> int \<Rightarrow> int list \<Rightarrow> int list option" where
  [code]: "climb parent_map p acc = (case get_default parent_map p [] of
       [] \<Rightarrow> Some acc
     | q # _ \<Rightarrow> climb parent_map (node_id q) (acc @ [node_id q]))"

fun ancestries :: "(int, tree_node list) dict \<Rightarrow> tree_node list \<Rightarrow> int list list option" where
  "ancestries parent_map [] = Some []"
| "ancestries parent_map (q # qs) = (case climb parent_map (node_id q) [node_id q] of
       None \<Rightarrow> None
     | Some a \<Rightarrow> map_option ((#) a) (ancestries parent_map qs))"

definition lookup_ancestry :: "int \<Rightarrow> (int, tree_node list) dict \<Rightarrow> int list list option" where
  "lookup_ancestry i parent_map = ancestries parent_map (get_default parent_map i [])"

section \<open>Parts of the OSD map\<close>

text \<open>
  \<open>get_sync_object\<close> with a path into the OSD map: the attribute \<open>f\<close>, and a key of it if there is
  one. The path is only used for the error.
\<close>

definition osd_map_path :: "string \<Rightarrow> jval list \<Rightarrow> (osd_map_data option \<Rightarrow> exn + 'a) \<Rightarrow> 'a mg_py" where
  "osd_map_path fsid path f =
     bnd (fs_resolve fsid) (\<lambda>c. lift_exn (case f (cluster_osd_map c) of
         Inl (KeyError _) \<Rightarrow> Inl (NotFound ''osd_map'' (str_jval (JList path)))
       | Inl AttributeError \<Rightarrow> Inl (NotFound ''osd_map'' (str_jval (JList path)))
       | r \<Rightarrow> r))"

definition at_key :: "(osd_map_data option \<Rightarrow> (int, 'v) dict) \<Rightarrow> int \<Rightarrow> osd_map_data option \<Rightarrow> exn + 'v" where
  "at_key f i d = item (f d) i (str_int i)"

text \<open>The properties that are computed from the map's data raise a TypeError without it.\<close>

definition of_data :: "(osd_map_data \<Rightarrow> exn + 'a) \<Rightarrow> osd_map_data option \<Rightarrow> exn + 'a" where
  "of_data f d = (case d of None \<Rightarrow> Inl TypeError | Some x \<Rightarrow> f x)"

section \<open>CRUSH\<close>

record rule_view =
  rv_rule :: crush_rule
  rv_osd_count :: int

definition rules_with_counts :: "nat \<Rightarrow> string \<Rightarrow> rule_view list mg_py" where
  "rules_with_counts k fsid =
     bnd (list_rules k fsid) (\<lambda>rules.
     bnd (osd_map_path fsid [JStr ''osds_by_rule_id''] (of_data (osds_by_rule_id k))) (\<lambda>by_rule.
     lift_exn (map_res (\<lambda>r. then_do (item by_rule (rule_id r) (str_int (rule_id r))) (\<lambda>os.
       Inr \<lparr>rv_rule = r, rv_osd_count = int (length os)\<rparr>)) rules)))"

definition list_crush_rules :: "nat \<Rightarrow> string \<Rightarrow> (manager, rule_view list) view" where
  "list_crush_rules k fsid = bnd (rules_with_counts k fsid) (\<lambda>rs. ret (response 200 (Data rs)))"

definition add_rule :: "rule_view \<Rightarrow> (int, rule_view list) dict \<Rightarrow> (int, rule_view list) dict" where
  "add_rule r d = AList.update (ruleset (rv_rule r)) (get_default d (ruleset (rv_rule r)) [] @ [r]) d"

definition list_crush_rulesets :: "nat \<Rightarrow> string \<Rightarrow> (manager, (int, rule_view list) dict) view" where
  "list_crush_rulesets k fsid =
     bnd (rules_with_counts k fsid) (\<lambda>rs. ret (response 200 (Data (fold add_rule rs []))))"

definition list_crush_types :: "nat \<Rightarrow> string \<Rightarrow> (manager, crush_type list) view" where
  "list_crush_types k fsid =
     bnd (rpc_list k fsid CRUSH_TYPE no_filter) (\<lambda>xs.
     ret (response 200 (Data (case xs of CrushTypes ts \<Rightarrow> ts | _ \<Rightarrow> []))))"

definition retrieve_crush_type :: "string \<Rightarrow> string \<Rightarrow> (manager, crush_type) view" where
  "retrieve_crush_type fsid i =
     bnd (lift_exn (int_text i)) (\<lambda>n.
     bnd (rpc_get fsid CRUSH_TYPE n) (\<lambda>x. case x of OneType ty \<Rightarrow> ret (response 200 (Data ty)) | _ \<Rightarrow> raise TypeError))"

definition crush_node_serializer :: "(attributes option \<Rightarrow> errors) \<Rightarrow> (attributes \<Rightarrow> string \<Rightarrow> jval) \<Rightarrow> serializer" where
  "crush_node_serializer fe fv =
     \<lparr>create_allowed = [''bucket_type'', ''name'', ''items'', ''id''], create_required = [],
      modify_allowed = [''bucket_type'', ''name'', ''items''], modify_required = [], field_errors = fe, field_value = fv\<rparr>"

text \<open>\<open>as_node\<close> is the posted dictionary as the factory of the server reads it.\<close>

definition create_crush_node ::
  "serializer \<Rightarrow> (attributes \<Rightarrow> crush_node_attrs) \<Rightarrow> (nat \<Rightarrow> string option) \<Rightarrow> string \<Rightarrow> time \<Rightarrow> string \<Rightarrow>
    attributes option \<Rightarrow> (manager, string) view" where
  "create_crush_node z as_node pub rid t fsid data =
     (if is_valid z ''POST'' data then
        bnd (lift_exn (serializer_data z data)) (\<lambda>a.
        bnd (rpc_create pub rid t fsid CRUSH_NODE (NodeAttrs (as_node a))) accepted)
      else ret (invalid z ''POST'' data))"

definition update_crush_node ::
  "serializer \<Rightarrow> (attributes \<Rightarrow> crush_node_attrs) \<Rightarrow> (nat \<Rightarrow> string option) \<Rightarrow> string \<Rightarrow> time \<Rightarrow> string \<Rightarrow> string \<Rightarrow>
    string \<Rightarrow> attributes option \<Rightarrow> (manager, string) view" where
  "update_crush_node z as_node pub rid t fsid http_method i data =
     (if is_valid z http_method data then
        bnd (lift_exn (serializer_data z data)) (\<lambda>a.
        bnd (lift_exn (int_text i)) (\<lambda>n.
        bnd (rpc_update pub rid t fsid CRUSH_NODE n (NodeAttrs (as_node a))) accepted))
      else ret (invalid z http_method data))"

definition destroy_crush_node ::
  "(nat \<Rightarrow> string option) \<Rightarrow> string \<Rightarrow> time \<Rightarrow> string \<Rightarrow> string \<Rightarrow> (manager, string option) view" where
  "destroy_crush_node pub rid t fsid i =
     bnd (lift_exn (int_text i)) (\<lambda>n.
     bnd (rpc_delete pub rid t fsid CRUSH_NODE n) (\<lambda>x. ret (response 202 (Data x))))"

definition list_crush_nodes :: "nat \<Rightarrow> string \<Rightarrow> (manager, crush_bucket list) view" where
  "list_crush_nodes k fsid =
     bnd (rpc_list k fsid CRUSH_NODE no_filter) (\<lambda>xs.
     ret (response 200 (Data (case xs of Buckets bs \<Rightarrow> bs | _ \<Rightarrow> []))))"

definition retrieve_crush_node :: "string \<Rightarrow> string \<Rightarrow> (manager, crush_bucket) view" where
  "retrieve_crush_node fsid i =
     bnd (lift_exn (int_text i)) (\<lambda>n.
     bnd (rpc_get fsid CRUSH_NODE n) (\<lambda>x. case x of OneNode b \<Rightarrow> ret (response 200 (Data b)) | _ \<Rightarrow> raise TypeError))"

text \<open>The whole map is replaced by the text that was sent; the answer is a plain 200.\<close>

definition replace_crush_map ::
  "(nat \<Rightarrow> string option) \<Rightarrow> string \<Rightarrow> time \<Rightarrow> string \<Rightarrow> string \<Rightarrow> (manager, string option) view" where
  "replace_crush_map pub rid t fsid txt =
     bnd (rpc_update pub rid t fsid CRUSH_MAP 0 (CrushText txt)) (\<lambda>x. ret (response 200 (Data x)))"

section \<open>Clusters and their configuration\<close>

definition destroy_cluster :: "string \<Rightarrow> (manager, unit) view" where
  "destroy_cluster fsid = bnd (rpc_delete_cluster fsid) (\<lambda>_. ret (response 204 Empty))"

definition get_config :: "string \<Rightarrow> (string, string) dict mg_py" where
  "get_config fsid =
     bnd (ceph_config fsid) (\<lambda>c. if c = [] then raise (ServiceUnavailable ''Cluster configuration unavailable'') else ret c)"

definition list_config :: "string \<Rightarrow> (manager, (string, string) dict) view" where
  "list_config fsid = bnd (get_config fsid) (\<lambda>c. ret (response 200 (Data c)))"

definition retrieve_config :: "string \<Rightarrow> string \<Rightarrow> (manager, string \<times> string) view" where
  "retrieve_config fsid k =
     bnd (get_config fsid) (\<lambda>c. case map_of c k of
         None \<Rightarrow> raise (Http404 (''Key '' @ quote @ k @ quote @ '' not found''))
       | Some v \<Rightarrow> ret (response 200 (Data (k, v))))"

definition describe_sync_objects :: "(manager, string list) view" where
  "describe_sync_objects = ret (response 200 (Data (map sync_str SYNC_OBJECT_TYPES)))"

definition retrieve_sync_object :: "string \<Rightarrow> string \<Rightarrow> (manager, sync_data option) view" where
  "retrieve_sync_object fsid ty = bnd (rpc_get_sync_object fsid ty) (\<lambda>x. ret (response 200 (Data x)))"

section \<open>Requests\<close>

definition retrieve_request :: "string \<Rightarrow> (manager, request_dump) view" where
  "retrieve_request rid = bnd (rpc_get_request rid) (\<lambda>r. ret (response 200 (Data r)))"

definition cancel_request :: "time \<Rightarrow> string \<Rightarrow> (manager, request_dump) view" where
  "cancel_request t rid = bnd (rpc_cancel_request t rid) (\<lambda>r. ret (response 200 (Data r)))"

definition list_requests ::
  "(request_dump list \<Rightarrow> string \<Rightarrow> string \<Rightarrow> exn + 'c) \<Rightarrow> string option \<Rightarrow> string option \<Rightarrow> string option \<Rightarrow> string option \<Rightarrow>
    (manager, 'c) view" where
  "list_requests paginator page page_size fsid filter_state =
     (if filter_state \<notin> {None, Some ''complete'', Some ''submitted''}
      then raise (ParseError ''State must be one of complete, submitted'')
      else bnd get_state (\<lambda>w.
        bnd (lift_exn (paginate paginator page page_size (rpc_list_requests filter_state fsid w))) (\<lambda>p.
        ret (response 200 (Data p)))))"

text \<open>Only the self tests may be run. The placeholder in the message is not one that \<open>format\<close> fills in.\<close>

definition debug_job ::
  "(nat \<Rightarrow> string option) \<Rightarrow> string \<Rightarrow> time \<Rightarrow> string \<Rightarrow> string \<Rightarrow> jval list \<Rightarrow> (manager, string) view" where
  "debug_job pub rid t fqdn cmd args =
     (if \<not> startswith cmd ''ceph.selftest''
      then raise (PermissionDenied (''Command '' @ quote @ ''%s'' @ quote @ '' is not a self test command''))
      else bnd (rpc_debug_job pub rid t fqdn cmd args) (\<lambda>x. ret (return_request (Some x))))"

section \<open>OSDs\<close>

definition osd_serializer :: "(attributes option \<Rightarrow> errors) \<Rightarrow> (attributes \<Rightarrow> string \<Rightarrow> jval) \<Rightarrow> serializer" where
  "osd_serializer fe fv = \<lparr>create_allowed = [], create_required = [], modify_allowed = [''up'', ''in'', ''reweight''],
     modify_required = [], field_errors = fe, field_value = fv\<rparr>"

definition osd_config_serializer :: "(attributes option \<Rightarrow> errors) \<Rightarrow> (attributes \<Rightarrow> string \<Rightarrow> jval) \<Rightarrow> serializer" where
  "osd_config_serializer fe fv = \<lparr>create_allowed = [], create_required = [], modify_allowed = OSD_FLAGS,
     modify_required = [], field_errors = fe, field_value = fv\<rparr>"

record osd_object =
  oo_osd :: osd_entry
  oo_reweight :: rat
  oo_server :: "string option"
  oo_pools :: "int list"
  oo_backend_device_node :: "string option"
  oo_backend_partition_path :: "string option"
  oo_valid_commands :: "string list"
  oo_crush_node_ancestry :: "int list list option"

fun read_ints :: "string list \<Rightarrow> (int list) option" where
  "read_ints [] = Some []"
| "read_ints (x # xs) = (case (read_int x, read_ints xs) of (Some i, Some is) \<Rightarrow> Some (i # is) | _ \<Rightarrow> None)"

text \<open>The URL parameters \<open>pool\<close> and \<open>id__in[]\<close>; Inl is the message of a 400.\<close>

definition osd_filter :: "string option \<Rightarrow> string list option \<Rightarrow> string + list_filter" where
  "osd_filter p ids = (case (map_option read_int p, map_option read_ints ids) of
       (Some None, _) \<Rightarrow> Inl ''Pool ID must be an integer''
     | (_, Some None) \<Rightarrow> Inl ''Invalid OSD ID in list''
     | (p', ids') \<Rightarrow> Inr \<lparr>lf_id_in = Option.bind ids' (\<lambda>x. x), lf_pool = Option.bind p' (\<lambda>x. x)\<rparr>)"

text \<open>An OSD need not be in the CRUSH map: then its weight is 0.\<close>

definition reweight_of :: "(int, tree_node) dict \<Rightarrow> int \<Rightarrow> rat" where
  "reweight_of nodes i = (case Option.bind (map_of nodes i) node_reweight of None \<Rightarrow> 0 | Some q \<Rightarrow> q)"

definition backend :: "(int, (string, string) dict) dict \<Rightarrow> int \<Rightarrow> string \<Rightarrow> string option" where
  "backend metadata i k = Option.bind (map_of metadata i) (\<lambda>m. map_of m k)"

definition osd_object_of ::
  "(int, tree_node list) dict \<Rightarrow> (int, int list) dict \<Rightarrow> (int, tree_node) dict \<Rightarrow> (int, (string, string) dict) dict \<Rightarrow>
    (int, string list) dict \<Rightarrow> osd_entry \<times> string option \<Rightarrow> exn + osd_object" where
  "osd_object_of parent_map osd_to_pools crush_nodes metadata osd_commands x = (case x of (o', fqdn) \<Rightarrow>
     let i = osd o' in
     then_do (item osd_to_pools i (str_int i)) (\<lambda>ps.
     then_do (item osd_commands i (str_int i)) (\<lambda>cmds.
     Inr \<lparr>oo_osd = o', oo_reweight = reweight_of crush_nodes i, oo_server = fqdn, oo_pools = ps,
       oo_backend_device_node = backend metadata i ''backend_filestore_dev_node'',
       oo_backend_partition_path = backend metadata i ''backend_filestore_partition_path'',
       oo_valid_commands = cmds, oo_crush_node_ancestry = lookup_ancestry i parent_map\<rparr>)))"

definition service_of_osd :: "string \<Rightarrow> int \<Rightarrow> service_id" where
  "service_of_osd fsid i = ServiceId fsid ''osd'' (str_int i)"

text \<open>
  The results of the overlapped RPCs are awaited in this order. Where the climb to an ancestor
  would not end, the ancestry is None here.
\<close>

definition list_osds :: "nat \<Rightarrow> string \<Rightarrow> string option \<Rightarrow> string list option \<Rightarrow> (manager, osd_object list) view" where
  "list_osds k fsid p ids = (case osd_filter p ids of
       Inl m \<Rightarrow> ret (response 400 (Message m))
     | Inr f \<Rightarrow>
         bnd (rpc_list k fsid OSD f) (\<lambda>xs.
         let osds = (case xs of Osds os \<Rightarrow> os | _ \<Rightarrow> []) in
         bnd (osd_map_path fsid [JStr ''parent_bucket_by_node_id''] (\<lambda>d. Inr (parent_bucket_by_node_id d))) (\<lambda>parent_map.
         bnd (osd_map_path fsid [JStr ''osd_pools''] (of_data (osd_pools k))) (\<lambda>osd_to_pools.
         bnd (osd_map_path fsid [JStr ''osd_tree_node_by_id''] (\<lambda>d. Inr (osd_tree_node_by_id d))) (\<lambda>crush_nodes.
         bnd (osd_map_path fsid [JStr ''metadata_by_id''] (\<lambda>d. Inr (metadata_by_id d))) (\<lambda>metadata.
         bnd get_state (\<lambda>w.
         let server_info = rpc_server_by_service w (map (\<lambda>x. service_of_osd fsid (osd x)) osds) in
         bnd (rpc_get_valid_commands fsid OSD (map osd osds)) (\<lambda>osd_commands.
         bnd (lift_exn (map_res (osd_object_of parent_map osd_to_pools crush_nodes metadata osd_commands)
               (zip osds (map snd server_info)))) (\<lambda>os.
         ret (response 200 (Data os)))))))))))"

definition float_reweight :: "tree_node \<Rightarrow> exn + rat" where
  "float_reweight n = (case node_reweight n of None \<Rightarrow> Inl (KeyError ''reweight'') | Some q \<Rightarrow> Inr q)"

definition retrieve_osd :: "nat \<Rightarrow> string \<Rightarrow> string \<Rightarrow> (manager, osd_object) view" where
  "retrieve_osd k fsid osd_id =
     bnd (lift_exn (int_text osd_id)) (\<lambda>i.
     bnd (osd_map_path fsid [JStr ''osds_by_id'', JInt i] (at_key osds_by_id i)) (\<lambda>o'.
     bnd (osd_map_path fsid [JStr ''osd_tree_node_by_id'', JInt i] (at_key osd_tree_node_by_id i)) (\<lambda>node.
     bnd (lift_exn (float_reweight node)) (\<lambda>q.
     bnd get_state (\<lambda>w.
     let fqdn = snd (hd (rpc_server_by_service w [ServiceId fsid ''osd'' osd_id])) in
     bnd (osd_map_path fsid [JStr ''osd_pools'', JInt i] (of_data (\<lambda>d. then_do (osd_pools k d) (\<lambda>m. item m i (str_int i))))) (\<lambda>ps.
     bnd (osd_map_path fsid [JStr ''metadata_by_id'', JInt i] (at_key metadata_by_id i)) (\<lambda>m.
     bnd (rpc_get_valid_commands fsid OSD [i]) (\<lambda>osd_commands.
     bnd (lift_exn (item osd_commands i (str_int i))) (\<lambda>cmds.
     bnd (osd_map_path fsid [JStr ''parent_bucket_by_node_id''] (\<lambda>d. Inr (parent_bucket_by_node_id d))) (\<lambda>parent_map.
     ret (response 200 (Data \<lparr>oo_osd = o', oo_reweight = q, oo_server = fqdn, oo_pools = ps,
       oo_backend_device_node = map_of m ''backend_filestore_dev_node'',
       oo_backend_partition_path = map_of m ''backend_filestore_partition_path'',
       oo_valid_commands = cmds, oo_crush_node_ancestry = lookup_ancestry (osd o') parent_map\<rparr>))))))))))))"

definition update_osd ::
  "serializer \<Rightarrow> (nat \<Rightarrow> string option) \<Rightarrow> string \<Rightarrow> time \<Rightarrow> string \<Rightarrow> string \<Rightarrow> string \<Rightarrow> attributes option \<Rightarrow>
    (manager, string) view" where
  "update_osd z pub rid t fsid http_method i data =
     (if is_valid z http_method data then
        bnd (lift_exn (int_text i)) (\<lambda>n.
        bnd (lift_exn (serializer_data z data)) (\<lambda>a.
        bnd (rpc_update pub rid t fsid OSD n (Attrs a)) (\<lambda>x. ret (return_request x))))
      else ret (invalid z http_method data))"

text \<open>\<open>get_valid_commands(..., [id]).get(id).get('valid_commands')\<close>; None has no \<open>get\<close>.\<close>

definition valid_commands_of :: "string \<Rightarrow> string \<Rightarrow> string list mg_py" where
  "valid_commands_of fsid osd_id =
     bnd (lift_exn (int_text osd_id)) (\<lambda>i.
     bnd (rpc_get_valid_commands fsid OSD [i]) (\<lambda>d. case map_of d i of None \<Rightarrow> raise AttributeError | Some cs \<Rightarrow> ret cs))"

definition apply_osd ::
  "(nat \<Rightarrow> string option) \<Rightarrow> string \<Rightarrow> time \<Rightarrow> string \<Rightarrow> string \<Rightarrow> string \<Rightarrow> (manager, string option) view" where
  "apply_osd pub rid t fsid osd_id cmd =
     bnd (valid_commands_of fsid osd_id) (\<lambda>cs.
     if cmd \<in> set cs then
       bnd (lift_exn (int_text osd_id)) (\<lambda>i.
       bnd (rpc_apply pub rid t fsid OSD i cmd) (\<lambda>x. ret (response 202 (Data x))))
     else ret (response 403 (Message (cmd @ '' not valid on '' @ osd_id))))"

definition get_implemented_commands :: "(manager, string list) view" where
  "get_implemented_commands = ret (response 200 (Data OSD_IMPLEMENTED_COMMANDS))"

definition get_valid_commands :: "string \<Rightarrow> string option \<Rightarrow> (manager, (int, string list) dict) view" where
  "get_valid_commands fsid osd_id =
     bnd (case osd_id of
         None \<Rightarrow> bnd (osd_map_path fsid [JStr ''osds_by_id''] (\<lambda>d. Inr (osds_by_id d))) (\<lambda>d. ret (keys d))
       | Some i \<Rightarrow> bnd (lift_exn (int_text i)) (\<lambda>n. ret [n])) (\<lambda>is.
     bnd (rpc_get_valid_commands fsid OSD is) (\<lambda>d. ret (response 200 (Data d))))"

definition validate_command :: "string \<Rightarrow> string \<Rightarrow> string \<Rightarrow> (manager, bool) view" where
  "validate_command fsid osd_id cmd =
     bnd (valid_commands_of fsid osd_id) (\<lambda>cs. ret (response 200 (Data (cmd \<in> set cs))))"

definition osd_config :: "string \<Rightarrow> (manager, (string, bool) dict) view" where
  "osd_config fsid =
     bnd (osd_map_path fsid [JStr ''flags''] (\<lambda>d. Inr (osd_map_flags d))) (\<lambda>f. ret (response 200 (Data f)))"

definition update_osd_config ::
  "serializer \<Rightarrow> (nat \<Rightarrow> string option) \<Rightarrow> string \<Rightarrow> time \<Rightarrow> string \<Rightarrow> string \<Rightarrow> attributes option \<Rightarrow> (manager, string) view" where
  "update_osd_config z pub rid t fsid http_method data =
     (if \<not> is_valid z http_method data then ret (response 403 (FieldErrors (errors_of z http_method data)))
      else bnd (lift_exn (serializer_data z data)) (\<lambda>a.
        bnd (rpc_update pub rid t fsid OSD_MAP 0 (Attrs a)) (\<lambda>x. ret (return_request x))))"

section \<open>The climb ends at a root or not at all\<close>

definition up_from :: "(int, tree_node list) dict \<Rightarrow> int \<Rightarrow> int option" where
  "up_from parent_map p = (case get_default parent_map p [] of [] \<Rightarrow> None | q # _ \<Rightarrow> Some (node_id q))"

inductive climbs :: "(int, tree_node list) dict \<Rightarrow> int \<Rightarrow> int list \<Rightarrow> bool" for parent_map where
  at_root: "up_from parent_map p = None \<Longrightarrow> climbs parent_map p []"
| one_up: "up_from parent_map p = Some q \<Longrightarrow> climbs parent_map q qs \<Longrightarrow> climbs parent_map p (q # qs)"

inductive_cases climbs_up: "climbs parent_map p qs"

lemma climb_step:
  "climb parent_map p acc = (case up_from parent_map p of None \<Rightarrow> Some acc | Some q \<Rightarrow> climb parent_map q (acc @ [q]))"
  by (subst climb.simps) (simp add: up_from_def split: list.split)

lemma climb_finds: "climbs parent_map p qs \<Longrightarrow> climb parent_map p acc = Some (acc @ qs)"
  by (induction p qs arbitrary: acc rule: climbs.induct) (simp_all add: climb_step)

lemma climb_found:
  assumes "climb parent_map p acc = Some r"
  shows "\<exists>qs. r = acc @ qs \<and> climbs parent_map p qs"
proof (rule climb.raw_induct [OF _ assms, where P = "\<lambda>pm p acc r. \<exists>qs. r = acc @ qs \<and> climbs pm p qs"])
  fix f :: "(int, tree_node list) dict \<Rightarrow> int \<Rightarrow> int list \<Rightarrow> int list option" and pm p acc r
  assume ih: "\<And>pm p acc r. f pm p acc = Some r \<Longrightarrow> \<exists>qs. r = acc @ qs \<and> climbs pm p qs"
    and step: "(case get_default pm p [] of [] \<Rightarrow> Some acc | q # _ \<Rightarrow> f pm (node_id q) (acc @ [node_id q])) = Some r"
  show "\<exists>qs. r = acc @ qs \<and> climbs pm p qs"
  proof (cases "get_default pm p []")
    case Nil
    with step show ?thesis by (auto intro: at_root simp: up_from_def)
  next
    case (Cons q list)
    with step ih obtain qs where "r = (acc @ [node_id q]) @ qs" "climbs pm (node_id q) qs" by fastforce
    with Cons show ?thesis by (auto intro!: one_up simp: up_from_def)
  qed
qed

lemma ancestries_iff:
  "ancestries parent_map ps = Some as \<longleftrightarrow>
     list_all2 (\<lambda>q a. \<exists>qs. a = node_id q # qs \<and> climbs parent_map (node_id q) qs) ps as"
proof (induction ps arbitrary: as)
  case (Cons q ps)
  show ?case
  proof (cases "climb parent_map (node_id q) [node_id q]")
    case None
    then have "\<not> (\<exists>qs. climbs parent_map (node_id q) qs)" using climb_finds by fastforce
    with None show ?thesis by (auto simp: list_all2_Cons1)
  next
    case (Some a)
    then obtain qs where "a = node_id q # qs" "climbs parent_map (node_id q) qs" using climb_found by fastforce
    moreover have "climbs parent_map (node_id q) qs' \<Longrightarrow> node_id q # qs' = a" for qs'
      using climb_finds [of parent_map "node_id q" qs' "[node_id q]"] Some by simp
    ultimately show ?thesis using Some Cons by (auto simp: list_all2_Cons1)
  qed
qed auto

lemma ancestries_None:
  assumes "q \<in> set ps" and "\<not> (\<exists>qs. climbs parent_map (node_id q) qs)"
  shows "ancestries parent_map ps = None"
proof (rule ccontr)
  assume "ancestries parent_map ps \<noteq> None"
  then obtain as where "list_all2 (\<lambda>q a. \<exists>qs. a = node_id q # qs \<and> climbs parent_map (node_id q) qs) ps as"
    by (auto simp: ancestries_iff)
  moreover from assms(1) obtain j where "j < length ps" "q = ps ! j" by (auto simp: in_set_conv_nth)
  ultimately have "\<exists>qs. as ! j = node_id q # qs \<and> climbs parent_map (node_id q) qs"
    using list_all2_nthD by fastforce
  with assms(2) show False by blast
qed

lemma climbs_ranked:
  fixes rk :: "int \<Rightarrow> nat"
  assumes "\<And>p q. up_from parent_map p = Some q \<Longrightarrow> rk q < rk p"
  shows "\<exists>qs. climbs parent_map p qs"
proof (induction "rk p" arbitrary: p rule: less_induct)
  case less
  show ?case
  proof (cases "up_from parent_map p")
    case None
    then show ?thesis by (blast intro: at_root)
  next
    case (Some q)
    with less [OF assms [OF Some]] show ?thesis by (blast intro: one_up)
  qed
qed

lemma climbs_closed:
  assumes "climbs parent_map p qs" and "\<And>p. p \<in> S \<Longrightarrow> \<exists>q \<in> S. up_from parent_map p = Some q"
  shows "p \<notin> S"
  using assms(1)
proof (induction p qs rule: climbs.induct)
  case (at_root p)
  then show ?case using assms(2) by fastforce
next
  case (one_up p q qs)
  then show ?case using assms(2) by fastforce
qed

lemma ancestries_ranked:
  fixes rk :: "int \<Rightarrow> nat"
  assumes "\<And>p q. up_from parent_map p = Some q \<Longrightarrow> rk q < rk p"
  shows "ancestries parent_map ps \<noteq> None"
proof (induction ps)
  case (Cons q ps)
  obtain qs where "climbs parent_map (node_id q) qs" using climbs_ranked [of parent_map rk] assms by blast
  with Cons climb_finds [of parent_map "node_id q" qs "[node_id q]"] show ?case by auto
qed simp

text \<open>
  C37. The ancestry of an OSD is, for each of its parents in turn, the path from that parent through
  first parents up to a node without one. It is found if no node is above itself, as when
  parents have a smaller rank than their children; if a parent of the OSD leads into a
  cycle, the view that asks for it never answers.
\<close>

theorem ancestry_is_the_path_to_the_root:
  shows "(lookup_ancestry i parent_map = Some as \<longleftrightarrow>
       list_all2 (\<lambda>q a. \<exists>qs. a = node_id q # qs \<and> climbs parent_map (node_id q) qs) (get_default parent_map i []) as)
    \<and> ((\<forall>p q. up_from parent_map p = Some q \<longrightarrow> (rk q :: nat) < rk p) \<longrightarrow> lookup_ancestry i parent_map \<noteq> None)
    \<and> (node_id q \<in> S \<and> (\<forall>p \<in> S. \<exists>p' \<in> S. up_from parent_map p = Some p') \<and> q \<in> set (get_default parent_map i [])
        \<longrightarrow> lookup_ancestry i parent_map = None)"
proof (intro conjI impI)
  show "lookup_ancestry i parent_map = Some as \<longleftrightarrow>
       list_all2 (\<lambda>q a. \<exists>qs. a = node_id q # qs \<and> climbs parent_map (node_id q) qs) (get_default parent_map i []) as"
    by (simp add: lookup_ancestry_def ancestries_iff)
next
  assume "\<forall>p q. up_from parent_map p = Some q \<longrightarrow> rk q < rk p"
  then show "lookup_ancestry i parent_map \<noteq> None"
    unfolding lookup_ancestry_def by (intro ancestries_ranked [of parent_map rk]) blast
next
  assume a: "node_id q \<in> S \<and> (\<forall>p \<in> S. \<exists>p' \<in> S. up_from parent_map p = Some p') \<and> q \<in> set (get_default parent_map i [])"
  then have "\<not> climbs parent_map (node_id q) qs" for qs
    using climbs_closed [of parent_map "node_id q" qs S] by blast
  with a show "lookup_ancestry i parent_map = None"
    unfolding lookup_ancestry_def by (intro ancestries_None [of q]) auto
qed

text \<open>A node, its parent and its grandparent; and two nodes that list each other.\<close>

definition plain_node :: "int \<Rightarrow> tree_node" where
  "plain_node i = \<lparr>node_id = i, node_name = [], node_type = [], node_children = None, node_reweight = None\<rparr>"

definition short_chain :: "(int, tree_node list) dict" where
  "short_chain = [(0, [plain_node (- 2)]), (- 2, [plain_node (- 1)])]"

definition short_cycle :: "(int, tree_node list) dict" where
  "short_cycle = [(0, [plain_node (- 2)]), (- 2, [plain_node (- 1)]), (- 1, [plain_node (- 2)])]"

theorem ancestry_is_the_path_to_the_root_witness:
  "lookup_ancestry 0 short_chain = Some [[- 2, - 1]] \<and> lookup_ancestry 0 short_cycle = None"
proof
  have "climbs short_chain (- 2) [- 1]"
    by (intro climbs.intros) (simp_all add: up_from_def short_chain_def get_default_def plain_node_def)
  then show "lookup_ancestry 0 short_chain = Some [[- 2, - 1]]"
    using ancestry_is_the_path_to_the_root [of 0 short_chain "[[- 2, - 1]]"]
    by (simp add: short_chain_def get_default_def plain_node_def)
next
  have "\<forall>p \<in> {- 1, - 2}. \<exists>p' \<in> {- 1, - 2}. up_from short_cycle p = Some p'"
    by (simp add: up_from_def short_cycle_def get_default_def plain_node_def)
  then show "lookup_ancestry 0 short_cycle = None"
    using ancestry_is_the_path_to_the_root [of 0 short_cycle undefined undefined "plain_node (- 2)" "{- 1, - 2}"]
    by (simp add: short_cycle_def get_default_def plain_node_def)
qed

section \<open>An OSD that is not in the CRUSH map\<close>

lemma map_res_member: "map_res f xs = Inr ys \<Longrightarrow> x \<in> set xs \<Longrightarrow> \<exists>y \<in> set ys. f x = Inr y"
  by (induction xs arbitrary: ys) (auto simp: then_do_eq_Inr)

lemma zip_member: "x \<in> set xs \<Longrightarrow> length xs = length ys \<Longrightarrow> \<exists>y. (x, y) \<in> set (zip xs ys)"
  by (metis in_set_impl_in_set_zip1)

lemma osd_object_weight:
  "osd_object_of parent_map osd_to_pools crush_nodes metadata osd_commands (o', fqdn) = Inr x \<Longrightarrow>
     oo_osd x = o' \<and> oo_reweight x = reweight_of crush_nodes (osd o')"
  by (auto simp: osd_object_of_def Let_def then_do_eq_Inr)

lemma osd_map_path_run:
  assumes "map_of (clusters w) fsid = Some c"
  shows "osd_map_path fsid path f w = (case f (cluster_osd_map c) of
       Inl (KeyError _) \<Rightarrow> (Inl (NotFound ''osd_map'' (str_jval (JList path))), w)
     | Inl AttributeError \<Rightarrow> (Inl (NotFound ''osd_map'' (str_jval (JList path))), w)
     | r \<Rightarrow> (r, w))"
  using assms by (simp add: osd_map_path_def bnd_def fs_resolve_run lift_exn_def split: sum.split exn.split)

lemma list_all_osds_run:
  assumes "map_of (clusters w) fsid = Some c" and "cluster_osd_map c = Some d"
  shows "rpc_list k fsid OSD no_filter w = (Inr (Osds (om_osds d)), w)"
  using assms by (simp add: rpc_list_def bnd_def fs_resolve_run filter_osds_def no_filter_def lift_exn_def ret_def)

text \<open>
  An OSD that is in the OSD map but not in the CRUSH map appears with weight 0 in every list of
  the OSDs that the API returns; asked for by itself, the API does not know it.
\<close>

theorem osd_outside_crush:
  assumes "map_of (clusters w) fsid = Some c" and "cluster_osd_map c = Some d" and "int_text i = Inr n"
    and "map_of (osds_by_id (Some d)) n = Some o'" and "map_of (osd_tree_node_by_id (Some d)) n = None"
  shows "(\<exists>m. dispatch (retrieve_osd k fsid i) w = (Inr (response 404 (Message m)), w))
    \<and> (list_osds k fsid None None w = (Inr (response 200 (Data os)), w') \<longrightarrow>
         (\<exists>x \<in> set os. oo_osd x = o' \<and> oo_reweight x = 0))"
proof
  have "osd_map_path fsid [JStr ''osds_by_id'', JInt n] (at_key osds_by_id n) w = (Inr o', w)"
    using assms by (simp add: osd_map_path_run at_key_def item_def)
  moreover have "osd_map_path fsid [JStr ''osd_tree_node_by_id'', JInt n] (at_key osd_tree_node_by_id n) w
      = (Inl (NotFound ''osd_map'' (str_jval (JList [JStr ''osd_tree_node_by_id'', JInt n]))), w)"
    using assms by (simp add: osd_map_path_run at_key_def item_def)
  ultimately have "retrieve_osd k fsid i w
      = (Inl (NotFound ''osd_map'' (str_jval (JList [JStr ''osd_tree_node_by_id'', JInt n]))), w)"
    using assms(3) by (simp add: retrieve_osd_def bnd_Inr bnd_Inl del: str_jval.simps)
  then show "\<exists>m. dispatch (retrieve_osd k fsid i) w = (Inr (response 404 (Message m)), w)"
    by (simp add: dispatch_def try_except_def ret_def del: str_jval.simps exn_str.simps) blast
next
  have o': "o' \<in> set (om_osds d)" "osd o' = n"
    using assms(4) by (auto simp: osds_by_id_def dest!: map_of_SomeD)
  show "list_osds k fsid None None w = (Inr (response 200 (Data os)), w') \<longrightarrow>
         (\<exists>x \<in> set os. oo_osd x = o' \<and> oo_reweight x = 0)"
  proof
    assume "list_osds k fsid None None w = (Inr (response 200 (Data os)), w')"
    then obtain pm ps md cmds fqdns where os: "map_res (osd_object_of pm ps (osd_tree_node_by_id (Some d)) md cmds)
        (zip (om_osds d) fqdns) = Inr os" and len: "length fqdns = length (om_osds d)"
      using assms(1,2)
      by (auto simp: list_osds_def osd_filter_def Let_def bnd_eq_Inr no_filter_def [symmetric] list_all_osds_run
          osd_map_path_run get_state_def lift_exn_def ret_def response_def rpc_server_by_service_def list_by_service_def
          split: sum.splits exn.splits)
    from zip_member [OF o'(1) len [symmetric]] obtain fqdn where "(o', fqdn) \<in> set (zip (om_osds d) fqdns)" by blast
    from map_res_member [OF os this] obtain x where "x \<in> set os"
      "osd_object_of pm ps (osd_tree_node_by_id (Some d)) md cmds (o', fqdn) = Inr x" by blast
    with o'(2) assms(5) show "\<exists>x \<in> set os. oo_osd x = o' \<and> oo_reweight x = 0"
      by (auto dest!: osd_object_weight simp: reweight_of_def)
  qed
qed

text \<open>The one OSD of the map has a tree node in \<open>pool_manager\<close>; without the tree it has none.\<close>

definition treeless_manager :: manager where
  "treeless_manager = pool_manager\<lparr>clusters := [(''f'', pool_cluster\<lparr>cl_sync := (init_sync_objects ''ceph'')\<lparr>objects :=
     (\<lambda>_. mk_sync_object (VInt 1) (Some (DOsd (one_rule_map\<lparr>om_tree := []\<rparr>))))\<rparr>\<rparr>)]\<rparr>"

theorem osd_outside_crush_witness:
  "\<exists>m. dispatch (retrieve_osd 9 ''f'' ''0'') treeless_manager = (Inr (response 404 (Message m)), treeless_manager)"
proof -
  let ?d = "one_rule_map\<lparr>om_tree := []\<rparr>"
  have c: "map_of (clusters treeless_manager) ''f'' = Some (snd (hd (clusters treeless_manager)))"
    and d: "cluster_osd_map (snd (hd (clusters treeless_manager))) = Some ?d"
    by (simp_all add: treeless_manager_def cluster_osd_map_def mk_sync_object_def osd_map_of_def init_osd_map_def
        one_rule_map_def filter_crush_nodes_def)
  have i: "int_text ''0'' = Inr 0" by code_simp
  obtain o' where "map_of (osds_by_id (Some ?d)) 0 = Some o'" by (simp add: osds_by_id_def one_rule_map_def)
  moreover have "map_of (osd_tree_node_by_id (Some ?d)) 0 = None" by (simp add: osd_tree_node_by_id_def one_rule_map_def)
  ultimately show ?thesis using osd_outside_crush [OF c d i] by blast
qed

end
