(* ===== verification/RestAnswers.thy ===== *)
theory RestAnswers
  imports RestViews System
begin

text \<open>
  What the writing views of the REST API have in common: the server's requests only change when
  the client is told of the new one.
\<close>

section \<open>What a client is told\<close>

interpretation ro: step_contract "(=) :: manager \<Rightarrow> manager \<Rightarrow> bool"
  by unfold_locales auto

text \<open>Whatever the requests were before: if they changed, the answer is a 202 with the new one.\<close>

definition tells :: "(nat \<Rightarrow> string option) \<Rightarrow> string \<Rightarrow> string \<Rightarrow> 'a \<Rightarrow> (manager, 'a) view \<Rightarrow> bool" where
  "tells pub rid fsid x m \<longleftrightarrow> (\<forall>w. case m w of
       (r, w') \<Rightarrow> by_request_id w' = by_request_id w
         \<or> r = Inr (response 202 (Data x)) \<and> (\<exists>c. map_of (clusters w) fsid = Some c \<and> submitted_for pub w c rid w'))"

lemma obeys_eq: "obeys (=) m \<longleftrightarrow> (\<forall>w. \<exists>r. m w = (r, w))"
  unfolding obeys_def by (metis prod.collapse snd_conv)

lemma tells_quiet: "obeys (=) m \<Longrightarrow> tells pub rid fsid x m"
  unfolding obeys_eq tells_def by (metis (mono_tags, lifting) case_prodI2 prod.inject)

lemma tells_ret: "tells pub rid fsid x (ret r)"
  by (simp add: tells_def ret_def)

lemma tells_raise: "tells pub rid fsid x (raise e)"
  by (simp add: tells_def raise_def)

lemma tells_bnd:
  assumes "obeys (=) m" and "\<And>a. tells pub rid fsid x (f a)"
  shows "tells pub rid fsid x (bnd m f)"
  unfolding tells_def
proof (intro allI)
  fix w
  obtain r where r: "m w = (r, w)" using assms(1) by (auto simp: obeys_eq)
  show "case bnd m f w of (r, w') \<Rightarrow> by_request_id w' = by_request_id w
      \<or> r = Inr (response 202 (Data x)) \<and> (\<exists>c. map_of (clusters w) fsid = Some c \<and> submitted_for pub w c rid w')"
  proof (cases r)
    case (Inl e)
    with r show ?thesis by (simp add: bnd_def)
  next
    case (Inr a)
    with r assms(2) [of a] show ?thesis by (simp add: bnd_def tells_def)
  qed
qed

lemma tells_if: "tells pub rid fsid x m \<Longrightarrow> tells pub rid fsid x n \<Longrightarrow> tells pub rid fsid x (if b then m else n)"
  by simp

section \<open>The RPCs that ask for a request\<close>

text \<open>
  What a writing view relies on: an RPC that either leaves the server's requests alone or returns
  the id of the one new request, which has been submitted.
\<close>

locale request_rpc =
  fixes pub :: "nat \<Rightarrow> string option" and rid fsid :: string and rpc :: "string option mg_py"
  assumes rpc_outcome: "rpc w = (r, w') \<Longrightarrow> by_request_id w' = by_request_id w
    \<or> r = Inr (Some rid) \<and> (\<exists>c. map_of (clusters w) fsid = Some c \<and> submitted_for pub w c rid w')"
begin

text \<open>The last step of a view puts the answer into a response.\<close>

lemma last_step_tells:
  assumes "g (Some rid) = ret (response 202 (Data x))" and "\<And>y. obeys (=) (g y)"
  shows "tells pub rid fsid x (bnd rpc g)"
  unfolding tells_def
proof (intro allI)
  fix w
  obtain r w' where rpc: "rpc w = (r, w')" by fastforce
  show "case bnd rpc g w of (r, w') \<Rightarrow> by_request_id w' = by_request_id w
      \<or> r = Inr (response 202 (Data x)) \<and> (\<exists>c. map_of (clusters w) fsid = Some c \<and> submitted_for pub w c rid w')"
  proof (cases r)
    case (Inl e)
    with rpc rpc_outcome [OF rpc] show ?thesis by (simp add: bnd_def)
  next
    case (Inr y)
    obtain r' where g: "g y w' = (r', w')" using assms(2) [of y] by (auto simp: obeys_eq)
    show ?thesis
    proof (cases "by_request_id w' = by_request_id w")
      case True
      with rpc Inr g show ?thesis by (simp add: bnd_def)
    next
      case False
      with rpc_outcome [OF rpc] Inr assms(1) rpc show ?thesis by (auto simp: bnd_def ret_def)
    qed
  qed
qed

lemma accepted_tells: "tells pub rid fsid rid (bnd rpc accepted)"
  by (rule last_step_tells) (auto simp: accepted_def intro: ro.obeys_ret ro.obeys_raise split: option.split)

lemma returned_tells: "tells pub rid fsid rid (bnd rpc (\<lambda>x. ret (return_request x)))"
  by (rule last_step_tells) (auto simp: return_request_def intro: ro.obeys_ret)

lemma handed_tells: "tells pub rid fsid (Some rid) (bnd rpc (\<lambda>x. ret (response 202 (Data x))))"
  by (rule last_step_tells) (auto intro: ro.obeys_ret)

end

lemma cluster_request_tells:
  assumes "map_of (clusters w) fsid = Some c" and "cluster_request pub rid t fsid ty call w = (r, w')"
  shows "by_request_id w' = by_request_id w
    \<or> r = Inr (Some rid) \<and> (\<exists>c. map_of (clusters w) fsid = Some c \<and> submitted_for pub w c rid w')"
  using cluster_request_cases [OF assms] assms(1) by auto

lemma unknown_cluster: "map_of (clusters w) fsid = None \<Longrightarrow> bnd (fs_resolve fsid) f w = (Inl (NotFound ''cluster'' fsid), w)"
  by (simp add: fs_resolve_def key_error_as_def try_except_def the_cluster_def bnd_def get_state_def lift_exn_def
      item_def raise_def)

lemma request_rpc_fs:
  assumes "\<And>c w. asks_or_fails pub rid t fsid w (f c)"
  shows "request_rpc pub rid fsid (bnd (fs_resolve fsid) f)"
proof
  fix w r w'
  assume run: "bnd (fs_resolve fsid) f w = (r, w')"
  show "by_request_id w' = by_request_id w
    \<or> r = Inr (Some rid) \<and> (\<exists>c. map_of (clusters w) fsid = Some c \<and> submitted_for pub w c rid w')"
  proof (cases "map_of (clusters w) fsid")
    case None
    with run show ?thesis by (simp add: unknown_cluster)
  next
    case (Some c)
    have "asks_or_fails pub rid t fsid w (bnd (fs_resolve fsid) f)" by (rule af_fs [OF Some assms])
    with run consider ty call where "cluster_request pub rid t fsid ty call w = (r, w')" | "w' = w"
      by (auto simp: asks_or_fails_def)
    then show ?thesis by cases (use cluster_request_tells [OF Some] in auto)
  qed
qed

lemmas af_rules = af_if af_osd af_pool af_request af_unsupported

interpretation updating: request_rpc pub rid fsid "rpc_update pub rid t fsid ty i as" for pub rid fsid t ty i as
  unfolding rpc_update_def by (rule request_rpc_fs [where t = t]) (intro af_rules)

interpretation applying: request_rpc pub rid fsid "rpc_apply pub rid t fsid ty i cmd" for pub rid fsid t ty i cmd
  unfolding rpc_apply_def by (rule request_rpc_fs [where t = t]) (intro af_rules)

interpretation creating: request_rpc pub rid fsid "rpc_create pub rid t fsid ty as" for pub rid fsid t ty as
  unfolding rpc_create_def by (rule request_rpc_fs [where t = t]) (intro af_rules)

interpretation deleting: request_rpc pub rid fsid "rpc_delete pub rid t fsid ty i" for pub rid fsid t ty i
  unfolding rpc_delete_def by (rule request_rpc_fs [where t = t]) (intro af_rules)

section \<open>The parts of the views that only read\<close>

lemma reads_option: "obeys (=) m \<Longrightarrow> (\<And>y. obeys (=) (f y)) \<Longrightarrow> obeys (=) (case x of None \<Rightarrow> m | Some y \<Rightarrow> f y)"
  by (simp split: option.split)

lemmas reads = ro.obeys_bnd ro.obeys_ret ro.obeys_raise ro.obeys_get ro.obeys_lift ro.obeys_if ro.obeys_try reads_option

lemma reads_fs: "obeys (=) (fs_resolve fsid)"
  unfolding fs_resolve_def key_error_as_def the_cluster_def
  by (intro reads) (auto intro: reads split: exn.split)

lemma reads_lookup: "obeys (=) (key_error_as e (lift_exn r) :: 'a mg_py)"
  unfolding key_error_as_def by (intro reads) (auto intro: reads split: exn.split)

lemma reads_sync_object: "obeys (=) (rpc_get_sync_object fsid ty)"
  unfolding rpc_get_sync_object_def by (intro reads reads_fs)

lemma reads_list: "obeys (=) (rpc_list k fsid ty f)"
  unfolding rpc_list_def unsupported_def by (intro reads reads_fs)

lemma reads_get: "obeys (=) (rpc_get fsid ty i)"
  unfolding rpc_get_def unsupported_def osd_resolve_def pool_resolve_def by (intro reads reads_fs reads_lookup)

lemma reads_valid_commands: "obeys (=) (rpc_get_valid_commands fsid ty ids)"
  unfolding rpc_get_valid_commands_def unsupported_def cluster_valid_commands_def the_cluster_def
  by (intro reads reads_fs) (auto intro: reads split: exn.split)

lemma reads_pools: "obeys (=) (list_pools k fsid)" "obeys (=) (list_rules k fsid)" "obeys (=) (ceph_config fsid)"
  unfolding list_pools_def list_rules_def ceph_config_def by (intro reads reads_list reads_sync_object)+

lemma reads_pool: "obeys (=) (get_pool fsid i)"
  unfolding get_pool_def by (intro reads reads_get) (auto intro: reads split: rpc_object.split)

lemma reads_checks: "obeys (=) (validate_semantics k fsid pid a)"
  unfolding validate_semantics_def check_name_unique_def check_crush_ruleset_def check_pg_nums_dont_decrease_def
    check_pg_num_inside_config_bounds_def Let_def
  by (intro reads reads_pools reads_pool)

lemma reads_valid_commands_of: "obeys (=) (valid_commands_of fsid i)"
  unfolding valid_commands_of_def by (intro reads reads_valid_commands)

lemma tells_dispatch:
  assumes "tells pub rid fsid x m"
  shows "tells pub rid fsid x (dispatch m)"
  unfolding tells_def
proof (intro allI)
  fix w
  obtain r w' where mw: "m w = (r, w')" by fastforce
  with assms have "by_request_id w' = by_request_id w \<or> r = Inr (response 202 (Data x))
      \<and> (\<exists>c. map_of (clusters w) fsid = Some c \<and> submitted_for pub w c rid w')"
    by (auto simp: tells_def dest: spec [of _ w])
  with mw show "case dispatch m w of (r, w') \<Rightarrow> by_request_id w' = by_request_id w
      \<or> r = Inr (response 202 (Data x)) \<and> (\<exists>c. map_of (clusters w) fsid = Some c \<and> submitted_for pub w c rid w')"
    by (cases r) (auto simp: dispatch_def try_except_def ret_def raise_def split: option.split)
qed

lemma tells_option:
  "tells pub rid fsid x m \<Longrightarrow> (\<And>y. tells pub rid fsid x (f y)) \<Longrightarrow>
     tells pub rid fsid x (case z of None \<Rightarrow> m | Some y \<Rightarrow> f y)"
  by (simp split: option.split)

lemmas telling = tells_if tells_ret tells_option creating.accepted_tells updating.accepted_tells
  updating.returned_tells applying.handed_tells deleting.handed_tells
  tells_bnd [OF ro.obeys_lift] tells_bnd [OF reads_checks] tells_bnd [OF reads_valid_commands_of]


end
