(* ===== verification/RestServers.thy ===== *)
theory RestServers
  imports RestBase CephModule
begin

text \<open>
  The views of the REST API on servers, their salt keys, their logs and the events
  (calamari_rest/views/v2.py and remote_view_set.py). Salt is a parameter: its keys are a state
  of their own with the operations of \<open>salt_keys\<close>, and \<open>run\<close> is the result of a job, None
  where the minion does not answer.
\<close>

section \<open>Salt keys\<close>

record 's salt_keys =
  name_match :: "'s \<Rightarrow> string \<Rightarrow> (string, string list) dict"
  accept_key :: "string \<Rightarrow> 's \<Rightarrow> 's"
  reject_key :: "string \<Rightarrow> 's \<Rightarrow> 's"
  delete_key :: "string \<Rightarrow> 's \<Rightarrow> 's"

text \<open>The RPC on one minion: unknown minions raise before anything is changed.\<close>

definition change_key :: "'s salt_keys \<Rightarrow> (string \<Rightarrow> 's \<Rightarrow> 's) \<Rightarrow> string \<Rightarrow> ('s, unit) py" where
  "change_key sk change m =
     bnd get_state (\<lambda>s. bnd (lift_exn (minion_change (name_match sk s) change m)) (\<lambda>f. modify f))"

definition salt_key_serializer :: "(attributes option \<Rightarrow> errors) \<Rightarrow> (attributes \<Rightarrow> string \<Rightarrow> jval) \<Rightarrow> serializer" where
  "salt_key_serializer fe fv = \<lparr>create_allowed = [], create_required = [], modify_allowed = [''status''],
     modify_required = [], field_errors = fe, field_value = fv\<rparr>"

definition status_error :: "string \<Rightarrow> exn" where
  "status_error m = ParseError (''status: '' @ m)"

definition change_status :: "'s salt_keys \<Rightarrow> string \<Rightarrow> attributes \<Rightarrow> ('s, unit) py" where
  "change_status sk m data = (case map_of data ''status'' of
       None \<Rightarrow> raise (status_error ''This field is mandatory'')
     | Some v \<Rightarrow>
         if v \<notin> {JStr ''accepted'', JStr ''rejected''} then raise (status_error ''Must be one of accepted,rejected'')
         else bnd get_state (\<lambda>s.
           bnd (lift_exn (minion_get (name_match sk s) m)) (\<lambda>key.
           if snd key = ''pre'' \<and> v = JStr ''accepted'' then change_key sk (accept_key sk) m
           else if snd key = ''pre'' \<and> v = JStr ''rejected'' then change_key sk (reject_key sk) m
           else raise (status_error (''Transition '' @ snd key @ ''->'' @ str_jval v @ '' is invalid'')))))"

definition partial_update_key :: "'s salt_keys \<Rightarrow> serializer \<Rightarrow> string \<Rightarrow> string \<Rightarrow> attributes option \<Rightarrow> ('s, unit) view" where
  "partial_update_key sk z http_method m data =
     (if is_valid z http_method data then
        bnd (lift_exn (serializer_data z data)) (\<lambda>a.
        bnd (change_status sk m a) (\<lambda>_. ret (response 204 Empty)))
      else ret (invalid z http_method data))"

text \<open>What was posted for a list of keys: None if it is not a list of dictionaries.\<close>

definition validate_list :: "attributes list option \<Rightarrow> exn + (string \<times> attributes) list" where
  "validate_list data = (case data of
       None \<Rightarrow> Inl (ParseError ''Bulk PATCH must send a list'')
     | Some ks \<Rightarrow> (if \<exists>k \<in> set ks. \<not> has_key k ''id''
         then Inl (ParseError (''Items in bulk PATCH must have '' @ quote @ ''id'' @ quote @ '' attribute''))
         else Inr (map (\<lambda>k. (str_jval (the (map_of k ''id'')), k)) ks)))"

definition list_partial_update :: "'s salt_keys \<Rightarrow> attributes list option \<Rightarrow> ('s, unit) view" where
  "list_partial_update sk data =
     bnd (lift_exn (validate_list data)) (\<lambda>ks.
     bnd (for_each (\<lambda>(m, k). change_status sk m k) ks) (\<lambda>_. ret (response 204 Empty)))"

definition destroy_key :: "'s salt_keys \<Rightarrow> string \<Rightarrow> ('s, unit) view" where
  "destroy_key sk m = bnd (change_key sk (delete_key sk) m) (\<lambda>_. ret (response 204 Empty))"

definition list_destroy_keys :: "'s salt_keys \<Rightarrow> attributes list option \<Rightarrow> ('s, unit) view" where
  "list_destroy_keys sk data =
     bnd (lift_exn (validate_list data)) (\<lambda>ks.
     bnd (for_each (\<lambda>(m, _). change_key sk (delete_key sk) m) ks) (\<lambda>_. ret (response 204 Empty)))"

definition retrieve_key :: "'s salt_keys \<Rightarrow> string \<Rightarrow> ('s, string \<times> string) view" where
  "retrieve_key sk m = bnd get_state (\<lambda>s.
     bnd (lift_exn (minion_get (name_match sk s) m)) (\<lambda>k. ret (response 200 (Data k))))"

section \<open>Servers\<close>

definition addr_to_iface :: "string \<Rightarrow> (string \<times> string list) list \<Rightarrow> string option" where
  "addr_to_iface addr ip_interfaces = (case filter (\<lambda>(_, as). addr \<in> set as) ip_interfaces of
       [] \<Rightarrow> None | (name, _) # _ \<Rightarrow> Some name)"

record server_ifaces =
  si_server :: server_dump
  si_frontend_iface :: "string option"
  si_backend_iface :: "string option"

text \<open>
  \<open>grains\<close> are a server's interfaces: None where its grains do not name any. No server has
  interfaces then. An empty address is not looked up.
\<close>

definition iface_of :: "string option \<Rightarrow> (string \<times> string list) list option \<Rightarrow> string option" where
  "iface_of addr ip_interfaces = (case (addr, ip_interfaces) of
       (Some (c # cs), Some is) \<Rightarrow> addr_to_iface (c # cs) is
     | _ \<Rightarrow> None)"

definition lookup_ifaces :: "(string \<Rightarrow> (string \<times> string list) list option) \<Rightarrow> server_dump \<Rightarrow> server_ifaces" where
  "lookup_ifaces grains s =
     \<lparr>si_server = s, si_frontend_iface = iface_of (sd_frontend_addr s) (grains (sd_fqdn s)),
      si_backend_iface = iface_of (sd_backend_addr s) (grains (sd_fqdn s))\<rparr>"

definition list_cluster_servers ::
  "(string \<Rightarrow> (string \<times> string list) list option) \<Rightarrow> string \<Rightarrow> (manager, server_ifaces list) view" where
  "list_cluster_servers grains fsid =
     bnd (rpc_server_list_cluster fsid) (\<lambda>ss. ret (response 200 (Data (map (lookup_ifaces grains) ss))))"

definition retrieve_cluster_server ::
  "(string \<Rightarrow> (string \<times> string list) list option) \<Rightarrow> string \<Rightarrow> string \<Rightarrow> (manager, server_ifaces) view" where
  "retrieve_cluster_server grains fsid fqdn =
     bnd (rpc_server_get_cluster fqdn fsid) (\<lambda>s. ret (response 200 (Data (lookup_ifaces grains s))))"

definition retrieve_grains :: "(string \<Rightarrow> 'g list) \<Rightarrow> string \<Rightarrow> 'g list http" where
  "retrieve_grains get_remote_grains fqdn =
     (if get_remote_grains fqdn = [] then response 404 Empty else response 200 (Data (get_remote_grains fqdn)))"

definition retrieve_server :: "string \<Rightarrow> (manager, server_dump) view" where
  "retrieve_server fqdn = bnd (rpc_server_get fqdn) (\<lambda>s. ret (response 200 (Data s)))"

definition list_servers :: "(manager, server_dump list) view" where
  "list_servers = bnd get_state (\<lambda>w. ret (response 200 (Data (rpc_server_list w))))"

definition destroy_server :: "string \<Rightarrow> (manager, unit) view" where
  "destroy_server fqdn = bnd (rpc_server_delete fqdn) (\<lambda>_. ret (response 204 Empty))"

section \<open>Jobs on the mons\<close>

text \<open>\<open>parse_time\<close> reads the time of the last contact.\<close>

definition up_mon_servers :: "(string \<Rightarrow> int) \<Rightarrow> string \<Rightarrow> server_dump list \<Rightarrow> string list" where
  "up_mon_servers parse_time fsid ss =
     (let contacted = filter (\<lambda>s. sd_last_contact s \<notin> {None, Some []}) ss;
          newest = rev (sort_key (\<lambda>s. parse_time (the (sd_last_contact s))) (rev contacted))
      in concat (map (\<lambda>s. map (\<lambda>_. sd_fqdn s)
           (filter (\<lambda>(i, running). running \<and> sid_type i = ''mon'' \<and> sid_fsid i = fsid) (sd_services s))) newest))"

text \<open>The first mon that answers, also with an error.\<close>

fun first_answer :: "(string \<Rightarrow> 'r option) \<Rightarrow> string list \<Rightarrow> 'r option" where
  "first_answer run [] = None"
| "first_answer run (m # ms) = (case run m of Some r \<Rightarrow> Some r | None \<Rightarrow> first_answer run ms)"

definition run_mon_job :: "(string \<Rightarrow> int) \<Rightarrow> string \<Rightarrow> (string \<Rightarrow> 'r option) \<Rightarrow> 'r mg_py" where
  "run_mon_job parse_time fsid run =
     bnd (rpc_server_list_cluster fsid) (\<lambda>ss. case first_answer run (up_mon_servers parse_time fsid ss) of
         Some r \<Rightarrow> ret r
       | None \<Rightarrow> raise (ServiceUnavailable ''No mon servers are responding''))"

definition run_job :: "string \<Rightarrow> 'r option \<Rightarrow> exn + 'r" where
  "run_job fqdn result = (case result of
       None \<Rightarrow> Inl (ServiceUnavailable (''Server '' @ quote @ fqdn @ quote @ '' not responding''))
     | Some r \<Rightarrow> Inr r)"

text \<open>
  The command may be a text, which \<open>shlex\<close> splits, or a list. A result that is not a dictionary
  is Inl.
\<close>

datatype cli_command = NoCommand | OtherCommand | TextCommand string | ListCommand "jval list"

definition cli_create ::
  "(string \<Rightarrow> int) \<Rightarrow> (string \<Rightarrow> exn + jval list) \<Rightarrow> string \<Rightarrow> cli_command \<Rightarrow>
    (string \<Rightarrow> jval list \<Rightarrow> string \<Rightarrow> (string + 'r) option) \<Rightarrow> (manager, 'r) view" where
  "cli_create parse_time shlex fsid cmd run =
     bnd (lift_exn (case cmd of
         NoCommand \<Rightarrow> Inl (ParseError (quote @ ''command'' @ quote @ '' field is required''))
       | OtherCommand \<Rightarrow> Inl (ParseError (quote @ ''command'' @ quote @ '' must be a string or list''))
       | TextCommand s \<Rightarrow> shlex s
       | ListCommand xs \<Rightarrow> Inr xs)) (\<lambda>words.
     bnd get_state (\<lambda>w. case rpc_get_cluster w fsid of
         None \<Rightarrow> raise TypeError
       | Some c \<Rightarrow>
           bnd (run_mon_job parse_time fsid (run (cd_name c) words)) (\<lambda>result. case result of
               Inl txt \<Rightarrow> raise (APIException (''Remote error: '' @ txt))
             | Inr r \<Rightarrow> ret (response 200 (Data r)))))"

section \<open>Logs\<close>

text \<open>\<open>get_log fqdn path lines\<close> is the RPC; its answer is the text of that server.\<close>

definition get_cluster_log ::
  "(string \<Rightarrow> int) \<Rightarrow> (string \<Rightarrow> string \<Rightarrow> string \<Rightarrow> string option) \<Rightarrow> string option \<Rightarrow> string \<Rightarrow> (manager, string) view" where
  "get_cluster_log parse_time get_log lines fsid =
     bnd get_state (\<lambda>w. case rpc_get_cluster w fsid of
         None \<Rightarrow> raise TypeError
       | Some c \<Rightarrow>
           bnd (rpc_server_list_cluster fsid) (\<lambda>ss.
           ret (case first_answer (\<lambda>m. get_log m (''ceph/'' @ cd_name c @ ''.log'') (case lines of None \<Rightarrow> ''40'' | Some n \<Rightarrow> n))
                  (up_mon_servers parse_time fsid ss) of
                Some txt \<Rightarrow> response 200 (Data txt)
              | None \<Rightarrow> response 503 (Message ''mon log data unavailable''))))"

definition list_server_logs :: "string list option \<Rightarrow> (string list \<Rightarrow> string list) \<Rightarrow> string list http" where
  "list_server_logs result in_order = (case result of
       None \<Rightarrow> response 503 Empty | Some ls \<Rightarrow> response 200 (Data (in_order ls)))"

definition get_server_log :: "string option \<Rightarrow> string http" where
  "get_server_log result = (case result of None \<Rightarrow> response 503 Empty | Some txt \<Rightarrow> response 200 (Data txt))"

section \<open>Events\<close>

text \<open>The events in the database, newest first, down to the severity that was asked for.\<close>

definition queryset :: "event list \<Rightarrow> event list" where
  "queryset es = rev (sort_key ev_when (rev es))"

definition filter_by_severity :: "string option \<Rightarrow> event list \<Rightarrow> exn + event list" where
  "filter_by_severity sev es =
     (let s = (case sev of None \<Rightarrow> ''INFO'' | Some t \<Rightarrow> t) in case severity_from_str s of
        Inl _ \<Rightarrow> Inl (ParseError (''Invalid severity '' @ quote @ s @ quote @
          '', must be on of CRITICAL,ERROR,WARNING,RECOVERY,INFO''))
      | Inr n \<Rightarrow> Inr (filter (\<lambda>e. severity_value (ev_severity e) \<le> severity_value n) es))"

definition list_events ::
  "(event list \<Rightarrow> string \<Rightarrow> string \<Rightarrow> exn + 'c) \<Rightarrow> string option \<Rightarrow> string option \<Rightarrow> string option \<Rightarrow>
    (event \<Rightarrow> bool) \<Rightarrow> event list \<Rightarrow> exn + 'c http" where
  "list_events paginator page page_size sev wanted es =
     then_do (filter_by_severity sev (filter wanted (queryset es))) (\<lambda>xs.
     then_do (paginate paginator page page_size xs) (\<lambda>p. Inr (response 200 (Data p))))"

definition list_cluster_events ::
  "(event list \<Rightarrow> string \<Rightarrow> string \<Rightarrow> exn + 'c) \<Rightarrow> string option \<Rightarrow> string option \<Rightarrow> string option \<Rightarrow> string \<Rightarrow>
    event list \<Rightarrow> exn + 'c http" where
  "list_cluster_events paginator page page_size sev fsid =
     list_events paginator page page_size sev (\<lambda>e. as_fsid (ev_assoc e) = Some fsid)"

definition list_server_events ::
  "(event list \<Rightarrow> string \<Rightarrow> string \<Rightarrow> exn + 'c) \<Rightarrow> string option \<Rightarrow> string option \<Rightarrow> string option \<Rightarrow> string \<Rightarrow>
    event list \<Rightarrow> exn + 'c http" where
  "list_server_events paginator page page_size sev fqdn =
     list_events paginator page page_size sev (\<lambda>e. as_fqdn (ev_assoc e) = Some fqdn)"

section \<open>Which mon a job runs on\<close>

definition has_up_mon :: "string \<Rightarrow> server_dump \<Rightarrow> bool" where
  "has_up_mon fsid s \<longleftrightarrow> (\<exists>(i, running) \<in> set (sd_services s). running \<and> sid_type i = ''mon'' \<and> sid_fsid i = fsid)"

definition contact :: "(string \<Rightarrow> int) \<Rightarrow> server_dump \<Rightarrow> int" where
  "contact parse_time s = parse_time (the (sd_last_contact s))"

definition candidates :: "string \<Rightarrow> server_dump list \<Rightarrow> server_dump list" where
  "candidates fsid = filter (\<lambda>s. sd_last_contact s \<notin> {None, Some []} \<and> has_up_mon fsid s)"

lemma first_answer_Some:
  "first_answer run ms = Some r \<Longrightarrow> \<exists>i < length ms. run (ms ! i) = Some r \<and> (\<forall>j < i. run (ms ! j) = None)"
proof (induction ms)
  case (Cons m ms)
  show ?case
  proof (cases "run m")
    case None
    with Cons obtain i where "i < length ms" "run (ms ! i) = Some r" "\<forall>j < i. run (ms ! j) = None" by auto
    with None show ?thesis by (intro exI [of _ "Suc i"]) (auto simp: less_Suc_eq_0_disj)
  next
    case (Some x)
    with Cons show ?thesis by (intro exI [of _ 0]) simp
  qed
qed simp

lemma first_answer_None: "first_answer run ms = None \<longleftrightarrow> (\<forall>m \<in> set ms. run m = None)"
  by (induction ms) (auto split: option.split)

text \<open>The servers that are tried, in order, a server once for each of its mons.\<close>

definition tried :: "(string \<Rightarrow> int) \<Rightarrow> string \<Rightarrow> server_dump list \<Rightarrow> server_dump list" where
  "tried parse_time fsid ss = concat (map (\<lambda>s. map (\<lambda>_. s)
     (filter (\<lambda>(i, running). running \<and> sid_type i = ''mon'' \<and> sid_fsid i = fsid) (sd_services s)))
     (rev (sort_key (contact parse_time) (rev (filter (\<lambda>s. sd_last_contact s \<notin> {None, Some []}) ss)))))"

lemma up_mon_servers_tried: "up_mon_servers parse_time fsid ss = map sd_fqdn (tried parse_time fsid ss)"
  by (simp add: up_mon_servers_def tried_def Let_def contact_def [abs_def] map_concat comp_def)

lemma set_tried: "set (tried parse_time fsid ss) = set (candidates fsid ss)"
  by (auto simp: tried_def candidates_def has_up_mon_def)

lemma sorted_repeat:
  fixes f :: "'a \<Rightarrow> int"
  shows "sorted_wrt (\<lambda>x y. f y \<le> f x) xs \<Longrightarrow> sorted_wrt (\<lambda>x y. f y \<le> f x) (concat (map (\<lambda>x. map (\<lambda>_. x) (g x)) xs))"
proof (induction xs)
  case (Cons x xs)
  have "sorted_wrt (\<lambda>x y. f y \<le> f x) (map (\<lambda>_. x) (g x))" by (induction "g x") (auto simp: sorted_wrt_map)
  with Cons show ?case by (auto simp: sorted_wrt_append)
qed simp

lemma sorted_tried: "sorted_wrt (\<lambda>s t. contact parse_time t \<le> contact parse_time s) (tried parse_time fsid ss)"
proof -
  let ?xs = "sort_key (contact parse_time) (rev (filter (\<lambda>s. sd_last_contact s \<notin> {None, Some []}) ss))"
  have "sorted_wrt (\<lambda>s t. contact parse_time s \<le> contact parse_time t) ?xs"
    using sorted_sort_key [of "contact parse_time"] by (simp add: sorted_map)
  then have "sorted_wrt (\<lambda>s t. contact parse_time t \<le> contact parse_time s) (rev ?xs)" by (simp add: sorted_wrt_rev)
  then show ?thesis unfolding tried_def by (rule sorted_repeat)
qed

lemma run_mon_job_run:
  assumes "rpc_server_list_cluster fsid w = (Inr ss, w1)"
  shows "run_mon_job parse_time fsid run w = (case first_answer run (up_mon_servers parse_time fsid ss) of
      Some r \<Rightarrow> (Inr r, w1) | None \<Rightarrow> (Inl (ServiceUnavailable ''No mon servers are responding''), w1))"
  using assms by (simp add: run_mon_job_def bnd_def ret_def raise_def split: option.split)

text \<open>
  A job for the mons of a cluster: its result is that of a server with a running mon of the
  cluster that has been in contact, and all such servers with a later contact did not answer. If
  none answers, and only then, the client gets a 503. The server's state is what reading the list
  of its servers leaves.
\<close>

theorem mon_job_asks_the_latest_first:
  assumes "rpc_server_list_cluster fsid w = (Inr ss, w1)"
  shows "\<exists>x. dispatch (bnd (run_mon_job parse_time fsid run) (\<lambda>r. ret (response 200 (Data r)))) w = (Inr x, w1) \<and>
      (if \<forall>s \<in> set (candidates fsid ss). run (sd_fqdn s) = None then http_status x = 503
       else (\<exists>s r. x = response 200 (Data r) \<and> s \<in> set (candidates fsid ss) \<and> run (sd_fqdn s) = Some r
         \<and> (\<forall>t \<in> set (candidates fsid ss). contact parse_time s < contact parse_time t \<longrightarrow> run (sd_fqdn t) = None)))"
proof (cases "first_answer run (up_mon_servers parse_time fsid ss)")
  case None
  then have "\<forall>s \<in> set (candidates fsid ss). run (sd_fqdn s) = None"
    by (simp add: first_answer_None up_mon_servers_tried set_tried)
  with None show ?thesis
    by (simp add: dispatch_def try_except_def bnd_def run_mon_job_run [OF assms] raise_def ret_def response_def)
next
  case (Some r)
  let ?ts = "tried parse_time fsid ss"
  from first_answer_Some [OF Some] obtain i where
    i: "i < length ?ts" "run (sd_fqdn (?ts ! i)) = Some r" "\<forall>j < i. run (sd_fqdn (?ts ! j)) = None"
    by (auto simp: up_mon_servers_tried)
  have later: "run (sd_fqdn t) = None" if t: "t \<in> set (candidates fsid ss)" "contact parse_time (?ts ! i) < contact parse_time t" for t
  proof -
    from t(1) have "t \<in> set ?ts" by (simp add: set_tried)
    then obtain j where j: "j < length ?ts" "t = ?ts ! j" by (auto simp: in_set_conv_nth)
    have "j < i"
    proof (rule ccontr)
      assume "\<not> j < i"
      with t(2) j(2) have "i < j" by (cases "i = j") auto
      with sorted_wrt_nth_less [OF sorted_tried, of i j parse_time fsid ss] j t(2) show False by simp
    qed
    with i(3) j(2) show ?thesis by simp
  qed
  have c: "?ts ! i \<in> set (candidates fsid ss)" using nth_mem [OF i(1)] by (simp only: set_tried)
  have "dispatch (bnd (run_mon_job parse_time fsid run) (\<lambda>r. ret (response 200 (Data r)))) w
      = (Inr (response 200 (Data r)), w1)"
    using Some by (simp add: dispatch_def try_except_def bnd_def run_mon_job_run [OF assms] ret_def)
  moreover have "\<not> (\<forall>s \<in> set (candidates fsid ss). run (sd_fqdn s) = None)" using c i(2) by auto
  ultimately show ?thesis using c i(2) later by auto
qed

text \<open>Two servers with a mon; the one that was in contact last does not answer.\<close>

definition mon_server :: "string \<Rightarrow> string \<Rightarrow> time \<Rightarrow> server_state" where
  "mon_server n m t = \<lparr>ss_fqdn = n, ss_hostname = n, ss_managed = True, ss_services = [ServiceId ''f'' ''mon'' m],
     ss_last_contact = Some t, ss_boot_time = None, ss_ceph_version = None\<rparr>"

definition mon_manager :: manager where
  "mon_manager = late_manager\<lparr>servers := init_server_monitor\<lparr>sm_heap := [(0, mon_server ''n1'' ''a'' 0), (1, mon_server ''n2'' ''b'' 60)],
     sm_next := 2, sm_servers := [(''n1'', 0), (''n2'', 1)],
     sm_fsid_services := [(''f'', [ServiceId ''f'' ''mon'' ''a'', ServiceId ''f'' ''mon'' ''b''])],
     sm_services := [(ServiceId ''f'' ''mon'' ''a'', \<lparr>sv_server = Some 0, sv_running = True, sv_status = None\<rparr>),
       (ServiceId ''f'' ''mon'' ''b'', \<lparr>sv_server = Some 1, sv_running = True, sv_status = None\<rparr>)]\<rparr>\<rparr>"

lemma mon_manager_servers:
  "case fst (rpc_server_list_cluster ''f'' mon_manager) of Inl _ \<Rightarrow> False
   | Inr ss \<Rightarrow> map sd_fqdn (candidates ''f'' ss) = [''n1'', ''n2'']"
  by code_simp

theorem mon_job_asks_the_latest_first_witness:
  "\<exists>w1. dispatch (bnd (run_mon_job (\<lambda>t. int (length t)) ''f'' (\<lambda>m. if m = ''n1'' then Some ''done'' else None))
     (\<lambda>r. ret (response 200 (Data r)))) mon_manager = (Inr (response 200 (Data ''done'')), w1)"
proof -
  obtain ss w1 where ss: "rpc_server_list_cluster ''f'' mon_manager = (Inr ss, w1)"
    and c: "map sd_fqdn (candidates ''f'' ss) = [''n1'', ''n2'']"
    using mon_manager_servers by (cases "rpc_server_list_cluster ''f'' mon_manager") (auto split: sum.splits)
  from c obtain s t where "candidates ''f'' ss = [s, t]" "sd_fqdn s = ''n1''" "sd_fqdn t = ''n2''" by auto
  with mon_job_asks_the_latest_first [OF ss, of "\<lambda>t. int (length t)" "\<lambda>m. if m = ''n1'' then Some ''done'' else None"]
  show ?thesis by auto
qed

end
