(* ===== verification/TgtSchema.thy ===== *)
theory TgtSchema
  imports RestBase CephModule
begin

text \<open>
  The configuration of the iSCSI target service as data: the schema library that validates it
  (calamari_rest/sservice/lib/schema.py), the schemas of a LUN, a target and the whole
  configuration (calamari_rest/sservice/iscsi/tgt_manager.py), and the records that a validated
  configuration is.

  A value is what YAML can hold; the keys of its dictionaries are texts. The messages of a
  SchemaError, which print the offending values, are left out. Of the schema library what the
  three schemas use is here; And, StrRe, UnicodeRe, ListVal and DoNotCare are used nowhere.
\<close>

section \<open>Texts\<close>

definition whitespace :: "char \<Rightarrow> bool" where
  "whitespace c \<longleftrightarrow> c \<in> set [CHR '' '', CHR 0x09, CHR 0x0A, CHR 0x0B, CHR 0x0C, CHR 0x0D]"

definition lstrip :: "string \<Rightarrow> string" where
  "lstrip s = dropWhile whitespace s"

definition strip :: "string \<Rightarrow> string" where
  "strip s = rev (lstrip (rev (lstrip s)))"

definition ascii :: "string \<Rightarrow> bool" where
  "ascii s \<longleftrightarrow> (\<forall>c \<in> set s. (of_char c :: nat) < 128)"

text \<open>\<open>s.partition(c)\<close>: what is before the first \<open>c\<close>, whether there is one, and what is after it.\<close>

fun partition_at :: "char \<Rightarrow> string \<Rightarrow> string \<times> bool \<times> string" where
  "partition_at c [] = ([], False, [])"
| "partition_at c (x # xs) =
     (if x = c then ([], True, xs) else (case partition_at c xs of (a, b, r) \<Rightarrow> (x # a, b, r)))"

lemma lstrip_append: "lstrip (s @ t) = (if \<forall>c \<in> set s. whitespace c then lstrip t else lstrip s @ t)"
  by (induction s) (auto simp: lstrip_def)

lemma lstrip_head: "lstrip s \<noteq> [] \<Longrightarrow> \<not> whitespace (hd (lstrip s))"
  unfolding lstrip_def by (rule hd_dropWhile)

lemma lstrip_fix: "s = [] \<or> \<not> whitespace (hd s) \<Longrightarrow> lstrip s = s"
  by (cases s) (auto simp: lstrip_def)

lemma last_in_rev_lstrip: "lstrip (rev s) = rev t \<Longrightarrow> t = [] \<or> (s \<noteq> [] \<and> hd t = hd s)"
proof (cases s)
  case (Cons x xs)
  assume a: "lstrip (rev s) = rev t"
  show ?thesis
  proof (cases "\<forall>c \<in> set (rev xs). whitespace c")
    case True
    with a Cons have "rev t = lstrip [x]" by (simp add: lstrip_append)
    then show ?thesis using Cons by (cases "whitespace x") (auto simp: lstrip_def)
  next
    case False
    with a Cons have "rev t = lstrip (rev xs) @ [x]" by (auto simp: lstrip_append split: if_splits)
    then have "t = x # rev (lstrip (rev xs))" by (metis rev.simps(2) rev_append rev_rev_ident rev_swap append_Cons append_Nil rev_singleton_conv)
    with Cons show ?thesis by simp
  qed
qed (simp add: lstrip_def)

lemma strip_strip [simp]: "strip (strip s) = strip s"
proof -
  let ?t = "rev (lstrip (rev (lstrip s)))"
  have "?t = [] \<or> \<not> whitespace (hd ?t)"
    using last_in_rev_lstrip [of "lstrip s" ?t] lstrip_head [of s] by auto
  then have "lstrip ?t = ?t" by (rule lstrip_fix)
  moreover have "lstrip (rev ?t) = rev ?t"
    using lstrip_head [of "rev (lstrip s)"] by (intro lstrip_fix) auto
  ultimately show ?thesis unfolding strip_def by simp
qed

lemma set_lstrip: "set (lstrip s) \<subseteq> set s"
  by (auto simp: lstrip_def dest: set_dropWhileD)

lemma ascii_strip: "ascii s \<Longrightarrow> ascii (strip s)"
  using set_lstrip [of s] set_lstrip [of "rev (lstrip s)"] by (auto simp: ascii_def strip_def)

section \<open>Values and schemas\<close>

datatype yaml = Scalar jval | Seq "yaml list" | Block "(string \<times> yaml) list"

fun repr_yaml :: "yaml \<Rightarrow> string" where
  "repr_yaml (Scalar j) = repr_jval j"
| "repr_yaml (Seq xs) = ''['' @ join '', '' (map repr_yaml xs) @ '']''"
| "repr_yaml (Block m) = ''{'' @ join '', '' (map (\<lambda>(k, v). quote @ k @ quote @ '': '' @ repr_yaml v) m) @ ''}''"

fun str_yaml :: "yaml \<Rightarrow> string" where
  "str_yaml (Scalar j) = str_jval j"
| "str_yaml y = repr_yaml y"

text \<open>The types that \<open>isinstance\<close> is asked for.\<close>

datatype kind = StrType | ListType | DictType | ObjectType

fun isinstance :: "yaml \<Rightarrow> kind \<Rightarrow> bool" where
  "isinstance (Scalar (JStr s)) StrType = ascii s"
| "isinstance (Seq xs) ListType = True"
| "isinstance (Block m) DictType = True"
| "isinstance y ObjectType = True"
| "isinstance y t = False"

text \<open>The keys of a dictionary that is a schema: a text, \<open>Optional(text)\<close> and \<open>AutoDel(str)\<close>.\<close>

datatype skey = Key string | OptionalKey string | AutoDel

datatype schema =
    TypeIs kind
  | UseStr
  | IntVal "int option" "int option" "int list"
  | BoolVal
  | ListOf "schema list"
  | DictOf "(skey \<times> schema) list"
  | Default schema yaml

section \<open>Single values\<close>

text \<open>\<open>Use(str)\<close>: \<open>str\<close> refuses a text with characters outside ASCII.\<close>

definition use_str :: "yaml \<Rightarrow> exn + yaml" where
  "use_str y = (if ascii (str_yaml y) then Inr (Scalar (JStr (strip (str_yaml y)))) else Inl SchemaError)"

definition int_literal :: "string \<Rightarrow> exn + int" where
  "int_literal s = (let t = strip s in
     if startswith t ''+'' \<and> \<not> startswith (tl t) ''-'' then int_base0 (Some (tl t)) else int_base0 (Some t))"

text \<open>The value that is kept, and the number it is compared as: True is an integer, and stays what it is.\<close>

fun as_integer :: "yaml \<Rightarrow> exn + yaml \<times> int" where
  "as_integer (Scalar (JInt i)) = Inr (Scalar (JInt i), i)"
| "as_integer (Scalar (JBool b)) = Inr (Scalar (JBool b), if b then 1 else 0)"
| "as_integer (Scalar (JStr s)) = (case int_literal s of Inl _ \<Rightarrow> Inl SchemaError | Inr i \<Rightarrow> Inr (Scalar (JInt i), i))"
| "as_integer (Scalar (JNum q)) = (let i = (if q < 0 then - floor (- q) else floor q) in Inr (Scalar (JInt i), i))"
| "as_integer _ = Inl SchemaError"

text \<open>A bound of 0 is none.\<close>

definition bound :: "int option \<Rightarrow> int option" where
  "bound b = (if b = Some 0 then None else b)"

definition int_val :: "int option \<Rightarrow> int option \<Rightarrow> int list \<Rightarrow> yaml \<Rightarrow> exn + yaml" where
  "int_val mn mx values y = then_do (as_integer y) (\<lambda>(v, i).
     if i \<in> set values then Inr v
     else if \<exists>m. bound mn = Some m \<and> i < m then Inl SchemaError
     else if \<exists>m. bound mx = Some m \<and> m < i then Inl SchemaError
     else if mn = None \<and> mx = None \<and> values \<noteq> [] then Inl SchemaError
     else Inr v)"

definition bool_val :: "yaml \<Rightarrow> exn + yaml" where
  "bool_val y = (case y of
       Scalar (JBool b) \<Rightarrow> Inr y
     | Scalar (JStr s) \<Rightarrow>
         (if s = ''true'' \<or> s = ''True'' then Inr (Scalar (JBool True))
          else if s = ''false'' \<or> s = ''False'' then Inr (Scalar (JBool False)) else Inl SchemaError)
     | _ \<Rightarrow> Inl SchemaError)"

section \<open>Lists and dictionaries\<close>

text \<open>\<open>Or(schemas)\<close>: the first that accepts.\<close>

fun first_valid :: "(yaml \<Rightarrow> exn + yaml) list \<Rightarrow> yaml \<Rightarrow> exn + yaml" where
  "first_valid [] y = Inl SchemaError"
| "first_valid (f # fs) y = (case f y of Inr v \<Rightarrow> Inr v | Inl _ \<Rightarrow> first_valid fs y)"

definition validate_list :: "(yaml \<Rightarrow> exn + yaml) list \<Rightarrow> yaml \<Rightarrow> exn + yaml" where
  "validate_list fs y = (case y of Seq xs \<Rightarrow> then_do (map_res (first_valid fs) xs) (\<lambda>vs. Inr (Seq vs)) | _ \<Rightarrow> Inl SchemaError)"

fun priority :: "skey \<Rightarrow> nat" where
  "priority (Key _) = 1"
| "priority (OptionalKey _) = 4"
| "priority AutoDel = 8"

fun matches :: "skey \<Rightarrow> string \<Rightarrow> bool" where
  "matches (Key s) k = (s = k)"
| "matches (OptionalKey s) k = (s = k)"
| "matches AutoDel k = ascii k"

text \<open>A key with the validator of its value and the value's default, if it has one.\<close>

type_synonym field = "skey \<times> (yaml \<Rightarrow> exn + yaml) \<times> yaml option"

text \<open>
  The items of a dictionary: the new ones, and the keys of the schema that were met. All three
  sorts of keys must match once they do: a value that is refused is an error.
\<close>

fun take_items :: "field list \<Rightarrow> (string \<times> yaml) list \<Rightarrow> exn + (string \<times> yaml) list \<times> skey list" where
  "take_items fs [] = Inr ([], [])"
| "take_items fs ((k, y) # m) = (case List.find (\<lambda>f. matches (fst f) k) fs of
       None \<Rightarrow> (if fs = [] then take_items fs m else Inl SchemaError)
     | Some (sk, f, _) \<Rightarrow> then_do (f y) (\<lambda>v. then_do (take_items fs m) (\<lambda>(new, met).
         Inr (if sk = AutoDel then (new, sk # met) else ((k, v) # new, sk # met)))))"

fun default_key :: "skey \<Rightarrow> string" where
  "default_key (Key s) = s"
| "default_key (OptionalKey s) = s"
| "default_key AutoDel = ''''"

definition required :: "skey \<Rightarrow> bool" where
  "required k \<longleftrightarrow> (case k of Key _ \<Rightarrow> True | _ \<Rightarrow> False)"

definition defaults :: "field list \<Rightarrow> skey list \<Rightarrow> (string \<times> yaml) list" where
  "defaults fs met = List.map_filter (\<lambda>(k, _, d). if required k \<or> k \<in> set met then None else map_option (Pair (default_key k)) d) fs"

definition validate_dict :: "field list \<Rightarrow> yaml \<Rightarrow> exn + yaml" where
  "validate_dict fs y = (case y of
       Block m \<Rightarrow> then_do (take_items (sort_key (\<lambda>f. priority (fst f)) fs) m) (\<lambda>(new, met).
         if \<forall>k \<in> set (map fst fs). required k \<longrightarrow> k \<in> set met then Inr (Block (update_dict (defaults fs met) new))
         else Inl SchemaError)
     | _ \<Rightarrow> Inl SchemaError)"

text \<open>The default is validated when the schema is made.\<close>

definition default_of :: "schema \<Rightarrow> (yaml \<Rightarrow> exn + yaml) \<Rightarrow> yaml option" where
  "default_of s f = (case s of Default _ d \<Rightarrow> (case f d of Inr v \<Rightarrow> Some v | Inl _ \<Rightarrow> None) | _ \<Rightarrow> None)"

fun validate :: "schema \<Rightarrow> yaml \<Rightarrow> exn + yaml" where
  "validate (TypeIs t) y = (if isinstance y t then Inr y else Inl SchemaError)"
| "validate UseStr y = use_str y"
| "validate (IntVal mn mx values) y = int_val mn mx values y"
| "validate BoolVal y = bool_val y"
| "validate (ListOf ss) y = validate_list (map validate ss) y"
| "validate (DictOf m) y = validate_dict (map (\<lambda>(k, s). (k, validate s, default_of s (validate s))) m) y"
| "validate (Default s d) y = validate s y"

section \<open>The three schemas\<close>

abbreviation ystr :: "string \<Rightarrow> yaml" where
  "ystr s \<equiv> Scalar (JStr s)"

definition LUN_CONF_SCHEMA :: schema where
  "LUN_CONF_SCHEMA = DictOf
     [(OptionalKey ''lun'', Default (IntVal (Some 1) (Some 255) []) (Scalar (JInt 1))),
      (Key ''size'', IntVal (Some 1) (Some 4096) []),
      (Key ''iqn'', UseStr), (Key ''pool'', UseStr), (Key ''image'', UseStr), (Key ''name'', UseStr),
      (OptionalKey ''device_type'', Default UseStr (ystr ''disk'')),
      (OptionalKey ''bs_type'', Default UseStr (ystr ''rbd'')),
      (OptionalKey ''write_cache'', Default BoolVal (Scalar (JBool True))),
      (AutoDel, TypeIs ObjectType)]"

definition TARGET_CONF_SCHEMA :: schema where
  "TARGET_CONF_SCHEMA = DictOf
     [(OptionalKey ''id'', Default (IntVal (Some 1) (Some 255) []) (Scalar (JInt 1))),
      (Key ''iqn'', UseStr),
      (OptionalKey ''initiator_addr_list'', Default (ListOf [UseStr]) (Seq [])),
      (OptionalKey ''initiator_name_list'', Default (ListOf [UseStr]) (Seq [])),
      (OptionalKey ''incominguser_list'', Default (ListOf [UseStr]) (Seq [])),
      (OptionalKey ''outgoinguser_list'', Default (ListOf [UseStr]) (Seq [])),
      (OptionalKey ''lun_list'', Default (ListOf [LUN_CONF_SCHEMA]) (Seq [])),
      (AutoDel, TypeIs ObjectType)]"

definition TGT_CONF_SCHEMA :: schema where
  "TGT_CONF_SCHEMA = DictOf
     [(OptionalKey ''incomingdiscoveryuser'', Default UseStr (ystr '''')),
      (OptionalKey ''outgoingdiscoveryuser'', Default UseStr (ystr '''')),
      (OptionalKey ''target_list'', Default (ListOf [TARGET_CONF_SCHEMA]) (Seq [])),
      (AutoDel, TypeIs ObjectType)]"

section \<open>Records\<close>

record lun_conf =
  lun_iqn :: string
  lun_size :: int
  lun_pool :: string
  lun_image :: string
  lun_name :: string
  lun_device_type :: string
  lun_bs_type :: string
  lun_write_cache :: bool
  lun_num :: int

record target_conf =
  tg_iqn :: string
  tg_initiator_addrs :: "string list"
  tg_initiator_names :: "string list"
  tg_incoming :: "string list"
  tg_outgoing :: "string list"
  tg_id :: int
  tg_luns :: "lun_conf list"

record tgt_conf =
  tc_incoming :: string
  tc_outgoing :: string
  tc_targets :: "target_conf list"

definition yaml_of_lun :: "lun_conf \<Rightarrow> yaml" where
  "yaml_of_lun l = Block [(''iqn'', ystr (lun_iqn l)), (''size'', Scalar (JInt (lun_size l))), (''pool'', ystr (lun_pool l)),
     (''image'', ystr (lun_image l)), (''name'', ystr (lun_name l)), (''device_type'', ystr (lun_device_type l)),
     (''bs_type'', ystr (lun_bs_type l)), (''write_cache'', Scalar (JBool (lun_write_cache l))), (''lun'', Scalar (JInt (lun_num l)))]"

definition yaml_of_target :: "target_conf \<Rightarrow> yaml" where
  "yaml_of_target t = Block [(''iqn'', ystr (tg_iqn t)), (''initiator_addr_list'', Seq (map ystr (tg_initiator_addrs t))),
     (''initiator_name_list'', Seq (map ystr (tg_initiator_names t))), (''incominguser_list'', Seq (map ystr (tg_incoming t))),
     (''outgoinguser_list'', Seq (map ystr (tg_outgoing t))), (''id'', Scalar (JInt (tg_id t))),
     (''lun_list'', Seq (map yaml_of_lun (tg_luns t)))]"

definition yaml_of_conf :: "tgt_conf \<Rightarrow> yaml" where
  "yaml_of_conf c = Block [(''incomingdiscoveryuser'', ystr (tc_incoming c)), (''outgoingdiscoveryuser'', ystr (tc_outgoing c)),
     (''target_list'', Seq (map yaml_of_target (tc_targets c)))]"

text \<open>What the schemas make of such records.\<close>

definition check_str :: "string \<Rightarrow> exn + string" where
  "check_str s = (if ascii s then Inr (strip s) else Inl SchemaError)"

definition check_range :: "int \<Rightarrow> int \<Rightarrow> exn + int" where
  "check_range n i = (if 1 \<le> i \<and> i \<le> n then Inr i else Inl SchemaError)"

definition check_lun :: "lun_conf \<Rightarrow> exn + lun_conf" where
  "check_lun l =
     then_do (check_str (lun_iqn l)) (\<lambda>iqn. then_do (check_range 4096 (lun_size l)) (\<lambda>sz.
     then_do (check_str (lun_pool l)) (\<lambda>pool. then_do (check_str (lun_image l)) (\<lambda>img.
     then_do (check_str (lun_name l)) (\<lambda>name. then_do (check_str (lun_device_type l)) (\<lambda>dt.
     then_do (check_str (lun_bs_type l)) (\<lambda>bs. then_do (check_range 255 (lun_num l)) (\<lambda>n.
     Inr \<lparr>lun_iqn = iqn, lun_size = sz, lun_pool = pool, lun_image = img, lun_name = name,
       lun_device_type = dt, lun_bs_type = bs, lun_write_cache = lun_write_cache l, lun_num = n\<rparr>))))))))"

definition check_target :: "target_conf \<Rightarrow> exn + target_conf" where
  "check_target t =
     then_do (check_str (tg_iqn t)) (\<lambda>iqn. then_do (map_res check_str (tg_initiator_addrs t)) (\<lambda>addrs.
     then_do (map_res check_str (tg_initiator_names t)) (\<lambda>ns. then_do (map_res check_str (tg_incoming t)) (\<lambda>inc.
     then_do (map_res check_str (tg_outgoing t)) (\<lambda>out. then_do (check_range 255 (tg_id t)) (\<lambda>i.
     then_do (map_res check_lun (tg_luns t)) (\<lambda>luns.
     Inr \<lparr>tg_iqn = iqn, tg_initiator_addrs = addrs, tg_initiator_names = ns, tg_incoming = inc, tg_outgoing = out,
       tg_id = i, tg_luns = luns\<rparr>)))))))"

definition check_conf :: "tgt_conf \<Rightarrow> exn + tgt_conf" where
  "check_conf c =
     then_do (check_str (tc_incoming c)) (\<lambda>inc. then_do (check_str (tc_outgoing c)) (\<lambda>out.
     then_do (map_res check_target (tc_targets c)) (\<lambda>ts.
     Inr \<lparr>tc_incoming = inc, tc_outgoing = out, tc_targets = ts\<rparr>)))"

section \<open>The schemas describe the records\<close>

lemma then_do_assoc [simp]: "then_do (then_do r f) g = then_do r (\<lambda>x. then_do (f x) g)"
  by (cases r) auto

lemma then_do_cong: "r = r' \<Longrightarrow> (\<And>x. r' = Inr x \<Longrightarrow> f x = g x) \<Longrightarrow> then_do r f = then_do r' g"
  by (cases r') auto

text \<open>What can be in a configuration that loads, and what loading does to it.\<close>

definition lun_in_range :: "lun_conf \<Rightarrow> bool" where
  "lun_in_range l \<longleftrightarrow> ascii (lun_iqn l) \<and> ascii (lun_pool l) \<and> ascii (lun_image l) \<and> ascii (lun_name l)
     \<and> ascii (lun_device_type l) \<and> ascii (lun_bs_type l) \<and> lun_size l \<in> {1..4096} \<and> lun_num l \<in> {1..255}"

definition target_in_range :: "target_conf \<Rightarrow> bool" where
  "target_in_range t \<longleftrightarrow> ascii (tg_iqn t) \<and> tg_id t \<in> {1..255} \<and> list_all lun_in_range (tg_luns t)
     \<and> list_all ascii (tg_initiator_addrs t) \<and> list_all ascii (tg_initiator_names t)
     \<and> list_all ascii (tg_incoming t) \<and> list_all ascii (tg_outgoing t)"

definition conf_in_range :: "tgt_conf \<Rightarrow> bool" where
  "conf_in_range c \<longleftrightarrow> ascii (tc_incoming c) \<and> ascii (tc_outgoing c) \<and> list_all target_in_range (tc_targets c)"

definition strip_lun :: "lun_conf \<Rightarrow> lun_conf" where
  "strip_lun l = l\<lparr>lun_iqn := strip (lun_iqn l), lun_pool := strip (lun_pool l), lun_image := strip (lun_image l),
     lun_name := strip (lun_name l), lun_device_type := strip (lun_device_type l), lun_bs_type := strip (lun_bs_type l)\<rparr>"

definition strip_target :: "target_conf \<Rightarrow> target_conf" where
  "strip_target t = t\<lparr>tg_iqn := strip (tg_iqn t), tg_initiator_addrs := map strip (tg_initiator_addrs t),
     tg_initiator_names := map strip (tg_initiator_names t), tg_incoming := map strip (tg_incoming t),
     tg_outgoing := map strip (tg_outgoing t), tg_luns := map strip_lun (tg_luns t)\<rparr>"

definition strip_conf :: "tgt_conf \<Rightarrow> tgt_conf" where
  "strip_conf c = c\<lparr>tc_incoming := strip (tc_incoming c), tc_outgoing := strip (tc_outgoing c),
     tc_targets := map strip_target (tc_targets c)\<rparr>"

text \<open>
  A validator of values against a check of records: on what \<open>g\<close> makes of a record, \<open>f\<close> does what
  \<open>h\<close> does, which accepts the records with \<open>P\<close> and strips them, once and for all.
\<close>

locale described =
  fixes f :: "yaml \<Rightarrow> exn + yaml" and h :: "'a \<Rightarrow> exn + 'a" and g :: "'a \<Rightarrow> yaml"
    and P :: "'a \<Rightarrow> bool" and stripped :: "'a \<Rightarrow> 'a"
  assumes agrees: "f (g x) = then_do (h x) (\<lambda>v. Inr (g v))"
    and accepts: "h x = Inr y \<longleftrightarrow> P x \<and> y = stripped x"
    and refuses: "h x = Inl e \<Longrightarrow> e = SchemaError"
    and stays: "P x \<Longrightarrow> P (stripped x)"
    and idem: "stripped (stripped x) = stripped x"
begin

lemma checks: "h x = (if P x then Inr (stripped x) else Inl SchemaError)"
  using accepts [of x] refuses [of x] by (cases "h x") auto

lemma validates: "f (g x) = (if P x then Inr (g (stripped x)) else Inl SchemaError)"
  by (simp add: agrees checks)

lemma twice: "then_do (h x) h = h x"
  by (simp add: checks stays idem)

lemma list_Inr: "map_res h xs = Inr ys \<longleftrightarrow> list_all P xs \<and> ys = map stripped xs"
  by (induction xs arbitrary: ys) (auto simp: then_do_eq_Inr accepts)

lemma list_refuses: "map_res h xs = Inl e \<Longrightarrow> e = SchemaError"
  by (induction xs) (auto simp: then_do_def dest: refuses split: sum.splits)

text \<open>Lists of what is described are described.\<close>

lemma lists: "described (validate_list [f]) (map_res h) (\<lambda>xs. Seq (map g xs)) (list_all P) (map stripped)"
proof
  fix xs ys e
  have one: "first_valid [f] (g x) = then_do (h x) (\<lambda>v. Inr (g v))" for x
    by (cases "h x") (auto simp: agrees dest: refuses)
  have "map_res (first_valid [f]) (map g xs) = then_do (map_res h xs) (\<lambda>vs. Inr (map g vs))"
    by (induction xs) (simp_all add: one del: first_valid.simps)
  then show "validate_list [f] (Seq (map g xs)) = then_do (map_res h xs) (\<lambda>v. Inr (Seq (map g v)))"
    by (simp add: validate_list_def)
  show "map_res h xs = Inr ys \<longleftrightarrow> list_all P xs \<and> ys = map stripped xs" by (rule list_Inr)
  show "map_res h xs = Inl e \<Longrightarrow> e = SchemaError" by (rule list_refuses)
  show "list_all P xs \<Longrightarrow> list_all P (map stripped xs)" by (auto simp: list_all_iff stays)
  show "map stripped (map stripped xs) = map stripped xs" by (simp add: idem)
qed

end

interpretation str: described "validate UseStr" check_str ystr ascii strip
  by unfold_locales (auto simp: use_str_def check_str_def ascii_strip split: if_splits)

interpretation strs: described "validate_list [validate UseStr]" "map_res check_str" "\<lambda>xs. Seq (map ystr xs)" "list_all ascii" "map strip"
  by (rule str.lists)

lemma check_range_Inr: "check_range n i = Inr j \<longleftrightarrow> i \<in> {1..n} \<and> j = i"
  by (auto simp: check_range_def)

interpretation size_range: described "int_val (Some 1) (Some 4096) []" "check_range 4096" "\<lambda>i. Scalar (JInt i)" "\<lambda>i. i \<in> {1..4096}" "\<lambda>i. i"
  by unfold_locales (auto simp: int_val_def check_range_def bound_def split: if_splits)

interpretation number_range: described "int_val (Some 1) (Some 255) []" "check_range 255" "\<lambda>i. Scalar (JInt i)" "\<lambda>i. i \<in> {1..255}" "\<lambda>i. i"
  by unfold_locales (auto simp: int_val_def check_range_def bound_def split: if_splits)

lemmas described_simps = str.agrees [simplified validate.simps] strs.agrees size_range.agrees number_range.agrees

lemmas accepted = then_do_eq_Inr str.accepts strs.accepts size_range.accepts number_range.accepts

lemmas refused = str.refuses strs.refuses size_range.refuses number_range.refuses

lemmas dict_simps = validate_dict_def update_dict_def defaults_def required_def map_filter_simps default_of_def

lemma strip_lun_idem [simp]: "strip_lun (strip_lun l) = strip_lun l"
  by (simp add: strip_lun_def)

lemma strip_target_idem [simp]: "strip_target (strip_target t) = strip_target t"
  by (simp add: strip_target_def)

lemma strip_conf_idem [simp]: "strip_conf (strip_conf c) = strip_conf c"
  by (simp add: strip_conf_def)

interpretation lun: described "validate LUN_CONF_SCHEMA" check_lun yaml_of_lun lun_in_range strip_lun
proof
  fix l v :: lun_conf and e
  show "validate LUN_CONF_SCHEMA (yaml_of_lun l) = then_do (check_lun l) (\<lambda>v. Inr (yaml_of_lun v))"
    by (simp add: LUN_CONF_SCHEMA_def yaml_of_lun_def dict_simps bool_val_def described_simps check_lun_def)
  show "check_lun l = Inr v \<longleftrightarrow> lun_in_range l \<and> v = strip_lun l"
    by (auto simp: check_lun_def lun_in_range_def strip_lun_def accepted)
  show "check_lun l = Inl e \<Longrightarrow> e = SchemaError"
    unfolding check_lun_def then_do_def by (auto dest: refused split: sum.splits)
  show "lun_in_range l \<Longrightarrow> lun_in_range (strip_lun l)"
    by (simp add: lun_in_range_def strip_lun_def ascii_strip)
qed simp

interpretation luns: described "validate_list [validate LUN_CONF_SCHEMA]" "map_res check_lun" "\<lambda>xs. Seq (map yaml_of_lun xs)"
    "list_all lun_in_range" "map strip_lun"
  by (rule lun.lists)

interpretation target: described "validate TARGET_CONF_SCHEMA" check_target yaml_of_target target_in_range strip_target
proof
  fix t v :: target_conf and e
  show "validate TARGET_CONF_SCHEMA (yaml_of_target t) = then_do (check_target t) (\<lambda>v. Inr (yaml_of_target v))"
    by (simp add: TARGET_CONF_SCHEMA_def yaml_of_target_def dict_simps described_simps luns.agrees check_target_def)
  show "check_target t = Inr v \<longleftrightarrow> target_in_range t \<and> v = strip_target t"
    by (auto simp: check_target_def target_in_range_def strip_target_def accepted luns.accepts)
  show "check_target t = Inl e \<Longrightarrow> e = SchemaError"
    unfolding check_target_def then_do_def by (auto dest: refused luns.refuses split: sum.splits)
  show "target_in_range t \<Longrightarrow> target_in_range (strip_target t)"
    by (simp add: target_in_range_def strip_target_def ascii_strip strs.stays luns.stays)
qed simp

interpretation targets: described "validate_list [validate TARGET_CONF_SCHEMA]" "map_res check_target"
    "\<lambda>xs. Seq (map yaml_of_target xs)" "list_all target_in_range" "map strip_target"
  by (rule target.lists)

interpretation conf: described "validate TGT_CONF_SCHEMA" check_conf yaml_of_conf conf_in_range strip_conf
proof
  fix c v :: tgt_conf and e
  show "validate TGT_CONF_SCHEMA (yaml_of_conf c) = then_do (check_conf c) (\<lambda>v. Inr (yaml_of_conf v))"
    by (simp add: TGT_CONF_SCHEMA_def yaml_of_conf_def dict_simps described_simps targets.agrees check_conf_def)
  show "check_conf c = Inr v \<longleftrightarrow> conf_in_range c \<and> v = strip_conf c"
    by (auto simp: check_conf_def conf_in_range_def strip_conf_def accepted targets.accepts)
  show "check_conf c = Inl e \<Longrightarrow> e = SchemaError"
    unfolding check_conf_def then_do_def by (auto dest: refused targets.refuses split: sum.splits)
  show "conf_in_range c \<Longrightarrow> conf_in_range (strip_conf c)"
    by (simp add: conf_in_range_def strip_conf_def ascii_strip targets.stays)
qed simp

text \<open>
  C25. The configuration that the manager writes is accepted by the schema if and only if every
  text in it is ASCII, the sizes are between 1 and 4096 and the numbers of targets and LUNs
  between 1 and 255. Then the schema gives the same configuration with every text stripped,
  and validating that again changes nothing. So the validation of the records is what the
  schema library computes on the nested dictionaries.
\<close>

theorem schema_describes_the_configuration:
  "validate TGT_CONF_SCHEMA (yaml_of_conf c) = (if conf_in_range c then Inr (yaml_of_conf (strip_conf c)) else Inl SchemaError)
   \<and> check_conf c = (if conf_in_range c then Inr (strip_conf c) else Inl SchemaError)
   \<and> then_do (check_conf c) check_conf = check_conf c"
  by (simp only: conf.validates conf.checks [symmetric] conf.twice)

end
