(* ===== verification/TgtManager.thy ===== *)
theory TgtManager
  imports TgtSchema
begin

text \<open>
  The iSCSI target service of the REST server (calamari_rest/sservice/iscsi/tgt_manager.py and
  target.py, with sservice/lib/utils.py and config.py): the configuration of targets and LUNs in a
  file, the file for tgt that is made from it and sent to the minions by salt, and the commands
  that are run on the minions.

  State: the configuration file, None where there is none; the exported file; and the calls made so
  far, oldest first. What YAML writes it reads back. Salt is a parameter: the answer to a call,
  or the exception, may depend on all calls before it. Of the answers only those of test.ping
  are looked at, which say for each minion whether it is there. The lines of the salt master's
  configuration and commands on the server itself are parameters as well. Disk errors are left
  out.
\<close>

section \<open>State\<close>

text \<open>A call of salt: whom to ask, the function, and its arguments.\<close>

datatype tgt_call = Salt string string "string list"

record tgt_world =
  tw_file :: "tgt_conf option"
  tw_exported :: "string option"
  tw_calls :: "tgt_call list"

record tgt_env =
  te_salt :: "tgt_call list \<Rightarrow> tgt_call \<Rightarrow> exn + (string \<times> bool) list"
  te_master :: "string list"
  te_run :: "string list \<Rightarrow> exn + string option"

type_synonym 'a tgt_py = "(tgt_world, 'a) py"

definition TGTADMIN_CMD :: string where "TGTADMIN_CMD = ''/usr/sbin/tgt-admin''"

definition TGT_ETC_EX_FILE :: string where "TGT_ETC_EX_FILE = ''targets.futong.conf''"

definition nl :: string where "nl = [CHR 0x0A]"

definition colon_to_space :: "string \<Rightarrow> string" where
  "colon_to_space s = replace s '':'' '' ''"

section \<open>Running commands\<close>

definition run_by_salt :: "tgt_env \<Rightarrow> string \<Rightarrow> string \<Rightarrow> string list \<Rightarrow> (string \<times> bool) list tgt_py" where
  "run_by_salt e whom fn args =
     bnd (gets tw_calls) (\<lambda>past.
     bnd (modify (\<lambda>w. w\<lparr>tw_calls := past @ [Salt whom fn args]\<rparr>)) (\<lambda>_.
     lift_exn (te_salt e past (Salt whom fn args))))"

definition run_by_all_minion :: "tgt_env \<Rightarrow> string \<Rightarrow> unit tgt_py" where
  "run_by_all_minion e cmd = bnd (run_by_salt e ''*'' ''cmd.run'' [cmd]) (\<lambda>_. ret ())"

text \<open>Nothing is run, and nothing is raised, when no minion answers.\<close>

definition run_by_one_minion :: "tgt_env \<Rightarrow> string \<Rightarrow> unit tgt_py" where
  "run_by_one_minion e cmd =
     bnd (run_by_salt e ''*'' ''test.ping'' []) (\<lambda>answers. case List.find snd answers of
         None \<Rightarrow> ret ()
       | Some (m, _) \<Rightarrow> bnd (run_by_salt e m ''cmd.run'' [cmd]) (\<lambda>_. ret ()))"

definition send_file_by_salt :: "tgt_env \<Rightarrow> string \<Rightarrow> string \<Rightarrow> unit tgt_py" where
  "send_file_by_salt e sour dest = bnd (run_by_salt e ''*'' ''cp.get_file'' [''salt://'' @ sour, dest]) (\<lambda>_. ret ())"

text \<open>None where the command fails: the error is printed and swallowed.\<close>

definition check_output :: "tgt_env \<Rightarrow> string list \<Rightarrow> string option tgt_py" where
  "check_output e cmd = lift_exn (te_run e cmd)"

definition ignoring :: "unit tgt_py \<Rightarrow> unit tgt_py" where
  "ignoring m = try_except m (\<lambda>_. ret ())"

section \<open>The configuration file\<close>

definition empty_conf :: tgt_conf where
  "empty_conf = \<lparr>tc_incoming = '''', tc_outgoing = '''', tc_targets = []\<rparr>"

text \<open>Whatever goes wrong in reading or validating the file is a ConfigError.\<close>

definition parse_conf :: "tgt_conf \<Rightarrow> exn + tgt_conf" where
  "parse_conf c = (case check_conf c of Inl e \<Rightarrow> Inl (ConfigError (exn_str e)) | Inr c' \<Rightarrow> Inr c')"

definition loaded :: "tgt_world \<Rightarrow> exn + tgt_conf" where
  "loaded w = (case tw_file w of None \<Rightarrow> Inr empty_conf | Some c \<Rightarrow> parse_conf c)"

definition load_conf :: "tgt_conf tgt_py" where
  "load_conf = bnd (gets loaded) lift_exn"

definition save_conf :: "tgt_conf \<Rightarrow> unit tgt_py" where
  "save_conf c = modify (\<lambda>w. w\<lparr>tw_file := Some c\<rparr>)"

definition find_target :: "string \<Rightarrow> tgt_conf \<Rightarrow> target_conf option" where
  "find_target iqn c = List.find (\<lambda>t. tg_iqn t = iqn) (tc_targets c)"

definition target_not_found :: "string \<Rightarrow> exn" where
  "target_not_found iqn = Exception (''Target (iqn:'' @ iqn @ '') Not Found'')"

definition get_target_conf :: "string \<Rightarrow> target_conf tgt_py" where
  "get_target_conf iqn = bnd load_conf (\<lambda>c. case find_target iqn c of
       None \<Rightarrow> raise (target_not_found iqn)
     | Some t \<Rightarrow> ret t)"

section \<open>The exported file\<close>

text \<open>
  The first path under file_roots in the salt master's configuration: the text after the
  hyphen of the first line with one. A second hyphen is an error.
\<close>

fun base_path :: "bool \<Rightarrow> string list \<Rightarrow> exn + string" where
  "base_path found [] = Inl UnboundLocalError"
| "base_path found (l # ls) =
     (let here = found \<or> startswith l ''file_roots:''
      in if here \<and> CHR ''-'' \<in> set l
         then (case split_on (CHR ''-'') l of [_, path] \<Rightarrow> Inr (strip path) | _ \<Rightarrow> Inl (ValueError ''too many values to unpack''))
         else base_path here ls)"

definition get_salt_fileserver_base_path :: "tgt_env \<Rightarrow> exn + string" where
  "get_salt_fileserver_base_path e = base_path False (te_master e)"

definition lun_conf_to_line :: "lun_conf \<Rightarrow> string" where
  "lun_conf_to_line l = ''backing-store '' @ lun_pool l @ ''/'' @ lun_image l @ nl"

definition write_cache_of :: "lun_conf list \<Rightarrow> string option" where
  "write_cache_of ls = fold (\<lambda>l wc. case wc of
       None \<Rightarrow> Some (if lun_write_cache l then ''write-cache on'' @ nl else ''write-cache off'' @ nl)
     | Some x \<Rightarrow> Some x) ls None"

definition target_conf_to_line :: "target_conf \<Rightarrow> string" where
  "target_conf_to_line t =
     ''<target '' @ tg_iqn t @ ''>'' @ nl
     @ concat (map (\<lambda>a. ''initiator-address '' @ a @ nl) (tg_initiator_addrs t))
     @ concat (map (\<lambda>n. ''initiator-name '' @ n @ nl) (tg_initiator_names t))
     @ concat (map (\<lambda>u. ''incominguser '' @ colon_to_space u @ nl) (tg_incoming t))
     @ concat (map (\<lambda>u. ''outgoinguser '' @ colon_to_space u @ nl) (tg_outgoing t))
     @ concat (map lun_conf_to_line (tg_luns t))
     @ (case write_cache_of (tg_luns t) of
          None \<Rightarrow> []
        | Some x \<Rightarrow> ''device-type disk'' @ nl @ ''bs-type rbd'' @ nl @ x)
     @ ''</target>'' @ nl @ nl"

definition conf_chunks :: "tgt_conf \<Rightarrow> string list" where
  "conf_chunks c =
     (if tc_incoming c \<noteq> '''' then [''incomingdiscoveryuser '' @ colon_to_space (tc_incoming c) @ nl] else [])
     @ (if tc_outgoing c \<noteq> '''' then [''outgoingdiscoveryuser '' @ colon_to_space (tc_outgoing c) @ nl] else [])
     @ [''# target list'' @ nl] @ map target_conf_to_line (tc_targets c) @ [nl @ nl]"

text \<open>A text outside ASCII cannot be written: UnicodeEncodeError, which is a ValueError.\<close>

definition write_chunk :: "string \<Rightarrow> unit tgt_py" where
  "write_chunk s =
     (if ascii s then modify (\<lambda>w. w\<lparr>tw_exported := Some (case tw_exported w of None \<Rightarrow> s | Some old \<Rightarrow> old @ s)\<rparr>)
      else raise (ValueError ''ordinal not in range(128)''))"

definition sync_conf :: "tgt_env \<Rightarrow> tgt_conf \<Rightarrow> unit tgt_py" where
  "sync_conf e c =
     bnd (lift_exn (get_salt_fileserver_base_path e)) (\<lambda>_.
     bnd (modify (\<lambda>w. w\<lparr>tw_exported := Some []\<rparr>)) (\<lambda>_.
     bnd (for_each write_chunk (conf_chunks c)) (\<lambda>_.
     send_file_by_salt e TGT_ETC_EX_FILE (''/etc/tgt/conf.d/'' @ TGT_ETC_EX_FILE))))"

text \<open>Saving and exporting always go together.\<close>

definition store_conf :: "tgt_env \<Rightarrow> tgt_conf \<Rightarrow> unit tgt_py" where
  "store_conf e c = bnd (save_conf c) (\<lambda>_. sync_conf e c)"

fun replace_target :: "string \<Rightarrow> target_conf \<Rightarrow> target_conf list \<Rightarrow> target_conf list option" where
  "replace_target iqn new [] = None"
| "replace_target iqn new (t # ts) =
     (if tg_iqn t = iqn then Some (new # ts) else map_option (Cons t) (replace_target iqn new ts))"

definition set_target_conf :: "tgt_env \<Rightarrow> string \<Rightarrow> target_conf \<Rightarrow> unit tgt_py" where
  "set_target_conf e iqn new = bnd load_conf (\<lambda>c. case replace_target iqn new (tc_targets c) of
       None \<Rightarrow> raise (target_not_found iqn)
     | Some ts \<Rightarrow> store_conf e (c\<lparr>tc_targets := ts\<rparr>))"

definition sync_to_system_conf :: "tgt_env \<Rightarrow> unit tgt_py" where
  "sync_to_system_conf e = bnd (gets tw_file) (\<lambda>f. guarded (f \<noteq> None) (bnd load_conf (sync_conf e)))"

definition system_restore_cb :: "tgt_env \<Rightarrow> unit tgt_py" where
  "system_restore_cb e = bnd (gets tw_file) (\<lambda>f. guarded (f \<noteq> None)
     (bnd (modify (\<lambda>w. w\<lparr>tw_file := None\<rparr>)) (\<lambda>_. bnd load_conf (sync_conf e))))"

section \<open>Reading\<close>

definition masked :: "string \<Rightarrow> string" where
  "masked user = (if user = '''' then '''' else strip (fst (partition_at (CHR '':'') user)) @ '':'' @ ''*'')"

definition get_tgt_conf :: "(string, string) dict tgt_py" where
  "get_tgt_conf = bnd load_conf (\<lambda>c. ret
     [(''incomingdiscoveryuser'', masked (tc_incoming c)), (''outgoingdiscoveryuser'', masked (tc_outgoing c))])"

text \<open>The whole configuration is returned, not the list of names that was made.\<close>

definition get_target_iqn_list :: "tgt_conf tgt_py" where
  "get_target_iqn_list = load_conf"

record target_obj =
  to_iqn :: string
  to_conf :: target_conf

definition get_target_by_iqn :: "string \<Rightarrow> target_obj tgt_py" where
  "get_target_by_iqn iqn = bnd load_conf (\<lambda>c. case find_target iqn c of
       None \<Rightarrow> raise (Exception (''tgt target (iqn:'' @ iqn @ '') Not Found''))
     | Some t \<Rightarrow> ret \<lparr>to_iqn = iqn, to_conf = t\<rparr>)"

definition find_target_id :: "int \<Rightarrow> tgt_conf \<Rightarrow> target_conf option" where
  "find_target_id i c = List.find (\<lambda>t. tg_id t = i) (tc_targets c)"

definition get_target_by_id :: "int \<Rightarrow> target_obj tgt_py" where
  "get_target_by_id i = bnd load_conf (\<lambda>c. case find_target_id i c of
       None \<Rightarrow> raise (Exception (''tgt target (id:'' @ str_int i @ '') Not Found''))
     | Some t \<Rightarrow> ret \<lparr>to_iqn = tg_iqn t, to_conf = t\<rparr>)"

section \<open>Numbers\<close>

text \<open>
  \<open>max_id > max\<close> compares a number with the function \<open>max\<close>; the limit has another name. In
  Python 2 a number is less than every function, so what follows the test is never reached.
\<close>

definition exceeds_function :: "int \<Rightarrow> bool" where
  "exceeds_function i = False"

definition generate_id :: "int list \<Rightarrow> int \<Rightarrow> exn + int" where
  "generate_id existing limit =
     (let i = (if existing = [] then 1 else Max (set existing) + 1)
      in if exceeds_function i then Inl TypeError else Inr i)"

section \<open>Targets\<close>

definition new_target :: "string \<Rightarrow> exn + target_conf" where
  "new_target iqn = then_do (check_str iqn) (\<lambda>s. Inr \<lparr>tg_iqn = s, tg_initiator_addrs = [], tg_initiator_names = [],
     tg_incoming = [], tg_outgoing = [], tg_id = 1, tg_luns = []\<rparr>)"

definition create_target :: "tgt_env \<Rightarrow> string \<Rightarrow> unit tgt_py" where
  "create_target e iqn =
     bnd (lift_exn (new_target iqn)) (\<lambda>t.
     bnd load_conf (\<lambda>c.
     if find_target iqn c \<noteq> None then raise (Exception (''Target (iqn:'' @ iqn @ '') Already exist''))
     else bnd (lift_exn (generate_id (map tg_id (tc_targets c)) 255)) (\<lambda>i.
       bnd (store_conf e (c\<lparr>tc_targets := tc_targets c @ [t\<lparr>tg_id := i\<rparr>]\<rparr>)) (\<lambda>_.
       ignoring (run_by_all_minion e (TGTADMIN_CMD @ '' --execute''))))))"

text \<open>What both ways of removing a target do once it is looked up.\<close>

definition remove_target :: "tgt_env \<Rightarrow> tgt_conf \<Rightarrow> target_conf \<Rightarrow> unit tgt_py" where
  "remove_target e c t =
     (if tg_luns t \<noteq> [] then raise (Exception (''Target (iqn:'' @ tg_iqn t @ '') has lun''))
      else bnd (store_conf e (c\<lparr>tc_targets := remove1 t (tc_targets c)\<rparr>)) (\<lambda>_.
        ignoring (run_by_all_minion e (TGTADMIN_CMD @ '' -f --delete '' @ tg_iqn t))))"

definition remove_target_by_iqn :: "tgt_env \<Rightarrow> string \<Rightarrow> unit tgt_py" where
  "remove_target_by_iqn e iqn = bnd load_conf (\<lambda>c. case find_target iqn c of
       None \<Rightarrow> raise (target_not_found iqn)
     | Some t \<Rightarrow> remove_target e c t)"

definition remove_target_by_id :: "tgt_env \<Rightarrow> int \<Rightarrow> unit tgt_py" where
  "remove_target_by_id e i = bnd load_conf (\<lambda>c. case find_target_id i c of
       None \<Rightarrow> raise (Exception (''Target (id:'' @ str_int i @ '') Not Found''))
     | Some t \<Rightarrow> remove_target e c t)"

section \<open>One target\<close>

definition update_target :: "tgt_env \<Rightarrow> string \<Rightarrow> unit tgt_py" where
  "update_target e iqn = ignoring (run_by_all_minion e (TGTADMIN_CMD @ '' -f --update '' @ iqn))"

text \<open>The methods of a target read its configuration again, change it, write it and tell tgt.\<close>

definition with_conf :: "tgt_env \<Rightarrow> target_obj \<Rightarrow> (target_conf \<Rightarrow> exn + target_conf) \<Rightarrow> target_obj tgt_py" where
  "with_conf e tg f =
     bnd (get_target_conf (to_iqn tg)) (\<lambda>t.
     bnd (lift_exn (f t)) (\<lambda>t'.
     bnd (set_target_conf e (to_iqn tg) t') (\<lambda>_.
     bnd (update_target e (to_iqn tg)) (\<lambda>_. ret (tg\<lparr>to_conf := t'\<rparr>)))))"

definition set_initiator_addr_list :: "tgt_env \<Rightarrow> string list \<Rightarrow> target_obj \<Rightarrow> target_obj tgt_py" where
  "set_initiator_addr_list e xs tg = with_conf e tg (\<lambda>t. Inr (t\<lparr>tg_initiator_addrs := xs\<rparr>))"

definition del_initiator_addr :: "tgt_env \<Rightarrow> string \<Rightarrow> target_obj \<Rightarrow> target_obj tgt_py" where
  "del_initiator_addr e ip tg = with_conf e tg (\<lambda>t.
     if ip \<in> set (tg_initiator_addrs t) then Inr (t\<lparr>tg_initiator_addrs := remove1 ip (tg_initiator_addrs t)\<rparr>)
     else Inl (Exception (''Target (iqn:'' @ to_iqn tg @ '') initiator addr ('' @ ip @ '') Not Found'')))"

definition set_initiator_name_list :: "tgt_env \<Rightarrow> string list \<Rightarrow> target_obj \<Rightarrow> target_obj tgt_py" where
  "set_initiator_name_list e xs tg = with_conf e tg (\<lambda>t. Inr (t\<lparr>tg_initiator_names := xs\<rparr>))"

definition del_initiator_name :: "tgt_env \<Rightarrow> string \<Rightarrow> target_obj \<Rightarrow> target_obj tgt_py" where
  "del_initiator_name e name tg = with_conf e tg (\<lambda>t.
     if name \<in> set (tg_initiator_names t) then Inr (t\<lparr>tg_initiator_names := remove1 name (tg_initiator_names t)\<rparr>)
     else Inl (Exception (''Target (iqn:'' @ to_iqn tg @ '') initiator name ('' @ name @ '') Not Found'')))"

definition user_name :: "string \<Rightarrow> string" where
  "user_name u = fst (partition_at (CHR '':'') u)"

definition user_names :: "string list \<Rightarrow> string list" where
  "user_names us = map (\<lambda>u. strip (user_name u)) us"

definition get_incominguser_list :: "target_obj \<Rightarrow> string list" where
  "get_incominguser_list tg = user_names (tg_incoming (to_conf tg))"

definition get_outgoinguser_list :: "target_obj \<Rightarrow> string list" where
  "get_outgoinguser_list tg = user_names (tg_outgoing (to_conf tg))"

definition set_user :: "string \<Rightarrow> string \<Rightarrow> string list \<Rightarrow> string list" where
  "set_user name passwd us =
     (let new = strip name @ '':'' @ strip passwd
      in if \<exists>u \<in> set us. user_name u = name then map (\<lambda>u. if user_name u = name then new else u) us else us @ [new])"

text \<open>The last entry of that name decides which text is removed.\<close>

definition del_user :: "exn \<Rightarrow> string \<Rightarrow> string list \<Rightarrow> exn + string list" where
  "del_user missing name us = (case filter (\<lambda>u. user_name u = name) us of
       [] \<Rightarrow> Inl missing
     | found \<Rightarrow> Inr (remove1 (last found) us))"

definition set_incominguser :: "tgt_env \<Rightarrow> string \<Rightarrow> string \<Rightarrow> target_obj \<Rightarrow> target_obj tgt_py" where
  "set_incominguser e name passwd tg = with_conf e tg (\<lambda>t. Inr (t\<lparr>tg_incoming := set_user name passwd (tg_incoming t)\<rparr>))"

definition del_incominguser :: "tgt_env \<Rightarrow> string \<Rightarrow> target_obj \<Rightarrow> target_obj tgt_py" where
  "del_incominguser e name tg = with_conf e tg (\<lambda>t.
     then_do (del_user (Exception (''tgt target (iqn:'' @ to_iqn tg @ '') incominguser ('' @ name @ '') Not Found'')) name (tg_incoming t))
       (\<lambda>us. Inr (t\<lparr>tg_incoming := us\<rparr>)))"

definition set_outgoinguser :: "tgt_env \<Rightarrow> string \<Rightarrow> string \<Rightarrow> target_obj \<Rightarrow> target_obj tgt_py" where
  "set_outgoinguser e name passwd tg = with_conf e tg (\<lambda>t. Inr (t\<lparr>tg_outgoing := set_user name passwd (tg_outgoing t)\<rparr>))"

definition del_outgoinguser :: "tgt_env \<Rightarrow> string \<Rightarrow> target_obj \<Rightarrow> target_obj tgt_py" where
  "del_outgoinguser e name tg = with_conf e tg (\<lambda>t.
     then_do (del_user (Exception (''tgt target (iqn:'' @ to_iqn tg @ '') outgoinguser ('' @ name @ '') Not Found'')) name (tg_outgoing t))
       (\<lambda>us. Inr (t\<lparr>tg_outgoing := us\<rparr>)))"

definition set_state :: "tgt_env \<Rightarrow> string \<Rightarrow> target_obj \<Rightarrow> unit tgt_py" where
  "set_state e state tg =
     (if state = ''offline'' then bnd (check_output e [TGTADMIN_CMD, ''--offline'', to_iqn tg]) (\<lambda>_. ret ())
      else if state = ''ready'' then bnd (check_output e [TGTADMIN_CMD, ''--ready'', to_iqn tg]) (\<lambda>_. ret ())
      else raise (Exception (''state ('' @ state @ '') is  not supported'')))"

definition update_target_iqn :: "tgt_env \<Rightarrow> string \<Rightarrow> target_obj \<Rightarrow> target_obj tgt_py" where
  "update_target_iqn e new_iqn tg =
     bnd (get_target_conf (to_iqn tg)) (\<lambda>t.
     bnd load_conf (\<lambda>c.
     if find_target new_iqn c \<noteq> None then raise (Exception (''Target (iqn:'' @ new_iqn @ '') Already exist''))
     else
       let t' = t\<lparr>tg_iqn := new_iqn, tg_luns := map (\<lambda>l. l\<lparr>lun_iqn := new_iqn\<rparr>) (tg_luns t)\<rparr>
       in bnd (set_target_conf e (to_iqn tg) t') (\<lambda>_.
          bnd (run_by_all_minion e (TGTADMIN_CMD @ '' -f --delete '' @ to_iqn tg)) (\<lambda>_.
          bnd (update_target e new_iqn) (\<lambda>_. ret \<lparr>to_iqn = new_iqn, to_conf = t'\<rparr>)))))"

section \<open>LUNs\<close>

definition get_lun_by_num :: "int \<Rightarrow> target_obj \<Rightarrow> exn + lun_conf" where
  "get_lun_by_num n tg = (case List.find (\<lambda>l. lun_num l = n) (tg_luns (to_conf tg)) of
       None \<Rightarrow> Inl (Exception (''Target (iqn:'' @ to_iqn tg @ '') Lun ('' @ str_int n @ '')Not Found''))
     | Some l \<Rightarrow> Inr l)"

text \<open>\<open>'%d' % (size * 1024)\<close>\<close>

definition in_mb :: "jval \<Rightarrow> exn + string" where
  "in_mb sz = (case sz of
       JInt i \<Rightarrow> Inr (str_int (i * 1024))
     | JBool b \<Rightarrow> Inr (if b then ''1024'' else ''0'')
     | JNum q \<Rightarrow> Inr (str_int (if q < 0 then - floor (- q * 1024) else floor (q * 1024)))
     | _ \<Rightarrow> Inl TypeError)"

definition create_rbd_image :: "tgt_env \<Rightarrow> string \<Rightarrow> string \<Rightarrow> jval \<Rightarrow> unit tgt_py" where
  "create_rbd_image e pool img sz =
     bnd (lift_exn (in_mb sz)) (\<lambda>mb. run_by_one_minion e (''rbd create '' @ pool @ ''/'' @ img @ '' -s '' @ mb))"

definition del_rbd_image :: "tgt_env \<Rightarrow> string \<Rightarrow> string \<Rightarrow> unit tgt_py" where
  "del_rbd_image e pool img = run_by_one_minion e (''rbd rm '' @ pool @ ''/'' @ img)"

text \<open>The fields of a LUN, as the schema takes them.\<close>

definition check_text :: "jval \<Rightarrow> exn + string" where
  "check_text j = check_str (str_jval j)"

definition check_int :: "int \<Rightarrow> jval \<Rightarrow> exn + int" where
  "check_int n j = then_do (as_integer (Scalar j)) (\<lambda>(_, i). check_range n i)"

definition check_bool :: "jval \<Rightarrow> exn + bool" where
  "check_bool j = (case bool_val (Scalar j) of Inr (Scalar (JBool b)) \<Rightarrow> Inr b | _ \<Rightarrow> Inl SchemaError)"

text \<open>\<open>found.update(data)\<close> and the validation after it; \<open>data\<close> may have any keys.\<close>

definition update_lun :: "attributes \<Rightarrow> lun_conf \<Rightarrow> exn + lun_conf" where
  "update_lun d l =
     then_do (check_text (get_default d ''iqn'' (JStr (lun_iqn l)))) (\<lambda>iqn.
     then_do (check_int 4096 (get_default d ''size'' (JInt (lun_size l)))) (\<lambda>sz.
     then_do (check_text (get_default d ''pool'' (JStr (lun_pool l)))) (\<lambda>pool.
     then_do (check_text (get_default d ''image'' (JStr (lun_image l)))) (\<lambda>img.
     then_do (check_text (get_default d ''name'' (JStr (lun_name l)))) (\<lambda>name.
     then_do (check_text (get_default d ''device_type'' (JStr (lun_device_type l)))) (\<lambda>dt.
     then_do (check_text (get_default d ''bs_type'' (JStr (lun_bs_type l)))) (\<lambda>bs.
     then_do (check_bool (get_default d ''write_cache'' (JBool (lun_write_cache l)))) (\<lambda>wc.
     then_do (check_int 255 (get_default d ''lun'' (JInt (lun_num l)))) (\<lambda>n.
     Inr \<lparr>lun_iqn = iqn, lun_size = sz, lun_pool = pool, lun_image = img, lun_name = name,
       lun_device_type = dt, lun_bs_type = bs, lun_write_cache = wc, lun_num = n\<rparr>)))))))))"

text \<open>A new LUN has number 1 until it gets its own.\<close>

definition new_lun :: "string \<Rightarrow> string \<Rightarrow> string \<Rightarrow> jval \<Rightarrow> string \<Rightarrow> string \<Rightarrow> string \<Rightarrow> bool \<Rightarrow> exn + lun_conf" where
  "new_lun iqn pool img sz name dt bs wc =
     update_lun [(''size'', sz)] \<lparr>lun_iqn = iqn, lun_size = 1, lun_pool = pool, lun_image = img, lun_name = name,
       lun_device_type = dt, lun_bs_type = bs, lun_write_cache = wc, lun_num = 1\<rparr>"

definition all_luns :: "tgt_conf \<Rightarrow> lun_conf list" where
  "all_luns c = concat (map tg_luns (tc_targets c))"

definition add_lun ::
  "tgt_env \<Rightarrow> string \<Rightarrow> string \<Rightarrow> jval \<Rightarrow> string \<Rightarrow> string \<Rightarrow> string \<Rightarrow> bool \<Rightarrow> target_obj \<Rightarrow> target_obj tgt_py" where
  "add_lun e pool img sz name dt bs wc tg =
     bnd (lift_exn (new_lun (to_iqn tg) pool img sz name dt bs wc)) (\<lambda>l.
     if bs \<noteq> ''rbd'' then raise (Exception (''device '' @ quote @ ''s bs_type must be rbd''))
     else
     bnd (get_target_conf (to_iqn tg)) (\<lambda>t.
     bnd load_conf (\<lambda>c.
     if \<exists>i \<in> set (tg_luns t). lun_name i = name
     then raise (Exception (''Target (iqn:'' @ to_iqn tg @ '') Lun name('' @ name @ '') already exists''))
     else if (\<exists>i \<in> set (tg_luns t). lun_pool i = pool) \<and> (\<exists>j \<in> set (tg_luns t). lun_image j = img)
     then raise (Exception (''Target (iqn:'' @ to_iqn tg @ '') Lun Path ('' @ pool @ ''/'' @ img @ '') already exists''))
     else
     bnd (create_rbd_image e pool img sz) (\<lambda>_.
     bnd (lift_exn (generate_id (map lun_num (all_luns c)) 255)) (\<lambda>n.
     let t' = t\<lparr>tg_luns := tg_luns t @ [l\<lparr>lun_num := n\<rparr>]\<rparr>
     in bnd (set_target_conf e (to_iqn tg) t') (\<lambda>_.
        bnd (update_target e (to_iqn tg)) (\<lambda>_. ret (tg\<lparr>to_conf := t'\<rparr>))))))))"

definition lun_not_found :: "string \<Rightarrow> int \<Rightarrow> exn" where
  "lun_not_found iqn n = Exception (''Target (iqn:'' @ iqn @ '') Lun ('' @ str_int n @ '')Not Found'')"

definition resize_image :: "tgt_env \<Rightarrow> lun_conf \<Rightarrow> attributes \<Rightarrow> unit tgt_py" where
  "resize_image e l d = (case map_of d ''size'' of
       None \<Rightarrow> ret ()
     | Some sz \<Rightarrow> bnd (lift_exn (in_mb sz)) (\<lambda>mb.
         run_by_one_minion e (''rbd resize '' @ lun_pool l @ ''/'' @ lun_image l @ '' -s '' @ mb)))"

definition check_new_name :: "string \<Rightarrow> lun_conf list \<Rightarrow> attributes \<Rightarrow> unit tgt_py" where
  "check_new_name iqn others d = (case map_of d ''name'' of
       None \<Rightarrow> ret ()
     | Some v \<Rightarrow> guarded (\<exists>i \<in> set others. JStr (lun_name i) = v)
         (raise (Exception (''Target (iqn:'' @ iqn @ '') Lun (name:'' @ str_jval v @ '') duplicate''))))"

text \<open>The image is resized before the name is checked.\<close>

definition set_lun :: "tgt_env \<Rightarrow> int \<Rightarrow> attributes \<Rightarrow> target_obj \<Rightarrow> target_obj tgt_py" where
  "set_lun e n d tg =
     bnd (get_target_conf (to_iqn tg)) (\<lambda>t. case List.find (\<lambda>l. lun_num l = n) (tg_luns t) of
         None \<Rightarrow> raise (lun_not_found (to_iqn tg) n)
       | Some l \<Rightarrow>
           let others = remove1 l (tg_luns t) in
           bnd (resize_image e l d) (\<lambda>_.
           bnd (check_new_name (to_iqn tg) others d) (\<lambda>_.
           bnd (lift_exn (update_lun d l)) (\<lambda>l'.
           let t' = t\<lparr>tg_luns := others @ [l']\<rparr>
           in bnd (set_target_conf e (to_iqn tg) t') (\<lambda>_.
              bnd (update_target e (to_iqn tg)) (\<lambda>_. ret (tg\<lparr>to_conf := t'\<rparr>)))))))"

definition shares_image :: "lun_conf \<Rightarrow> tgt_conf \<Rightarrow> bool" where
  "shares_image l c \<longleftrightarrow> (\<exists>j \<in> set (all_luns c). lun_pool j = lun_pool l \<and> lun_image j = lun_image l \<and> lun_num j \<noteq> lun_num l)"

definition del_lun :: "tgt_env \<Rightarrow> int \<Rightarrow> target_obj \<Rightarrow> target_obj tgt_py" where
  "del_lun e n tg =
     bnd (get_target_conf (to_iqn tg)) (\<lambda>t.
     bnd load_conf (\<lambda>c. case filter (\<lambda>l. lun_num l = n) (tg_luns t) of
         [] \<Rightarrow> raise (Exception (''Target (iqn:'' @ to_iqn tg @ '') Lun ('' @ str_int n @ '') Not Found''))
       | found \<Rightarrow>
           let l = last found; t' = t\<lparr>tg_luns := remove1 l (tg_luns t)\<rparr>
           in bnd (set_target_conf e (to_iqn tg) t') (\<lambda>_.
              bnd (update_target e (to_iqn tg)) (\<lambda>_.
              bnd (guarded (\<not> shares_image l c) (del_rbd_image e (lun_pool l) (lun_image l))) (\<lambda>_.
              ret (tg\<lparr>to_conf := t'\<rparr>))))))"

section \<open>The LUNs of a pool\<close>

definition get_lun_by_pool :: "string \<Rightarrow> lun_conf list tgt_py" where
  "get_lun_by_pool pool = bnd load_conf (\<lambda>c. case filter (\<lambda>l. lun_pool l = pool) (all_luns c) of
       [] \<Rightarrow> raise (Exception (''Pool (name: '' @ pool @ '') No lun''))
     | ls \<Rightarrow> ret ls)"

definition get_lun_by_pool_and_num :: "string \<Rightarrow> int \<Rightarrow> lun_conf tgt_py" where
  "get_lun_by_pool_and_num pool n = bnd (get_lun_by_pool pool) (\<lambda>ls. case filter (\<lambda>l. lun_num l = n) ls of
       [l] \<Rightarrow> ret l
     | _ \<Rightarrow> raise (Exception (''Pool (name: '' @ pool @ '') Lun (lun: '' @ str_int n @ '') No Found'')))"

section \<open>New targets and LUNs are what the schemas make of them\<close>

lemma new_target_by_schema:
  "validate TARGET_CONF_SCHEMA (Block [(''iqn'', ystr iqn), (''initiator_addr_list'', Seq []), (''initiator_name_list'', Seq []),
      (''incominguser_list'', Seq []), (''outgoinguser_list'', Seq [])])
   = then_do (new_target iqn) (\<lambda>t. Inr (yaml_of_target t))"
proof -
  have "int_val (Some 1) (Some 255) [] (Scalar (JInt 1)) = Inr (Scalar (JInt 1))" "validate_list fs (Seq []) = Inr (Seq [])" for fs
    by (simp_all add: int_val_def bound_def validate_list_def)
  then show ?thesis
    by (simp add: TARGET_CONF_SCHEMA_def dict_simps described_simps new_target_def yaml_of_target_def)
qed

text \<open>A size that is a truth value would be kept as such.\<close>

lemma int_val_check_int:
  "\<forall>b. j \<noteq> JBool b \<Longrightarrow> n \<noteq> 0 \<Longrightarrow>
     int_val (Some 1) (Some n) [] (Scalar j) = then_do (check_int n j) (\<lambda>i. Inr (Scalar (JInt i)))"
  by (cases j) (auto simp: int_val_def check_int_def check_range_def bound_def Let_def split: sum.split)

lemma new_lun_by_schema:
  assumes "\<forall>b. sz \<noteq> JBool b"
  shows "validate LUN_CONF_SCHEMA (Block [(''iqn'', ystr iqn), (''size'', Scalar sz), (''pool'', ystr pool), (''image'', ystr img),
      (''name'', ystr name), (''device_type'', ystr dt), (''bs_type'', ystr bs), (''write_cache'', Scalar (JBool wc))])
   = then_do (new_lun iqn pool img sz name dt bs wc) (\<lambda>l. Inr (yaml_of_lun l))"
proof -
  have "int_val (Some 1) (Some 255) [] (Scalar (JInt 1)) = Inr (Scalar (JInt 1))" "check_int 255 (JInt 1) = Inr 1"
    by (simp_all add: int_val_def bound_def check_int_def check_range_def)
  then show ?thesis
    by (simp add: LUN_CONF_SCHEMA_def dict_simps described_simps bool_val_def int_val_check_int [OF assms] new_lun_def
        update_lun_def check_text_def check_bool_def get_default_def yaml_of_lun_def)
qed

end
