(* ===== verification/TgtLaws.thy ===== *)
theory TgtLaws
  imports TgtManager
begin

text \<open>
  What the iSCSI target service guarantees: which configurations it can be in, and what its
  operations do to the configuration, to the exported file and on the minions.
\<close>

section \<open>Only saving changes the file\<close>

abbreviation keeps_file :: "'a tgt_py \<Rightarrow> bool" where
  "keeps_file \<equiv> obeys (\<lambda>s t. tw_file t = tw_file s)"

interpretation kf: step_contract "\<lambda>s t. tw_file t = tw_file s"
  by unfold_locales auto

lemma keeps_run_by_salt: "keeps_file (run_by_salt e whom fn args)"
  unfolding run_by_salt_def by (intro kf.obeys_bnd kf.obeys_gets kf.obeys_lift kf.obeys_modify) simp

lemma keeps_run_by_all_minion: "keeps_file (run_by_all_minion e cmd)"
  unfolding run_by_all_minion_def by (intro kf.obeys_bnd kf.obeys_ret keeps_run_by_salt)

lemma keeps_run_by_one_minion: "keeps_file (run_by_one_minion e cmd)"
  unfolding run_by_one_minion_def
  by (intro kf.obeys_bnd keeps_run_by_salt) (auto intro: keeps_run_by_salt split: option.split)

lemma keeps_ignoring: "keeps_file m \<Longrightarrow> keeps_file (ignoring m)"
  unfolding ignoring_def by (intro kf.obeys_try kf.obeys_ret)

lemma keeps_update_target: "keeps_file (update_target e iqn)"
  unfolding update_target_def by (intro keeps_ignoring keeps_run_by_all_minion)

lemma keeps_load_conf: "keeps_file load_conf"
  unfolding load_conf_def by (intro kf.obeys_bnd kf.obeys_gets kf.obeys_lift)

lemma keeps_write_chunk: "keeps_file (write_chunk s)"
  unfolding write_chunk_def by (intro kf.obeys_if kf.obeys_modify kf.obeys_raise) simp

lemma keeps_sync_conf: "keeps_file (sync_conf e c)"
  unfolding sync_conf_def send_file_by_salt_def
  by (intro kf.obeys_bnd kf.obeys_lift kf.obeys_modify kf.obeys_for_each keeps_write_chunk keeps_run_by_salt kf.obeys_ret) simp

lemma keeps_images: "keeps_file (create_rbd_image e pool img sz)" "keeps_file (del_rbd_image e pool img)"
  unfolding create_rbd_image_def del_rbd_image_def
  by (intro kf.obeys_bnd kf.obeys_lift keeps_run_by_one_minion)+

lemmas keeps = kf.obeys_ret kf.obeys_raise kf.obeys_lift kf.obeys_gets keeps_run_by_salt keeps_run_by_all_minion
  keeps_run_by_one_minion keeps_update_target keeps_load_conf keeps_sync_conf keeps_images keeps_ignoring
  kf.obeys_bnd kf.obeys_guarded kf.obeys_if

section \<open>Where an operation takes the file\<close>

text \<open>From \<open>w\<close>, \<open>m\<close> leaves the file alone or writes a configuration with \<open>P\<close>.\<close>

definition moves :: "(tgt_conf \<Rightarrow> bool) \<Rightarrow> tgt_world \<Rightarrow> 'a tgt_py \<Rightarrow> bool" where
  "moves P w m \<longleftrightarrow> (let f = tw_file (snd (m w)) in f = tw_file w \<or> (\<exists>c. f = Some c \<and> P c))"

lemma moves_keeps: "keeps_file m \<Longrightarrow> moves P w m"
  by (simp add: moves_def obeys_def Let_def)

lemma moves_raise [simp]: "moves P w (raise e)"
  by (intro moves_keeps keeps)

lemma loaded_cong: "tw_file v = tw_file w \<Longrightarrow> loaded v = loaded w"
  by (simp add: loaded_def)

lemma moves_bnd:
  assumes "keeps_file m" and "\<And>a v. m w = (Inr a, v) \<Longrightarrow> tw_file v = tw_file w \<Longrightarrow> moves P v (f a)"
  shows "moves P w (bnd m f)"
proof -
  obtain r v where m: "m w = (r, v)" by fastforce
  with assms(1) have v: "tw_file v = tw_file w" by (rule obeysD)
  show ?thesis
  proof (cases r)
    case (Inl e)
    with m v show ?thesis by (simp add: moves_def bnd_def)
  next
    case (Inr a)
    with assms(2) [of a v] m v show ?thesis by (simp add: moves_def bnd_def)
  qed
qed

lemma moves_then_keeps:
  assumes "moves P w m" and "\<And>a. keeps_file (f a)"
  shows "moves P w (bnd m f)"
proof -
  obtain r v where m: "m w = (r, v)" by fastforce
  with assms(2) have "r = Inr a \<Longrightarrow> tw_file (snd (f a v)) = tw_file v" for a by (simp add: obeys_def)
  with m assms(1) show ?thesis by (cases r) (auto simp: moves_def bnd_def)
qed

lemma load_conf_run [simp]: "load_conf w = (loaded w, w)"
  by (simp add: load_conf_def bnd_def gets_def lift_exn_def)

lemma moves_load:
  assumes "\<And>c. loaded w = Inr c \<Longrightarrow> moves P w (f c)"
  shows "moves P w (bnd load_conf f)"
  by (rule moves_bnd [OF keeps_load_conf]) (use assms in auto)

lemma moves_lift:
  assumes "\<And>a. r = Inr a \<Longrightarrow> moves P w (f a)"
  shows "moves P w (bnd (lift_exn r) f)"
  by (rule moves_bnd [OF kf.obeys_lift]) (use assms in \<open>auto simp: lift_exn_def\<close>)

lemma moves_store: "P c \<Longrightarrow> moves P w (store_conf e c)"
  unfolding store_conf_def
  by (rule moves_then_keeps [OF _ keeps_sync_conf]) (simp add: moves_def save_conf_def modify_def)

lemma moves_set_target_conf:
  assumes "\<And>c ts. loaded w = Inr c \<Longrightarrow> replace_target iqn new (tc_targets c) = Some ts \<Longrightarrow> P (c\<lparr>tc_targets := ts\<rparr>)"
  shows "moves P w (set_target_conf e iqn new)"
  unfolding set_target_conf_def
  by (rule moves_load) (auto intro: moves_store assms split: option.split)

lemma moves_get_target_conf:
  assumes "\<And>c t. loaded w = Inr c \<Longrightarrow> find_target iqn c = Some t \<Longrightarrow> moves P w (f t)"
  shows "moves P w (bnd (get_target_conf iqn) f)"
  unfolding get_target_conf_def bnd_assoc
  by (rule moves_load) (auto intro: assms split: option.split)

section \<open>Well-formed configurations\<close>

text \<open>
  What names and numbers are good for: targets differ in their names and ids, LUNs in their
  numbers; the LUNs of a target carry its name and differ in their names and images.
\<close>

definition target_ok :: "target_conf \<Rightarrow> bool" where
  "target_ok t \<longleftrightarrow> distinct (map lun_name (tg_luns t)) \<and> distinct (map (\<lambda>l. (lun_pool l, lun_image l)) (tg_luns t))
     \<and> (\<forall>l \<in> set (tg_luns t). lun_iqn l = tg_iqn t)"

definition conf_ok :: "tgt_conf \<Rightarrow> bool" where
  "conf_ok c \<longleftrightarrow> distinct (map tg_iqn (tc_targets c)) \<and> distinct (map tg_id (tc_targets c))
     \<and> distinct (map lun_num (all_luns c)) \<and> (\<forall>t \<in> set (tc_targets c). target_ok t)"

lemma conf_ok_empty [simp]: "conf_ok empty_conf"
  by (simp add: conf_ok_def empty_conf_def all_luns_def)

text \<open>A configuration that the next load gives back as it is, if it can be loaded.\<close>

definition clean :: "tgt_conf \<Rightarrow> bool" where
  "clean c \<longleftrightarrow> strip_conf c = c"

lemma parse_conf_Inr: "parse_conf c' = Inr c \<longleftrightarrow> conf_in_range c' \<and> c = strip_conf c'"
  unfolding conf.accepts [symmetric] parse_conf_def by (cases "check_conf c'") simp_all

lemma loaded_Inr:
  "loaded w = Inr c \<longleftrightarrow> (tw_file w = None \<and> c = empty_conf)
     \<or> (\<exists>c'. tw_file w = Some c' \<and> conf_in_range c' \<and> c = strip_conf c')"
  by (auto simp: loaded_def parse_conf_Inr split: option.splits)

lemma loaded_clean: "loaded w = Inr c \<Longrightarrow> clean c"
  by (auto simp: loaded_Inr clean_def empty_conf_def strip_conf_def)
     (simp_all add: strip_def lstrip_def)

definition world_ok :: "tgt_world \<Rightarrow> bool" where
  "world_ok w \<longleftrightarrow> (\<forall>c. loaded w = Inr c \<longrightarrow> conf_ok c)"

abbreviation stays_ok :: "tgt_world \<Rightarrow> 'a tgt_py \<Rightarrow> bool" where
  "stays_ok \<equiv> moves (\<lambda>c. conf_ok (strip_conf c))"

lemma stays_ok_world:
  assumes "stays_ok w m" and "world_ok w"
  shows "world_ok (snd (m w))"
proof -
  from assms(1) consider "tw_file (snd (m w)) = tw_file w"
    | c where "tw_file (snd (m w)) = Some c" "conf_ok (strip_conf c)"
    by (auto simp: moves_def Let_def)
  then show ?thesis
  proof cases
    case 1
    then have "loaded (snd (m w)) = loaded w" by (rule loaded_cong)
    with assms(2) show ?thesis by (simp add: world_ok_def)
  next
    case 2
    then show ?thesis by (auto simp: world_ok_def loaded_Inr)
  qed
qed

lemma clean_alt:
  "clean c \<longleftrightarrow> strip (tc_incoming c) = tc_incoming c \<and> strip (tc_outgoing c) = tc_outgoing c
     \<and> (\<forall>t \<in> set (tc_targets c). strip_target t = t)"
proof -
  have "map strip_target ts = ts \<longleftrightarrow> (\<forall>t \<in> set ts. strip_target t = t)" for ts
    by (induction ts) auto
  note * = this
  show ?thesis unfolding * [symmetric] by (cases c) (simp add: clean_def strip_conf_def)
qed

lemma strip_target_fields [simp]:
  "tg_iqn (strip_target t) = strip (tg_iqn t)" "tg_id (strip_target t) = tg_id t"
  "tg_luns (strip_target t) = map strip_lun (tg_luns t)"
  by (simp_all add: strip_target_def)

lemma strip_lun_fields [simp]:
  "lun_num (strip_lun l) = lun_num l" "lun_iqn (strip_lun l) = strip (lun_iqn l)" "lun_name (strip_lun l) = strip (lun_name l)"
  "lun_pool (strip_lun l) = strip (lun_pool l)" "lun_image (strip_lun l) = strip (lun_image l)"
  by (simp_all add: strip_lun_def)

lemma clean_target:
  assumes "clean c" and "t \<in> set (tc_targets c)"
  shows "strip_target t = t" "strip (tg_iqn t) = tg_iqn t" "\<And>l. l \<in> set (tg_luns t) \<Longrightarrow> strip_lun l = l"
proof -
  from assms show t: "strip_target t = t" by (auto simp: clean_alt)
  show "strip (tg_iqn t) = tg_iqn t" using strip_target_fields(1) [of t] t by simp
  have "map strip_lun (tg_luns t) = tg_luns t" using strip_target_fields(3) [of t] t by simp
  then show "strip_lun l = l" if "l \<in> set (tg_luns t)" for l
    using that by (metis map_eq_conv map_ident)
qed

lemma clean_strip_targets: "clean c \<Longrightarrow> set ts \<subseteq> set (tc_targets c) \<Longrightarrow> map strip_target ts = ts"
  by (rule map_idI) (auto simp: clean_alt)

section \<open>Replacing a target\<close>

lemma replace_target_split:
  assumes "replace_target iqn new ts = Some ts'"
  obtains pre t post where "ts = pre @ t # post" "ts' = pre @ new # post" "tg_iqn t = iqn" "iqn \<notin> tg_iqn ` set pre"
proof -
  have "\<exists>pre t post. ts = pre @ t # post \<and> ts' = pre @ new # post \<and> tg_iqn t = iqn \<and> iqn \<notin> tg_iqn ` set pre"
    using assms
  proof (induction ts arbitrary: ts')
    case (Cons a ts)
    show ?case
    proof (cases "tg_iqn a = iqn")
      case True
      with Cons.prems show ?thesis by (intro exI [of _ "[]"]) auto
    next
      case False
      with Cons.prems obtain us where us: "replace_target iqn new ts = Some us" "ts' = a # us" by auto
      from Cons.IH [OF us(1)] obtain pre t post where
        "ts = pre @ t # post" "us = pre @ new # post" "tg_iqn t = iqn" "iqn \<notin> tg_iqn ` set pre" by blast
      with us False show ?thesis by (intro exI [of _ "a # pre"] exI [of _ t] exI [of _ post]) auto
    qed
  qed simp
  with that show thesis by blast
qed

lemma find_target_split:
  assumes "find_target iqn c = Some t" and "tc_targets c = pre @ t' # post" and "tg_iqn t' = iqn" and "iqn \<notin> tg_iqn ` set pre"
  shows "t' = t"
proof -
  have "List.find (\<lambda>x. tg_iqn x = iqn) pre = None" using assms(4) by (auto simp: find_None_iff)
  then have "List.find (\<lambda>x. tg_iqn x = iqn) (pre @ t' # post) = Some t'"
    using assms(3) by (induction pre) (auto split: if_splits)
  with assms(1,2) show ?thesis by (simp add: find_target_def)
qed

lemma find_target_in: "find_target iqn c = Some t \<Longrightarrow> t \<in> set (tc_targets c) \<and> tg_iqn t = iqn"
  by (auto simp: find_target_def find_Some_iff)

lemma find_target_None: "find_target iqn c = None \<longleftrightarrow> iqn \<notin> tg_iqn ` set (tc_targets c)"
  by (auto simp: find_target_def find_None_iff)

text \<open>The LUN numbers a target may take in place of \<open>t\<close>.\<close>

lemma conf_ok_replace:
  assumes "clean c" and "conf_ok c" and ts: "tc_targets c = pre @ t # post"
    and "tg_id new = tg_id t" and "strip (tg_iqn new) = tg_iqn t \<or> strip (tg_iqn new) \<notin> tg_iqn ` set (tc_targets c)"
    and "target_ok (strip_target new)" and "distinct (map lun_num (tg_luns new))"
    and "\<And>l. l \<in> set (tg_luns new) \<Longrightarrow> lun_num l \<in> lun_num ` set (tg_luns t) \<or> lun_num l \<notin> lun_num ` set (all_luns c)"
  shows "conf_ok (strip_conf (c\<lparr>tc_targets := pre @ new # post\<rparr>))"
proof -
  let ?luns = "\<lambda>ts. concat (map tg_luns ts)"
  have same: "map strip_target pre = pre" "map strip_target post = post"
    using assms(1) ts by (auto intro!: clean_strip_targets)
  have c: "distinct (map tg_iqn (pre @ t # post))" "distinct (map tg_id (pre @ t # post))"
    "distinct (map lun_num (?luns (pre @ t # post)))" "\<forall>x \<in> set (pre @ t # post). target_ok x"
    using assms(2) by (simp_all add: conf_ok_def all_luns_def ts)
  define A B C D where "A = map lun_num (?luns pre)" and "B = map lun_num (tg_luns t)"
    and "C = map lun_num (?luns post)" and "D = map lun_num (tg_luns new)"
  note ABCD = this
  have "distinct (A @ B @ C)" "distinct D" using c(3) assms(7) by (simp_all add: ABCD)
  moreover have "n \<in> set D \<Longrightarrow> n \<in> set B \<or> n \<notin> set (A @ B @ C)" for n
    using assms(8) by (auto simp: ABCD all_luns_def ts)
  ultimately have "distinct (A @ D @ C)" by auto
  then have "distinct (map lun_num (?luns (pre @ new # post)))" by (simp add: ABCD)
  moreover have "distinct (map tg_iqn (pre @ strip_target new # post))"
  proof -
    have "strip (tg_iqn new) \<notin> set (map tg_iqn pre) \<union> set (map tg_iqn post)"
      using assms(5)
    proof
      assume "strip (tg_iqn new) = tg_iqn t"
      with c(1) show ?thesis by (metis Un_iff distinct.simps(2) distinct_append list.simps(9) map_append not_distinct_conv_prefix
          distinct_map append_eq_append_conv2 disjoint_iff list.set_intros(1))
    qed (auto simp: ts)
    with c(1) show ?thesis by simp
  qed
  moreover have "map lun_num (?luns (pre @ strip_target new # post)) = map lun_num (?luns (pre @ new # post))"
    by simp
  ultimately show ?thesis
    using c(2,4) assms(4,6) by (auto simp: conf_ok_def strip_conf_def all_luns_def same comp_def)
qed

definition replaces :: "tgt_conf \<Rightarrow> target_conf \<Rightarrow> target_conf \<Rightarrow> bool" where
  "replaces c t new \<longleftrightarrow> tg_id new = tg_id t
     \<and> (strip (tg_iqn new) = tg_iqn t \<or> strip (tg_iqn new) \<notin> tg_iqn ` set (tc_targets c))
     \<and> target_ok (strip_target new) \<and> distinct (map lun_num (tg_luns new))
     \<and> (\<forall>l \<in> set (tg_luns new). lun_num l \<in> lun_num ` set (tg_luns t) \<or> lun_num l \<notin> lun_num ` set (all_luns c))"

lemma stays_ok_replace:
  assumes "loaded w = Inr c" and "conf_ok c" and "find_target iqn c = Some t" and "replaces c t new"
  shows "stays_ok w (set_target_conf e iqn new)"
proof (rule moves_set_target_conf)
  fix c' ts
  assume "loaded w = Inr c'" and r: "replace_target iqn new (tc_targets c') = Some ts"
  with assms(1) have c': "c' = c" by simp
  from replace_target_split [OF r] obtain pre t' post where
    ts: "tc_targets c = pre @ t' # post" "ts = pre @ new # post" "tg_iqn t' = iqn" "iqn \<notin> tg_iqn ` set pre"
    unfolding c' by blast
  with find_target_split [OF assms(3)] have "t' = t" by blast
  with conf_ok_replace [OF loaded_clean [OF assms(1)] assms(2), of pre t post new] assms(4) ts
  show "conf_ok (strip_conf (c'\<lparr>tc_targets := ts\<rparr>))" by (auto simp: c' replaces_def)
qed

text \<open>A target of a consistent configuration, as the loaded configuration has it.\<close>

lemma found_target:
  assumes "loaded w = Inr c" and "conf_ok c" and "find_target iqn c = Some t"
  shows "target_ok t" "strip_target t = t" "tg_iqn t = iqn" "strip iqn = iqn" "distinct (map lun_num (tg_luns t))"
    "\<And>l. l \<in> set (tg_luns t) \<Longrightarrow> strip_lun l = l" "t \<in> set (tc_targets c)"
proof -
  from find_target_in [OF assms(3)] show t: "t \<in> set (tc_targets c)" and "tg_iqn t = iqn" by auto
  with clean_target [OF loaded_clean [OF assms(1)] t]
  show "strip_target t = t" "strip iqn = iqn" "\<And>l. l \<in> set (tg_luns t) \<Longrightarrow> strip_lun l = l" by auto
  from assms(2) t show "target_ok t" by (simp add: conf_ok_def)
  from t obtain pre post where "tc_targets c = pre @ t # post" by (meson split_list)
  with assms(2) show "distinct (map lun_num (tg_luns t))" by (auto simp: conf_ok_def all_luns_def)
qed

lemma replaces_same_luns:
  assumes "loaded w = Inr c" and "conf_ok c" and "find_target iqn c = Some t"
    and "tg_iqn new = tg_iqn t" "tg_id new = tg_id t" "tg_luns new = tg_luns t"
  shows "replaces c t new"
proof -
  note f = found_target [OF assms(1-3)]
  have luns: "map strip_lun (tg_luns t) = tg_luns t" using f(6) by (intro map_idI)
  have "target_ok (strip_target new)"
    using f(1,3,4) assms(4,6) by (simp add: target_ok_def luns)
  with f assms(4-6) show ?thesis by (simp add: replaces_def)
qed

lemma stays_ok_set:
  assumes "loaded w = Inr c" and "world_ok w" and "find_target iqn c = Some t" and "replaces c t new"
    and "\<And>a. keeps_file (f a)"
  shows "stays_ok w (bnd (set_target_conf e iqn new) f)"
  by (rule moves_then_keeps [OF stays_ok_replace]) (use assms in \<open>auto simp: world_ok_def\<close>)

lemma stays_ok_with_conf:
  assumes "world_ok w"
    and "\<And>t t'. f t = Inr t' \<Longrightarrow> tg_iqn t' = tg_iqn t \<and> tg_id t' = tg_id t \<and> tg_luns t' = tg_luns t"
  shows "stays_ok w (with_conf e tg f)"
  unfolding with_conf_def
proof (intro moves_get_target_conf moves_lift)
  fix c t t'
  assume c: "loaded w = Inr c" "find_target (to_iqn tg) c = Some t" and f: "f t = Inr t'"
  have "conf_ok c" using assms(1) c(1) by (simp add: world_ok_def)
  with c f assms(2) [OF f] have "replaces c t t'" by (intro replaces_same_luns) auto
  with c assms(1) show "stays_ok w (bnd (set_target_conf e (to_iqn tg) t')
      (\<lambda>_. bnd (update_target e (to_iqn tg)) (\<lambda>_. ret (tg\<lparr>to_conf := t'\<rparr>))))"
    by (intro stays_ok_set keeps) auto
qed

section \<open>Creating, removing and renaming targets\<close>

lemma generate_id_fresh: "generate_id ids n = Inr i \<Longrightarrow> i \<notin> set ids"
proof -
  assume "generate_id ids n = Inr i"
  then have "ids \<noteq> [] \<Longrightarrow> i = Max (set ids) + 1"
    by (auto simp: generate_id_def exceeds_function_def Let_def split: if_splits)
  moreover have "j \<in> set ids \<Longrightarrow> j \<le> Max (set ids)" for j by simp
  ultimately show ?thesis by (metis empty_iff list.set(1) zless_add1_eq less_irrefl not_le)
qed

lemma conf_ok_append:
  assumes "clean c" and "conf_ok c" and "tg_id t \<notin> tg_id ` set (tc_targets c)"
    and "strip (tg_iqn t) \<notin> tg_iqn ` set (tc_targets c)" and "tg_luns t = []"
  shows "conf_ok (strip_conf (c\<lparr>tc_targets := tc_targets c @ [t]\<rparr>))"
proof -
  have "map strip_target (tc_targets c) = tc_targets c" using assms(1) by (rule clean_strip_targets) simp
  with assms(2-5) show ?thesis by (simp add: conf_ok_def all_luns_def strip_conf_def target_ok_def)
qed

lemma stays_ok_create:
  assumes "world_ok w" and "strip iqn = iqn"
  shows "stays_ok w (create_target e iqn)"
  unfolding create_target_def
proof (intro moves_lift moves_load)
  fix t c
  assume t: "new_target iqn = Inr t" and c: "loaded w = Inr c"
  from t assms(2) have new: "tg_iqn t = iqn" "tg_luns t = []"
    by (auto simp: new_target_def then_do_eq_Inr str.accepts)
  from assms(1) c have ok: "clean c" "conf_ok c" by (auto simp: world_ok_def loaded_clean)
  show "stays_ok w (if find_target iqn c \<noteq> None then raise (Exception (''Target (iqn:'' @ iqn @ '') Already exist''))
     else bnd (lift_exn (generate_id (map tg_id (tc_targets c)) 255)) (\<lambda>i.
       bnd (store_conf e (c\<lparr>tc_targets := tc_targets c @ [t\<lparr>tg_id := i\<rparr>]\<rparr>)) (\<lambda>_.
       ignoring (run_by_all_minion e (TGTADMIN_CMD @ '' --execute'')))))"
  proof (cases "find_target iqn c")
    case None
    then have "iqn \<notin> tg_iqn ` set (tc_targets c)" by (simp add: find_target_None)
    with None show ?thesis
      using ok new assms(2) generate_id_fresh [of "map tg_id (tc_targets c)" 255]
      by (auto intro!: moves_lift moves_then_keeps [OF moves_store] conf_ok_append keeps)
  qed simp
qed

lemma conf_ok_remove:
  assumes "clean c" and "conf_ok c"
  shows "conf_ok (strip_conf (c\<lparr>tc_targets := remove1 t (tc_targets c)\<rparr>))"
proof (cases "t \<in> set (tc_targets c)")
  case True
  then obtain pre post where ts: "tc_targets c = pre @ t # post" "t \<notin> set pre" by (meson split_list_first)
  then have "remove1 t (tc_targets c) = pre @ post" by (simp add: remove1_append)
  moreover have "map strip_target pre = pre" "map strip_target post = post"
    using assms(1) ts by (auto intro!: clean_strip_targets)
  moreover have "distinct (A @ B @ C) \<Longrightarrow> distinct (A @ C)" for A B C :: "int list" by auto
  from this [of "map lun_num (concat (map tg_luns pre))" "map lun_num (tg_luns t)" "map lun_num (concat (map tg_luns post))"]
  have "distinct (map lun_num (concat (map tg_luns (pre @ post))))"
    using assms(2) by (simp add: conf_ok_def all_luns_def ts)
  ultimately show ?thesis using assms(2) by (auto simp: conf_ok_def strip_conf_def all_luns_def ts)
next
  case False
  with assms show ?thesis by (simp add: remove1_idem clean_def)
qed

lemma stays_ok_remove:
  assumes "world_ok w" and "loaded w = Inr c"
  shows "stays_ok w (remove_target e c t)"
  using assms unfolding remove_target_def
  by (auto intro!: moves_then_keeps [OF moves_store] conf_ok_remove keeps loaded_clean simp: world_ok_def)

lemma stays_ok_remove_by:
  assumes "world_ok w"
  shows "stays_ok w (remove_target_by_iqn e iqn)" "stays_ok w (remove_target_by_id e i)"
  using assms unfolding remove_target_by_iqn_def remove_target_by_id_def
  by (auto intro!: moves_load stays_ok_remove split: option.split)

lemma replaces_renamed:
  assumes "loaded w = Inr c" and "conf_ok c" and "find_target iqn c = Some t"
    and "strip new = new" and "find_target new c = None"
  shows "replaces c t (t\<lparr>tg_iqn := new, tg_luns := map (\<lambda>l. l\<lparr>lun_iqn := new\<rparr>) (tg_luns t)\<rparr>)"
proof -
  note f = found_target [OF assms(1-3)]
  have "\<And>l. l \<in> set (tg_luns t) \<Longrightarrow> strip (lun_name l) = lun_name l \<and> strip (lun_pool l) = lun_pool l \<and> strip (lun_image l) = lun_image l"
    using f(6) strip_lun_fields by metis
  then have same: "map (\<lambda>l. strip (lun_name l)) (tg_luns t) = map lun_name (tg_luns t)"
    "map (\<lambda>l. (strip (lun_pool l), strip (lun_image l))) (tg_luns t) = map (\<lambda>l. (lun_pool l, lun_image l)) (tg_luns t)" by auto
  have "target_ok (strip_target (t\<lparr>tg_iqn := new, tg_luns := map (\<lambda>l. l\<lparr>lun_iqn := new\<rparr>) (tg_luns t)\<rparr>))"
    using f(1) assms(4) by (auto simp: target_ok_def comp_def same)
  with f(5) assms(4,5) show ?thesis by (auto simp: replaces_def find_target_None comp_def)
qed

lemma stays_ok_rename:
  assumes "world_ok w" and "strip new = new"
  shows "stays_ok w (update_target_iqn e new tg)"
  unfolding update_target_iqn_def Let_def
proof (intro moves_get_target_conf moves_load)
  fix c t c'
  assume c: "loaded w = Inr c" "find_target (to_iqn tg) c = Some t" "loaded w = Inr c'"
  then have c': "c' = c" by simp
  show "stays_ok w (if find_target new c' \<noteq> None then raise (Exception (''Target (iqn:'' @ new @ '') Already exist''))
     else bnd (set_target_conf e (to_iqn tg) (t\<lparr>tg_iqn := new, tg_luns := map (\<lambda>l. l\<lparr>lun_iqn := new\<rparr>) (tg_luns t)\<rparr>)) (\<lambda>_.
          bnd (run_by_all_minion e (TGTADMIN_CMD @ '' -f --delete '' @ to_iqn tg)) (\<lambda>_.
          bnd (update_target e new) (\<lambda>_.
          ret \<lparr>to_iqn = new, to_conf = t\<lparr>tg_iqn := new, tg_luns := map (\<lambda>l. l\<lparr>lun_iqn := new\<rparr>) (tg_luns t)\<rparr>\<rparr>))))"
    using c(1,2) assms by (auto simp: c' world_ok_def intro!: stays_ok_set [OF c(1) assms(1) c(2)] replaces_renamed keeps)
qed

section \<open>Adding, changing and deleting LUNs\<close>

lemma then_do_InrE: "then_do r f = Inr b \<Longrightarrow> (\<And>a. r = Inr a \<Longrightarrow> f a = Inr b \<Longrightarrow> P) \<Longrightarrow> P"
  by (auto simp: then_do_eq_Inr)

lemma update_lun_fields:
  assumes "update_lun d l = Inr l'" and "set (keys d) \<subseteq> {''name'', ''size''}"
  shows "lun_iqn l' = strip (lun_iqn l)" "lun_pool l' = strip (lun_pool l)" "lun_image l' = strip (lun_image l)"
    "lun_num l' = lun_num l" "lun_name l' = strip (str_jval (get_default d ''name'' (JStr (lun_name l))))"
proof -
  have "get_default d k v = v" if "k \<notin> {''name'', ''size''}" for k v
  proof -
    from assms(2) that have "map_of d k = None" by (auto simp: map_of_eq_None_iff)
    then show ?thesis by (simp add: get_default_def)
  qed
  then have same: "get_default d ''iqn'' v = v" "get_default d ''pool'' v = v" "get_default d ''image'' v = v"
    "get_default d ''lun'' v = v" for v by simp_all
  from assms(1) obtain iqn sz pool img name dt bs wc n where
    "check_text (JStr (lun_iqn l)) = Inr iqn" "check_text (JStr (lun_pool l)) = Inr pool"
    "check_text (JStr (lun_image l)) = Inr img" "check_text (get_default d ''name'' (JStr (lun_name l))) = Inr name"
    "check_int 255 (JInt (lun_num l)) = Inr n"
    and "Inr \<lparr>lun_iqn = iqn, lun_size = sz, lun_pool = pool, lun_image = img, lun_name = name,
       lun_device_type = dt, lun_bs_type = bs, lun_write_cache = wc, lun_num = n\<rparr> = (Inr l' :: exn + lun_conf)"
    unfolding update_lun_def same by (elim then_do_InrE) (rule that, assumption+)
  then show "lun_iqn l' = strip (lun_iqn l)" "lun_pool l' = strip (lun_pool l)" "lun_image l' = strip (lun_image l)"
    "lun_num l' = lun_num l" "lun_name l' = strip (str_jval (get_default d ''name'' (JStr (lun_name l))))"
    by (auto simp: check_text_def str.accepts check_int_def check_range_Inr)
qed

lemma world_ok_cong: "tw_file v = tw_file w \<Longrightarrow> world_ok v \<longleftrightarrow> world_ok w"
  by (simp add: world_ok_def loaded_cong [of v w])

lemma replaces_luns:
  assumes "loaded w = Inr c" and "conf_ok c" and "find_target iqn c = Some t"
    and "target_ok (t\<lparr>tg_luns := map strip_lun ls\<rparr>)" and "distinct (map lun_num ls)"
    and "\<And>l. l \<in> set ls \<Longrightarrow> lun_num l \<in> lun_num ` set (tg_luns t) \<or> lun_num l \<notin> lun_num ` set (all_luns c)"
  shows "replaces c t (t\<lparr>tg_luns := ls\<rparr>)"
  using found_target [OF assms(1-3)] assms(4-6) by (auto simp: replaces_def target_ok_def)

lemma stays_ok_add_lun:
  assumes "world_ok w" and "strip pool = pool" "strip img = img" "strip name = name"
  shows "stays_ok w (add_lun e pool img sz name dt bs wc tg)"
  unfolding add_lun_def Let_def
proof (intro moves_lift)
  fix l
  assume "new_lun (to_iqn tg) pool img sz name dt bs wc = Inr l"
  from update_lun_fields [OF this [unfolded new_lun_def]]
  have l: "lun_iqn l = strip (to_iqn tg)" "lun_pool l = pool" "lun_image l = img" "lun_name l = name"
    using assms(2-4) by (simp_all add: get_default_def)
  have set: "stays_ok v (bnd (set_target_conf e (to_iqn tg) (t\<lparr>tg_luns := tg_luns t @ [l\<lparr>lun_num := n\<rparr>]\<rparr>)) (\<lambda>_.
       bnd (update_target e (to_iqn tg)) (\<lambda>_. ret (tg\<lparr>to_conf := t\<lparr>tg_luns := tg_luns t @ [l\<lparr>lun_num := n\<rparr>]\<rparr>\<rparr>))))"
    if "tw_file v = tw_file w" "loaded w = Inr c" and found: "find_target (to_iqn tg) c = Some t"
      and fresh: "name \<notin> lun_name ` set (tg_luns t)" "pool \<notin> lun_pool ` set (tg_luns t) \<or> img \<notin> lun_image ` set (tg_luns t)"
      and n: "generate_id (map lun_num (all_luns c)) 255 = Inr n" for v c t n
  proof -
    have v: "loaded v = Inr c" "world_ok v" using that(1,2) assms(1) by (simp_all add: loaded_cong [of v w] world_ok_cong [of v w])
    then have ok: "conf_ok c" by (simp add: world_ok_def)
    note f = found_target [OF v(1) ok found]
    have same: "map strip_lun (tg_luns t) = tg_luns t" using f(6) by (intro map_idI)
    have new: "n \<notin> lun_num ` set (all_luns c)" using generate_id_fresh [OF n] by simp
    moreover have "lun_num ` set (tg_luns t) \<subseteq> lun_num ` set (all_luns c)" using f(7) by (auto simp: all_luns_def)
    ultimately have "replaces c t (t\<lparr>tg_luns := tg_luns t @ [l\<lparr>lun_num := n\<rparr>]\<rparr>)"
      using f(1,3-5) l fresh assms(2-4)
      by (intro replaces_luns [OF v(1) ok found]) (auto simp: target_ok_def same)
    with v found show ?thesis by (intro stays_ok_set keeps)
  qed
  show "stays_ok w (if bs \<noteq> ''rbd'' then raise (Exception (''device '' @ quote @ ''s bs_type must be rbd'')) else
     bnd (get_target_conf (to_iqn tg)) (\<lambda>t.
     bnd load_conf (\<lambda>c.
     if \<exists>i \<in> set (tg_luns t). lun_name i = name
     then raise (Exception (''Target (iqn:'' @ to_iqn tg @ '') Lun name('' @ name @ '') already exists''))
     else if (\<exists>i \<in> set (tg_luns t). lun_pool i = pool) \<and> (\<exists>j \<in> set (tg_luns t). lun_image j = img)
     then raise (Exception (''Target (iqn:'' @ to_iqn tg @ '') Lun Path ('' @ pool @ ''/'' @ img @ '') already exists''))
     else bnd (create_rbd_image e pool img sz) (\<lambda>_.
       bnd (lift_exn (generate_id (map lun_num (all_luns c)) 255)) (\<lambda>n.
       bnd (set_target_conf e (to_iqn tg) (t\<lparr>tg_luns := tg_luns t @ [l\<lparr>lun_num := n\<rparr>]\<rparr>)) (\<lambda>_.
       bnd (update_target e (to_iqn tg)) (\<lambda>_. ret (tg\<lparr>to_conf := t\<lparr>tg_luns := tg_luns t @ [l\<lparr>lun_num := n\<rparr>]\<rparr>\<rparr>))))))))"
    by (auto intro!: moves_get_target_conf moves_load moves_bnd [OF keeps_images(1)] moves_lift set)
qed

lemma found_lun_split:
  assumes "List.find P ls = Some l"
  obtains pre post where "ls = pre @ l # post" "remove1 l ls = pre @ post" "P l"
proof -
  from assms have l: "l \<in> set ls" "P l" by (auto simp: find_Some_iff)
  from l(1) obtain pre post where "ls = pre @ l # post" "l \<notin> set pre" by (meson split_list_first)
  with l(2) that show thesis by (simp add: remove1_append)
qed

lemma distinct_map_remove1: "distinct (map g xs) \<Longrightarrow> distinct (map g (remove1 x xs))"
  by (metis distinct_map distinct_remove1 inj_on_subset set_remove1_subset)

lemma stays_ok_del_lun:
  assumes "world_ok w"
  shows "stays_ok w (del_lun e n tg)"
  unfolding del_lun_def Let_def
proof (intro moves_get_target_conf moves_load)
  fix c t c'
  assume c: "loaded w = Inr c" "find_target (to_iqn tg) c = Some t" "loaded w = Inr c'"
  have ok: "conf_ok c" using c assms by (simp add: world_ok_def)
  note f = found_target [OF c(1) ok c(2)]
  have same: "map strip_lun (remove1 l (tg_luns t)) = remove1 l (tg_luns t)" for l
    using f(6) by (intro map_idI) (auto dest: notin_set_remove1 in_set_remove1)
  have "replaces c t (t\<lparr>tg_luns := remove1 l (tg_luns t)\<rparr>)" for l
  proof (rule replaces_luns [OF c(1) ok c(2)])
    show "target_ok (t\<lparr>tg_luns := map strip_lun (remove1 l (tg_luns t))\<rparr>)"
      using f(1) unfolding same by (auto simp: target_ok_def intro: distinct_map_remove1 dest: notin_set_remove1)
    show "distinct (map lun_num (remove1 l (tg_luns t)))" using f(5) by (rule distinct_map_remove1)
    show "lun_num k \<in> lun_num ` set (tg_luns t) \<or> lun_num k \<notin> lun_num ` set (all_luns c)"
      if "k \<in> set (remove1 l (tg_luns t))" for k
      using that set_remove1_subset [of l "tg_luns t"] by auto
  qed
  with c assms show "stays_ok w (case filter (\<lambda>l. lun_num l = n) (tg_luns t) of
         [] \<Rightarrow> raise (Exception (''Target (iqn:'' @ to_iqn tg @ '') Lun ('' @ str_int n @ '') Not Found''))
       | l # ls \<Rightarrow> bnd (set_target_conf e (to_iqn tg) (t\<lparr>tg_luns := remove1 (last (l # ls)) (tg_luns t)\<rparr>)) (\<lambda>_.
              bnd (update_target e (to_iqn tg)) (\<lambda>_.
              bnd (guarded (\<not> shares_image (last (l # ls)) c') (del_rbd_image e (lun_pool (last (l # ls))) (lun_image (last (l # ls))))) (\<lambda>_.
              ret (tg\<lparr>to_conf := t\<lparr>tg_luns := remove1 (last (l # ls)) (tg_luns t)\<rparr>\<rparr>)))))"
    by (auto intro!: stays_ok_set [OF c(1) assms c(2)] keeps split: list.split)
qed

text \<open>Names and places without white space around them; \<open>data\<close> with nothing but a name and a size.\<close>

definition tidy :: "string \<Rightarrow> bool" where
  "tidy s \<longleftrightarrow> strip s = s"

definition tidy_data :: "attributes \<Rightarrow> bool" where
  "tidy_data d \<longleftrightarrow> set (keys d) \<subseteq> {''name'', ''size''}
     \<and> (case map_of d ''name'' of Some (JStr s) \<Rightarrow> tidy s | Some _ \<Rightarrow> False | None \<Rightarrow> True)"

lemma replaces_changed_lun:
  assumes c: "loaded w = Inr c" "conf_ok c" "find_target iqn c = Some t"
    and l: "List.find P (tg_luns t) = Some l" and "update_lun d l = Inr l'" and "tidy_data d"
    and "\<And>v i. map_of d ''name'' = Some v \<Longrightarrow> i \<in> set (remove1 l (tg_luns t)) \<Longrightarrow> JStr (lun_name i) \<noteq> v"
  shows "replaces c t (t\<lparr>tg_luns := remove1 l (tg_luns t) @ [l']\<rparr>)"
proof -
  note f = found_target [OF c]
  from l obtain pre post where ls: "tg_luns t = pre @ l # post" "remove1 l (tg_luns t) = pre @ post" "P l"
    by (rule found_lun_split)
  have strip: "strip_lun l = l" "map strip_lun pre = pre" "map strip_lun post = post"
    using f(6) by (auto simp: ls intro!: map_idI)
  then have same: "strip (lun_iqn l) = lun_iqn l" "strip (lun_pool l) = lun_pool l" "strip (lun_image l) = lun_image l"
    "strip (lun_name l) = lun_name l" by (metis strip_lun_fields)+
  have keys: "set (keys d) \<subseteq> {''name'', ''size''}" using assms(6) by (simp add: tidy_data_def)
  note l' = update_lun_fields [OF assms(5) keys, unfolded same]
  have name: "strip (lun_name l') = lun_name l' \<and> lun_name l' \<notin> lun_name ` set (pre @ post)"
  proof (cases "map_of d ''name''")
    case None
    with l'(5) same(4) f(1) show ?thesis by (auto simp: get_default_def target_ok_def ls)
  next
    case (Some v)
    with assms(6) obtain s where "v = JStr s" "strip s = s"
      by (cases v) (auto simp: tidy_data_def tidy_def)
    moreover from this have "s \<notin> lun_name ` set (pre @ post)"
      using assms(7) [OF Some] unfolding ls(2) by blast
    moreover have "lun_name l' = strip s" using Some l'(5) \<open>v = JStr s\<close> by (simp add: get_default_def)
    ultimately show ?thesis by simp
  qed
  have "target_ok (t\<lparr>tg_luns := map strip_lun (pre @ post @ [l'])\<rparr>)"
    using f(1,3,4) l' name same strip by (auto simp: target_ok_def ls)
  then show ?thesis
    using f(5) l'(4) unfolding ls(2) by (intro replaces_luns [OF c]) (auto simp: ls(1))
qed

lemma keeps_resize_image: "keeps_file (resize_image e l d)"
  unfolding resize_image_def by (auto intro!: keeps split: option.split)

lemma moves_check_new_name:
  assumes "(\<And>x i. map_of d ''name'' = Some x \<Longrightarrow> i \<in> set others \<Longrightarrow> JStr (lun_name i) \<noteq> x) \<Longrightarrow> moves P v (f ())"
  shows "moves P v (bnd (check_new_name iqn others d) f)"
proof (cases "\<exists>x. map_of d ''name'' = Some x \<and> (\<exists>i \<in> set others. JStr (lun_name i) = x)")
  case True
  then show ?thesis by (auto simp: check_new_name_def guarded_def)
next
  case False
  then have "moves P v (f ())" by (intro assms) auto
  with False show ?thesis by (auto simp: check_new_name_def guarded_def split: option.split)
qed

lemma stays_ok_set_lun:
  assumes "world_ok w" and "tidy_data d"
  shows "stays_ok w (set_lun e n d tg)"
  unfolding set_lun_def Let_def
proof (rule moves_get_target_conf)
  fix c t
  assume c: "loaded w = Inr c" "find_target (to_iqn tg) c = Some t"
  have set: "stays_ok v (bnd (set_target_conf e (to_iqn tg) (t\<lparr>tg_luns := remove1 l (tg_luns t) @ [l']\<rparr>)) (\<lambda>_.
       bnd (update_target e (to_iqn tg)) (\<lambda>_. ret (tg\<lparr>to_conf := t\<lparr>tg_luns := remove1 l (tg_luns t) @ [l']\<rparr>\<rparr>))))"
    if "tw_file v = tw_file w" and l: "List.find (\<lambda>l. lun_num l = n) (tg_luns t) = Some l" "update_lun d l = Inr l'"
      and name: "\<And>x i. map_of d ''name'' = Some x \<Longrightarrow> i \<in> set (remove1 l (tg_luns t)) \<Longrightarrow> JStr (lun_name i) \<noteq> x" for v l l'
  proof -
    have v: "loaded v = Inr c" "world_ok v" using that(1) c(1) assms(1) by (simp_all add: loaded_cong [of v w] world_ok_cong [of v w])
    then have "conf_ok c" by (simp add: world_ok_def)
    from replaces_changed_lun [OF v(1) this c(2) l assms(2) name] v c(2)
    show ?thesis by (intro stays_ok_set keeps) auto
  qed
  show "stays_ok w (case List.find (\<lambda>l. lun_num l = n) (tg_luns t) of None \<Rightarrow> raise (lun_not_found (to_iqn tg) n)
     | Some l \<Rightarrow>
         bnd (resize_image e l d) (\<lambda>_.
         bnd (check_new_name (to_iqn tg) (remove1 l (tg_luns t)) d) (\<lambda>_.
         bnd (lift_exn (update_lun d l)) (\<lambda>l'.
         bnd (set_target_conf e (to_iqn tg) (t\<lparr>tg_luns := remove1 l (tg_luns t) @ [l']\<rparr>)) (\<lambda>_.
         bnd (update_target e (to_iqn tg)) (\<lambda>_. ret (tg\<lparr>to_conf := t\<lparr>tg_luns := remove1 l (tg_luns t) @ [l']\<rparr>\<rparr>)))))))"
    by (auto intro!: moves_bnd [OF keeps_resize_image] moves_check_new_name moves_lift set split: option.split)
qed

section \<open>Everything that can be asked of the service\<close>

datatype tgt_op =
    CreateTarget string
  | RemoveTarget string
  | RemoveTargetId int
  | RenameTarget int string
  | SetAddrs string "string list"
  | DelAddr string string
  | SetNames string "string list"
  | DelName string string
  | SetIncoming string string string
  | DelIncoming string string
  | SetOutgoing string string string
  | DelOutgoing string string
  | AddLun string string string jval string
  | SetLun string int attributes
  | DelLun string int
  | SyncToSystem
  | RestoreSystem

definition on_target :: "string \<Rightarrow> (target_obj \<Rightarrow> target_obj tgt_py) \<Rightarrow> unit tgt_py" where
  "on_target iqn f = bnd (bnd (get_target_by_iqn iqn) f) (\<lambda>_. ret ())"

fun run_op :: "tgt_env \<Rightarrow> tgt_op \<Rightarrow> unit tgt_py" where
  "run_op e (CreateTarget iqn) = create_target e iqn"
| "run_op e (RemoveTarget iqn) = remove_target_by_iqn e iqn"
| "run_op e (RemoveTargetId i) = remove_target_by_id e i"
| "run_op e (RenameTarget i new) = bnd (bnd (get_target_by_id i) (update_target_iqn e new)) (\<lambda>_. ret ())"
| "run_op e (SetAddrs iqn xs) = on_target iqn (set_initiator_addr_list e xs)"
| "run_op e (DelAddr iqn ip) = on_target iqn (del_initiator_addr e ip)"
| "run_op e (SetNames iqn xs) = on_target iqn (set_initiator_name_list e xs)"
| "run_op e (DelName iqn n) = on_target iqn (del_initiator_name e n)"
| "run_op e (SetIncoming iqn n p) = on_target iqn (set_incominguser e n p)"
| "run_op e (DelIncoming iqn n) = on_target iqn (del_incominguser e n)"
| "run_op e (SetOutgoing iqn n p) = on_target iqn (set_outgoinguser e n p)"
| "run_op e (DelOutgoing iqn n) = on_target iqn (del_outgoinguser e n)"
| "run_op e (AddLun iqn pool img sz name) = on_target iqn (add_lun e pool img sz name ''disk'' ''rbd'' True)"
| "run_op e (SetLun iqn n d) = on_target iqn (set_lun e n d)"
| "run_op e (DelLun iqn n) = on_target iqn (del_lun e n)"
| "run_op e SyncToSystem = sync_to_system_conf e"
| "run_op e RestoreSystem = system_restore_cb e"

text \<open>Each operation has its own answers of salt, and may fail on the way.\<close>

definition run_ops :: "(tgt_env \<times> tgt_op) list \<Rightarrow> tgt_world \<Rightarrow> tgt_world" where
  "run_ops ops w = fold (\<lambda>(e, x) w. snd (run_op e x w)) ops w"

definition no_targets :: tgt_world where
  "no_targets = \<lparr>tw_file = None, tw_exported = None, tw_calls = []\<rparr>"

fun tidy_op :: "tgt_op \<Rightarrow> bool" where
  "tidy_op (CreateTarget iqn) = tidy iqn"
| "tidy_op (RenameTarget i new) = tidy new"
| "tidy_op (AddLun iqn pool img sz name) = (tidy pool \<and> tidy img \<and> tidy name)"
| "tidy_op (SetLun iqn n d) = tidy_data d"
| "tidy_op x = True"

lemma stays_ok_on_target:
  assumes "world_ok w" and "\<And>tg. stays_ok w (f tg)"
  shows "stays_ok w (on_target iqn f)"
  unfolding on_target_def get_target_by_iqn_def bnd_assoc
proof (rule moves_load)
  fix c
  from assms(2) show "stays_ok w (bnd (case find_target iqn c of
       None \<Rightarrow> raise (Exception (''tgt target (iqn:'' @ iqn @ '') Not Found''))
     | Some t \<Rightarrow> ret \<lparr>to_iqn = iqn, to_conf = t\<rparr>) (\<lambda>x. bnd (f x) (\<lambda>_. ret ())))"
    by (cases "find_target iqn c") (auto intro!: moves_then_keeps keeps)
qed

lemmas same_luns_ops = set_initiator_addr_list_def del_initiator_addr_def set_initiator_name_list_def
  del_initiator_name_def set_incominguser_def del_incominguser_def set_outgoinguser_def del_outgoinguser_def

lemma bnd_gets [simp]: "bnd (gets g) f w = f (g w) w"
  by (simp add: bnd_def gets_def)

lemma bnd_modify [simp]: "bnd (modify g) f w = f () (g w)"
  by (simp add: bnd_def modify_def)

lemma bnd_lift_Inl [simp]: "bnd (lift_exn (Inl e)) f w = (Inl e, w)"
  by (simp add: bnd_def lift_exn_def)

lemma system_restore_cb_run:
  "system_restore_cb e w = (if tw_file w = None then (Inr (), w) else bnd load_conf (sync_conf e) (w\<lparr>tw_file := None\<rparr>))"
  by (simp add: system_restore_cb_def guarded_def ret_def)

lemma world_ok_op:
  assumes "world_ok w" and "tidy_op x"
  shows "world_ok (snd (run_op e x w))"
proof (cases x)
  case (CreateTarget iqn)
  with assms show ?thesis by (auto simp: tidy_def intro!: stays_ok_world stays_ok_create)
next
  case (RenameTarget i new)
  have "stays_ok w (bnd (bnd (get_target_by_id i) (update_target_iqn e new)) (\<lambda>_. ret ()))"
    unfolding get_target_by_id_def bnd_assoc
  proof (rule moves_load)
    fix c
    from assms RenameTarget have "stays_ok w (update_target_iqn e new tg)" for tg
      by (intro stays_ok_rename) (simp_all add: tidy_def)
    then show "stays_ok w (bnd (case find_target_id i c of
         None \<Rightarrow> raise (Exception (''tgt target (id:'' @ str_int i @ '') Not Found''))
       | Some t \<Rightarrow> ret \<lparr>to_iqn = tg_iqn t, to_conf = t\<rparr>) (\<lambda>x. bnd (update_target_iqn e new x) (\<lambda>_. ret ())))"
      by (cases "find_target_id i c") (auto intro!: moves_then_keeps keeps)
  qed
  with assms(1) RenameTarget show ?thesis by (simp add: stays_ok_world)
next
  case (AddLun iqn pool img sz name)
  with assms show ?thesis by (auto simp: tidy_def intro!: stays_ok_world stays_ok_on_target stays_ok_add_lun)
next
  case (SetLun iqn n d)
  with assms show ?thesis by (auto intro!: stays_ok_world stays_ok_on_target stays_ok_set_lun)
next
  case (DelLun iqn n)
  with assms show ?thesis by (auto intro!: stays_ok_world stays_ok_on_target stays_ok_del_lun)
next
  case SyncToSystem
  have "keeps_file (sync_to_system_conf e)" unfolding sync_to_system_conf_def by (intro keeps)
  with assms SyncToSystem show ?thesis by (auto intro!: stays_ok_world moves_keeps)
next
  case RestoreSystem
  have "tw_file (snd (bnd load_conf (sync_conf e) v)) = tw_file v" for v
    using kf.obeys_bnd [OF keeps_load_conf keeps_sync_conf] by (auto simp: obeys_def)
  then have "tw_file (snd (system_restore_cb e w)) = None"
    by (simp add: system_restore_cb_run)
  with RestoreSystem show ?thesis by (simp add: world_ok_def loaded_Inr)
qed (use assms in \<open>auto intro!: stays_ok_world stays_ok_remove_by stays_ok_on_target stays_ok_with_conf
      simp: same_luns_ops then_do_eq_Inr split: if_splits\<close>)

lemma world_ok_ops:
  assumes "list_all (\<lambda>(e, x). tidy_op x) ops" and "world_ok w"
  shows "world_ok (run_ops ops w)"
  using assms by (induction ops arbitrary: w) (auto simp: run_ops_def world_ok_op)


section \<open>Running the operations where salt answers\<close>

text \<open>No call raises, and \<open>m\<close> is the first minion to answer a ping.\<close>

definition answering :: "tgt_env \<Rightarrow> string \<Rightarrow> bool" where
  "answering e m \<longleftrightarrow> (\<forall>past x. \<exists>a. te_salt e past x = Inr a)
     \<and> (\<forall>past. \<exists>a b. te_salt e past (Salt ''*'' ''test.ping'' []) = Inr a \<and> List.find snd a = Some (m, b))
     \<and> (\<exists>path. get_salt_fileserver_base_path e = Inr path)"

lemma run_by_salt_run:
  assumes "te_salt e (tw_calls w) (Salt whom fn args) = Inr a"
  shows "run_by_salt e whom fn args w = (Inr a, w\<lparr>tw_calls := tw_calls w @ [Salt whom fn args]\<rparr>)"
  using assms by (simp add: run_by_salt_def lift_exn_def)

lemma answered: "answering e m \<Longrightarrow> \<exists>a. te_salt e past x = Inr a"
  by (simp add: answering_def)

lemma run_by_all_minion_run:
  assumes "answering e m"
  shows "run_by_all_minion e cmd w = (Inr (), w\<lparr>tw_calls := tw_calls w @ [Salt ''*'' ''cmd.run'' [cmd]]\<rparr>)"
  using answered [OF assms, of "tw_calls w" "Salt ''*'' ''cmd.run'' [cmd]"]
  by (auto simp: run_by_all_minion_def bnd_def run_by_salt_run ret_def)

lemma run_by_one_minion_run:
  assumes "answering e m"
  shows "run_by_one_minion e cmd w = (Inr (), w\<lparr>tw_calls := tw_calls w @ [Salt ''*'' ''test.ping'' [], Salt m ''cmd.run'' [cmd]]\<rparr>)"
proof -
  let ?ping = "Salt ''*'' ''test.ping'' []"
  from assms obtain a b where a: "te_salt e (tw_calls w) ?ping = Inr a" "List.find snd a = Some (m, b)"
    unfolding answering_def by blast
  from answered [OF assms] obtain r where "te_salt e (tw_calls w @ [?ping]) (Salt m ''cmd.run'' [cmd]) = Inr r" by blast
  with a show ?thesis by (simp add: run_by_one_minion_def bnd_def run_by_salt_run ret_def)
qed

lemma update_target_run:
  assumes "answering e m"
  shows "update_target e iqn w = (Inr (), w\<lparr>tw_calls := tw_calls w @ [Salt ''*'' ''cmd.run'' [TGTADMIN_CMD @ '' -f --update '' @ iqn]]\<rparr>)"
  by (simp add: update_target_def ignoring_def try_except_def run_by_all_minion_run [OF assms])

section \<open>The exported file is ASCII\<close>

lemma ascii_append [simp]: "ascii (s @ t) \<longleftrightarrow> ascii s \<and> ascii t"
  by (auto simp: ascii_def)

lemma ascii_Cons: "ascii (c # s) \<longleftrightarrow> (of_char c :: nat) < 128 \<and> ascii s"
  by (simp add: ascii_def)

lemma ascii_Nil [simp]: "ascii []"
  by (simp add: ascii_def)

lemma ascii_concat: "ascii (concat xs) \<longleftrightarrow> (\<forall>s \<in> set xs. ascii s)"
  by (auto simp: ascii_def)

lemma set_replace_skip: "set (replace_skip n old new s) \<subseteq> set new \<union> set s"
  by (induction n old new s rule: replace_skip.induct) (auto split: if_splits)

lemma ascii_colon_to_space: "ascii s \<Longrightarrow> ascii (colon_to_space s)"
  using set_replace_skip [of 0 "'':''" "'' ''" s] by (auto simp: ascii_def colon_to_space_def replace_def)

lemma ascii_nl [simp]: "ascii nl"
  by (simp add: nl_def ascii_def)

lemma write_cache_of_Cons:
  "write_cache_of ls = (case ls of [] \<Rightarrow> None
     | l # _ \<Rightarrow> Some (if lun_write_cache l then ''write-cache on'' @ nl else ''write-cache off'' @ nl))"
proof -
  have "fold (\<lambda>l wc. case wc of None \<Rightarrow> Some (f l) | Some x \<Rightarrow> Some x) ls (Some y) = Some y" for f :: "lun_conf \<Rightarrow> string" and ls y
    by (induction ls) auto
  then show ?thesis by (auto simp: write_cache_of_def split: list.split)
qed

definition target_writable :: "target_conf \<Rightarrow> bool" where
  "target_writable t \<longleftrightarrow> ascii (tg_iqn t) \<and> (\<forall>l \<in> set (tg_luns t). ascii (lun_pool l) \<and> ascii (lun_image l))
     \<and> list_all ascii (tg_initiator_addrs t) \<and> list_all ascii (tg_initiator_names t)
     \<and> list_all ascii (tg_incoming t) \<and> list_all ascii (tg_outgoing t)"

definition writable :: "tgt_conf \<Rightarrow> bool" where
  "writable c \<longleftrightarrow> ascii (tc_incoming c) \<and> ascii (tc_outgoing c) \<and> (\<forall>t \<in> set (tc_targets c). target_writable t)"

lemma in_range_writable: "target_in_range t \<Longrightarrow> target_writable t" "conf_in_range c \<Longrightarrow> writable c"
  by (auto simp: target_in_range_def target_writable_def lun_in_range_def conf_in_range_def writable_def list_all_iff)

lemma ascii_target:
  assumes "target_writable t"
  shows "ascii (target_conf_to_line t)"
proof -
  have "l \<in> set (tg_luns t) \<Longrightarrow> ascii (lun_conf_to_line l)" for l
    using assms by (auto simp: target_writable_def lun_conf_to_line_def ascii_Cons)
  moreover have "write_cache_of (tg_luns t) = Some x \<Longrightarrow> ascii x" for x
    by (auto simp: write_cache_of_Cons ascii_Cons split: list.splits if_splits)
  ultimately show ?thesis
    using assms
    by (auto simp: target_conf_to_line_def target_writable_def list_all_iff ascii_Cons ascii_concat ascii_colon_to_space
        split: option.split)
qed

lemma ascii_chunks: "writable c \<Longrightarrow> \<forall>s \<in> set (conf_chunks c). ascii s"
  by (auto simp: conf_chunks_def writable_def ascii_target ascii_Cons ascii_colon_to_space)

lemma write_chunks_run:
  assumes "\<forall>s \<in> set xs. ascii s" and "tw_exported w = Some out"
  shows "for_each write_chunk xs w = (Inr (), w\<lparr>tw_exported := Some (out @ concat xs)\<rparr>)"
  using assms
proof (induction xs arbitrary: w out)
  case Nil
  then show ?case by (simp add: ret_def)
next
  case (Cons x xs)
  let ?w = "w\<lparr>tw_exported := Some (out @ x)\<rparr>"
  from Cons.prems have "write_chunk x w = (Inr (), ?w)" by (simp add: write_chunk_def modify_def)
  with Cons.IH [of ?w "out @ x"] Cons.prems show ?case by (simp add: bnd_def)
qed

definition exported :: "tgt_conf \<Rightarrow> string" where
  "exported c = concat (conf_chunks c)"

abbreviation get_file_call :: tgt_call where
  "get_file_call \<equiv> Salt ''*'' ''cp.get_file'' [''salt://'' @ TGT_ETC_EX_FILE, ''/etc/tgt/conf.d/'' @ TGT_ETC_EX_FILE]"

lemma sync_conf_run:
  assumes "answering e m" and "writable c"
  shows "sync_conf e c w = (Inr (), w\<lparr>tw_exported := Some (exported c), tw_calls := tw_calls w @ [get_file_call]\<rparr>)"
proof -
  from assms(1) obtain path where "get_salt_fileserver_base_path e = Inr path" by (auto simp: answering_def)
  moreover from answered [OF assms(1)] obtain a where "te_salt e (tw_calls w) get_file_call = Inr a" by blast
  ultimately show ?thesis
    using write_chunks_run [OF ascii_chunks [OF assms(2)], of "w\<lparr>tw_exported := Some []\<rparr>" "[]"]
    by (simp add: sync_conf_def send_file_by_salt_def bnd_def [of "for_each _ _"] bnd_def [of "run_by_salt _ _ _ _"]
        run_by_salt_run ret_def exported_def)
qed

lemma store_conf_run:
  assumes "answering e m" and "writable c"
  shows "store_conf e c w = (Inr (), w\<lparr>tw_file := Some c, tw_exported := Some (exported c), tw_calls := tw_calls w @ [get_file_call]\<rparr>)"
  by (simp add: store_conf_def save_conf_def sync_conf_run [OF assms])

lemma loaded_in_range: "loaded w = Inr c \<Longrightarrow> conf_in_range c"
  using conf.stays by (auto simp: loaded_Inr conf_in_range_def empty_conf_def)

section \<open>Numbers run out\<close>

text \<open>Nothing but a restore gets past a configuration that does not load.\<close>

lemma unloadable:
  assumes "loaded w = Inl err" and "tw_file w \<noteq> None"
  shows "x = RestoreSystem \<or> (\<exists>err'. run_op e x w = (Inl err', w))"
proof -
  have load: "bnd load_conf f w = (Inl err, w)" for f :: "tgt_conf \<Rightarrow> 'z tgt_py"
    by (simp add: bnd_def assms(1))
  have on_target: "on_target iqn f w = (Inl err, w)" for iqn f
    by (simp add: on_target_def get_target_by_iqn_def bnd_assoc load)
  show ?thesis
  proof (cases x)
    case (CreateTarget iqn)
    then show ?thesis by (cases "new_target iqn") (auto simp: create_target_def load)
  next
    case (RenameTarget i new)
    then show ?thesis by (simp add: get_target_by_id_def bnd_assoc load)
  qed (use assms(2) in \<open>auto simp: remove_target_by_iqn_def remove_target_by_id_def on_target sync_to_system_conf_def guarded_def load\<close>)
qed

definition next_id :: "int list \<Rightarrow> int" where
  "next_id ids = (if ids = [] then 1 else Max (set ids) + 1)"

lemma generate_id_next: "generate_id ids n = Inr (next_id ids)"
  by (simp add: generate_id_def next_id_def exceeds_function_def Let_def)

definition with_new_target :: "string \<Rightarrow> tgt_conf \<Rightarrow> tgt_conf" where
  "with_new_target iqn c = c\<lparr>tc_targets := tc_targets c @ [\<lparr>tg_iqn = strip iqn, tg_initiator_addrs = [],
     tg_initiator_names = [], tg_incoming = [], tg_outgoing = [], tg_id = next_id (map tg_id (tc_targets c)), tg_luns = []\<rparr>]\<rparr>"

lemma create_target_run:
  assumes "answering e m" and "loaded w = Inr c" and "ascii iqn" and "find_target iqn c = None"
  obtains v where "create_target e iqn w = (Inr (), v)" "tw_file v = Some (with_new_target iqn c)"
proof -
  have "writable (with_new_target iqn c)"
    using in_range_writable(2) [OF loaded_in_range [OF assms(2)]] ascii_strip [OF assms(3)]
    by (auto simp: with_new_target_def writable_def target_writable_def)
  note store = store_conf_run [OF assms(1) this]
  let ?v = "snd (store_conf e (with_new_target iqn c) w)"
  have "bnd load_conf f w = f c w" for f :: "tgt_conf \<Rightarrow> unit tgt_py" by (simp add: bnd_def assms(2))
  then have "create_target e iqn w = ignoring (run_by_all_minion e (TGTADMIN_CMD @ '' --execute'')) ?v"
    using assms(3,4)
    by (simp add: create_target_def new_target_def check_str_def generate_id_next with_new_target_def [symmetric]
        bnd_Inr [OF store] store)
  also have "\<dots> = (Inr (), ?v\<lparr>tw_calls := tw_calls ?v @ [Salt ''*'' ''cmd.run'' [TGTADMIN_CMD @ '' --execute'']]\<rparr>)"
    by (simp add: ignoring_def try_except_def run_by_all_minion_run [OF assms(1)])
  finally show thesis by (rule that) (simp add: store)
qed


definition demo_target :: "string \<Rightarrow> int \<Rightarrow> lun_conf list \<Rightarrow> target_conf" where
  "demo_target iqn i ls = \<lparr>tg_iqn = iqn, tg_initiator_addrs = [], tg_initiator_names = [], tg_incoming = [],
     tg_outgoing = [], tg_id = i, tg_luns = ls\<rparr>"

definition demo_conf :: "target_conf list \<Rightarrow> tgt_conf" where
  "demo_conf ts = \<lparr>tc_incoming = '''', tc_outgoing = '''', tc_targets = ts\<rparr>"

definition demo_world :: "target_conf list \<Rightarrow> tgt_world" where
  "demo_world ts = \<lparr>tw_file = Some (demo_conf ts), tw_exported = None, tw_calls = []\<rparr>"

definition demo_lun :: "string \<Rightarrow> int \<Rightarrow> string \<Rightarrow> lun_conf" where
  "demo_lun iqn n name = \<lparr>lun_iqn = iqn, lun_size = 1, lun_pool = ''rbd'', lun_image = name, lun_name = name,
     lun_device_type = ''disk'', lun_bs_type = ''rbd'', lun_write_cache = True, lun_num = n\<rparr>"

definition demo_tgt_env :: tgt_env where
  "demo_tgt_env = \<lparr>te_salt = (\<lambda>_ _. Inr [(''m1'', False), (''m2'', True)]),
     te_master = [''file_roots:'', ''  base:'', ''    - /srv/salt''], te_run = (\<lambda>_. Inr None)\<rparr>"

lemma answering_demo: "answering demo_tgt_env ''m2''"
proof -
  have "\<exists>p. get_salt_fileserver_base_path demo_tgt_env = Inr p"
    by (simp add: get_salt_fileserver_base_path_def demo_tgt_env_def startswith_def Let_def)
  moreover have "te_salt demo_tgt_env past x = Inr [(''m1'', False), (''m2'', True)]" for past x
    by (simp add: demo_tgt_env_def)
  ultimately show ?thesis by (auto simp: answering_def)
qed

lemma demo_loaded:
  assumes "list_all target_in_range ts" and "map strip_target ts = ts"
  shows "loaded (demo_world ts) = Inr (demo_conf ts)"
  using assms by (simp add: loaded_Inr demo_world_def demo_conf_def conf_in_range_def strip_conf_def strip_def lstrip_def)

lemmas demo_defs = target_in_range_def lun_in_range_def demo_target_def demo_lun_def strip_target_def strip_lun_def strip_def
  lstrip_def whitespace_def ascii_def

lemma demo_255: "loaded (demo_world [demo_target ''a'' 255 []]) = Inr (demo_conf [demo_target ''a'' 255 []])"
  by (rule demo_loaded) (simp_all add: demo_defs)


lemma lstrip_space: "lstrip ('' '' @ s) = lstrip s" "lstrip '' '' = []"
  by (simp_all add: lstrip_def whitespace_def)

lemma strip_padded: "strip (s @ '' '') = strip s"
proof (cases "\<forall>c \<in> set s. whitespace c")
  case True
  then have "lstrip s = []" by (simp add: lstrip_def)
  with True show ?thesis by (simp add: strip_def lstrip_append lstrip_space)
next
  case False
  then have "rev (lstrip (s @ '' '')) = '' '' @ rev (lstrip s)" by (auto simp: lstrip_append)
  then show ?thesis by (simp only: strip_def lstrip_space)
qed

text \<open>
  Names are compared before they are stripped: a target whose name is that of an existing one
  with a space behind it is created, and from then on both have the same name.
\<close>

theorem padded_name_doubles_target:
  assumes "answering e m" and "loaded w = Inr c" and "t \<in> set (tc_targets c)"
    and "\<forall>i \<in> tg_id ` set (tc_targets c). i < 255"
  shows "\<exists>v d. create_target e (tg_iqn t @ '' '') w = (Inr (), v) \<and> loaded v = Inr d
     \<and> \<not> distinct (map tg_iqn (tc_targets d))"
proof -
  let ?iqn = "tg_iqn t @ '' ''" and ?d = "with_new_target (tg_iqn t @ '' '') c"
  note clean = loaded_clean [OF assms(2)] and range = loaded_in_range [OF assms(2)]
  have same: "strip (tg_iqn t) = tg_iqn t" using clean_target(2) [OF clean assms(3)] .
  have strip: "strip ?iqn = tg_iqn t"
    using same by (simp add: strip_padded)
  have "ascii ?iqn" using range assms(3) by (auto simp: conf_in_range_def target_in_range_def list_all_iff ascii_Cons)
  moreover have "find_target ?iqn c = None"
    using clean_target(2) [OF clean] strip unfolding find_target_None by (metis append_self_conv imageE list.distinct(1))
  ultimately obtain v where v: "create_target e ?iqn w = (Inr (), v)" "tw_file v = Some ?d"
    by (rule create_target_run [OF assms(1,2)])
  have "next_id (map tg_id (tc_targets c)) \<in> {1..255}"
  proof -
    have "Max (tg_id ` set (tc_targets c)) \<in> tg_id ` set (tc_targets c)" using assms(3) by (intro Max_in) auto
    with assms(4) range show ?thesis
      using assms(3) by (auto simp: next_id_def conf_in_range_def target_in_range_def list_all_iff)
  qed
  then have "conf_in_range ?d"
    using range ascii_strip [OF \<open>ascii ?iqn\<close>] by (simp add: conf_in_range_def with_new_target_def target_in_range_def)
  moreover have "strip_conf ?d = ?d"
    using clean by (simp add: clean_alt clean_def [symmetric] with_new_target_def strip_target_def)
  ultimately have "loaded v = Inr ?d" by (simp add: loaded_Inr v(2))
  moreover have "\<not> distinct (map tg_iqn (tc_targets ?d))" using assms(3) by (auto simp: with_new_target_def strip)
  ultimately show ?thesis using v by blast
qed

theorem padded_name_doubles_target_witness:
  "\<exists>v d. create_target demo_tgt_env ''a '' (demo_world [demo_target ''a'' 1 []]) = (Inr (), v) \<and> loaded v = Inr d
     \<and> \<not> distinct (map tg_iqn (tc_targets d))"
proof -
  have "loaded (demo_world [demo_target ''a'' 1 []]) = Inr (demo_conf [demo_target ''a'' 1 []])"
    by (rule demo_loaded) (simp_all add: demo_defs)
  from padded_name_doubles_target [OF answering_demo this, of "demo_target ''a'' 1 []"] show ?thesis
    by (simp add: demo_conf_def) (simp add: demo_target_def)
qed

section \<open>Changing and deleting LUNs where salt answers\<close>

lemma get_target_conf_run:
  assumes "loaded w = Inr c" and "find_target iqn c = Some t"
  shows "get_target_conf iqn w = (Inr t, w)"
  using assms by (simp add: get_target_conf_def bnd_def ret_def)

text \<open>
  C39. A change of a LUN that is refused because of its new name has already resized the image: when
  a size and a name that another LUN of the target has are sent together, the resize command is
  given to a minion, then the request fails, and the configuration keeps the old size.
\<close>

theorem resized_though_refused:
  assumes "answering e m" and "loaded w = Inr c" and "find_target (to_iqn tg) c = Some t"
    and "List.find (\<lambda>l. lun_num l = n) (tg_luns t) = Some l" and "k \<in> set (remove1 l (tg_luns t))"
    and "map_of d ''name'' = Some (JStr (lun_name k))" and "map_of d ''size'' = Some (JInt g)"
  shows "\<exists>err v. set_lun e n d tg w = (Inl err, v) \<and> tw_file v = tw_file w
     \<and> tw_calls v = tw_calls w @ [Salt ''*'' ''test.ping'' [],
         Salt m ''cmd.run'' [''rbd resize '' @ lun_pool l @ ''/'' @ lun_image l @ '' -s '' @ str_int (g * 1024)]]"
proof -
  let ?cmd = "''rbd resize '' @ lun_pool l @ ''/'' @ lun_image l @ '' -s '' @ str_int (g * 1024)"
  have "resize_image e l d w = (Inr (), w\<lparr>tw_calls := tw_calls w @ [Salt ''*'' ''test.ping'' [], Salt m ''cmd.run'' [?cmd]]\<rparr>)"
    using assms(7) run_by_one_minion_run [OF assms(1)] by (simp add: resize_image_def in_mb_def)
  moreover have "\<exists>i \<in> set (remove1 l (tg_luns t)). JStr (lun_name i) = JStr (lun_name k)" using assms(5) by blast
  then have "check_new_name iqn (remove1 l (tg_luns t)) d v
     = (Inl (Exception (''Target (iqn:'' @ iqn @ '') Lun (name:'' @ lun_name k @ '') duplicate'')), v)" for iqn v
    using assms(6) by (simp add: check_new_name_def guarded_def raise_def)
  ultimately show ?thesis
    using assms(4) by (simp add: set_lun_def Let_def get_target_conf_run [OF assms(2,3)] bnd_def)
qed

lemma replace_target_found:
  assumes "find_target iqn c = Some t"
  obtains pre post where "tc_targets c = pre @ t # post" "replace_target iqn new (tc_targets c) = Some (pre @ new # post)"
proof -
  have "\<exists>pre post. ts = pre @ t # post \<and> replace_target iqn new ts = Some (pre @ new # post)"
    if "List.find (\<lambda>t. tg_iqn t = iqn) ts = Some t" for ts
    using that
  proof (induction ts)
    case (Cons a ts)
    show ?case
    proof (cases "tg_iqn a = iqn")
      case True
      with Cons.prems show ?thesis by (intro exI [of _ "[]"] exI [of _ ts]) auto
    next
      case False
      with Cons obtain pre post where "ts = pre @ t # post" "replace_target iqn new ts = Some (pre @ new # post)" by auto
      with False show ?thesis by (intro exI [of _ "a # pre"] exI [of _ post]) auto
    qed
  qed simp
  with assms that show thesis unfolding find_target_def by blast
qed

lemma set_target_conf_run:
  assumes "answering e m" and "loaded w = Inr c" and "replace_target iqn new (tc_targets c) = Some ts"
    and "writable (c\<lparr>tc_targets := ts\<rparr>)"
  shows "set_target_conf e iqn new w = (Inr (), w\<lparr>tw_file := Some (c\<lparr>tc_targets := ts\<rparr>),
     tw_exported := Some (exported (c\<lparr>tc_targets := ts\<rparr>)), tw_calls := tw_calls w @ [get_file_call]\<rparr>)"
  using assms(2,3) store_conf_run [OF assms(1,4)] by (simp add: set_target_conf_def bnd_def)

lemma fewer_luns:
  assumes "conf_in_range c" and "clean c" and "tc_targets c = pre @ t # post" and "set ls \<subseteq> set (tg_luns t)"
  shows "conf_in_range (c\<lparr>tc_targets := pre @ t\<lparr>tg_luns := ls\<rparr> # post\<rparr>)" "clean (c\<lparr>tc_targets := pre @ t\<lparr>tg_luns := ls\<rparr> # post\<rparr>)"
proof -
  have t: "t \<in> set (tc_targets c)" using assms(3) by simp
  show "conf_in_range (c\<lparr>tc_targets := pre @ t\<lparr>tg_luns := ls\<rparr> # post\<rparr>)"
    using assms(1,3,4) by (auto simp: conf_in_range_def target_in_range_def list_all_iff)
  have "strip_lun l = l" if "l \<in> set ls" for l
    using clean_target(3) [OF assms(2) t, of l] that assms(4) by blast
  then have "map strip_lun ls = ls" by (intro map_idI)
  moreover have "strip_target t = t" using clean_target(1) [OF assms(2) t] .
  ultimately have "strip_target (t\<lparr>tg_luns := ls\<rparr>) = t\<lparr>tg_luns := ls\<rparr>"
    by (cases t) (simp add: strip_target_def)
  with assms(2,3) show "clean (c\<lparr>tc_targets := pre @ t\<lparr>tg_luns := ls\<rparr> # post\<rparr>)" by (simp add: clean_alt)
qed

lemma remove_lun_filter:
  assumes "conf_ok c" and ts: "tc_targets c = pre @ t # post" and l: "l \<in> set (tg_luns t)"
  shows "filter (\<lambda>k. lun_num k = lun_num l) (tg_luns t) = [l]"
    and "all_luns (c\<lparr>tc_targets := pre @ t\<lparr>tg_luns := remove1 l (tg_luns t)\<rparr> # post\<rparr>)
           = filter (\<lambda>k. lun_num k \<noteq> lun_num l) (all_luns c)"
proof -
  let ?luns = "\<lambda>ts. concat (map tg_luns ts)"
  from l obtain xs ys where luns: "tg_luns t = xs @ l # ys" by (meson split_list)
  have "distinct (map lun_num (?luns pre @ (xs @ l # ys) @ ?luns post))"
    using assms(1) luns by (simp add: conf_ok_def all_luns_def ts)
  then have "lun_num l \<notin> lun_num ` (set (?luns pre) \<union> set xs \<union> set ys \<union> set (?luns post))"
    by (simp add: image_Un del: set_concat)
  then have other: "k \<in> set (?luns pre) \<union> set xs \<union> set ys \<union> set (?luns post) \<Longrightarrow> lun_num k \<noteq> lun_num l" for k
    by (metis imageI)
  then have sep: "\<forall>k \<in> set zs. lun_num k \<noteq> lun_num l" if "zs \<in> {xs, ys, ?luns pre, ?luns post}" for zs
    using that by auto
  have none: "filter (\<lambda>k. lun_num k = lun_num l) zs = []" and all: "filter (\<lambda>k. lun_num k \<noteq> lun_num l) zs = zs"
    if "zs \<in> {xs, ys, ?luns pre, ?luns post}" for zs
    using sep [OF that] by (auto simp: filter_empty_conv filter_id_conv)
  have "l \<notin> set xs" using sep [of xs] by auto
  then have rest: "remove1 l (tg_luns t) = xs @ ys" by (simp add: luns remove1_append)
  show "filter (\<lambda>k. lun_num k = lun_num l) (tg_luns t) = [l]"
    by (simp add: luns none)
  show "all_luns (c\<lparr>tc_targets := pre @ t\<lparr>tg_luns := remove1 l (tg_luns t)\<rparr> # post\<rparr>)
      = filter (\<lambda>k. lun_num k \<noteq> lun_num l) (all_luns c)"
    by (simp add: all_luns_def ts luns rest [unfolded luns] all)
qed

text \<open>
  Deleting a LUN of a well-formed configuration takes exactly that LUN out, and the image
  behind it is removed if and only if no LUN that is left, in whatever target, is on the same
  image.
\<close>

definition removes_lun :: "string \<Rightarrow> lun_conf \<Rightarrow> tgt_conf \<Rightarrow> tgt_world \<Rightarrow> tgt_world \<Rightarrow> bool" where
  "removes_lun m l c w v \<longleftrightarrow> (\<exists>d. loaded v = Inr d
     \<and> all_luns d = filter (\<lambda>k. lun_num k \<noteq> lun_num l) (all_luns c)
     \<and> (Salt m ''cmd.run'' [''rbd rm '' @ lun_pool l @ ''/'' @ lun_image l] \<in> set (drop (length (tw_calls w)) (tw_calls v))
        \<longleftrightarrow> (\<forall>k \<in> set (all_luns d). (lun_pool k, lun_image k) \<noteq> (lun_pool l, lun_image l))))"

lemma del_lun_run:
  assumes "answering e m" and "loaded w = Inr c" and "conf_ok c" and "find_target (to_iqn tg) c = Some t"
    and "l \<in> set (tg_luns t)"
  obtains tg' v where "del_lun e (lun_num l) tg w = (Inr tg', v)" "removes_lun m l c w v"
proof -
  let ?t = "t\<lparr>tg_luns := remove1 l (tg_luns t)\<rparr>"
  obtain pre post where ts: "tc_targets c = pre @ t # post"
    and r: "replace_target (to_iqn tg) ?t (tc_targets c) = Some (pre @ ?t # post)"
    using replace_target_found [OF assms(4)] by metis
  let ?d = "c\<lparr>tc_targets := pre @ ?t # post\<rparr>"
  note d = fewer_luns [OF loaded_in_range [OF assms(2)] loaded_clean [OF assms(2)] ts set_remove1_subset [of l]]
  note luns = remove_lun_filter [OF assms(3) ts assms(5)]
  note set = set_target_conf_run [OF assms(1,2) r in_range_writable(2) [OF d(1)]]
  let ?rm = "''rbd rm '' @ lun_pool l @ ''/'' @ lun_image l"
  let ?last = "guarded (\<not> shares_image l c) (del_rbd_image e (lun_pool l) (lun_image l))"
  let ?upd = "Salt ''*'' ''cmd.run'' [TGTADMIN_CMD @ '' -f --update '' @ to_iqn tg]"
  define w' where "w' = w\<lparr>tw_file := Some ?d, tw_exported := Some (exported ?d), tw_calls := tw_calls w @ [get_file_call, ?upd]\<rparr>"
  have "del_lun e (lun_num l) tg w = bnd ?last (\<lambda>_. ret (tg\<lparr>to_conf := ?t\<rparr>)) w'"
    by (simp add: del_lun_def Let_def get_target_conf_run [OF assms(2,4)] bnd_def [of "get_target_conf _"]
        bnd_def [of load_conf] assms(2) luns(1) bnd_def [of "set_target_conf _ _ _"] set
        bnd_def [of "update_target _ _"] update_target_run [OF assms(1)] w'_def)
  also have "\<dots> = (Inr (tg\<lparr>to_conf := ?t\<rparr>), if shares_image l c then w'
       else w'\<lparr>tw_calls := tw_calls w' @ [Salt ''*'' ''test.ping'' [], Salt m ''cmd.run'' [?rm]]\<rparr>)"
    by (cases "shares_image l c") (simp_all add: guarded_def bnd_def del_rbd_image_def run_by_one_minion_run [OF assms(1)] ret_def)
  finally obtain v where v: "del_lun e (lun_num l) tg w = (Inr (tg\<lparr>to_conf := ?t\<rparr>), v)" "tw_file v = Some ?d"
    "Salt m ''cmd.run'' [?rm] \<in> set (drop (length (tw_calls w)) (tw_calls v)) \<longleftrightarrow> \<not> shares_image l c"
    by (auto simp: w'_def TGTADMIN_CMD_def)
  have unused: "(\<not> shares_image l c) = (\<forall>k \<in> set (all_luns ?d). (lun_pool k, lun_image k) \<noteq> (lun_pool l, lun_image l))"
    unfolding luns(2) by (auto simp: shares_image_def)
  have "loaded v = Inr ?d" using v(2) d by (simp add: loaded_Inr clean_def)
  with luns(2) trans [OF v(3) unused] have "removes_lun m l c w v" unfolding removes_lun_def by blast
  with v(1) show thesis by (rule that)
qed

definition two_on_one :: "target_conf list" where
  "two_on_one = [demo_target ''a'' 1 [demo_lun ''a'' 1 ''x'', demo_lun ''a'' 2 ''y''], demo_target ''b'' 2 [demo_lun ''b'' 3 ''x'']]"

lemma two_on_one:
  "loaded (demo_world two_on_one) = Inr (demo_conf two_on_one)" "conf_ok (demo_conf two_on_one)"
  "find_target ''a'' (demo_conf two_on_one) = Some (demo_target ''a'' 1 [demo_lun ''a'' 1 ''x'', demo_lun ''a'' 2 ''y''])"
  subgoal by (rule demo_loaded) (simp_all add: demo_defs two_on_one_def)
  subgoal by (simp add: two_on_one_def conf_ok_def all_luns_def demo_conf_def target_ok_def demo_target_def demo_lun_def)
  subgoal by (simp add: two_on_one_def find_target_def demo_conf_def demo_target_def)
  done

theorem resized_though_refused_witness:
  "\<exists>err v. set_lun demo_tgt_env 1 [(''name'', JStr ''y''), (''size'', JInt 9)] \<lparr>to_iqn = ''a'', to_conf = demo_target ''a'' 1 []\<rparr>
       (demo_world two_on_one) = (Inl err, v)
     \<and> tw_calls v = [Salt ''*'' ''test.ping'' [], Salt ''m2'' ''cmd.run'' [''rbd resize rbd/x -s 9216'']]"
proof -
  let ?tg = "\<lparr>to_iqn = ''a'', to_conf = demo_target ''a'' 1 []\<rparr>"
  have "find_target (to_iqn ?tg) (demo_conf two_on_one) = Some (demo_target ''a'' 1 [demo_lun ''a'' 1 ''x'', demo_lun ''a'' 2 ''y''])"
    using two_on_one(3) by simp
  from resized_though_refused [OF answering_demo two_on_one(1) this, of 1 "demo_lun ''a'' 1 ''x''" "demo_lun ''a'' 2 ''y''"
      "[(''name'', JStr ''y''), (''size'', JInt 9)]" 9]
  show ?thesis
    by (force simp: demo_target_def demo_lun_def demo_world_def str_int_def str_nat.simps digit_def)
qed


end
