(* ===== verification/RestTargets.thy ===== *)
theory RestTargets
  imports TgtLaws RestPools
begin

text \<open>
  The views of iSCSI targets and LUNs (calamari_rest/views/v2.py, TargetViewSet and LunViewSet). They
  work on the configuration of the target service, and ask the server for the pool a LUN is
  in. The state is the server's and the target service's. The handling of exceptions that a
  view does not catch itself is \<open>dispatch\<close>, as for all views.
\<close>

section \<open>Both services\<close>

type_synonym both = "manager \<times> tgt_world"

definition on_server :: "'a mg_py \<Rightarrow> (both, 'a) py" where
  "on_server m = zoom fst (\<lambda>x s. (x, snd s)) m"

definition on_targets :: "'a tgt_py \<Rightarrow> (both, 'a) py" where
  "on_targets m = zoom snd (\<lambda>x s. (fst s, x)) m"

text \<open>\<open>str(e)\<close> of a message outside ASCII is a UnicodeEncodeError, which nothing catches.\<close>

definition failing :: "nat \<Rightarrow> exn \<Rightarrow> (both, 'a) view" where
  "failing n e = (if ascii (exn_str e) then ret (response n (Message (exn_str e)))
     else raise (ValueError ''ordinal not in range(128)''))"

definition target_serializer :: "(attributes option \<Rightarrow> errors) \<Rightarrow> (attributes \<Rightarrow> string \<Rightarrow> jval) \<Rightarrow> serializer" where
  "target_serializer fe fv =
     \<lparr>create_allowed = [''iqn'', ''incomingdiscoveryuser'', ''outgoingdiscoveryuser''], create_required = [''iqn''],
      modify_allowed = [''iqn''], modify_required = [''iqn''], field_errors = fe, field_value = fv\<rparr>"

definition lun_serializer :: "(attributes option \<Rightarrow> errors) \<Rightarrow> (attributes \<Rightarrow> string \<Rightarrow> jval) \<Rightarrow> serializer" where
  "lun_serializer fe fv =
     \<lparr>create_allowed = [''lun'', ''iqn'', ''name'', ''size'', ''image'', ''pool'', ''device_type'', ''bs_type'', ''write_cache''],
      create_required = [''iqn'', ''name'', ''size'', ''image''],
      modify_allowed = [''name'', ''size''], modify_required = [], field_errors = fe, field_value = fv\<rparr>"

text \<open>A field of what was posted, and one that the serializer made a text.\<close>

definition field :: "attributes \<Rightarrow> string \<Rightarrow> (both, jval) py" where
  "field a k = lift_exn (item a k k)"

definition text_field :: "attributes \<Rightarrow> string \<Rightarrow> (both, string) py" where
  "text_field a k = bnd (field a k) (\<lambda>v. ret (str_jval v))"

section \<open>Targets\<close>

definition list_targets :: "(both, target_conf list) view" where
  "list_targets = bnd (on_targets get_target_iqn_list) (\<lambda>c. ret (response 200 (Data (tc_targets c))))"

definition create_target_view :: "tgt_env \<Rightarrow> serializer \<Rightarrow> attributes option \<Rightarrow> (both, unit) view" where
  "create_target_view e z data =
     (if is_valid z ''POST'' data then
        bnd (lift_exn (serializer_data z data)) (\<lambda>a.
        bnd (text_field a ''iqn'') (\<lambda>iqn.
        try_except
          (bnd (on_targets (create_target e iqn)) (\<lambda>_.
           ret (response 202 (Message (''create targte(iqn:'' @ iqn @ '') ok'')))))
          (failing 409)))
      else ret (invalid z ''POST'' data))"

definition destroy_target :: "tgt_env \<Rightarrow> string \<Rightarrow> (both, unit) view" where
  "destroy_target e target_id =
     try_except
       (bnd (lift_exn (int_text target_id)) (\<lambda>i.
        bnd (on_targets (remove_target_by_id e i)) (\<lambda>_. ret (response 202 Empty))))
       (failing 404)"

definition retrieve_target :: "string \<Rightarrow> (both, target_conf) view" where
  "retrieve_target target_id =
     try_except
       (bnd (lift_exn (int_text target_id)) (\<lambda>i.
        bnd (on_targets (get_target_by_id i)) (\<lambda>tg. ret (response 200 (Data (to_conf tg))))))
       (\<lambda>_. ret (response 404 Empty))"

definition update_target_view :: "tgt_env \<Rightarrow> serializer \<Rightarrow> string \<Rightarrow> attributes option \<Rightarrow> (both, unit) view" where
  "update_target_view e z target_id data =
     (if is_valid z ''PATCH'' data then
        try_except
          (bnd (lift_exn (serializer_data z data)) (\<lambda>a.
           bnd (lift_exn (int_text target_id)) (\<lambda>i.
           bnd (on_targets (get_target_by_id i)) (\<lambda>tg.
           bnd (text_field a ''iqn'') (\<lambda>iqn.
           bnd (on_targets (update_target_iqn e iqn tg)) (\<lambda>_. ret (response 202 Empty)))))))
          (failing 404)
      else ret (invalid z ''PATCH'' data))"

section \<open>LUNs\<close>

text \<open>The name of the pool in the URL.\<close>

definition pool_of_url :: "string \<Rightarrow> string \<Rightarrow> (both, string) py" where
  "pool_of_url fsid pid = bnd (lift_exn (int_text pid)) (\<lambda>i. bnd (on_server (get_pool fsid i)) (\<lambda>p. ret (pool_name p)))"

definition list_luns :: "string \<Rightarrow> string \<Rightarrow> (both, lun_conf list) view" where
  "list_luns fsid pid =
     bnd (pool_of_url fsid pid) (\<lambda>pool.
     try_except (bnd (on_targets (get_lun_by_pool pool)) (\<lambda>ls. ret (response 200 (Data ls)))) (failing 404))"

definition create_lun :: "tgt_env \<Rightarrow> serializer \<Rightarrow> string \<Rightarrow> string \<Rightarrow> attributes option \<Rightarrow> (both, unit) view" where
  "create_lun e z fsid pid data =
     (if is_valid z ''POST'' data then
        bnd (pool_of_url fsid pid) (\<lambda>pool.
        bnd (lift_exn (serializer_data z data)) (\<lambda>a.
        try_except
          (bnd (text_field a ''iqn'') (\<lambda>iqn.
           bnd (on_targets (get_target_by_iqn iqn)) (\<lambda>tg.
           bnd (text_field a ''image'') (\<lambda>img.
           bnd (field a ''size'') (\<lambda>sz.
           bnd (text_field a ''name'') (\<lambda>name.
           bnd (on_targets (add_lun e pool img sz name ''disk'' ''rbd'' True tg)) (\<lambda>_. ret (response 202 Empty))))))))
          (failing 404)))
      else ret (invalid z ''POST'' data))"

definition retrieve_lun :: "string \<Rightarrow> string \<Rightarrow> string \<Rightarrow> (both, lun_conf) view" where
  "retrieve_lun fsid pid lun_id =
     bnd (pool_of_url fsid pid) (\<lambda>pool.
     try_except
       (bnd (lift_exn (int_text lun_id)) (\<lambda>n.
        bnd (on_targets (get_lun_by_pool_and_num pool n)) (\<lambda>l. ret (response 200 (Data l)))))
       (failing 404))"

definition update_lun_view :: "tgt_env \<Rightarrow> serializer \<Rightarrow> string \<Rightarrow> string \<Rightarrow> string \<Rightarrow> attributes option \<Rightarrow> (both, unit) view" where
  "update_lun_view e z fsid pid lun_id data =
     bnd (pool_of_url fsid pid) (\<lambda>pool.
     if is_valid z ''PATCH'' data then
       bnd (lift_exn (serializer_data z data)) (\<lambda>a.
       try_except
         (bnd (lift_exn (int_text lun_id)) (\<lambda>n.
          bnd (on_targets (get_lun_by_pool_and_num pool n)) (\<lambda>l.
          bnd (on_targets (get_target_by_iqn (lun_iqn l))) (\<lambda>tg.
          bnd (on_targets (set_lun e n a tg)) (\<lambda>_. ret (response 202 Empty))))))
         (failing 404))
     else ret (invalid z ''PATCH'' data))"

definition destroy_lun :: "tgt_env \<Rightarrow> string \<Rightarrow> string \<Rightarrow> string \<Rightarrow> (both, unit) view" where
  "destroy_lun e fsid pid lun_id =
     bnd (pool_of_url fsid pid) (\<lambda>pool.
     try_except
       (bnd (lift_exn (int_text lun_id)) (\<lambda>n.
        bnd (on_targets (get_lun_by_pool_and_num pool n)) (\<lambda>l.
        bnd (on_targets (get_target_by_iqn (lun_iqn l))) (\<lambda>tg.
        bnd (on_targets (del_lun e n tg)) (\<lambda>_. ret (response 202 Empty))))))
       (failing 404))"

section \<open>Deleting a LUN\<close>

lemma on_targets_run: "on_targets m (w, x) = (case m x of (r, y) \<Rightarrow> (r, (w, y)))"
  by (simp add: on_targets_def zoom_def)

lemma on_server_run: "on_server m (w, x) = (case m w of (r, v) \<Rightarrow> (r, (v, x)))"
  by (simp add: on_server_def zoom_def)

lemma pool_of_url_run:
  assumes "knows w fsid d cfg" and "int_text pid = Inr i" and "map_of (pools_by_id (Some d)) i = Some p"
  shows "pool_of_url fsid pid (w, x) = (Inr (pool_name p), (w, x))"
  using assms by (simp add: pool_of_url_def bnd_def lift_exn_def on_server_run ret_def)

lemma find_distinct:
  assumes "distinct (map g xs)" and "x \<in> set xs"
  shows "List.find (\<lambda>y. g y = g x) xs = Some x"
  using assms by (induction xs) (auto simp: image_iff)

text \<open>In a well-formed configuration a LUN is found by its pool and number, and its target by its name.\<close>

lemma lun_found:
  assumes "loaded x = Inr c" and "conf_ok c" and "l \<in> set (all_luns c)"
  obtains t where "get_lun_by_pool_and_num (lun_pool l) (lun_num l) x = (Inr l, x)"
    "get_target_by_iqn (lun_iqn l) x = (Inr \<lparr>to_iqn = lun_iqn l, to_conf = t\<rparr>, x)"
    "find_target (lun_iqn l) c = Some t" "l \<in> set (tg_luns t)"
proof -
  from assms(3) obtain t where t: "t \<in> set (tc_targets c)" "l \<in> set (tg_luns t)" by (auto simp: all_luns_def)
  with assms(2) have iqn: "lun_iqn l = tg_iqn t" by (auto simp: conf_ok_def target_ok_def)
  with find_distinct [of tg_iqn, OF _ t(1)] assms(2) have found: "find_target (lun_iqn l) c = Some t"
    by (simp add: find_target_def conf_ok_def)
  let ?ls = "filter (\<lambda>k. lun_pool k = lun_pool l) (all_luns c)"
  have "l \<in> set ?ls" using assms(3) by simp
  then obtain y ys where ls: "?ls = y # ys" by (cases ?ls) auto
  have "filter (\<lambda>k. lun_num k = lun_num l) ?ls = [l]"
  proof -
    have one: "filter (\<lambda>k. lun_num k = lun_num l) xs = [l]" if "distinct (map lun_num xs)" "l \<in> set xs" for xs
      using that by (induction xs) (auto simp: filter_empty_conv image_iff)
    show ?thesis
      using assms(2,3) by (intro one) (auto simp: conf_ok_def distinct_map inj_on_def distinct_filter)
  qed
  then have "get_lun_by_pool_and_num (lun_pool l) (lun_num l) x = (Inr l, x)"
    using ls by (simp add: get_lun_by_pool_and_num_def get_lun_by_pool_def bnd_def assms(1) ret_def)
  moreover have "get_target_by_iqn (lun_iqn l) x = (Inr \<lparr>to_iqn = lun_iqn l, to_conf = t\<rparr>, x)"
    using found by (simp add: get_target_by_iqn_def bnd_def assms(1) ret_def)
  ultimately show thesis using found t(2) that by blast
qed

lemma lun_missing:
  assumes "loaded x = Inr c" and "\<forall>l \<in> set (all_luns c). \<not> (lun_pool l = pool \<and> lun_num l = n)"
  shows "\<exists>m. get_lun_by_pool_and_num pool n x = (Inl (Exception m), x)
     \<and> (ascii pool \<longrightarrow> ascii m)"
proof -
  have digits: "ascii (str_int n)"
  proof -
    have "(of_char (digit j) :: nat) < 128" if "j < 10" for j
      using less_10_cases [OF that] by (elim insertE emptyE) (simp_all add: digit_def numeral_eq_Suc)
    then have "ascii (str_nat k)" for k
      using set_str_nat [of k] by (auto simp: ascii_def)
    then show ?thesis by (simp add: str_int_def ascii_Cons)
  qed
  have none: "filter (\<lambda>l. lun_num l = n) (filter (\<lambda>l. lun_pool l = pool) (all_luns c)) = []"
    using assms(2) by (auto simp: filter_empty_conv)
  show ?thesis
  proof (cases "filter (\<lambda>l. lun_pool l = pool) (all_luns c)")
    case Nil
    then show ?thesis
      by (auto simp: get_lun_by_pool_and_num_def get_lun_by_pool_def bnd_def assms(1) raise_def ascii_Cons)
  next
    case (Cons y ys)
    with none digits show ?thesis
      by (auto simp: get_lun_by_pool_and_num_def get_lun_by_pool_def bnd_def assms(1) raise_def ret_def ascii_Cons)
  qed
qed

text \<open>
  C24. What a DELETE of a LUN does, where the server knows the pool, the configuration is well formed
  and salt answers: if the pool has a LUN of that number, the answer is 202, exactly that LUN is
  taken out of the configuration, and its image is removed if and only if no LUN that is left,
  in whatever target, is on the same image. Otherwise the answer is 404 and nothing changes.
\<close>

theorem lun_deletion_outcome:
  assumes "knows w fsid d cfg" and "int_text pid = Inr i" and "map_of (pools_by_id (Some d)) i = Some p"
    and "int_text lun_id = Inr n" and "loaded x = Inr c" and "conf_ok c" and "answering e m" and "ascii (pool_name p)"
  shows "(\<exists>l \<in> set (all_luns c). lun_pool l = pool_name p \<and> lun_num l = n
        \<and> (\<exists>v. destroy_lun e fsid pid lun_id (w, x) = (Inr (response 202 Empty), (w, v)) \<and> removes_lun m l c x v))
     \<or> ((\<forall>l \<in> set (all_luns c). \<not> (lun_pool l = pool_name p \<and> lun_num l = n))
        \<and> (\<exists>msg. destroy_lun e fsid pid lun_id (w, x) = (Inr (response 404 (Message msg)), (w, x))))"
proof (cases "\<exists>l \<in> set (all_luns c). lun_pool l = pool_name p \<and> lun_num l = n")
  case True
  then obtain l where l: "l \<in> set (all_luns c)" "lun_pool l = pool_name p" "lun_num l = n" by blast
  from lun_found [OF assms(5,6) l(1)] obtain t where
    t: "get_lun_by_pool_and_num (lun_pool l) (lun_num l) x = (Inr l, x)"
      "get_target_by_iqn (lun_iqn l) x = (Inr \<lparr>to_iqn = lun_iqn l, to_conf = t\<rparr>, x)"
      "find_target (lun_iqn l) c = Some t" "l \<in> set (tg_luns t)" by blast
  from del_lun_run [OF assms(7,5,6) _ t(4), of "\<lparr>to_iqn = lun_iqn l, to_conf = t\<rparr>"] t(3)
  obtain tg' v where v: "del_lun e (lun_num l) \<lparr>to_iqn = lun_iqn l, to_conf = t\<rparr> x = (Inr tg', v)" "removes_lun m l c x v"
    by auto
  have "destroy_lun e fsid pid lun_id (w, x) = (Inr (response 202 Empty), (w, v))"
    using t(1,2) v(1) l(2,3) assms(4)
    by (simp add: destroy_lun_def pool_of_url_run [OF assms(1-3)] try_except_def on_targets_run bnd_def ret_def
        lift_exn_def)
  with l v(2) show ?thesis by blast
next
  case False
  then obtain msg where msg: "get_lun_by_pool_and_num (pool_name p) n x = (Inl (Exception msg), x)" "ascii msg"
    using lun_missing [OF assms(5)] assms(8) by blast
  then have "destroy_lun e fsid pid lun_id (w, x) = (Inr (response 404 (Message msg)), (w, x))"
    using assms(4)
    by (simp add: destroy_lun_def pool_of_url_run [OF assms(1-3)] try_except_def on_targets_run bnd_def ret_def
        lift_exn_def failing_def)
  with False show ?thesis by blast
qed

theorem lun_deletion_outcome_witness:
  "\<exists>v. destroy_lun demo_tgt_env ''f'' ''3'' ''2'' (pool_manager, demo_world two_on_one) = (Inr (response 202 Empty), (pool_manager, v))
     \<and> removes_lun ''m2'' (demo_lun ''a'' 2 ''y'') (demo_conf two_on_one) (demo_world two_on_one) v"
proof -
  obtain p where p: "map_of (pools_by_id (Some one_rule_map)) 3 = Some p" "pool_name p = ''rbd''"
    by (simp add: one_rule_map_def pools_by_id_def)
  have luns: "set (all_luns (demo_conf two_on_one)) = {demo_lun ''a'' 1 ''x'', demo_lun ''a'' 2 ''y'', demo_lun ''b'' 3 ''x''}"
    by (auto simp: all_luns_def demo_conf_def two_on_one_def demo_target_def)
  have n: "lun_num (demo_lun q k y) = k" "lun_pool (demo_lun q k y) = ''rbd''" for q k y by (simp_all add: demo_lun_def)
  have "int_text ''3'' = Inr 3" "int_text ''2'' = Inr 2" by code_simp+
  from lun_deletion_outcome [OF knows_pool_manager this(1) p(1) this(2) two_on_one(1,2) answering_demo]
  show ?thesis unfolding p(2) luns by (auto simp: n ascii_def)
qed

end
