(* ===== verification/TgtStatus.thy ===== *)
theory TgtStatus
  imports TgtManager
begin

text \<open>
  Reading what \<open>tgt-admin -s\<close> prints (calamari_rest/sservice/iscsi/tgtadmparse.py): lines with a key and
  a value, nested by indentation, become objects; the state and the sessions of a target are read
  from them. That the parser returns is its termination proof; it reads every line once.
\<close>

section \<open>The parser\<close>

text \<open>An object has a value and entries; the entries of a key that comes up again are a list.\<close>

datatype pobj = PObj (obj_value: string) (obj_entries: "(string \<times> pentry) list")
  and pentry = One pobj | Many "pobj list"

definition add_entry :: "string \<Rightarrow> pobj \<Rightarrow> (string \<times> pentry) list \<Rightarrow> (string \<times> pentry) list" where
  "add_entry k x d = (case map_of d k of
       None \<Rightarrow> AList.update k (One x) d
     | Some (One y) \<Rightarrow> AList.update k (Many [y, x]) d
     | Some (Many ys) \<Rightarrow> AList.update k (Many (ys @ [x])) d)"

text \<open>\<open>line.index(line.lstrip())\<close>, which is 0 for a blank line.\<close>

definition leading_space_num :: "string \<Rightarrow> nat" where
  "leading_space_num l = (if lstrip l = [] then 0 else length l - length (lstrip l))"

text \<open>The loop, on the lines that are left: how many lines it takes, and the entries.\<close>

function parse_block :: "nat \<Rightarrow> string list \<Rightarrow> (string \<times> pentry) list \<Rightarrow> nat \<times> (string \<times> pentry) list" where
  "parse_block leading [] d = (0, d)"
| "parse_block leading (l # rest) d =
     (if leading_space_num l < leading then (0, d)
      else case partition_at (CHR '':'') l of (key, sep, val) \<Rightarrow>
        if \<not> sep then (case parse_block leading rest d of (n, d') \<Rightarrow> (Suc n, d'))
        else if rest \<noteq> [] \<and> leading < leading_space_num (hd rest)
        then (case parse_block (leading_space_num (hd rest)) rest [] of (k, sub) \<Rightarrow>
              case parse_block leading (drop k rest) (add_entry (strip key) (PObj (strip val) sub) d) of
                (n, d') \<Rightarrow> (Suc (k + n), d'))
        else (case parse_block leading rest (add_entry (strip key) (PObj (strip val) []) d) of (n, d') \<Rightarrow> (Suc n, d')))"
  by pat_completeness auto

termination
  by (relation "measure (\<lambda>(_, ls, _). length ls)") auto

definition parse_lines :: "string list \<Rightarrow> string \<Rightarrow> nat \<times> pobj" where
  "parse_lines ls val = (case parse_block (if ls = [] then 0 else leading_space_num (hd ls)) ls [] of (n, d) \<Rightarrow> (n, PObj val d))"

section \<open>The status of a target\<close>

text \<open>\<open>x.value\<close> and \<open>x[k]\<close> on what an entry holds; a list has no value and no keys.\<close>

fun entry_value :: "pentry \<Rightarrow> exn + string" where
  "entry_value (One x) = Inr (obj_value x)"
| "entry_value (Many xs) = Inl AttributeError"

fun entry_item :: "pentry \<Rightarrow> string \<Rightarrow> exn + pentry" where
  "entry_item (One x) k = item (obj_entries x) k k"
| "entry_item (Many xs) k = Inl TypeError"

fun target_entry :: "string \<Rightarrow> (string \<times> pentry) list \<Rightarrow> exn + pentry" where
  "target_entry iqn [] = Inl (Exception (''The target ('' @ iqn @ '') Not Found''))"
| "target_entry iqn ((k, v) # m) = then_do (entry_value v) (\<lambda>x. if x = iqn then Inr v else target_entry iqn m)"

definition get_target_info :: "tgt_env \<Rightarrow> string \<Rightarrow> exn + pentry" where
  "get_target_info e iqn = then_do (te_run e [TGTADMIN_CMD, ''-s'']) (\<lambda>out. case out of
       None \<Rightarrow> Inl AttributeError
     | Some s \<Rightarrow> target_entry iqn (obj_entries (snd (parse_lines (split_on (CHR 0x0A) s) ''''))))"

definition get_target_state :: "tgt_env \<Rightarrow> string \<Rightarrow> exn + string" where
  "get_target_state e iqn = (case get_target_info e iqn of
       Inl _ \<Rightarrow> Inr ''error''
     | Inr t \<Rightarrow> then_do (entry_item t ''System information'') (\<lambda>i. then_do (entry_item i ''State'') entry_value))"

record session =
  initiator :: string
  addr :: string

fun session_addr :: "(string \<times> pentry) list \<Rightarrow> exn + string" where
  "session_addr d = (case map_of d ''Connection'' of
       None \<Rightarrow> Inr ''''
     | Some (One c) \<Rightarrow> then_do (entry_item (One c) ''IP Address'') entry_value
     | Some (Many []) \<Rightarrow> Inl IndexError
     | Some (Many (c # _)) \<Rightarrow> then_do (entry_item (One c) ''IP Address'') entry_value)"

definition session_of :: "pobj \<Rightarrow> exn + session" where
  "session_of x = then_do (session_addr (obj_entries x)) (\<lambda>a.
     then_do (then_do (item (obj_entries x) ''Initiator'' ''Initiator'') entry_value) (\<lambda>i.
     Inr \<lparr>initiator = i, addr = a\<rparr>))"

definition get_target_sessions :: "tgt_env \<Rightarrow> string \<Rightarrow> exn + session list" where
  "get_target_sessions e iqn = (case get_target_info e iqn of
       Inl _ \<Rightarrow> Inr []
     | Inr t \<Rightarrow> then_do (entry_item t ''I_T nexus information'') (\<lambda>info. case info of
           Many _ \<Rightarrow> Inr []
         | One x \<Rightarrow> (case map_of (obj_entries x) ''I_T nexus'' of
               None \<Rightarrow> Inr []
             | Some (One y) \<Rightarrow> map_res session_of [y]
             | Some (Many ys) \<Rightarrow> map_res session_of ys)))"

section \<open>What is printed by indentation is read back\<close>

text \<open>The lines of a tree whose children stand \<open>step\<close> columns to the right.\<close>

datatype tree = Node string string "tree list"

fun printed :: "nat \<Rightarrow> nat \<Rightarrow> tree \<Rightarrow> string list" where
  "printed step i (Node k v ts) =
     (replicate i (CHR '' '') @ k @ '': '' @ v) # concat (map (printed step (i + step)) ts)"

fun entries :: "tree list \<Rightarrow> (string \<times> pentry) list" and object :: "tree \<Rightarrow> pobj" where
  "entries ts = fold (\<lambda>t d. add_entry (case t of Node k _ _ \<Rightarrow> k) (object t) d) ts []"
| "object (Node k v ts) = PObj v (entries ts)"

declare entries.simps [simp del]

text \<open>Keys and values that survive: keys are not empty and have no colon, and neither has white space around it.\<close>

fun plain :: "tree \<Rightarrow> bool" where
  "plain (Node k v ts) \<longleftrightarrow> k \<noteq> [] \<and> CHR '':'' \<notin> set k \<and> strip k = k \<and> strip v = v \<and> list_all plain ts"

definition add_tree :: "tree \<Rightarrow> (string \<times> pentry) list \<Rightarrow> (string \<times> pentry) list" where
  "add_tree t d = add_entry (case t of Node k _ _ \<Rightarrow> k) (object t) d"

lemma entries_fold: "entries ts = fold add_tree ts []"
  by (simp add: entries.simps add_tree_def [abs_def])

lemma partition_at_colon: "CHR '':'' \<notin> set k \<Longrightarrow> partition_at (CHR '':'') (k @ CHR '':'' # v) = (k, True, v)"
  by (induction k) auto

lemma lstrip_indent: "lstrip (replicate i (CHR '' '') @ s) = lstrip s"
  by (induction i) (simp_all add: lstrip_def whitespace_def)

lemma strip_indent: "strip (replicate i (CHR '' '') @ s) = strip s"
  by (simp add: strip_def lstrip_indent)

lemma strip_fix: "strip s = s \<Longrightarrow> lstrip s = s"
proof (cases s)
  case (Cons c cs)
  assume "strip s = s"
  have "length (lstrip x) \<le> length x" for x by (simp add: lstrip_def length_dropWhile_le)
  then have "length (strip s) \<le> length (lstrip s)" unfolding strip_def by (metis length_rev)
  with \<open>strip s = s\<close> have "length s \<le> length (lstrip s)" by simp
  with Cons show ?thesis
    using length_dropWhile_le [of whitespace cs] by (cases "whitespace c") (auto simp: lstrip_def)
qed (simp add: lstrip_def)

lemma printed_line:
  assumes "k \<noteq> []" and "CHR '':'' \<notin> set k" and "strip k = k"
  shows "leading_space_num (replicate i (CHR '' '') @ k @ '': '' @ v) = i"
    and "partition_at (CHR '':'') (replicate i (CHR '' '') @ k @ '': '' @ v) = (replicate i (CHR '' '') @ k, True, '' '' @ v)"
proof -
  from strip_fix [OF assms(3)] assms(1) have "\<not> whitespace (hd k)"
    by (metis lstrip_head)
  then have "lstrip (k @ '': '' @ v) = k @ '': '' @ v" using assms(1) by (intro lstrip_fix) simp
  then show "leading_space_num (replicate i (CHR '' '') @ k @ '': '' @ v) = i"
    using assms(1) by (simp add: leading_space_num_def lstrip_indent)
  show "partition_at (CHR '':'') (replicate i (CHR '' '') @ k @ '': '' @ v) = (replicate i (CHR '' '') @ k, True, '' '' @ v)"
    using partition_at_colon [of "replicate i (CHR '' '') @ k" "'' '' @ v"] assms(2) by simp
qed

text \<open>What comes after a block of indentation \<open>i\<close> is not indented more than it.\<close>

definition outside :: "nat \<Rightarrow> string list \<Rightarrow> bool" where
  "outside i rest \<longleftrightarrow> rest = [] \<or> leading_space_num (hd rest) \<le> i"

lemma outside_printed:
  assumes "list_all plain ts" and "outside i rest"
  shows "outside i (concat (map (printed step i) ts) @ rest)"
proof (cases ts)
  case (Cons t ts')
  obtain k v cs where "t = Node k v cs" by (cases t)
  with Cons assms(1) printed_line(1) [of k i v] show ?thesis by (simp add: outside_def)
qed (use assms(2) in simp)

lemma parse_block_stops: "outside i rest \<Longrightarrow> i < j \<Longrightarrow> parse_block j rest d = (0, d)"
  by (cases rest) (auto simp: outside_def)

lemma parse_leaf:
  assumes "leading_space_num l = i" and "partition_at (CHR '':'') l = (key, True, val)" and "outside i R"
  shows "parse_block i (l # R) d = (case parse_block i R (add_entry (strip key) (PObj (strip val) []) d) of (n, d') \<Rightarrow> (Suc n, d'))"
  using assms by (auto simp: outside_def)

lemma parse_parent:
  assumes "leading_space_num l = i" and "partition_at (CHR '':'') l = (key, True, val)"
    and "R \<noteq> []" and "leading_space_num (hd R) = j" and "i < j" and "parse_block j R [] = (k, sub)"
  shows "parse_block i (l # R) d =
     (case parse_block i (drop k R) (add_entry (strip key) (PObj (strip val) sub) d) of (n, d') \<Rightarrow> (Suc (k + n), d'))"
  using assms by simp

lemma parse_unindented:
  "outside 0 ls \<Longrightarrow> parse_lines ls val = (case parse_block 0 ls [] of (n, d) \<Rightarrow> (n, PObj val d))"
  by (cases "ls = []") (simp_all add: parse_lines_def outside_def)

lemma parse_block_printed:
  assumes "list_all plain ts" and "outside i rest" and "0 < step"
  shows "parse_block i (concat (map (printed step i) ts) @ rest) d =
     (case parse_block i rest (fold add_tree ts d) of (n, d') \<Rightarrow> (length (concat (map (printed step i) ts)) + n, d'))"
  using assms(1,2)
proof (induction ts arbitrary: i rest d rule: measure_induct_rule [of "size_list size"])
  case (less ts)
  show ?case
  proof (cases ts)
    case (Cons t ts')
    obtain k v cs where t: "t = Node k v cs" by (cases t)
    let ?line = "replicate i (CHR '' '') @ k @ '': '' @ v"
    let ?C = "concat (map (printed step (i + step)) cs)" and ?R = "concat (map (printed step i) ts') @ rest"
    from less.prems(1) have plain: "k \<noteq> []" "CHR '':'' \<notin> set k" "strip k = k" "strip v = v" "list_all plain cs" "list_all plain ts'"
      by (simp_all add: Cons t)
    note line = printed_line [OF plain(1-3), of i v]
    have R: "outside i ?R" using plain(6) less.prems(2) by (rule outside_printed)
    then have "outside (i + step) ?R" by (auto simp: outside_def)
    have stripped: "strip (replicate i (CHR '' '') @ k) = k" "strip (CHR '' '' # v) = v"
      using plain(3,4) strip_indent [of i k] strip_indent [of 1 v] by simp_all
    have "size_list size cs < size_list size ts" "size_list size ts' < size_list size ts" by (simp_all add: Cons t)
    with less.IH plain(5,6) \<open>outside (i + step) ?R\<close> less.prems(2)
    have cs: "parse_block (i + step) (?C @ ?R) [] =
        (case parse_block (i + step) ?R (fold add_tree cs []) of (n, d') \<Rightarrow> (length ?C + n, d'))"
      and ts': "\<And>d. parse_block i ?R d =
        (case parse_block i rest (fold add_tree ts' d) of (n, d') \<Rightarrow> (length (concat (map (printed step i) ts')) + n, d'))"
      by blast+
    have sub: "parse_block (i + step) (?C @ ?R) [] = (length ?C, entries cs)"
      using parse_block_stops [OF R, of "i + step"] assms(3) by (simp add: cs entries_fold)
    have "parse_block i (?line # ?C @ ?R) d = (case parse_block i ?R (add_tree t d) of (n, d') \<Rightarrow> (Suc (length ?C + n), d'))"
    proof (cases cs)
      case Nil
      then show ?thesis
        using parse_leaf [OF line R, of d] by (simp add: stripped t add_tree_def entries_fold del: parse_block.simps)
    next
      case (Cons c cs')
      obtain k' v' cs'' where c: "c = Node k' v' cs''" by (cases c)
      with Cons plain(5) printed_line(1) [of k' "i + step" v'] have "leading_space_num (hd (?C @ ?R)) = i + step" by simp
      moreover from Cons c have "?C @ ?R \<noteq> []" by simp
      ultimately show ?thesis
        using parse_parent [OF line _ _ _ sub, of d] assms(3) by (simp add: stripped t add_tree_def del: parse_block.simps)
    qed
    then show ?thesis by (simp add: Cons t ts' split: prod.split)
  qed simp
qed



definition demo_status :: "tree list" where
  "demo_status = [Node ''Target 1'' ''iqn.a'' [Node ''System information'' '''' [Node ''State'' ''ready'' []],
     Node ''LUN'' ''0'' [], Node ''LUN'' ''1'' []], Node ''Target 2'' ''iqn.b'' []]"


end
