(* ===== verification/Spec2Isabelle.thy ===== *)
theory Spec2Isabelle
  imports System AdminSocket CephModule Mirror SimStats RestHealth RestMons RestAnswers RestServers RestTargets TgtStatus
begin

text \<open>
  A model of Calamari, the management server for Ceph clusters, with the proofs that it does what it
  promises, and of the agents and tools around it. This theory imports the others and holds what
  spans the agent and the server.

  \<^bold>\<open>The parts and how they interact.\<close> On every server of a Ceph cluster a salt minion runs an execution
  module (src/salt/srv/salt/_modules/ceph.py). It sends heartbeats on salt's event bus: one with the
  Ceph services of the server, and one for the cluster with the versions of its maps. It also
  executes Ceph commands and fetches maps when salt tells it to. The server process
  (src/cthulhu) listens on that bus. Its Manager makes a ClusterMonitor for each cluster that
  reports. A ClusterMonitor follows the heartbeats of one mon, its favourite, and keeps copies of the
  cluster's maps in SyncObjects. New maps go to ServerMonitor, which knows the servers and services,
  to Eventer, which turns differences into log entries, to the user requests that wait for them, and
  to the database through the Persister. RequestCollection holds the user requests: each runs jobs
  through salt and may go on when a new map arrives. The factories make requests out of REST
  operations. The REST server (src/rest-api) talks to the process over an RPC interface; apart from
  it, it keeps the configuration of iSCSI targets in a file of its own. A simulator
  (src/minion-sim) stands in for a Ceph cluster and its minions.

  \<^bold>\<open>How code becomes definitions.\<close> A method that may raise and that changes its object is a function from
  the state to a result and a new state (type \<open>py\<close> in Prelude); the changes made before an
  exception stay. A class is a record, a shared mutable object lives in a heap under an address
  (servers in ServerMonitor), a dictionary is an association list, an exception a value of \<open>exn\<close>.
  Handlers are modelled whole, and composed as the code composes them. Random choices, clocks and
  whatever is not part of the repository are arguments.

  \<^bold>\<open>Theories.\<close>
  Prelude: exceptions, the method combinators, dictionaries, strings, decimal numbers, times.
  Types: calamari_common/types.py; versions, the OSD map and what it derives from CRUSH.
  UserRequests: cthulhu/manager/user_request.py; a request is the record \<open>request\<close>.
  EventLog and Eventer: eventer.py and calamari_common/db/event.py.
  SyncObjects: the class SyncObjects of cluster_monitor.py, the record of stored and known versions.
  RequestCollection: request_collection.py; its state \<open>hub\<close> is what requests can touch.
  Factories: the four *_request_factory.py.
  ServerMonitor: server_monitor.py; servers, services, heartbeats and maps.
  ClusterMonitor: the class ClusterMonitor of cluster_monitor.py; a cluster is a record \<open>cluster\<close>.
  Manager: manager.py; the whole process is the record \<open>manager\<close>, one step per event.
  Rpc: rpc.py.
  System: the inputs of the process (\<open>mg_input\<close>), its steps (\<open>mg_step\<close>), and reachable states.
  Persister and Mirror: cthulhu/persistence, and the database against the registry in memory.
  CephModule and AdminSocket: the execution module of the minions.
  Simulator, Simulation and SimStats: minion_sim/ceph_cluster.py, child.py and load_gen.py.
  RestBase, RestHealth, RestPools, RestMons, RestViews, RestServers, RestAnswers: rest-api's views
  (views/v1.py, v2.py, crush_node.py, rpc_view.py, remote_view_set.py, paginated_mixin.py),
  validation (serializers/v2.py) and permissions.
  TgtSchema, TgtManager, TgtLaws, TgtStatus, RestTargets: the iSCSI target service
  (rest-api's sservice/lib and sservice/iscsi) and its views. Its state \<open>tgt_world\<close> is the configuration
  file, the file exported to the minions and the calls of salt made so far.

  \<^bold>\<open>Contracts.\<close> The locale \<open>step_contract\<close> of Prelude is the interface of everything with state: for a
  reflexive and transitive relation between the state before and after, \<open>obeys\<close> is closed under
  all combinators, exceptions included, so a component proves it for its primitive steps only. It
  is interpreted with what a request does to itself (\<open>lc\<close>), with what every operation does to the
  requests and the job index (\<open>rt\<close>, \<open>tc\<close>, \<open>ix\<close>, \<open>sr\<close>), with the log that only grows (\<open>el\<close>, \<open>ol\<close>), versions that
  only get newer (\<open>so\<close>), what stays of clusters, requests and favourites (\<open>sq\<close>, \<open>sc\<close>, \<open>fs\<close>), what makes a
  reachable state sound (\<open>ks\<close>, \<open>kc\<close>, \<open>sd\<close>), what a heartbeat keeps of the registry (\<open>nk\<close>, \<open>hb\<close>), the layout of the simulated
  cluster (\<open>ly\<close>), views that only read (\<open>ro\<close>) and operations that leave the target configuration
  alone (\<open>kf\<close>). The locale \<open>request_rpc\<close> of RestAnswers is what the four RPCs that make requests promise
  to the views. The locale \<open>described\<close> of TgtSchema relates a dynamic validator to a check of records; it
  is interpreted for texts, numbers, LUNs, targets, their lists, and the configuration.

  \<^bold>\<open>What is shown.\<close> For the server: in every state that inputs of any kind lead to after recovery, in any
  order and with any failures, the job index, the requests and the copies of the maps are sound
  (System, with the invariants of RequestCollection, SyncObjects and UserRequests behind it); heartbeats
  are always handled and the maps caught up with; requests are either made and submitted or
  refused without a trace; a growth of a pool completes, and the simulator accepts its steps;
  services are at exactly one server; the database refines to the registry and a restart restores it. For the
  agents: commands run in order up to the first failure, PGs are all counted, what is sent can be
  read. For the REST API: each answer of a view that writes tells whether a request was made, the checks
  of pool data are what they say, the mons reported in the quorum are vouched for, every PG is in one
  class of the health counters. For targets: they and their LUNs stay apart, and an image is removed
  with its last LUN. Where the code does not do what it means to, a lemma says what it does instead.

  \<^bold>\<open>Recursion and loops.\<close> Methods that walk the CRUSH tree take the depth of Python's stack as \<open>k\<close>
  (\<open>env_depth\<close>); when it is used up the result is the RuntimeError that Python raises, and on a tree of
  less depth it does not matter (\<open>leaves_of_a_tree\<close> in Types). The walk to the root in the
  ancestry of an OSD has no bound in the code and may run forever on a cycle: it is a
  \<open>partial_function\<close>, and that it returns is proved. The loop of the admin socket is one
  too. All other loops terminate, by structure or by a measure.

  \<^bold>\<open>Parameters.\<close> Not in the repository, and so arguments of the definitions: what salt answers to a
  publication or a call (\<open>pub\<close>, \<open>te_salt\<close>), its pillar and grains, its keys; librados, crushtool, JSON and
  md5 on the minions (the record \<open>calls\<close>); how the database files a row without a version (\<open>db_env\<close>);
  the digest of stored objects; graphite's answers; the field errors and values of the REST
  framework's serializers, its paginator, Django's users; Python's hash and the random numbers of the
  simulator; the lines of salt's configuration, and the output of tgt-admin. Where the order of a
  dictionary shows, it is the order of the list.

  \<^bold>\<open>Not modelled.\<close> Threads and greenlets: each handler is one step, as the locks and the event loops
  make it; for the target service, whose pool managers have locks of their own, operations
  are taken one after the other. Saving events, the carbon statistics, the plugin monitor
  (it loads modules that are not in the repository), the command line tool calamari_ctl and
  the generation of documentation, which only run other programs. Users and groups of the API,
  which are the framework's own views. The text of the CRUSH map, the metadata and the profiling of responses.
  In the salt module the free-form ceph_command, reading /proc/stat and the self tests. Of the
  simulator, loading, saving and the starting of processes. Log messages of the process and printing. In the
  database, deleting old versions of maps runs in a session of its own in the code and has its place
  in the order of the queue here.
\<close>

section \<open>Minions and the server\<close>

text \<open>C3. A cluster beacon that the salt module of a minion sends, under the fsid it reports, is
  always handled without an error by the monitor of that cluster, in every state the
  server can be in: it names a version for each of the objects that are synchronised. If
  its sender is then the favourite, every epoch-versioned map is stored in the reported
  version or a later one, or being fetched.\<close>

theorem fired_beacon_is_handled:
  assumes "heartbeat calls minion c = (Inr evs, c')" and "ev \<in> set evs" and "ev_data ev = ClusterBeacon d"
    and "ev_tag ev = ''ceph/cluster/'' @ hb_fsid d"
    and "fresh_ids (env_pub e)" and "reachable e w" and "map_of (clusters w) (hb_fsid d) = Some cl"
  shows "\<exists>w' cl'. on_heartbeat (env_pillar e) t (hb_fsid d) minion d w = (Inr (), w')
    \<and> mg_step e (ClusterEvent t (hb_fsid d) ev) w = (Inr (), w')
    \<and> map_of (clusters w') (hb_fsid d) = Some cl'
    \<and> (cl_favorite cl' = Some minion \<longrightarrow>
        (\<forall>ty. versioned ty \<longrightarrow> the (map_of (hb_versions d) (sync_str ty)) \<le> get_version (cl_sync cl') ty
              \<or> fetching_at (cl_sync cl') ty \<noteq> None))"
proof -
  from fired_beacon [OF assms(1-3)] have id: "ev_id ev = minion"
    and named: "\<forall>ty \<in> set SYNC_OBJECT_TYPES. has_key (hb_versions d) (sync_str ty)" by auto
  from heartbeat_run [OF assms(5,6,7) named, of t minion] obtain w' cl' where
    w': "on_heartbeat (env_pillar e) t (hb_fsid d) minion d w = (Inr (), w')"
    and rest: "map_of (clusters w') (hb_fsid d) = Some cl'"
      "cl_favorite cl' = Some minion \<longrightarrow>
        (\<forall>ty. versioned ty \<longrightarrow> the (map_of (hb_versions d) (sync_str ty)) \<le> get_version (cl_sync cl') ty
              \<or> fetching_at (cl_sync cl') ty \<noteq> None)"
    by blast
  have "mg_step e (ClusterEvent t (hb_fsid d) ev) w = (Inr (), w')"
    using w' assms(3,4,7) id
    by (simp add: cluster_event_def swallow_def try_except_def bnd_def get_state_def guarded_def
        has_key_def startswith_def)
  with w' rest show ?thesis by blast
qed

lemma demo_beats:
  "case heartbeat demo_minion ''labmon'' [] of
     (Inr [a, b], c) \<Rightarrow> ev_tag b = ''ceph/cluster/g'' \<and>
       (case ev_data b of ClusterBeacon d \<Rightarrow> hb_fsid d = ''g'' | _ \<Rightarrow> False)
   | _ \<Rightarrow> False"
  by code_simp

theorem fired_beacon_is_handled_witness:
  "\<exists>ev d w'. ev_data ev = ClusterBeacon d \<and> hb_fsid d = ''g''
     \<and> mg_step demo_env (ClusterEvent 9 ''g'' ev) discovered = (Inr (), w')
     \<and> on_heartbeat (env_pillar demo_env) 9 ''g'' ''labmon'' d discovered = (Inr (), w')"
proof -
  obtain a b d c where h: "heartbeat demo_minion ''labmon'' [] = (Inr [a, b], c)"
    and b: "ev_tag b = ''ceph/cluster/g''" "ev_data b = ClusterBeacon d" "hb_fsid d = ''g''"
    using demo_beats by (auto split: prod.splits sum.splits list.splits event_data.splits)
  obtain cl where "map_of (clusters discovered) ''g'' = Some cl"
    using discovered_cluster by (auto simp: has_key_def)
  with fired_beacon_is_handled [OF h _ b(2) _ fresh_demo_env reachable_discovered, of cl 9] b show ?thesis
    by auto
qed

end
